(* ===== verification/Prelude.thy ===== *)
theory Prelude
  imports Main "HOL-Library.Word"
begin

unbundle bit_operations_syntax

text \<open>
  Shared vocabulary of the development: the machine integers of the Rust sources as words
  (\<open>usize\<close> is 64 bits wide; plain \<open>+\<close>, \<open>-\<close> and \<open>*\<close> wrap, as they do in a release build), the
  checked and saturating operations of the Rust standard library, big-endian byte encodings,
  slices, and the outcome predicate \<open>ok\<close> for computations whose \<open>None\<close> is a panic
  or undefined behaviour.
\<close>

section \<open>Types and proof collections\<close>

type_synonym u8 = "8 word"
type_synonym u16 = "16 word"
type_synonym u64 = "64 word"
type_synonym usize = "64 word"
type_synonym i64 = "64 word"
type_synonym u128 = "128 word"
type_synonym u256 = "256 word"
type_synonym b256 = "256 word"
type_synonym address = "160 word"
type_synonym bytes = "u8 list"

named_theorems rust_arith \<open>definitions of the Rust integer operations\<close>

section \<open>Rust integer operations\<close>

definition checked_add :: "'a::len word \<Rightarrow> 'a word \<Rightarrow> 'a word option" where
  "checked_add a b = (if unat a + unat b < 2 ^ LENGTH('a) then Some (a + b) else None)"

definition checked_sub :: "'a::len word \<Rightarrow> 'a word \<Rightarrow> 'a word option" where
  "checked_sub a b = (if b \<le> a then Some (a - b) else None)"

definition checked_mul :: "'a::len word \<Rightarrow> 'a word \<Rightarrow> 'a word option" where
  "checked_mul a b = (if unat a * unat b < 2 ^ LENGTH('a) then Some (a * b) else None)"

definition saturating_add :: "'a::len word \<Rightarrow> 'a word \<Rightarrow> 'a word" where
  "saturating_add a b = (if unat a + unat b < 2 ^ LENGTH('a) then a + b else - 1)"

definition saturating_sub :: "'a::len word \<Rightarrow> 'a word \<Rightarrow> 'a word" where
  "saturating_sub a b = (if b \<le> a then a - b else 0)"

definition saturating_mul :: "'a::len word \<Rightarrow> 'a word \<Rightarrow> 'a word" where
  "saturating_mul a b = (if unat a * unat b < 2 ^ LENGTH('a) then a * b else - 1)"

lemmas [rust_arith] = checked_add_def checked_sub_def checked_mul_def
  saturating_add_def saturating_sub_def saturating_mul_def

section \<open>Bytes\<close>

text \<open>Big-endian decoding and encoding, as \<open>from_be_bytes\<close>, \<open>to_be_bytes\<close>.\<close>

definition from_be_bytes :: "bytes \<Rightarrow> 'a::len word" where
  "from_be_bytes bs = foldl (\<lambda>acc b. acc * 256 + ucast b) 0 bs"

definition to_be_bytes :: "nat \<Rightarrow> 'a::len word \<Rightarrow> bytes" where
  "to_be_bytes n w = map (\<lambda>i. ucast (drop_bit (8 * (n - 1 - i)) w)) [0..<n]"

text \<open>A slice of a vector given by a start and an end index, and overwriting a slice; \<open>None\<close>
  when the indices are not in range.\<close>

definition slice_get :: "nat \<Rightarrow> nat \<Rightarrow> 'a list \<Rightarrow> 'a list option" where
  "slice_get s e b = (if s \<le> e \<and> e \<le> length b then Some (take (e - s) (drop s b)) else None)"

definition slice_put :: "nat \<Rightarrow> 'a list \<Rightarrow> 'a list \<Rightarrow> 'a list option" where
  "slice_put s d b =
     (if s + length d \<le> length b then Some (take s b @ d @ drop (s + length d) b) else None)"

section \<open>Outcomes\<close>

text \<open>\<open>ok Q r\<close>: the computation does not panic and its result satisfies \<open>Q\<close>.\<close>

definition ok :: "('a \<Rightarrow> bool) \<Rightarrow> 'a option \<Rightarrow> bool" where
  "ok Q r = (case r of None \<Rightarrow> False | Some x \<Rightarrow> Q x)"

section \<open>Lemmas on integers\<close>

lemma checked_sub_Some_iff: "checked_sub a b = Some c \<longleftrightarrow> b \<le> a \<and> c = a - b"
  by (simp add: checked_sub_def eq_commute)

lemma checked_sub_None_iff: "checked_sub a b = None \<longleftrightarrow> a < b"
  by (auto simp: checked_sub_def not_le)

lemma unat_checked_add:
  "checked_add a b = Some c \<Longrightarrow> unat c = unat a + unat b"
  for a :: "'a::len word"
  by (auto simp: checked_add_def unat_word_ariths split: if_splits)

lemma unat_checked_sub: "checked_sub a b = Some c \<Longrightarrow> unat c + unat b = unat a"
  for a :: "'a::len word"
  by (auto simp: checked_sub_def unat_sub_if_size word_le_nat_alt split: if_splits)

lemma unat_minus_one_eq: "unat (- 1 :: 'a::len word) = 2 ^ LENGTH('a) - 1"
  by (simp add: unsigned_minus_1_eq_mask mask_eq_exp_minus_1)

lemma min_pred_eq: "m < n \<Longrightarrow> min m (n - 1) = m" "\<not> m < n \<Longrightarrow> 0 < n \<Longrightarrow> min m (n - 1) = n - 1"
  for m n :: nat
  by auto

lemma unat_saturating_add:
  "unat (saturating_add a b) = min (unat a + unat b) (2 ^ LENGTH('a) - 1)"
  for a b :: "'a::len word"
  by (cases "unat a + unat b < 2 ^ LENGTH('a)")
    (simp_all only: saturating_add_def if_True if_False min_pred_eq unat_word_ariths
      unat_minus_one_eq mod_less zero_less_power zero_less_numeral)

lemma unat_saturating_mul:
  "unat (saturating_mul a b) = min (unat a * unat b) (2 ^ LENGTH('a) - 1)"
  for a b :: "'a::len word"
  by (cases "unat a * unat b < 2 ^ LENGTH('a)")
    (simp_all only: saturating_mul_def if_True if_False min_pred_eq unat_word_ariths
      unat_minus_one_eq mod_less zero_less_power zero_less_numeral)

lemma unat_saturating_sub: "unat (saturating_sub a b) = unat a - unat b"
  for a b :: "'a::len word"
  by (auto simp: saturating_sub_def unat_sub_if_size word_le_nat_alt)

lemma unat_of_nat_small: "n < 2 ^ LENGTH('a) \<Longrightarrow> unat (of_nat n :: 'a::len word) = n"
  by (simp add: unat_of_nat take_bit_nat_eq_self)

lemma unat_add_small:
  "unat a + unat b < 2 ^ LENGTH('a) \<Longrightarrow> unat (a + b) = unat a + unat b" for a b :: "'a::len word"
  by (simp add: unat_word_ariths)

lemma unat_minus_le: "b \<le> a \<Longrightarrow> unat (a - b) = unat a - unat b" for a b :: "'a::len word"
  by (simp add: unat_sub_if_size word_le_nat_alt)

lemma msb_bit_iff: "bit w (LENGTH('a) - 1) \<longleftrightarrow> 2 ^ (LENGTH('a) - 1) \<le> unat (w :: 'a::len word)"
proof -
  have e: "(2::nat) ^ LENGTH('a) = 2 * 2 ^ (LENGTH('a) - 1)"
    by (metis len_gt_0 Suc_diff_1 power_Suc)
  have "unat w div 2 ^ (LENGTH('a) - 1) < 2"
    using unsigned_less [of w, where 'a = nat] by (simp add: less_mult_imp_div_less e)
  then have "odd (unat w div 2 ^ (LENGTH('a) - 1)) \<longleftrightarrow> unat w div 2 ^ (LENGTH('a) - 1) \<noteq> 0"
    by (auto simp: less_2_cases_iff)
  also have "\<dots> \<longleftrightarrow> 2 ^ (LENGTH('a) - 1) \<le> unat w"
    by (simp add: div_eq_0_iff not_less)
  finally show ?thesis
    by (simp add: bit_iff_odd [symmetric] bit_unsigned_iff)
qed

lemma sint_nonneg_iff: "0 \<le> sint w \<longleftrightarrow> unat (w :: 'a::len word) < 2 ^ (LENGTH('a) - 1)"
  using msb_bit_iff [of w]
  by (simp add: sint_uint signed_take_bit_nonnegative_iff bit_unsigned_iff not_le [symmetric])

lemma unat_ucast_small:
  "unat w < 2 ^ LENGTH('b) \<Longrightarrow> unat (ucast (w :: 'a::len word) :: 'b::len word) = unat w"
  by (simp add: unsigned_ucast_eq take_bit_nat_eq_self)

lemma unat_ucast_up:
  assumes "LENGTH('a) \<le> LENGTH('b)"
  shows "unat (ucast (w :: 'a::len word) :: 'b::len word) = unat w"
proof (rule unat_ucast_small)
  have "unat w < 2 ^ LENGTH('a)" by (rule unsigned_less)
  also have "\<dots> \<le> 2 ^ LENGTH('b)" using assms by (simp add: power_increasing)
  finally show "unat w < 2 ^ LENGTH('b)" .
qed

section \<open>Lemmas on bytes\<close>

lemma length_to_be_bytes [simp]: "length (to_be_bytes n w) = n"
  by (simp add: to_be_bytes_def)

lemma from_be_bytes_Nil [simp]: "from_be_bytes [] = 0"
  by (simp add: from_be_bytes_def)

lemma from_be_bytes_snoc: "from_be_bytes (xs @ [b]) = from_be_bytes xs * 256 + ucast b"
  by (simp add: from_be_bytes_def)

lemma to_be_bytes_Suc:
  "to_be_bytes (Suc n) w = to_be_bytes n (drop_bit 8 w) @ [ucast w]"
  by (auto simp: to_be_bytes_def algebra_simps intro!: nth_equalityI simp: nth_append)

lemma push_bit_plus_ucast:
  "x * 256 + ucast (b::u8) = (push_bit 8 x OR ucast b :: 'a::len word)"
proof -
  have "push_bit 8 x AND ucast b = (0 :: 'a word)"
    by (rule bit_eqI) (auto simp: bit_simps dest: bit_imp_le_length)
  then have "push_bit 8 x + ucast b = (push_bit 8 x OR ucast b :: 'a word)"
    by (rule disjunctive_add_eq_or)
  then show ?thesis by (simp add: push_bit_eq_mult)
qed

lemma from_be_to_be_take_bit: "from_be_bytes (to_be_bytes n w) = take_bit (8 * n) (w :: 'a::len word)"
proof (induction n arbitrary: w)
  case 0
  then show ?case by (simp add: to_be_bytes_def)
next
  case (Suc n)
  have "from_be_bytes (to_be_bytes (Suc n) w)
      = (push_bit 8 (take_bit (8 * n) (drop_bit 8 w)) OR ucast (ucast w :: u8) :: 'a word)"
    by (simp add: to_be_bytes_Suc from_be_bytes_snoc Suc.IH push_bit_plus_ucast)
  also have "\<dots> = take_bit (8 * Suc n) w"
    by (rule bit_eqI) (auto simp: bit_simps not_less)
  finally show ?case .
qed

lemma take_bit_from_be_bytes:
  "take_bit (8 * length bs) (from_be_bytes bs) = (from_be_bytes bs :: 'a::len word)"
proof (induction bs rule: rev_induct)
  case Nil
  then show ?case by simp
next
  case (snoc b bs)
  let ?x = "from_be_bytes bs :: 'a word"
  have x: "bit ?x i \<Longrightarrow> i < 8 * length bs" for i
    using snoc.IH by (metis bit_take_bit_iff)
  show ?case
    by (rule bit_eqI) (auto simp: from_be_bytes_snoc push_bit_plus_ucast bit_simps
      dest: x bit_imp_le_length)
qed

lemma to_be_from_be:
  "8 * length bs \<le> LENGTH('a) \<Longrightarrow> to_be_bytes (length bs) (from_be_bytes bs :: 'a::len word) = bs"
proof (induction bs rule: rev_induct)
  case Nil
  then show ?case by (simp add: to_be_bytes_def)
next
  case (snoc b bs)
  let ?x = "from_be_bytes bs :: 'a word"
  have x: "bit ?x i \<Longrightarrow> i < 8 * length bs" for i
    using take_bit_from_be_bytes [of bs, where 'a = 'a] by (metis bit_take_bit_iff)
  have "drop_bit 8 (push_bit 8 ?x OR ucast b) = ?x"
    using snoc.prems
    by (intro bit_eqI) (auto simp: bit_simps dest: x bit_imp_le_length)
  moreover have "ucast (push_bit 8 ?x OR ucast b) = b"
    using snoc.prems by (intro bit_eqI) (auto simp: bit_simps)
  ultimately show ?case
    using snoc by (simp add: to_be_bytes_Suc from_be_bytes_snoc push_bit_plus_ucast)
qed

corollary from_be_to_be_u256 [simp]: "from_be_bytes (to_be_bytes 32 w) = (w :: u256)"
  by (simp add: from_be_to_be_take_bit take_bit_word_eq_self)

corollary from_be_to_be_address [simp]: "from_be_bytes (to_be_bytes 20 w) = (w :: address)"
  by (simp add: from_be_to_be_take_bit take_bit_word_eq_self)

section \<open>Lemmas on slices\<close>

lemma slice_get_Some_iff:
  "slice_get s e b = Some r \<longleftrightarrow> s \<le> e \<and> e \<le> length b \<and> r = take (e - s) (drop s b)"
  by (auto simp: slice_get_def)

lemma slice_put_Some_iff:
  "slice_put s d b = Some r \<longleftrightarrow>
     s + length d \<le> length b \<and> r = take s b @ d @ drop (s + length d) b"
  by (auto simp: slice_put_def)

lemma length_slice_get: "slice_get s e b = Some r \<Longrightarrow> length r = e - s"
  by (auto simp: slice_get_def split: if_splits)

lemma length_slice_put: "slice_put s d b = Some r \<Longrightarrow> length r = length b"
  by (auto simp: slice_put_def split: if_splits)

lemma slice_get_put:
  "slice_put s d b = Some b' \<Longrightarrow> slice_get s (s + length d) b' = Some d"
  by (simp add: slice_get_def slice_put_Some_iff min_absorb2)

lemma nth_slice_put:
  "slice_put s d b = Some b' \<Longrightarrow> i < length b \<Longrightarrow>
     b' ! i = (if s \<le> i \<and> i < s + length d then d ! (i - s) else b ! i)"
  by (auto simp: slice_put_Some_iff nth_append min_absorb2 less_diff_conv2)

section \<open>Lemmas on outcomes\<close>

lemma ok_simps [simp]: "ok Q None \<longleftrightarrow> False" "ok Q (Some x) \<longleftrightarrow> Q x"
  by (simp_all add: ok_def)

lemma ok_iff: "ok Q r \<longleftrightarrow> (\<exists>x. r = Some x \<and> Q x)"
  by (cases r) auto

lemma ok_mono: "ok P r \<Longrightarrow> (\<And>x. P x \<Longrightarrow> Q x) \<Longrightarrow> ok Q r"
  by (auto simp: ok_iff)

lemma ok_bind: "ok P m \<Longrightarrow> (\<And>x. P x \<Longrightarrow> ok Q (f x)) \<Longrightarrow> ok Q (Option.bind m f)"
  by (auto simp: ok_iff)

lemma unat_saturating_add_le: "unat (saturating_add a b) \<le> unat a + unat b"
  for a b :: "'a::len word"
  by (simp add: unat_saturating_add)

end
