(* ===== verification/Hardfork.thy ===== *)
theory Hardfork
  imports Prelude
begin

text \<open>
  The hard forks (\<open>crates/primitives/src/hardfork.rs\<close>): the enumeration \<open>SpecId\<close>, its \<open>u8\<close>
  representation and the order the gas schedule and the instructions branch on, and the
  conversions from and to the fork names.
\<close>

datatype spec_id =
    FRONTIER
  | FRONTIER_THAWING
  | HOMESTEAD
  | DAO_FORK
  | TANGERINE
  | SPURIOUS_DRAGON
  | BYZANTIUM
  | CONSTANTINOPLE
  | PETERSBURG
  | ISTANBUL
  | MUIR_GLACIER
  | BERLIN
  | LONDON
  | ARROW_GLACIER
  | GRAY_GLACIER
  | MERGE
  | SHANGHAI
  | CANCUN
  | PRAGUE
  | OSAKA
  | AMSTERDAM

primrec spec_id_as_u8 :: "spec_id \<Rightarrow> u8" where
  "spec_id_as_u8 FRONTIER = 0"
| "spec_id_as_u8 FRONTIER_THAWING = 1"
| "spec_id_as_u8 HOMESTEAD = 2"
| "spec_id_as_u8 DAO_FORK = 3"
| "spec_id_as_u8 TANGERINE = 4"
| "spec_id_as_u8 SPURIOUS_DRAGON = 5"
| "spec_id_as_u8 BYZANTIUM = 6"
| "spec_id_as_u8 CONSTANTINOPLE = 7"
| "spec_id_as_u8 PETERSBURG = 8"
| "spec_id_as_u8 ISTANBUL = 9"
| "spec_id_as_u8 MUIR_GLACIER = 10"
| "spec_id_as_u8 BERLIN = 11"
| "spec_id_as_u8 LONDON = 12"
| "spec_id_as_u8 ARROW_GLACIER = 13"
| "spec_id_as_u8 GRAY_GLACIER = 14"
| "spec_id_as_u8 MERGE = 15"
| "spec_id_as_u8 SHANGHAI = 16"
| "spec_id_as_u8 CANCUN = 17"
| "spec_id_as_u8 PRAGUE = 18"
| "spec_id_as_u8 OSAKA = 19"
| "spec_id_as_u8 AMSTERDAM = 20"

definition all_spec_ids :: "spec_id list" where
  "all_spec_ids = [FRONTIER, FRONTIER_THAWING, HOMESTEAD, DAO_FORK, TANGERINE, SPURIOUS_DRAGON, BYZANTIUM, CONSTANTINOPLE, PETERSBURG, ISTANBUL, MUIR_GLACIER, BERLIN, LONDON, ARROW_GLACIER, GRAY_GLACIER, MERGE, SHANGHAI, CANCUN, PRAGUE, OSAKA, AMSTERDAM]"

definition try_from_u8 :: "u8 \<Rightarrow> spec_id option" where
  "try_from_u8 n =
     (if n < 21 then Some (all_spec_ids ! unat n) else None)"

definition is_enabled_in :: "spec_id \<Rightarrow> spec_id \<Rightarrow> bool" where
  "is_enabled_in self other \<longleftrightarrow> spec_id_as_u8 self \<ge> spec_id_as_u8 other"

primrec spec_name :: "spec_id \<Rightarrow> string" where
  "spec_name FRONTIER = ''Frontier''"
| "spec_name FRONTIER_THAWING = ''Frontier Thawing''"
| "spec_name HOMESTEAD = ''Homestead''"
| "spec_name DAO_FORK = ''DAO Fork''"
| "spec_name TANGERINE = ''Tangerine''"
| "spec_name SPURIOUS_DRAGON = ''Spurious''"
| "spec_name BYZANTIUM = ''Byzantium''"
| "spec_name CONSTANTINOPLE = ''Constantinople''"
| "spec_name PETERSBURG = ''Petersburg''"
| "spec_name ISTANBUL = ''Istanbul''"
| "spec_name MUIR_GLACIER = ''MuirGlacier''"
| "spec_name BERLIN = ''Berlin''"
| "spec_name LONDON = ''London''"
| "spec_name ARROW_GLACIER = ''Arrow Glacier''"
| "spec_name GRAY_GLACIER = ''Gray Glacier''"
| "spec_name MERGE = ''Merge''"
| "spec_name SHANGHAI = ''Shanghai''"
| "spec_name CANCUN = ''Cancun''"
| "spec_name PRAGUE = ''Prague''"
| "spec_name OSAKA = ''Osaka''"
| "spec_name AMSTERDAM = ''Amsterdam''"

definition spec_from_str :: "string \<Rightarrow> spec_id option" where
  "spec_from_str s = (
     if s = ''Frontier'' then Some FRONTIER
     else if s = ''Frontier Thawing'' then Some FRONTIER_THAWING
     else if s = ''Homestead'' then Some HOMESTEAD
     else if s = ''DAO Fork'' then Some DAO_FORK
     else if s = ''Tangerine'' then Some TANGERINE
     else if s = ''Spurious'' then Some SPURIOUS_DRAGON
     else if s = ''Byzantium'' then Some BYZANTIUM
     else if s = ''Constantinople'' then Some CONSTANTINOPLE
     else if s = ''Petersburg'' then Some PETERSBURG
     else if s = ''Istanbul'' then Some ISTANBUL
     else if s = ''MuirGlacier'' then Some MUIR_GLACIER
     else if s = ''Berlin'' then Some BERLIN
     else if s = ''London'' then Some LONDON
     else if s = ''Arrow Glacier'' then Some ARROW_GLACIER
     else if s = ''Gray Glacier'' then Some GRAY_GLACIER
     else if s = ''Merge'' then Some MERGE
     else if s = ''Shanghai'' then Some SHANGHAI
     else if s = ''Cancun'' then Some CANCUN
     else if s = ''Prague'' then Some PRAGUE
     else if s = ''Osaka'' then Some OSAKA
     else if s = ''Amsterdam'' then Some AMSTERDAM
     else None)"

section \<open>The order of the forks\<close>

lemma nth_all_spec_ids: "all_spec_ids ! unat (spec_id_as_u8 s) = s"
  by (cases s) (simp_all add: all_spec_ids_def)

lemma spec_id_as_u8_inject: "spec_id_as_u8 a = spec_id_as_u8 b \<Longrightarrow> a = b"
  by (metis nth_all_spec_ids)

lemma spec_id_as_u8_less: "spec_id_as_u8 s < 21"
  by (cases s) simp_all

lemma spec_id_as_u8_nth: "k < 21 \<Longrightarrow> spec_id_as_u8 (all_spec_ids ! k) = of_nat k"
proof -
  have "list_all (\<lambda>k. spec_id_as_u8 (all_spec_ids ! k) = of_nat k) [0..<21]"
    by code_simp
  then show "k < 21 \<Longrightarrow> spec_id_as_u8 (all_spec_ids ! k) = of_nat k"
    by (simp add: list_all_iff del: upt_rec_numeral)
qed

instantiation spec_id :: linorder
begin

definition less_eq_spec_id :: "spec_id \<Rightarrow> spec_id \<Rightarrow> bool" where
  "a \<le> b \<longleftrightarrow> spec_id_as_u8 a \<le> spec_id_as_u8 b"

definition less_spec_id :: "spec_id \<Rightarrow> spec_id \<Rightarrow> bool" where
  "a < b \<longleftrightarrow> spec_id_as_u8 a < spec_id_as_u8 b"

instance
  by standard (auto simp: less_eq_spec_id_def less_spec_id_def spec_id_as_u8_inject)

end

lemma is_enabled_in_iff_le: "is_enabled_in self other \<longleftrightarrow> other \<le> self"
  by (simp add: is_enabled_in_def less_eq_spec_id_def)

lemma is_enabled_in_trans:
  "is_enabled_in s b \<Longrightarrow> is_enabled_in b a \<Longrightarrow> is_enabled_in s a"
  by (auto simp: is_enabled_in_iff_le)

text \<open>C34. The numeric and the textual representation of a fork are read back to that fork:
  \<open>try_from_u8\<close> accepts exactly the discriminant of the fork it returns, and \<open>from_str\<close> inverts
  the name table.\<close>
theorem spec_id_round_trips:
  "(try_from_u8 n = Some s \<longleftrightarrow> n = spec_id_as_u8 s) \<and> spec_from_str (spec_name s) = Some s"
proof
  have "try_from_u8 (spec_id_as_u8 s) = Some s"
    by (simp add: try_from_u8_def nth_all_spec_ids spec_id_as_u8_less)
  moreover have "n = spec_id_as_u8 s" if "try_from_u8 n = Some s"
  proof -
    from that have "n < 21" "s = all_spec_ids ! unat n"
      by (simp_all add: try_from_u8_def split: if_splits)
    then show ?thesis
      using spec_id_as_u8_nth [of "unat n"] by (simp add: word_less_nat_alt)
  qed
  ultimately show "try_from_u8 n = Some s \<longleftrightarrow> n = spec_id_as_u8 s" by blast
  show "spec_from_str (spec_name s) = Some s"
    by (cases s) (simp_all add: spec_from_str_def)
qed

end
