(* ===== verification/Loads.thy ===== *)
theory Loads
  imports Prelude
begin

text \<open>
  Values that state accesses hand back to the interpreter
  (\<open>crates/context/interface/src/context.rs\<close> and \<open>journaled_state.rs\<close>): a loaded datum with its
  cold flag, the three values an \<open>SSTORE\<close> is priced on, and the result of a self destruct.
\<close>

record 'a state_load =
  sl_data :: 'a
  sl_is_cold :: bool

definition state_load_new :: "'a \<Rightarrow> bool \<Rightarrow> 'a state_load" where
  "state_load_new d c = \<lparr>sl_data = d, sl_is_cold = c\<rparr>"

definition state_load_map :: "('a \<Rightarrow> 'b) \<Rightarrow> 'a state_load \<Rightarrow> 'b state_load" where
  "state_load_map f l = state_load_new (f (sl_data l)) (sl_is_cold l)"

record sstore_result =
  original_value :: u256
  present_value :: u256
  new_value :: u256

definition is_new_eq_present :: "sstore_result \<Rightarrow> bool" where
  "is_new_eq_present v \<longleftrightarrow> new_value v = present_value v"

definition is_original_eq_present :: "sstore_result \<Rightarrow> bool" where
  "is_original_eq_present v \<longleftrightarrow> original_value v = present_value v"

definition is_original_eq_new :: "sstore_result \<Rightarrow> bool" where
  "is_original_eq_new v \<longleftrightarrow> original_value v = new_value v"

definition is_original_zero :: "sstore_result \<Rightarrow> bool" where
  "is_original_zero v \<longleftrightarrow> original_value v = 0"

definition is_present_zero :: "sstore_result \<Rightarrow> bool" where
  "is_present_zero v \<longleftrightarrow> present_value v = 0"

definition is_new_zero :: "sstore_result \<Rightarrow> bool" where
  "is_new_zero v \<longleftrightarrow> new_value v = 0"

lemmas sstore_result_defs = is_new_eq_present_def is_original_eq_present_def
  is_original_eq_new_def is_original_zero_def is_present_zero_def is_new_zero_def

record selfdestruct_result =
  had_value :: bool
  target_exists :: bool
  previously_destroyed :: bool

record account_load =
  is_delegate_account_cold :: "bool option"
  al_is_empty :: bool

lemma state_load_simps [simp]:
  "sl_data (state_load_new d c) = d" "sl_is_cold (state_load_new d c) = c"
  "sl_data (state_load_map f l) = f (sl_data l)" "sl_is_cold (state_load_map f l) = sl_is_cold l"
  by (simp_all add: state_load_new_def state_load_map_def)

end
