(* ===== verification/Gas.thy ===== *)
theory Gas
  imports Hardfork Loads
begin

text \<open>
  The gas schedule and the gas meter (\<open>crates/interpreter/src/gas.rs\<close>, \<open>gas/constants.rs\<close>,
  \<open>gas/calc.rs\<close>): the constants, the cost functions of the instructions, the \<open>Gas\<close> and
  \<open>MemoryGas\<close> counters and the intrinsic gas of a transaction.
\<close>

named_theorems gas_const \<open>values of the gas constants\<close>
named_theorems gas_calc \<open>definitions of the cost functions\<close>

section \<open>Constants\<close>

definition gas_ZERO :: u64 where "gas_ZERO = 0"
definition gas_BASE :: u64 where "gas_BASE = 2"
definition gas_VERYLOW :: u64 where "gas_VERYLOW = 3"
definition gas_DATA_LOADN_GAS :: u64 where "gas_DATA_LOADN_GAS = 3"
definition gas_CONDITION_JUMP_GAS :: u64 where "gas_CONDITION_JUMP_GAS = 4"
definition gas_RETF_GAS :: u64 where "gas_RETF_GAS = 3"
definition gas_DATA_LOAD_GAS :: u64 where "gas_DATA_LOAD_GAS = 4"
definition gas_LOW :: u64 where "gas_LOW = 5"
definition gas_MID :: u64 where "gas_MID = 8"
definition gas_HIGH :: u64 where "gas_HIGH = 10"
definition gas_JUMPDEST :: u64 where "gas_JUMPDEST = 1"
definition gas_SELFDESTRUCT_REFUND :: i64 where "gas_SELFDESTRUCT_REFUND = 24000"
definition gas_CREATE :: u64 where "gas_CREATE = 32000"
definition gas_CALLVALUE :: u64 where "gas_CALLVALUE = 9000"
definition gas_NEWACCOUNT :: u64 where "gas_NEWACCOUNT = 25000"
definition gas_EXP :: u64 where "gas_EXP = 10"
definition gas_MEMORY :: u64 where "gas_MEMORY = 3"
definition gas_LOG :: u64 where "gas_LOG = 375"
definition gas_LOGDATA :: u64 where "gas_LOGDATA = 8"
definition gas_LOGTOPIC :: u64 where "gas_LOGTOPIC = 375"
definition gas_KECCAK256 :: u64 where "gas_KECCAK256 = 30"
definition gas_KECCAK256WORD :: u64 where "gas_KECCAK256WORD = 6"
definition gas_COPY :: u64 where "gas_COPY = 3"
definition gas_BLOCKHASH :: u64 where "gas_BLOCKHASH = 20"
definition gas_CODEDEPOSIT :: u64 where "gas_CODEDEPOSIT = 200"
definition gas_ISTANBUL_SLOAD_GAS :: u64 where "gas_ISTANBUL_SLOAD_GAS = 800"
definition gas_SSTORE_SET :: u64 where "gas_SSTORE_SET = 20000"
definition gas_SSTORE_RESET :: u64 where "gas_SSTORE_RESET = 5000"
definition gas_REFUND_SSTORE_CLEARS :: i64 where "gas_REFUND_SSTORE_CLEARS = 15000"
definition gas_STANDARD_TOKEN_COST :: u64 where "gas_STANDARD_TOKEN_COST = 4"
definition gas_NON_ZERO_BYTE_DATA_COST :: u64 where "gas_NON_ZERO_BYTE_DATA_COST = 68"
definition gas_NON_ZERO_BYTE_MULTIPLIER :: u64 where
  "gas_NON_ZERO_BYTE_MULTIPLIER = gas_NON_ZERO_BYTE_DATA_COST div gas_STANDARD_TOKEN_COST"
definition gas_NON_ZERO_BYTE_DATA_COST_ISTANBUL :: u64 where
  "gas_NON_ZERO_BYTE_DATA_COST_ISTANBUL = 16"
definition gas_NON_ZERO_BYTE_MULTIPLIER_ISTANBUL :: u64 where
  "gas_NON_ZERO_BYTE_MULTIPLIER_ISTANBUL =
     gas_NON_ZERO_BYTE_DATA_COST_ISTANBUL div gas_STANDARD_TOKEN_COST"
definition gas_TOTAL_COST_FLOOR_PER_TOKEN :: u64 where "gas_TOTAL_COST_FLOOR_PER_TOKEN = 10"
definition gas_EOF_CREATE_GAS :: u64 where "gas_EOF_CREATE_GAS = 32000"
definition gas_ACCESS_LIST_ADDRESS :: u64 where "gas_ACCESS_LIST_ADDRESS = 2400"
definition gas_ACCESS_LIST_STORAGE_KEY :: u64 where "gas_ACCESS_LIST_STORAGE_KEY = 1900"
definition gas_COLD_SLOAD_COST :: u64 where "gas_COLD_SLOAD_COST = 2100"
definition gas_COLD_ACCOUNT_ACCESS_COST :: u64 where "gas_COLD_ACCOUNT_ACCESS_COST = 2600"
definition gas_WARM_STORAGE_READ_COST :: u64 where "gas_WARM_STORAGE_READ_COST = 100"
definition gas_COLD_ACCOUNT_ACCESS_COST_ADDITIONAL :: u64 where
  "gas_COLD_ACCOUNT_ACCESS_COST_ADDITIONAL =
     gas_COLD_ACCOUNT_ACCESS_COST - gas_WARM_STORAGE_READ_COST"
definition gas_COLD_SLOAD_COST_ADDITIONAL :: u64 where
  "gas_COLD_SLOAD_COST_ADDITIONAL = gas_COLD_SLOAD_COST - gas_WARM_STORAGE_READ_COST"
definition gas_WARM_SSTORE_RESET :: u64 where
  "gas_WARM_SSTORE_RESET = gas_SSTORE_RESET - gas_COLD_SLOAD_COST"
definition gas_INITCODE_WORD_COST :: u64 where "gas_INITCODE_WORD_COST = 2"
definition gas_CALL_STIPEND :: u64 where "gas_CALL_STIPEND = 2300"
definition gas_MIN_CALLEE_GAS :: u64 where "gas_MIN_CALLEE_GAS = gas_CALL_STIPEND"
definition PER_AUTH_BASE_COST :: u64 where "PER_AUTH_BASE_COST = 12500"
definition PER_EMPTY_ACCOUNT_COST :: u64 where "PER_EMPTY_ACCOUNT_COST = 25000"

lemmas [gas_const] =
  gas_ZERO_def gas_BASE_def gas_VERYLOW_def gas_DATA_LOADN_GAS_def gas_CONDITION_JUMP_GAS_def
  gas_RETF_GAS_def gas_DATA_LOAD_GAS_def gas_LOW_def gas_MID_def gas_HIGH_def gas_JUMPDEST_def
  gas_SELFDESTRUCT_REFUND_def gas_CREATE_def gas_CALLVALUE_def gas_NEWACCOUNT_def gas_EXP_def
  gas_MEMORY_def gas_LOG_def gas_LOGDATA_def gas_LOGTOPIC_def gas_KECCAK256_def
  gas_KECCAK256WORD_def gas_COPY_def gas_BLOCKHASH_def gas_CODEDEPOSIT_def
  gas_ISTANBUL_SLOAD_GAS_def gas_SSTORE_SET_def gas_SSTORE_RESET_def
  gas_REFUND_SSTORE_CLEARS_def gas_STANDARD_TOKEN_COST_def gas_NON_ZERO_BYTE_DATA_COST_def
  gas_NON_ZERO_BYTE_MULTIPLIER_def gas_NON_ZERO_BYTE_DATA_COST_ISTANBUL_def
  gas_NON_ZERO_BYTE_MULTIPLIER_ISTANBUL_def gas_TOTAL_COST_FLOOR_PER_TOKEN_def
  gas_EOF_CREATE_GAS_def gas_ACCESS_LIST_ADDRESS_def gas_ACCESS_LIST_STORAGE_KEY_def
  gas_COLD_SLOAD_COST_def gas_COLD_ACCOUNT_ACCESS_COST_def gas_WARM_STORAGE_READ_COST_def
  gas_COLD_ACCOUNT_ACCESS_COST_ADDITIONAL_def gas_COLD_SLOAD_COST_ADDITIONAL_def
  gas_WARM_SSTORE_RESET_def gas_INITCODE_WORD_COST_def gas_CALL_STIPEND_def
  gas_MIN_CALLEE_GAS_def PER_AUTH_BASE_COST_def PER_EMPTY_ACCOUNT_COST_def

section \<open>Cost functions\<close>

definition num_words :: "usize \<Rightarrow> usize" where
  "num_words len = saturating_add len 31 div 32"

definition sload_cost :: "spec_id \<Rightarrow> bool \<Rightarrow> u64" where
  "sload_cost spec is_cold =
     (if is_enabled_in spec BERLIN then
        (if is_cold then gas_COLD_SLOAD_COST else gas_WARM_STORAGE_READ_COST)
      else if is_enabled_in spec ISTANBUL then gas_ISTANBUL_SLOAD_GAS
      else if is_enabled_in spec TANGERINE then 200
      else 50)"

definition sstore_refund :: "spec_id \<Rightarrow> sstore_result \<Rightarrow> i64" where
  "sstore_refund spec vals =
     (if is_enabled_in spec ISTANBUL then
        (let sstore_clears_schedule =
               (if is_enabled_in spec LONDON
                then gas_SSTORE_RESET - gas_COLD_SLOAD_COST + gas_ACCESS_LIST_STORAGE_KEY
                else gas_REFUND_SSTORE_CLEARS)
         in if is_new_eq_present vals then 0
            else if is_original_eq_present vals \<and> is_new_zero vals then sstore_clears_schedule
            else
              (let refund = 0;
                   refund = (if \<not> is_original_zero vals then
                               (if is_present_zero vals then refund - sstore_clears_schedule
                                else if is_new_zero vals then refund + sstore_clears_schedule
                                else refund)
                             else refund)
               in if is_original_eq_new vals then
                    (let (gas_sstore_reset, gas_sload) =
                           (if is_enabled_in spec BERLIN
                            then (gas_SSTORE_RESET - gas_COLD_SLOAD_COST, gas_WARM_STORAGE_READ_COST)
                            else (gas_SSTORE_RESET, sload_cost spec False))
                     in if is_original_zero vals then refund + (gas_SSTORE_SET - gas_sload)
                        else refund + (gas_sstore_reset - gas_sload))
                  else refund))
      else if \<not> is_present_zero vals \<and> is_new_zero vals then gas_REFUND_SSTORE_CLEARS
      else 0)"

definition cost_per_word :: "usize \<Rightarrow> u64 \<Rightarrow> u64 option" where
  "cost_per_word len multiple = checked_mul multiple (num_words len)"

definition create2_cost :: "usize \<Rightarrow> u64 option" where
  "create2_cost len =
     Option.bind (cost_per_word len gas_KECCAK256WORD) (\<lambda>c. checked_add gas_CREATE c)"

text \<open>The 64-bit limbs of a 256-bit number, least significant first (\<open>as_limbs\<close>), and
  \<open>u64::leading_zeros\<close>.\<close>

definition limb :: "u256 \<Rightarrow> nat \<Rightarrow> u64" where
  "limb v i = ucast (drop_bit (64 * i) v)"

definition leading_zeros :: "u64 \<Rightarrow> nat" where
  "leading_zeros w = length (takeWhile (\<lambda>i. \<not> bit w i) (rev [0..<64]))"

fun log2floor_loop :: "u256 \<Rightarrow> nat \<Rightarrow> u64 \<Rightarrow> u64" where
  "log2floor_loop value i l =
     (if limb value i = 0 then
        (let l = l - 64 in if i = 0 then l else log2floor_loop value (i - 1) l)
      else
        (let l = l - of_nat (leading_zeros (limb value i)) in if l = 0 then l else l - 1))"

declare log2floor_loop.simps [simp del]

definition log2floor :: "u256 \<Rightarrow> u64" where
  "log2floor value = log2floor_loop value 3 256"

definition exp_cost :: "spec_id \<Rightarrow> u256 \<Rightarrow> u64 option" where
  "exp_cost spec pow =
     (if pow = 0 then Some gas_EXP
      else
        (let gas_byte = (if is_enabled_in spec SPURIOUS_DRAGON then 50 else 10) :: u256
         in Option.bind (checked_mul gas_byte (ucast (log2floor pow div 8 + 1)))
              (\<lambda>m. Option.bind (checked_add (ucast gas_EXP) m)
                (\<lambda>gas. if unat gas < 2 ^ 64 then Some (ucast gas) else None))))"

definition warm_cold_cost :: "bool \<Rightarrow> u64" where
  "warm_cold_cost is_cold =
     (if is_cold then gas_COLD_ACCOUNT_ACCESS_COST else gas_WARM_STORAGE_READ_COST)"

definition warm_cold_cost_with_delegation :: "account_load state_load \<Rightarrow> u64" where
  "warm_cold_cost_with_delegation load =
     (let gas = warm_cold_cost (sl_is_cold load)
      in case is_delegate_account_cold (sl_data load) of
           Some is_cold \<Rightarrow> gas + warm_cold_cost is_cold
         | None \<Rightarrow> gas)"

definition copy_cost :: "u64 \<Rightarrow> usize \<Rightarrow> u64 option" where
  "copy_cost base_cost len =
     Option.bind (cost_per_word len gas_COPY) (\<lambda>c. checked_add base_cost c)"

definition copy_cost_verylow :: "usize \<Rightarrow> u64 option" where
  "copy_cost_verylow len = copy_cost gas_VERYLOW len"

definition extcodecopy_cost :: "spec_id \<Rightarrow> usize \<Rightarrow> bool \<Rightarrow> u64 option" where
  "extcodecopy_cost spec len is_cold =
     copy_cost (if is_enabled_in spec BERLIN then warm_cold_cost is_cold
                else if is_enabled_in spec TANGERINE then 700
                else 20) len"

definition log_cost :: "u8 \<Rightarrow> u64 \<Rightarrow> u64 option" where
  "log_cost n len =
     Option.bind (checked_mul gas_LOGDATA len)
       (\<lambda>d. Option.bind (checked_add gas_LOG d)
         (\<lambda>g. checked_add g (gas_LOGTOPIC * ucast n)))"

definition keccak256_cost :: "usize \<Rightarrow> u64 option" where
  "keccak256_cost len =
     Option.bind (cost_per_word len gas_KECCAK256WORD) (\<lambda>c. checked_add gas_KECCAK256 c)"

text \<open>\<open>initcode_cost\<close> panics when the multiplication overflows.\<close>

definition initcode_cost :: "usize \<Rightarrow> u64 option" where
  "initcode_cost len = cost_per_word len gas_INITCODE_WORD_COST"

definition static_sstore_cost :: "spec_id \<Rightarrow> u64" where
  "static_sstore_cost spec =
     (if is_enabled_in spec BERLIN then gas_WARM_STORAGE_READ_COST
      else if is_enabled_in spec ISTANBUL then gas_ISTANBUL_SLOAD_GAS
      else gas_SSTORE_RESET)"

definition istanbul_sstore_cost :: "u64 \<Rightarrow> u64 \<Rightarrow> sstore_result \<Rightarrow> u64" where
  "istanbul_sstore_cost SLOAD_GAS SSTORE_RESET_GAS vals =
     (if is_new_eq_present vals then SLOAD_GAS
      else if is_original_eq_present vals \<and> is_original_zero vals then gas_SSTORE_SET
      else if is_original_eq_present vals then SSTORE_RESET_GAS
      else SLOAD_GAS)"

definition frontier_sstore_cost :: "sstore_result \<Rightarrow> u64" where
  "frontier_sstore_cost vals =
     (if is_present_zero vals \<and> \<not> is_new_zero vals then gas_SSTORE_SET else gas_SSTORE_RESET)"

definition sstore_cost :: "spec_id \<Rightarrow> sstore_result \<Rightarrow> bool \<Rightarrow> u64" where
  "sstore_cost spec vals is_cold =
     (if is_enabled_in spec BERLIN then
        (let gas_cost = istanbul_sstore_cost gas_WARM_STORAGE_READ_COST gas_WARM_SSTORE_RESET vals
         in if is_cold then gas_cost + gas_COLD_SLOAD_COST else gas_cost)
      else if is_enabled_in spec ISTANBUL then
        istanbul_sstore_cost gas_ISTANBUL_SLOAD_GAS gas_SSTORE_RESET vals
      else frontier_sstore_cost vals)"

definition dyn_sstore_cost :: "spec_id \<Rightarrow> sstore_result \<Rightarrow> bool \<Rightarrow> u64" where
  "dyn_sstore_cost spec vals is_cold = sstore_cost spec vals is_cold - static_sstore_cost spec"

definition static_selfdestruct_cost :: "spec_id \<Rightarrow> u64" where
  "static_selfdestruct_cost spec = (if is_enabled_in spec TANGERINE then 5000 else 0)"

definition dyn_selfdestruct_cost :: "spec_id \<Rightarrow> selfdestruct_result state_load \<Rightarrow> u64" where
  "dyn_selfdestruct_cost spec res =
     (let is_tangerine = is_enabled_in spec TANGERINE;
          gas = 0;
          should_charge_topup =
            (if is_enabled_in spec SPURIOUS_DRAGON
             then had_value (sl_data res) \<and> \<not> target_exists (sl_data res)
             else \<not> target_exists (sl_data res));
          gas = (if is_tangerine \<and> should_charge_topup then gas + gas_NEWACCOUNT else gas)
      in if is_enabled_in spec BERLIN \<and> sl_is_cold res
         then gas + gas_COLD_ACCOUNT_ACCESS_COST else gas)"

definition selfdestruct_cost :: "spec_id \<Rightarrow> selfdestruct_result state_load \<Rightarrow> u64" where
  "selfdestruct_cost spec res = static_selfdestruct_cost spec + dyn_selfdestruct_cost spec res"

definition calc_call_static_gas :: "spec_id \<Rightarrow> bool \<Rightarrow> u64" where
  "calc_call_static_gas spec has_transfer =
     (let gas = (if is_enabled_in spec BERLIN then gas_WARM_STORAGE_READ_COST
                 else if is_enabled_in spec TANGERINE then 700
                 else 40)
      in if has_transfer then gas + gas_CALLVALUE else gas)"

definition memory_gas :: "usize \<Rightarrow> u64" where
  "memory_gas num =
     saturating_add (saturating_mul gas_MEMORY num)
       (saturating_mul num num div 512)"

lemmas [gas_calc] = sload_cost_def sstore_refund_def warm_cold_cost_def
  warm_cold_cost_with_delegation_def static_sstore_cost_def istanbul_sstore_cost_def
  frontier_sstore_cost_def sstore_cost_def dyn_sstore_cost_def static_selfdestruct_cost_def
  dyn_selfdestruct_cost_def selfdestruct_cost_def calc_call_static_gas_def

section \<open>Intrinsic gas\<close>

record initial_and_floor_gas =
  initial_gas :: u64
  floor_gas :: u64

definition get_tokens_in_calldata :: "bytes \<Rightarrow> bool \<Rightarrow> u64" where
  "get_tokens_in_calldata input is_istanbul =
     (let zero_data_len = of_nat (length (filter (\<lambda>v. v = 0) input));
          non_zero_data_len = of_nat (length input) - zero_data_len;
          non_zero_data_multiplier =
            (if is_istanbul then gas_NON_ZERO_BYTE_MULTIPLIER_ISTANBUL
             else gas_NON_ZERO_BYTE_MULTIPLIER)
      in zero_data_len + non_zero_data_len * non_zero_data_multiplier)"

definition calc_tx_floor_cost :: "u64 \<Rightarrow> u64" where
  "calc_tx_floor_cost tokens_in_calldata =
     tokens_in_calldata * gas_TOTAL_COST_FLOOR_PER_TOKEN + 21000"

definition calculate_initial_tx_gas ::
    "spec_id \<Rightarrow> bytes \<Rightarrow> bool \<Rightarrow> u64 \<Rightarrow> u64 \<Rightarrow> u64 \<Rightarrow> initial_and_floor_gas option" where
  "calculate_initial_tx_gas spec input is_create access_list_accounts access_list_storages
       authorization_list_num =
     (let tokens_in_calldata = get_tokens_in_calldata input (is_enabled_in spec ISTANBUL);
          g = tokens_in_calldata * gas_STANDARD_TOKEN_COST;
          g = g + access_list_accounts * gas_ACCESS_LIST_ADDRESS;
          g = g + access_list_storages * gas_ACCESS_LIST_STORAGE_KEY;
          g = g + (if is_create then (if is_enabled_in spec HOMESTEAD then 53000 else 21000)
                   else 21000)
      in Option.bind
           (if is_enabled_in spec SHANGHAI \<and> is_create
            then map_option (\<lambda>c. g + c) (initcode_cost (of_nat (length input)))
            else Some g)
           (\<lambda>g. Some
             (if is_enabled_in spec PRAGUE
              then \<lparr>initial_gas = g + authorization_list_num * PER_EMPTY_ACCOUNT_COST,
                    floor_gas = calc_tx_floor_cost tokens_in_calldata\<rparr>
              else \<lparr>initial_gas = g, floor_gas = 0\<rparr>)))"

section \<open>The gas meter\<close>

record memory_gas_t =
  words_num :: usize
  expansion_cost :: u64

definition memory_gas_new :: memory_gas_t where
  "memory_gas_new = \<lparr>words_num = 0, expansion_cost = 0\<rparr>"

definition record_new_len :: "usize \<Rightarrow> memory_gas_t \<Rightarrow> u64 option \<times> memory_gas_t" where
  "record_new_len new_num m =
     (if new_num \<le> words_num m then (None, m)
      else
        (let cost = memory_gas new_num
         in (Some (cost - expansion_cost m), \<lparr>words_num = new_num, expansion_cost = cost\<rparr>)))"

record gas =
  g_limit :: u64
  g_remaining :: u64
  g_refunded :: i64
  g_memory :: memory_gas_t

definition gas_new :: "u64 \<Rightarrow> gas" where
  "gas_new limit =
     \<lparr>g_limit = limit, g_remaining = limit, g_refunded = 0, g_memory = memory_gas_new\<rparr>"

definition gas_new_spent :: "u64 \<Rightarrow> gas" where
  "gas_new_spent limit =
     \<lparr>g_limit = limit, g_remaining = 0, g_refunded = 0, g_memory = memory_gas_new\<rparr>"

definition spent :: "gas \<Rightarrow> u64" where
  "spent g = g_limit g - g_remaining g"

definition used :: "gas \<Rightarrow> u64" where
  "used g = saturating_sub (spent g) (g_refunded g)"

definition spent_sub_refunded :: "gas \<Rightarrow> u64" where
  "spent_sub_refunded g = saturating_sub (spent g) (g_refunded g)"

definition remaining_63_of_64_parts :: "gas \<Rightarrow> u64" where
  "remaining_63_of_64_parts g = g_remaining g - g_remaining g div 64"

definition erase_cost :: "u64 \<Rightarrow> gas \<Rightarrow> gas" where
  "erase_cost returned g = g\<lparr>g_remaining := g_remaining g + returned\<rparr>"

definition spend_all :: "gas \<Rightarrow> gas" where
  "spend_all g = g\<lparr>g_remaining := 0\<rparr>"

definition record_refund :: "i64 \<Rightarrow> gas \<Rightarrow> gas" where
  "record_refund refund g = g\<lparr>g_refunded := g_refunded g + refund\<rparr>"

definition set_final_refund :: "bool \<Rightarrow> gas \<Rightarrow> gas" where
  "set_final_refund is_london g =
     (let max_refund_quotient = (if is_london then 5 else 2)
      in g\<lparr>g_refunded := min (g_refunded g) (spent g div max_refund_quotient)\<rparr>)"

definition set_refund :: "i64 \<Rightarrow> gas \<Rightarrow> gas" where
  "set_refund refund g = g\<lparr>g_refunded := refund\<rparr>"

definition set_spent :: "u64 \<Rightarrow> gas \<Rightarrow> gas" where
  "set_spent s g = g\<lparr>g_remaining := saturating_sub (g_limit g) s\<rparr>"

definition record_cost :: "u64 \<Rightarrow> gas \<Rightarrow> bool \<times> gas" where
  "record_cost cost g =
     (case checked_sub (g_remaining g) cost of
        Some new_remaining \<Rightarrow> (True, g\<lparr>g_remaining := new_remaining\<rparr>)
      | None \<Rightarrow> (False, g))"

definition record_cost_unsafe :: "u64 \<Rightarrow> gas \<Rightarrow> bool \<times> gas" where
  "record_cost_unsafe cost g =
     (let oog = g_remaining g < cost
      in (oog, g\<lparr>g_remaining := g_remaining g - cost\<rparr>))"

section \<open>Memory expansion cost\<close>

lemma word_le_unatI: "unat a \<le> unat b \<Longrightarrow> a \<le> b"
  by (simp add: word_le_nat_alt)

lemma unat_memory_gas:
  "unat (memory_gas w)
     = min (min (3 * unat w) (2 ^ 64 - 1) + min (unat w * unat w) (2 ^ 64 - 1) div 512) (2 ^ 64 - 1)"
  by (simp add: memory_gas_def unat_saturating_add unat_saturating_mul gas_const unat_div_distrib)

lemma memory_gas_mono: "a \<le> b \<Longrightarrow> memory_gas a \<le> memory_gas b"
  unfolding word_le_nat_alt unat_memory_gas
  by (intro min.mono add_mono div_le_mono mult_mono) auto

lemma memory_gas_exact:
  assumes "unat w < 2 ^ 32"
  shows "unat (memory_gas w) = 3 * unat w + unat w * unat w div 512"
proof -
  have "unat w * unat w \<le> (2 ^ 32 - 1) * (2 ^ 32 - 1)"
    using assms by (intro mult_mono) auto
  then show ?thesis
    using assms by (simp add: unat_memory_gas)
qed

lemma memory_gas_lower: "unat w < 2 ^ 32 \<Longrightarrow> 3 * unat w \<le> unat (memory_gas w)"
  by (simp add: memory_gas_exact)

lemma memory_gas_big:
  assumes "2 ^ 32 \<le> unat w"
  shows "2 ^ 55 - 1 \<le> unat (memory_gas w)"
proof -
  have "(2::nat) ^ 32 * 2 ^ 32 \<le> unat w * unat w"
    using assms by (intro mult_mono) auto
  then have "min (unat w * unat w) (2 ^ 64 - 1) = 2 ^ 64 - 1" by simp
  then show ?thesis by (simp add: unat_memory_gas)
qed

lemma memory_gas_small: "unat (memory_gas w) < 2 ^ 55 - 1 \<Longrightarrow> unat w < 2 ^ 32"
  using memory_gas_big by (meson not_le)

definition memory_gas_inv :: "memory_gas_t \<Rightarrow> bool" where
  "memory_gas_inv m \<longleftrightarrow> expansion_cost m = memory_gas (words_num m)"

lemma memory_gas_inv_new: "memory_gas_inv memory_gas_new"
  by (simp add: memory_gas_inv_def memory_gas_new_def memory_gas_def rust_arith)

lemma memory_gas_inv_record_new_len:
  "memory_gas_inv m \<Longrightarrow> memory_gas_inv (snd (record_new_len n m))"
  by (simp add: memory_gas_inv_def record_new_len_def Let_def)

lemma words_num_record_new_len: "words_num (snd (record_new_len n m)) = max n (words_num m)"
  by (simp add: record_new_len_def Let_def max_def)

text \<open>The extra cost of one expansion, as a natural number (zero when nothing is expanded).\<close>

definition expansion_charge :: "usize \<Rightarrow> memory_gas_t \<Rightarrow> nat" where
  "expansion_charge n m = (case fst (record_new_len n m) of None \<Rightarrow> 0 | Some c \<Rightarrow> unat c)"

lemma expansion_charge_eq:
  assumes "memory_gas_inv m"
  shows "unat (memory_gas (words_num m)) + expansion_charge n m
           = unat (memory_gas (max n (words_num m)))"
proof (cases "n \<le> words_num m")
  case True
  then show ?thesis by (simp add: expansion_charge_def record_new_len_def max_def)
next
  case False
  then have "memory_gas (words_num m) \<le> memory_gas n" by (simp add: memory_gas_mono)
  with False assms show ?thesis
    by (simp add: expansion_charge_def record_new_len_def max_def Let_def memory_gas_inv_def
        unat_sub_if_size word_le_nat_alt)
qed

fun expansion_run :: "usize list \<Rightarrow> memory_gas_t \<Rightarrow> nat \<times> memory_gas_t" where
  "expansion_run [] m = (0, m)"
| "expansion_run (n # ns) m =
     (let (c, m') = expansion_run ns (snd (record_new_len n m)) in (expansion_charge n m + c, m'))"

text \<open>C14. Memory expansion is charged exactly once per word, whatever the order of the accesses:
  for any sequence of requested sizes (in words), the sum of the charges \<open>record_new_len\<close> returns
  is the cost of the largest size reached minus the cost of the initial size, and no subtraction
  in it underflows.\<close>
theorem expansion_run_telescopes:
  assumes "memory_gas_inv m"
  shows "unat (memory_gas (words_num m)) + fst (expansion_run ns m)
           = unat (memory_gas (fold max ns (words_num m)))
         \<and> words_num (snd (expansion_run ns m)) = fold max ns (words_num m)"
  using assms
proof (induction ns arbitrary: m)
  case Nil
  then show ?case by simp
next
  case (Cons n ns)
  have "memory_gas_inv (snd (record_new_len n m))"
    using Cons.prems by (rule memory_gas_inv_record_new_len)
  from Cons.IH [OF this] expansion_charge_eq [OF Cons.prems, of n] show ?case
    by (simp add: words_num_record_new_len case_prod_unfold Let_def)
qed

theorem expansion_run_telescopes_witness:
  "unat (memory_gas (words_num memory_gas_new)) + fst (expansion_run [1, 5, 3] memory_gas_new)
     = unat (memory_gas (fold max [1, 5, 3] (words_num memory_gas_new)))"
  using expansion_run_telescopes [OF memory_gas_inv_new, of "[1, 5, 3]"] by simp

section \<open>Storage costs and refunds\<close>

lemma static_sstore_cost_le: "static_sstore_cost spec \<le> sstore_cost spec vals is_cold"
  by (simp add: gas_calc gas_const Let_def)

lemma unat_dyn_sstore_cost:
  "unat (dyn_sstore_cost spec vals is_cold) + unat (static_sstore_cost spec)
     = unat (sstore_cost spec vals is_cold)"
  using static_sstore_cost_le [of spec vals is_cold]
  by (simp add: dyn_sstore_cost_def unat_sub_if_size word_le_nat_alt)

text \<open>The refund a slot currently holds for being cleared: its original value is not zero and
  its present value is.\<close>

definition clears_schedule :: "spec_id \<Rightarrow> int" where
  "clears_schedule spec =
     (if is_enabled_in spec LONDON then 4800 else if is_enabled_in spec ISTANBUL then 15000 else 0)"

definition clear_refund :: "spec_id \<Rightarrow> u256 \<Rightarrow> u256 \<Rightarrow> int" where
  "clear_refund spec orig present =
     (if orig \<noteq> 0 \<and> present = 0 then clears_schedule spec else 0)"

lemma sstore_refund_step:
  "clear_refund spec (original_value vals) (new_value vals)
     - clear_refund spec (original_value vals) (present_value vals)
   \<le> sint (sstore_refund spec vals)"
  by (cases "is_enabled_in spec LONDON"; cases "is_enabled_in spec BERLIN";
      cases "is_enabled_in spec ISTANBUL")
    (auto simp: clear_refund_def clears_schedule_def sstore_refund_def sstore_result_defs Let_def
      gas_const sload_cost_def)

fun slot_refunds :: "spec_id \<Rightarrow> u256 \<Rightarrow> u256 \<Rightarrow> u256 list \<Rightarrow> int" where
  "slot_refunds spec orig present [] = 0"
| "slot_refunds spec orig present (v # vs) =
     sint (sstore_refund spec \<lparr>original_value = orig, present_value = present, new_value = v\<rparr>)
     + slot_refunds spec orig v vs"

lemma slot_refunds_lower:
  "clear_refund spec orig (last (present # vs)) - clear_refund spec orig present
     \<le> slot_refunds spec orig present vs"
proof (induction vs arbitrary: present)
  case Nil
  then show ?case by simp
next
  case (Cons v vs)
  have "clear_refund spec orig v - clear_refund spec orig present
          \<le> sint (sstore_refund spec \<lparr>original_value = orig, present_value = present, new_value = v\<rparr>)"
    using sstore_refund_step [of spec "\<lparr>original_value = orig, present_value = present, new_value = v\<rparr>"]
    by simp
  with Cons.IH [of v] show ?case by simp
qed

text \<open>C15. Storage refunds never go negative over a transaction: starting from its original value,
  any sequence of \<open>SSTORE\<close>s on a slot accumulates a refund of at least the clearing refund
  the final value is entitled to, hence at least zero, although single steps take refunds back.\<close>
theorem slot_refunds_nonneg:
  "clear_refund spec orig (last (orig # vs)) \<le> slot_refunds spec orig orig vs
   \<and> 0 \<le> slot_refunds spec orig orig vs"
  using slot_refunds_lower [of spec orig orig vs]
  by (auto simp: clear_refund_def clears_schedule_def split: if_splits)

section \<open>Cost of exponentiation\<close>

lemma takeWhile_rev_upt:
  assumes "\<not> P k" "k < n" "\<forall>i. k < i \<and> i < n \<longrightarrow> P i"
  shows "length (takeWhile P (rev [0..<n])) = n - 1 - k"
  using assms
proof (induction n)
  case 0
  then show ?case by simp
next
  case (Suc n)
  then show ?case by (cases "k = n") auto
qed

lemma leading_zeros_top_bit:
  assumes "bit w k" "\<forall>i>k. \<not> bit w i"
  shows "leading_zeros w = 63 - k"
proof -
  have "k < 64" using bit_imp_le_length [OF assms(1)] by simp
  then show ?thesis
    using takeWhile_rev_upt [of "\<lambda>i. \<not> bit w i" k 64] assms by (simp add: leading_zeros_def)
qed

lemma bit_limb: "bit (limb v i) n \<longleftrightarrow> n < 64 \<and> bit v (64 * i + n)"
  by (simp add: limb_def bit_simps)

lemma limb_zero_iff: "limb v i = 0 \<longleftrightarrow> (\<forall>n<64. \<not> bit v (64 * i + n))"
  by (auto simp: bit_eq_iff bit_limb)

lemma log2floor_loop_hit:
  assumes "limb v i \<noteq> 0" "l - of_nat (leading_zeros (limb v i)) = of_nat (k + 1)" "k < 256"
  shows "log2floor_loop v i l = of_nat k"
proof -
  have "unat (of_nat (k + 1) :: u64) = k + 1"
    using assms(3) by (intro unat_of_nat_small) simp
  then have "(of_nat (k + 1) :: u64) \<noteq> 0" by (metis Suc_eq_plus1 nat.distinct(1) unat_0)
  then show ?thesis
    using assms by (subst log2floor_loop.simps) (simp add: Let_def)
qed

lemma log2floor_loop_top_bit:
  assumes "bit v k" "\<forall>j>k. \<not> bit v j" "k < 64 * Suc i" "i < 4"
  shows "log2floor_loop v i (of_nat (64 * Suc i)) = of_nat k"
  using assms(3,4)
proof (induction i)
  case 0
  then have l: "bit (limb v 0) k" "\<forall>i>k. \<not> bit (limb v 0) i"
    using assms(1,2) by (simp_all add: bit_limb)
  then have "limb v 0 \<noteq> 0" by auto
  moreover have "leading_zeros (limb v 0) = 63 - k"
    using l by (rule leading_zeros_top_bit)
  moreover have "(64 :: u64) - of_nat (63 - k) = of_nat (k + 1)"
    using 0 by (simp add: of_nat_diff)
  ultimately show ?case
    using 0 by (intro log2floor_loop_hit) simp_all
next
  case (Suc i)
  show ?case
  proof (cases "k < 64 * Suc i")
    case True
    then have "limb v (Suc i) = 0"
      using assms(2) by (auto simp: limb_zero_iff)
    with Suc True show ?thesis
      by (subst log2floor_loop.simps) (simp add: Let_def)
  next
    case False
    define r where "r = k - 64 * Suc i"
    have k: "k = 64 * Suc i + r" and "r < 64"
      using False Suc.prems by (auto simp: r_def)
    then have l: "bit (limb v (Suc i)) r" "\<forall>i'>r. \<not> bit (limb v (Suc i)) i'"
      using assms(1,2) by (simp_all add: bit_limb)
    then have "limb v (Suc i) \<noteq> 0" by auto
    moreover have "leading_zeros (limb v (Suc i)) = 63 - r"
      using l by (rule leading_zeros_top_bit)
    moreover have "(of_nat (64 * Suc (Suc i)) :: u64) - of_nat (63 - r) = of_nat (k + 1)"
      using \<open>r < 64\<close> by (simp add: k of_nat_diff)
    ultimately show ?thesis
      using Suc.prems by (intro log2floor_loop_hit) simp_all
  qed
qed

lemma log2floor_top_bit:
  assumes "bit v k" "\<forall>j>k. \<not> bit v j"
  shows "log2floor v = of_nat k"
  using log2floor_loop_top_bit [OF assms, of 3] bit_imp_le_length [OF assms(1)]
  by (simp add: log2floor_def)

lemma top_bit_exists:
  assumes "v \<noteq> (0 :: u256)"
  obtains k where "bit v k" "\<forall>j>k. \<not> bit v j" "k < 256" "2 ^ k \<le> unat v" "unat v < 2 ^ Suc k"
proof -
  define k where "k = Max {i. bit v i}"
  have fin: "finite {i. bit v i}"
    by (rule finite_subset [of _ "{..<256}"]) (auto dest: bit_imp_le_length)
  moreover have "{i. bit v i} \<noteq> {}" using assms by (auto simp: bit_eq_iff)
  ultimately have k: "bit v k" and top: "\<forall>j>k. \<not> bit v j"
    using Max_in [OF fin] Max_ge [OF fin] by (auto simp: k_def not_le [symmetric])
  have "k < 256" using bit_imp_le_length [OF k] by simp
  have "take_bit (Suc k) v = v"
    using top by (auto simp: bit_eq_iff bit_simps not_less_eq [symmetric] less_Suc_eq_le)
  then have "take_bit (Suc k) (unat v) = unat v"
    by (metis unsigned_take_bit_eq)
  then have "unat v < 2 ^ Suc k" by (metis take_bit_nat_less_exp)
  moreover have "2 ^ k \<le> unat v"
  proof (rule ccontr)
    assume "\<not> 2 ^ k \<le> unat v"
    then have "take_bit k (unat v) = unat v" by (simp add: take_bit_nat_eq_self)
    then have "\<not> bit (unat v) k" by (metis bit_take_bit_iff less_irrefl)
    with k \<open>k < 256\<close> show False by (simp add: bit_unsigned_iff)
  qed
  ultimately show thesis using that k top \<open>k < 256\<close> by blast
qed

text \<open>The number of bytes of a non-zero exponent, and the price of \<open>EXP\<close> by the protocol:
  10 plus 50 (10 before Spurious Dragon) per byte of the exponent.\<close>

definition byte_length :: "u256 \<Rightarrow> nat" where
  "byte_length v = (LEAST n. unat v < 256 ^ n)"

lemma byte_length_top_bit:
  assumes "2 ^ k \<le> unat v" "unat v < 2 ^ Suc k"
  shows "byte_length v = k div 8 + 1"
  unfolding byte_length_def
proof (rule Least_equality)
  have e: "(256::nat) ^ n = 2 ^ (8 * n)" for n by (simp add: power_mult)
  have "Suc k \<le> 8 * (k div 8 + 1)" by simp
  then have "(2::nat) ^ Suc k \<le> 256 ^ (k div 8 + 1)"
    unfolding e by (rule power_increasing) simp
  with assms(2) show "unat v < 256 ^ (k div 8 + 1)" by linarith
  fix n assume "unat v < 256 ^ n"
  with assms(1) have "(2::nat) ^ k < 2 ^ (8 * n)" unfolding e by linarith
  then have "k < 8 * n" by (simp add: power_strict_increasing_iff)
  then show "k div 8 + 1 \<le> n" by linarith
qed

text \<open>C25. The limb-wise \<open>log2floor\<close> loop prices \<open>EXP\<close> as the protocol defines it: the cost
  is always defined and equals 10 plus the fork's price per byte of the exponent.\<close>
theorem exp_cost_per_byte:
  "map_option unat (exp_cost spec pow)
     = Some (10 + (if is_enabled_in spec SPURIOUS_DRAGON then 50 else 10) *
              (if pow = 0 then 0 else byte_length pow))"
proof (cases "pow = 0")
  case True
  then show ?thesis by (simp add: exp_cost_def gas_const)
next
  case False
  then obtain k where k: "bit pow k" "\<forall>j>k. \<not> bit pow j" "k < 256"
    and b: "2 ^ k \<le> unat pow" "unat pow < 2 ^ Suc k"
    by (rule top_bit_exists)
  have d: "unat (of_nat k div 8 + 1 :: u64) = k div 8 + 1"
  proof -
    have "(of_nat k div 8 + 1 :: u64) = of_nat (k div 8 + 1)"
      using k(3) by (simp add: word_unat_eq_iff unat_div_distrib unat_of_nat_small unat_word_ariths)
    then show ?thesis using k(3) by (simp add: unat_of_nat_small del: of_nat_Suc)
  qed
  have "unat (ucast (of_nat k div 8 + 1 :: u64) :: u256) = k div 8 + 1"
    using d by (simp add: unat_ucast_up)
  moreover have "k div 8 < 32" using k(3) by simp
  ultimately show ?thesis
    using False
    by (simp add: exp_cost_def log2floor_top_bit [OF k(1,2)] byte_length_top_bit [OF b] rust_arith
        gas_const Let_def unat_word_ariths unat_ucast_small)
qed

section \<open>The gas meter\<close>

definition gas_inv :: "gas \<Rightarrow> bool" where
  "gas_inv g \<longleftrightarrow> g_remaining g \<le> g_limit g \<and> memory_gas_inv (g_memory g)"

lemma record_cost_True:
  "record_cost c g = (True, g') \<longleftrightarrow> c \<le> g_remaining g \<and> g' = g\<lparr>g_remaining := g_remaining g - c\<rparr>"
  by (auto simp: record_cost_def checked_sub_def)

lemma record_cost_False: "record_cost c g = (False, g') \<longleftrightarrow> g_remaining g < c \<and> g' = g"
  by (auto simp: record_cost_def checked_sub_def not_le)

lemma record_cost_unsafe_iff: "fst (record_cost_unsafe c g) \<longleftrightarrow> \<not> fst (record_cost c g)"
  by (auto simp: record_cost_unsafe_def record_cost_def checked_sub_def Let_def not_le)

text \<open>C16. At the end of a transaction the refund is capped to a fifth (a half before London) of
  the gas spent and never leaves the signed range, for any recorded non-negative refund; the
  gas used after the refund stays between four fifths (a half) of the gas spent and the limit.\<close>
theorem set_final_refund_bounds:
  assumes "g_remaining g \<le> g_limit g" "0 \<le> sint (g_refunded g)"
  shows "0 \<le> sint (g_refunded (set_final_refund is_london g))
    \<and> unat (g_refunded (set_final_refund is_london g))
        = min (unat (g_refunded g)) (unat (spent g) div (if is_london then 5 else 2))
    \<and> unat (used (set_final_refund is_london g))
        + unat (g_refunded (set_final_refund is_london g)) = unat (spent g)
    \<and> unat (spent g) \<le> unat (g_limit g)"
proof -
  define r where "r = g_refunded (set_final_refund is_london g)"
  have r: "unat r = min (unat (g_refunded g)) (unat (spent g) div (if is_london then 5 else 2))"
    by (simp add: r_def set_final_refund_def min_def word_le_nat_alt unat_div_distrib)
  then have "unat r \<le> unat (g_refunded g)" "unat r \<le> unat (spent g)"
    by (auto simp: min_def intro: order_trans [OF _ div_le_dividend])
  moreover have "spent (set_final_refund is_london g) = spent g"
    by (simp add: set_final_refund_def spent_def Let_def)
  moreover have "unat (spent g) \<le> unat (g_limit g)"
    using assms(1) by (simp add: spent_def unat_sub_if_size word_le_nat_alt)
  ultimately show ?thesis
    using assms(2) r by (simp add: r_def [symmetric] used_def unat_saturating_sub sint_nonneg_iff)
qed

theorem set_final_refund_bounds_witness:
  "unat (g_refunded (set_final_refund True
     \<lparr>g_limit = 100000, g_remaining = 40000, g_refunded = 24000, g_memory = memory_gas_new\<rparr>)) = 12000"
  using set_final_refund_bounds
    [of "\<lparr>g_limit = 100000, g_remaining = 40000, g_refunded = 24000, g_memory = memory_gas_new\<rparr>" True]
  by (simp add: spent_def)

end
