(* ===== verification/Warm.thy ===== *)
theory Warm
  imports Prelude
begin

text \<open>
  Warm addresses (\<open>crates/context/src/journal/warm_addresses.rs\<close> and \<open>short_address\<close> of
  \<open>crates/primitives/src/lib.rs\<close>): coinbase, access list and precompiles of a transaction, with the
  bit vector that speeds up the lookup of short precompile addresses. A hash set that is iterated
  is given by the list of its elements in iteration order.
\<close>

definition SHORT_ADDRESS_CAP :: usize where
  "SHORT_ADDRESS_CAP = 300"

definition short_address :: "address \<Rightarrow> usize option" where
  "short_address a =
     (let bs = to_be_bytes 20 a
      in if list_all (\<lambda>b. b = 0) (take 18 bs) then
           (let short = ucast (from_be_bytes [bs ! 18, bs ! 19] :: u16) :: usize
            in if short < SHORT_ADDRESS_CAP then Some short else None)
         else None)"

record warm_addresses =
  precompile_set :: "address set"
  precompile_short_addresses :: "bool list"
  precompile_all_short_addresses :: bool
  wa_coinbase :: "address option"
  wa_access_list :: "address \<rightharpoonup> u256 set"

definition warm_addresses_new :: warm_addresses where
  "warm_addresses_new =
     \<lparr>precompile_set = {}, precompile_short_addresses = replicate (unat SHORT_ADDRESS_CAP) False,
      precompile_all_short_addresses = True, wa_coinbase = None, wa_access_list = Map.empty\<rparr>"

fun set_short_addresses :: "address list \<Rightarrow> bool list \<Rightarrow> bool \<Rightarrow> bool list \<times> bool" where
  "set_short_addresses [] bits all_short = (bits, all_short)"
| "set_short_addresses (a # as) bits all_short =
     (case short_address a of
        Some s \<Rightarrow> set_short_addresses as (bits[unat s := True]) all_short
      | None \<Rightarrow> set_short_addresses as bits False)"

definition set_precompile_addresses :: "address list \<Rightarrow> warm_addresses \<Rightarrow> warm_addresses" where
  "set_precompile_addresses addresses w =
     (let bits = map (\<lambda>_. False) (precompile_short_addresses w);
          (bits, all_short) = set_short_addresses addresses bits True
      in w\<lparr>precompile_short_addresses := bits, precompile_all_short_addresses := all_short,
           precompile_set := set addresses\<rparr>)"

definition set_coinbase :: "address \<Rightarrow> warm_addresses \<Rightarrow> warm_addresses" where
  "set_coinbase a w = w\<lparr>wa_coinbase := Some a\<rparr>"

definition set_access_list :: "(address \<rightharpoonup> u256 set) \<Rightarrow> warm_addresses \<Rightarrow> warm_addresses" where
  "set_access_list al w = w\<lparr>wa_access_list := al\<rparr>"

definition clear_coinbase :: "warm_addresses \<Rightarrow> warm_addresses" where
  "clear_coinbase w = w\<lparr>wa_coinbase := None\<rparr>"

definition clear_coinbase_and_access_list :: "warm_addresses \<Rightarrow> warm_addresses" where
  "clear_coinbase_and_access_list w = w\<lparr>wa_coinbase := None, wa_access_list := Map.empty\<rparr>"

definition is_warm :: "warm_addresses \<Rightarrow> address \<Rightarrow> bool" where
  "is_warm w a =
     (if Some a = wa_coinbase w then True
      else if wa_access_list w a \<noteq> None then True
      else if precompile_set w = {} then False
      else
        (case short_address a of
           Some s \<Rightarrow> precompile_short_addresses w ! unat s
         | None \<Rightarrow>
             if \<not> precompile_all_short_addresses w then a \<in> precompile_set w else False))"

definition is_storage_warm :: "warm_addresses \<Rightarrow> address \<Rightarrow> u256 \<Rightarrow> bool" where
  "is_storage_warm w a key =
     (case wa_access_list w a of Some keys \<Rightarrow> key \<in> keys | None \<Rightarrow> False)"

definition is_cold :: "warm_addresses \<Rightarrow> address \<Rightarrow> bool" where
  "is_cold w a \<longleftrightarrow> \<not> is_warm w a"

section \<open>Short addresses\<close>

lemma nth_to_be_bytes: "i < n \<Longrightarrow> to_be_bytes n w ! i = ucast (drop_bit (8 * (n - 1 - i)) w)"
  by (simp add: to_be_bytes_def)

lemma high_bytes_zero_iff:
  "list_all (\<lambda>b. b = 0) (take 18 (to_be_bytes 20 a)) \<longleftrightarrow> unat (a :: address) < 2 ^ 16"
proof
  assume z: "list_all (\<lambda>b. b = 0) (take 18 (to_be_bytes 20 a))"
  have "\<not> bit a n" if n: "16 \<le> n" "n < 160" for n
  proof -
    define i where "i = 19 - n div 8"
    have "n div 8 < 20" "2 \<le> n div 8" using n by auto
    then have i: "i < 18" "19 - i = n div 8" by (auto simp: i_def)
    then have "to_be_bytes 20 a ! i = 0" using z by (simp add: list_all_length)
    then have "\<not> bit (ucast (drop_bit (8 * (n div 8)) a) :: u8) (n mod 8)"
      using i by (simp add: nth_to_be_bytes)
    then show ?thesis by (simp add: bit_simps)
  qed
  then have "bit a n \<Longrightarrow> n < 16" for n
    using bit_imp_le_length [of a n] by (cases "16 \<le> n") auto
  then have "take_bit 16 a = a"
    by (intro bit_eqI) (auto simp: bit_simps)
  then have "take_bit 16 (unat a) = unat a" by (metis unsigned_take_bit_eq)
  then show "unat a < 2 ^ 16" by (metis take_bit_nat_less_exp)
next
  assume a: "unat a < 2 ^ 16"
  have "take 18 (to_be_bytes 20 a) ! i = 0" if "i < 18" for i
  proof -
    have "unat (drop_bit (8 * (19 - i)) a) = 0"
    proof -
      have "(2::nat) ^ 16 \<le> 2 ^ (8 * (19 - i))" using that by (intro power_increasing) auto
      with a have "unat a div 2 ^ (8 * (19 - i)) = 0" by (intro div_less) linarith
      then show ?thesis unfolding unat_drop_bit_eq by (simp add: drop_bit_eq_div)
    qed
    then show ?thesis using that by (simp add: nth_to_be_bytes unsigned_eq_0_iff)
  qed
  then show "list_all (\<lambda>b. b = 0) (take 18 (to_be_bytes 20 a))" by (simp add: list_all_length)
qed

lemma low_bytes: "from_be_bytes [to_be_bytes 20 a ! 18, to_be_bytes 20 a ! 19] = (ucast (a :: address) :: u16)"
proof -
  have "from_be_bytes [x, y] = (push_bit 8 (ucast x) OR ucast y :: u16)" for x y
    by (simp add: from_be_bytes_def push_bit_plus_ucast)
  then show ?thesis
    by (intro bit_eqI) (auto simp: nth_to_be_bytes bit_simps)
qed

lemma short_address_eq:
  "short_address a = (if unat a < 300 then Some (ucast a) else None)"
proof (cases "unat a < 2 ^ 16")
  case True
  then have "ucast (ucast a :: u16) = (ucast a :: usize)"
    by (simp add: word_unat_eq_iff unat_ucast_small)
  moreover have "unat (ucast a :: usize) = unat a" using True by (simp add: unat_ucast_small)
  ultimately show ?thesis
    using True high_bytes_zero_iff [of a]
    by (simp add: short_address_def Let_def low_bytes SHORT_ADDRESS_CAP_def word_less_nat_alt)
next
  case False
  then show ?thesis using high_bytes_zero_iff [of a] by (simp add: short_address_def Let_def)
qed

section \<open>Lookup\<close>

lemma set_short_addresses_spec:
  assumes "set_short_addresses as bits all_short = (bits', all_short')" "length bits = 300"
  shows "length bits' = 300
    \<and> (\<forall>i < 300. bits' ! i \<longleftrightarrow> bits ! i \<or> (\<exists>a \<in> set as. unat a = i))
    \<and> (all_short' \<longleftrightarrow> all_short \<and> (\<forall>a \<in> set as. unat a < 300))"
  using assms
proof (induction as arbitrary: bits all_short)
  case Nil
  then show ?case by simp
next
  case (Cons a as)
  show ?case
  proof (cases "unat a < 300")
    case True
    then have "set_short_addresses as (bits[unat a := True]) all_short = (bits', all_short')"
      using Cons.prems by (simp add: short_address_eq unat_ucast_small)
    from Cons.IH [OF this] True Cons.prems(2) show ?thesis
      by (auto simp: nth_list_update)
  next
    case False
    then have "set_short_addresses as bits False = (bits', all_short')"
      using Cons.prems by (simp add: short_address_eq)
    from Cons.IH [OF this] False Cons.prems(2) show ?thesis by auto
  qed
qed

text \<open>C26. The bit-vector optimisation of the precompile lookup is exact: after
  \<open>set_precompile_addresses\<close>, an address is warm if and only if it is the coinbase, is named in
  the access list, or is one of the given precompile addresses, for short and long addresses
  alike.\<close>
theorem is_warm_correct:
  assumes "length (precompile_short_addresses w) = 300"
  shows "is_warm (set_precompile_addresses as w) a \<longleftrightarrow>
     wa_coinbase w = Some a \<or> a \<in> dom (wa_access_list w) \<or> a \<in> set as"
proof -
  obtain bits all_short where s:
    "set_short_addresses as (map (\<lambda>_. False) (precompile_short_addresses w)) True = (bits, all_short)"
    by fastforce
  note spec = set_short_addresses_spec [OF s]
  have "unat a < 300 \<Longrightarrow> bits ! unat a \<longleftrightarrow> a \<in> set as"
    using spec assms by (auto dest!: word_unat_eq_iff [THEN iffD2])
  moreover have "\<not> unat a < 300 \<Longrightarrow> all_short \<Longrightarrow> a \<notin> set as"
    using spec assms by auto
  ultimately show ?thesis
    by (auto simp: is_warm_def set_precompile_addresses_def s short_address_eq unat_ucast_small)
qed

theorem is_warm_correct_witness:
  "is_warm (set_precompile_addresses [1, 2, 0x1000] warm_addresses_new) 0x1000
   \<and> \<not> is_warm (set_precompile_addresses [1, 2, 0x1000] warm_addresses_new) 3"
  using is_warm_correct [of warm_addresses_new "[1, 2, 0x1000]"]
  by (simp add: warm_addresses_new_def SHORT_ADDRESS_CAP_def)

end
