(* ===== verification/Opcode.thy ===== *)
theory Opcode
  imports Prelude
begin

text \<open>
  Opcodes (\<open>crates/bytecode/src/opcode.rs\<close>): the opcode constants, the table \<open>OPCODE_INFO\<close> that
  the \<open>opcodes!\<close> macro builds from its rows and modifiers, and the queries on an opcode byte.
\<close>

named_theorems op_const \<open>values of the opcodes\<close>

section \<open>Opcode constants\<close>

definition op_STOP :: u8 where "op_STOP = 0x00"
definition op_ADD :: u8 where "op_ADD = 0x01"
definition op_MUL :: u8 where "op_MUL = 0x02"
definition op_SUB :: u8 where "op_SUB = 0x03"
definition op_DIV :: u8 where "op_DIV = 0x04"
definition op_SDIV :: u8 where "op_SDIV = 0x05"
definition op_MOD :: u8 where "op_MOD = 0x06"
definition op_SMOD :: u8 where "op_SMOD = 0x07"
definition op_ADDMOD :: u8 where "op_ADDMOD = 0x08"
definition op_MULMOD :: u8 where "op_MULMOD = 0x09"
definition op_EXP :: u8 where "op_EXP = 0x0A"
definition op_SIGNEXTEND :: u8 where "op_SIGNEXTEND = 0x0B"
definition op_LT :: u8 where "op_LT = 0x10"
definition op_GT :: u8 where "op_GT = 0x11"
definition op_SLT :: u8 where "op_SLT = 0x12"
definition op_SGT :: u8 where "op_SGT = 0x13"
definition op_EQ :: u8 where "op_EQ = 0x14"
definition op_ISZERO :: u8 where "op_ISZERO = 0x15"
definition op_AND :: u8 where "op_AND = 0x16"
definition op_OR :: u8 where "op_OR = 0x17"
definition op_XOR :: u8 where "op_XOR = 0x18"
definition op_NOT :: u8 where "op_NOT = 0x19"
definition op_BYTE :: u8 where "op_BYTE = 0x1A"
definition op_SHL :: u8 where "op_SHL = 0x1B"
definition op_SHR :: u8 where "op_SHR = 0x1C"
definition op_SAR :: u8 where "op_SAR = 0x1D"
definition op_CLZ :: u8 where "op_CLZ = 0x1E"
definition op_KECCAK256 :: u8 where "op_KECCAK256 = 0x20"
definition op_ADDRESS :: u8 where "op_ADDRESS = 0x30"
definition op_BALANCE :: u8 where "op_BALANCE = 0x31"
definition op_ORIGIN :: u8 where "op_ORIGIN = 0x32"
definition op_CALLER :: u8 where "op_CALLER = 0x33"
definition op_CALLVALUE :: u8 where "op_CALLVALUE = 0x34"
definition op_CALLDATALOAD :: u8 where "op_CALLDATALOAD = 0x35"
definition op_CALLDATASIZE :: u8 where "op_CALLDATASIZE = 0x36"
definition op_CALLDATACOPY :: u8 where "op_CALLDATACOPY = 0x37"
definition op_CODESIZE :: u8 where "op_CODESIZE = 0x38"
definition op_CODECOPY :: u8 where "op_CODECOPY = 0x39"
definition op_GASPRICE :: u8 where "op_GASPRICE = 0x3A"
definition op_EXTCODESIZE :: u8 where "op_EXTCODESIZE = 0x3B"
definition op_EXTCODECOPY :: u8 where "op_EXTCODECOPY = 0x3C"
definition op_RETURNDATASIZE :: u8 where "op_RETURNDATASIZE = 0x3D"
definition op_RETURNDATACOPY :: u8 where "op_RETURNDATACOPY = 0x3E"
definition op_EXTCODEHASH :: u8 where "op_EXTCODEHASH = 0x3F"
definition op_BLOCKHASH :: u8 where "op_BLOCKHASH = 0x40"
definition op_COINBASE :: u8 where "op_COINBASE = 0x41"
definition op_TIMESTAMP :: u8 where "op_TIMESTAMP = 0x42"
definition op_NUMBER :: u8 where "op_NUMBER = 0x43"
definition op_DIFFICULTY :: u8 where "op_DIFFICULTY = 0x44"
definition op_GASLIMIT :: u8 where "op_GASLIMIT = 0x45"
definition op_CHAINID :: u8 where "op_CHAINID = 0x46"
definition op_SELFBALANCE :: u8 where "op_SELFBALANCE = 0x47"
definition op_BASEFEE :: u8 where "op_BASEFEE = 0x48"
definition op_BLOBHASH :: u8 where "op_BLOBHASH = 0x49"
definition op_BLOBBASEFEE :: u8 where "op_BLOBBASEFEE = 0x4A"
definition op_POP :: u8 where "op_POP = 0x50"
definition op_MLOAD :: u8 where "op_MLOAD = 0x51"
definition op_MSTORE :: u8 where "op_MSTORE = 0x52"
definition op_MSTORE8 :: u8 where "op_MSTORE8 = 0x53"
definition op_SLOAD :: u8 where "op_SLOAD = 0x54"
definition op_SSTORE :: u8 where "op_SSTORE = 0x55"
definition op_JUMP :: u8 where "op_JUMP = 0x56"
definition op_JUMPI :: u8 where "op_JUMPI = 0x57"
definition op_PC :: u8 where "op_PC = 0x58"
definition op_MSIZE :: u8 where "op_MSIZE = 0x59"
definition op_GAS :: u8 where "op_GAS = 0x5A"
definition op_JUMPDEST :: u8 where "op_JUMPDEST = 0x5B"
definition op_TLOAD :: u8 where "op_TLOAD = 0x5C"
definition op_TSTORE :: u8 where "op_TSTORE = 0x5D"
definition op_MCOPY :: u8 where "op_MCOPY = 0x5E"
definition op_PUSH0 :: u8 where "op_PUSH0 = 0x5F"
definition op_PUSH1 :: u8 where "op_PUSH1 = 0x60"
definition op_PUSH2 :: u8 where "op_PUSH2 = 0x61"
definition op_PUSH3 :: u8 where "op_PUSH3 = 0x62"
definition op_PUSH4 :: u8 where "op_PUSH4 = 0x63"
definition op_PUSH5 :: u8 where "op_PUSH5 = 0x64"
definition op_PUSH6 :: u8 where "op_PUSH6 = 0x65"
definition op_PUSH7 :: u8 where "op_PUSH7 = 0x66"
definition op_PUSH8 :: u8 where "op_PUSH8 = 0x67"
definition op_PUSH9 :: u8 where "op_PUSH9 = 0x68"
definition op_PUSH10 :: u8 where "op_PUSH10 = 0x69"
definition op_PUSH11 :: u8 where "op_PUSH11 = 0x6A"
definition op_PUSH12 :: u8 where "op_PUSH12 = 0x6B"
definition op_PUSH13 :: u8 where "op_PUSH13 = 0x6C"
definition op_PUSH14 :: u8 where "op_PUSH14 = 0x6D"
definition op_PUSH15 :: u8 where "op_PUSH15 = 0x6E"
definition op_PUSH16 :: u8 where "op_PUSH16 = 0x6F"
definition op_PUSH17 :: u8 where "op_PUSH17 = 0x70"
definition op_PUSH18 :: u8 where "op_PUSH18 = 0x71"
definition op_PUSH19 :: u8 where "op_PUSH19 = 0x72"
definition op_PUSH20 :: u8 where "op_PUSH20 = 0x73"
definition op_PUSH21 :: u8 where "op_PUSH21 = 0x74"
definition op_PUSH22 :: u8 where "op_PUSH22 = 0x75"
definition op_PUSH23 :: u8 where "op_PUSH23 = 0x76"
definition op_PUSH24 :: u8 where "op_PUSH24 = 0x77"
definition op_PUSH25 :: u8 where "op_PUSH25 = 0x78"
definition op_PUSH26 :: u8 where "op_PUSH26 = 0x79"
definition op_PUSH27 :: u8 where "op_PUSH27 = 0x7A"
definition op_PUSH28 :: u8 where "op_PUSH28 = 0x7B"
definition op_PUSH29 :: u8 where "op_PUSH29 = 0x7C"
definition op_PUSH30 :: u8 where "op_PUSH30 = 0x7D"
definition op_PUSH31 :: u8 where "op_PUSH31 = 0x7E"
definition op_PUSH32 :: u8 where "op_PUSH32 = 0x7F"
definition op_DUP1 :: u8 where "op_DUP1 = 0x80"
definition op_DUP2 :: u8 where "op_DUP2 = 0x81"
definition op_DUP3 :: u8 where "op_DUP3 = 0x82"
definition op_DUP4 :: u8 where "op_DUP4 = 0x83"
definition op_DUP5 :: u8 where "op_DUP5 = 0x84"
definition op_DUP6 :: u8 where "op_DUP6 = 0x85"
definition op_DUP7 :: u8 where "op_DUP7 = 0x86"
definition op_DUP8 :: u8 where "op_DUP8 = 0x87"
definition op_DUP9 :: u8 where "op_DUP9 = 0x88"
definition op_DUP10 :: u8 where "op_DUP10 = 0x89"
definition op_DUP11 :: u8 where "op_DUP11 = 0x8A"
definition op_DUP12 :: u8 where "op_DUP12 = 0x8B"
definition op_DUP13 :: u8 where "op_DUP13 = 0x8C"
definition op_DUP14 :: u8 where "op_DUP14 = 0x8D"
definition op_DUP15 :: u8 where "op_DUP15 = 0x8E"
definition op_DUP16 :: u8 where "op_DUP16 = 0x8F"
definition op_SWAP1 :: u8 where "op_SWAP1 = 0x90"
definition op_SWAP2 :: u8 where "op_SWAP2 = 0x91"
definition op_SWAP3 :: u8 where "op_SWAP3 = 0x92"
definition op_SWAP4 :: u8 where "op_SWAP4 = 0x93"
definition op_SWAP5 :: u8 where "op_SWAP5 = 0x94"
definition op_SWAP6 :: u8 where "op_SWAP6 = 0x95"
definition op_SWAP7 :: u8 where "op_SWAP7 = 0x96"
definition op_SWAP8 :: u8 where "op_SWAP8 = 0x97"
definition op_SWAP9 :: u8 where "op_SWAP9 = 0x98"
definition op_SWAP10 :: u8 where "op_SWAP10 = 0x99"
definition op_SWAP11 :: u8 where "op_SWAP11 = 0x9A"
definition op_SWAP12 :: u8 where "op_SWAP12 = 0x9B"
definition op_SWAP13 :: u8 where "op_SWAP13 = 0x9C"
definition op_SWAP14 :: u8 where "op_SWAP14 = 0x9D"
definition op_SWAP15 :: u8 where "op_SWAP15 = 0x9E"
definition op_SWAP16 :: u8 where "op_SWAP16 = 0x9F"
definition op_LOG0 :: u8 where "op_LOG0 = 0xA0"
definition op_LOG1 :: u8 where "op_LOG1 = 0xA1"
definition op_LOG2 :: u8 where "op_LOG2 = 0xA2"
definition op_LOG3 :: u8 where "op_LOG3 = 0xA3"
definition op_LOG4 :: u8 where "op_LOG4 = 0xA4"
definition op_CREATE :: u8 where "op_CREATE = 0xF0"
definition op_CALL :: u8 where "op_CALL = 0xF1"
definition op_CALLCODE :: u8 where "op_CALLCODE = 0xF2"
definition op_RETURN :: u8 where "op_RETURN = 0xF3"
definition op_DELEGATECALL :: u8 where "op_DELEGATECALL = 0xF4"
definition op_CREATE2 :: u8 where "op_CREATE2 = 0xF5"
definition op_STATICCALL :: u8 where "op_STATICCALL = 0xFA"
definition op_REVERT :: u8 where "op_REVERT = 0xFD"
definition op_INVALID :: u8 where "op_INVALID = 0xFE"
definition op_SELFDESTRUCT :: u8 where "op_SELFDESTRUCT = 0xFF"

lemmas [op_const] =
  op_STOP_def op_ADD_def op_MUL_def op_SUB_def op_DIV_def op_SDIV_def op_MOD_def op_SMOD_def
  op_ADDMOD_def op_MULMOD_def op_EXP_def op_SIGNEXTEND_def op_LT_def op_GT_def op_SLT_def
  op_SGT_def op_EQ_def op_ISZERO_def op_AND_def op_OR_def op_XOR_def op_NOT_def op_BYTE_def
  op_SHL_def op_SHR_def op_SAR_def op_CLZ_def op_KECCAK256_def op_ADDRESS_def op_BALANCE_def
  op_ORIGIN_def op_CALLER_def op_CALLVALUE_def op_CALLDATALOAD_def op_CALLDATASIZE_def
  op_CALLDATACOPY_def op_CODESIZE_def op_CODECOPY_def op_GASPRICE_def op_EXTCODESIZE_def
  op_EXTCODECOPY_def op_RETURNDATASIZE_def op_RETURNDATACOPY_def op_EXTCODEHASH_def
  op_BLOCKHASH_def op_COINBASE_def op_TIMESTAMP_def op_NUMBER_def op_DIFFICULTY_def
  op_GASLIMIT_def op_CHAINID_def op_SELFBALANCE_def op_BASEFEE_def op_BLOBHASH_def
  op_BLOBBASEFEE_def op_POP_def op_MLOAD_def op_MSTORE_def op_MSTORE8_def op_SLOAD_def
  op_SSTORE_def op_JUMP_def op_JUMPI_def op_PC_def op_MSIZE_def op_GAS_def op_JUMPDEST_def
  op_TLOAD_def op_TSTORE_def op_MCOPY_def op_PUSH0_def op_PUSH1_def op_PUSH2_def op_PUSH3_def
  op_PUSH4_def op_PUSH5_def op_PUSH6_def op_PUSH7_def op_PUSH8_def op_PUSH9_def op_PUSH10_def
  op_PUSH11_def op_PUSH12_def op_PUSH13_def op_PUSH14_def op_PUSH15_def op_PUSH16_def
  op_PUSH17_def op_PUSH18_def op_PUSH19_def op_PUSH20_def op_PUSH21_def op_PUSH22_def
  op_PUSH23_def op_PUSH24_def op_PUSH25_def op_PUSH26_def op_PUSH27_def op_PUSH28_def
  op_PUSH29_def op_PUSH30_def op_PUSH31_def op_PUSH32_def op_DUP1_def op_DUP2_def op_DUP3_def
  op_DUP4_def op_DUP5_def op_DUP6_def op_DUP7_def op_DUP8_def op_DUP9_def op_DUP10_def
  op_DUP11_def op_DUP12_def op_DUP13_def op_DUP14_def op_DUP15_def op_DUP16_def op_SWAP1_def
  op_SWAP2_def op_SWAP3_def op_SWAP4_def op_SWAP5_def op_SWAP6_def op_SWAP7_def op_SWAP8_def
  op_SWAP9_def op_SWAP10_def op_SWAP11_def op_SWAP12_def op_SWAP13_def op_SWAP14_def
  op_SWAP15_def op_SWAP16_def op_LOG0_def op_LOG1_def op_LOG2_def op_LOG3_def op_LOG4_def
  op_CREATE_def op_CALL_def op_CALLCODE_def op_RETURN_def op_DELEGATECALL_def op_CREATE2_def
  op_STATICCALL_def op_REVERT_def op_INVALID_def op_SELFDESTRUCT_def

section \<open>Opcode information\<close>

record op_code_info =
  oi_name :: string
  oi_inputs :: u8
  oi_outputs :: u8
  oi_immediate_size :: u8
  oi_terminating :: bool

definition op_code_info_new :: "string \<Rightarrow> op_code_info" where
  "op_code_info_new name =
     \<lparr>oi_name = name, oi_inputs = 0, oi_outputs = 0, oi_immediate_size = 0, oi_terminating = False\<rparr>"

definition immediate_size :: "op_code_info \<Rightarrow> u8 \<Rightarrow> op_code_info" where
  "immediate_size op n = op\<lparr>oi_immediate_size := n\<rparr>"

definition terminating :: "op_code_info \<Rightarrow> op_code_info" where
  "terminating op = op\<lparr>oi_terminating := True\<rparr>"

definition stack_io :: "op_code_info \<Rightarrow> u8 \<Rightarrow> u8 \<Rightarrow> op_code_info" where
  "stack_io op inputs outputs = op\<lparr>oi_inputs := inputs, oi_outputs := outputs\<rparr>"

definition opcode_rows :: "(u8 \<times> op_code_info) list" where
  "opcode_rows = [
     (0x00, terminating (stack_io (op_code_info_new ''STOP'') 0 0)),
     (0x01, stack_io (op_code_info_new ''ADD'') 2 1),
     (0x02, stack_io (op_code_info_new ''MUL'') 2 1),
     (0x03, stack_io (op_code_info_new ''SUB'') 2 1),
     (0x04, stack_io (op_code_info_new ''DIV'') 2 1),
     (0x05, stack_io (op_code_info_new ''SDIV'') 2 1),
     (0x06, stack_io (op_code_info_new ''MOD'') 2 1),
     (0x07, stack_io (op_code_info_new ''SMOD'') 2 1),
     (0x08, stack_io (op_code_info_new ''ADDMOD'') 3 1),
     (0x09, stack_io (op_code_info_new ''MULMOD'') 3 1),
     (0x0A, stack_io (op_code_info_new ''EXP'') 2 1),
     (0x0B, stack_io (op_code_info_new ''SIGNEXTEND'') 2 1),
     (0x10, stack_io (op_code_info_new ''LT'') 2 1),
     (0x11, stack_io (op_code_info_new ''GT'') 2 1),
     (0x12, stack_io (op_code_info_new ''SLT'') 2 1),
     (0x13, stack_io (op_code_info_new ''SGT'') 2 1),
     (0x14, stack_io (op_code_info_new ''EQ'') 2 1),
     (0x15, stack_io (op_code_info_new ''ISZERO'') 1 1),
     (0x16, stack_io (op_code_info_new ''AND'') 2 1),
     (0x17, stack_io (op_code_info_new ''OR'') 2 1),
     (0x18, stack_io (op_code_info_new ''XOR'') 2 1),
     (0x19, stack_io (op_code_info_new ''NOT'') 1 1),
     (0x1A, stack_io (op_code_info_new ''BYTE'') 2 1),
     (0x1B, stack_io (op_code_info_new ''SHL'') 2 1),
     (0x1C, stack_io (op_code_info_new ''SHR'') 2 1),
     (0x1D, stack_io (op_code_info_new ''SAR'') 2 1),
     (0x1E, stack_io (op_code_info_new ''CLZ'') 1 1),
     (0x20, stack_io (op_code_info_new ''KECCAK256'') 2 1),
     (0x30, stack_io (op_code_info_new ''ADDRESS'') 0 1),
     (0x31, stack_io (op_code_info_new ''BALANCE'') 1 1),
     (0x32, stack_io (op_code_info_new ''ORIGIN'') 0 1),
     (0x33, stack_io (op_code_info_new ''CALLER'') 0 1),
     (0x34, stack_io (op_code_info_new ''CALLVALUE'') 0 1),
     (0x35, stack_io (op_code_info_new ''CALLDATALOAD'') 1 1),
     (0x36, stack_io (op_code_info_new ''CALLDATASIZE'') 0 1),
     (0x37, stack_io (op_code_info_new ''CALLDATACOPY'') 3 0),
     (0x38, stack_io (op_code_info_new ''CODESIZE'') 0 1),
     (0x39, stack_io (op_code_info_new ''CODECOPY'') 3 0),
     (0x3A, stack_io (op_code_info_new ''GASPRICE'') 0 1),
     (0x3B, stack_io (op_code_info_new ''EXTCODESIZE'') 1 1),
     (0x3C, stack_io (op_code_info_new ''EXTCODECOPY'') 4 0),
     (0x3D, stack_io (op_code_info_new ''RETURNDATASIZE'') 0 1),
     (0x3E, stack_io (op_code_info_new ''RETURNDATACOPY'') 3 0),
     (0x3F, stack_io (op_code_info_new ''EXTCODEHASH'') 1 1),
     (0x40, stack_io (op_code_info_new ''BLOCKHASH'') 1 1),
     (0x41, stack_io (op_code_info_new ''COINBASE'') 0 1),
     (0x42, stack_io (op_code_info_new ''TIMESTAMP'') 0 1),
     (0x43, stack_io (op_code_info_new ''NUMBER'') 0 1),
     (0x44, stack_io (op_code_info_new ''DIFFICULTY'') 0 1),
     (0x45, stack_io (op_code_info_new ''GASLIMIT'') 0 1),
     (0x46, stack_io (op_code_info_new ''CHAINID'') 0 1),
     (0x47, stack_io (op_code_info_new ''SELFBALANCE'') 0 1),
     (0x48, stack_io (op_code_info_new ''BASEFEE'') 0 1),
     (0x49, stack_io (op_code_info_new ''BLOBHASH'') 1 1),
     (0x4A, stack_io (op_code_info_new ''BLOBBASEFEE'') 0 1),
     (0x50, stack_io (op_code_info_new ''POP'') 1 0),
     (0x51, stack_io (op_code_info_new ''MLOAD'') 1 1),
     (0x52, stack_io (op_code_info_new ''MSTORE'') 2 0),
     (0x53, stack_io (op_code_info_new ''MSTORE8'') 2 0),
     (0x54, stack_io (op_code_info_new ''SLOAD'') 1 1),
     (0x55, stack_io (op_code_info_new ''SSTORE'') 2 0),
     (0x56, stack_io (op_code_info_new ''JUMP'') 1 0),
     (0x57, stack_io (op_code_info_new ''JUMPI'') 2 0),
     (0x58, stack_io (op_code_info_new ''PC'') 0 1),
     (0x59, stack_io (op_code_info_new ''MSIZE'') 0 1),
     (0x5A, stack_io (op_code_info_new ''GAS'') 0 1),
     (0x5B, stack_io (op_code_info_new ''JUMPDEST'') 0 0),
     (0x5C, stack_io (op_code_info_new ''TLOAD'') 1 1),
     (0x5D, stack_io (op_code_info_new ''TSTORE'') 2 0),
     (0x5E, stack_io (op_code_info_new ''MCOPY'') 3 0),
     (0x5F, stack_io (op_code_info_new ''PUSH0'') 0 1),
     (0x60, immediate_size (stack_io (op_code_info_new ''PUSH1'') 0 1) 1),
     (0x61, immediate_size (stack_io (op_code_info_new ''PUSH2'') 0 1) 2),
     (0x62, immediate_size (stack_io (op_code_info_new ''PUSH3'') 0 1) 3),
     (0x63, immediate_size (stack_io (op_code_info_new ''PUSH4'') 0 1) 4),
     (0x64, immediate_size (stack_io (op_code_info_new ''PUSH5'') 0 1) 5),
     (0x65, immediate_size (stack_io (op_code_info_new ''PUSH6'') 0 1) 6),
     (0x66, immediate_size (stack_io (op_code_info_new ''PUSH7'') 0 1) 7),
     (0x67, immediate_size (stack_io (op_code_info_new ''PUSH8'') 0 1) 8),
     (0x68, immediate_size (stack_io (op_code_info_new ''PUSH9'') 0 1) 9),
     (0x69, immediate_size (stack_io (op_code_info_new ''PUSH10'') 0 1) 10),
     (0x6A, immediate_size (stack_io (op_code_info_new ''PUSH11'') 0 1) 11),
     (0x6B, immediate_size (stack_io (op_code_info_new ''PUSH12'') 0 1) 12),
     (0x6C, immediate_size (stack_io (op_code_info_new ''PUSH13'') 0 1) 13),
     (0x6D, immediate_size (stack_io (op_code_info_new ''PUSH14'') 0 1) 14),
     (0x6E, immediate_size (stack_io (op_code_info_new ''PUSH15'') 0 1) 15),
     (0x6F, immediate_size (stack_io (op_code_info_new ''PUSH16'') 0 1) 16),
     (0x70, immediate_size (stack_io (op_code_info_new ''PUSH17'') 0 1) 17),
     (0x71, immediate_size (stack_io (op_code_info_new ''PUSH18'') 0 1) 18),
     (0x72, immediate_size (stack_io (op_code_info_new ''PUSH19'') 0 1) 19),
     (0x73, immediate_size (stack_io (op_code_info_new ''PUSH20'') 0 1) 20),
     (0x74, immediate_size (stack_io (op_code_info_new ''PUSH21'') 0 1) 21),
     (0x75, immediate_size (stack_io (op_code_info_new ''PUSH22'') 0 1) 22),
     (0x76, immediate_size (stack_io (op_code_info_new ''PUSH23'') 0 1) 23),
     (0x77, immediate_size (stack_io (op_code_info_new ''PUSH24'') 0 1) 24),
     (0x78, immediate_size (stack_io (op_code_info_new ''PUSH25'') 0 1) 25),
     (0x79, immediate_size (stack_io (op_code_info_new ''PUSH26'') 0 1) 26),
     (0x7A, immediate_size (stack_io (op_code_info_new ''PUSH27'') 0 1) 27),
     (0x7B, immediate_size (stack_io (op_code_info_new ''PUSH28'') 0 1) 28),
     (0x7C, immediate_size (stack_io (op_code_info_new ''PUSH29'') 0 1) 29),
     (0x7D, immediate_size (stack_io (op_code_info_new ''PUSH30'') 0 1) 30),
     (0x7E, immediate_size (stack_io (op_code_info_new ''PUSH31'') 0 1) 31),
     (0x7F, immediate_size (stack_io (op_code_info_new ''PUSH32'') 0 1) 32),
     (0x80, stack_io (op_code_info_new ''DUP1'') 1 2),
     (0x81, stack_io (op_code_info_new ''DUP2'') 2 3),
     (0x82, stack_io (op_code_info_new ''DUP3'') 3 4),
     (0x83, stack_io (op_code_info_new ''DUP4'') 4 5),
     (0x84, stack_io (op_code_info_new ''DUP5'') 5 6),
     (0x85, stack_io (op_code_info_new ''DUP6'') 6 7),
     (0x86, stack_io (op_code_info_new ''DUP7'') 7 8),
     (0x87, stack_io (op_code_info_new ''DUP8'') 8 9),
     (0x88, stack_io (op_code_info_new ''DUP9'') 9 10),
     (0x89, stack_io (op_code_info_new ''DUP10'') 10 11),
     (0x8A, stack_io (op_code_info_new ''DUP11'') 11 12),
     (0x8B, stack_io (op_code_info_new ''DUP12'') 12 13),
     (0x8C, stack_io (op_code_info_new ''DUP13'') 13 14),
     (0x8D, stack_io (op_code_info_new ''DUP14'') 14 15),
     (0x8E, stack_io (op_code_info_new ''DUP15'') 15 16),
     (0x8F, stack_io (op_code_info_new ''DUP16'') 16 17),
     (0x90, stack_io (op_code_info_new ''SWAP1'') 2 2),
     (0x91, stack_io (op_code_info_new ''SWAP2'') 3 3),
     (0x92, stack_io (op_code_info_new ''SWAP3'') 4 4),
     (0x93, stack_io (op_code_info_new ''SWAP4'') 5 5),
     (0x94, stack_io (op_code_info_new ''SWAP5'') 6 6),
     (0x95, stack_io (op_code_info_new ''SWAP6'') 7 7),
     (0x96, stack_io (op_code_info_new ''SWAP7'') 8 8),
     (0x97, stack_io (op_code_info_new ''SWAP8'') 9 9),
     (0x98, stack_io (op_code_info_new ''SWAP9'') 10 10),
     (0x99, stack_io (op_code_info_new ''SWAP10'') 11 11),
     (0x9A, stack_io (op_code_info_new ''SWAP11'') 12 12),
     (0x9B, stack_io (op_code_info_new ''SWAP12'') 13 13),
     (0x9C, stack_io (op_code_info_new ''SWAP13'') 14 14),
     (0x9D, stack_io (op_code_info_new ''SWAP14'') 15 15),
     (0x9E, stack_io (op_code_info_new ''SWAP15'') 16 16),
     (0x9F, stack_io (op_code_info_new ''SWAP16'') 17 17),
     (0xA0, stack_io (op_code_info_new ''LOG0'') 2 0),
     (0xA1, stack_io (op_code_info_new ''LOG1'') 3 0),
     (0xA2, stack_io (op_code_info_new ''LOG2'') 4 0),
     (0xA3, stack_io (op_code_info_new ''LOG3'') 5 0),
     (0xA4, stack_io (op_code_info_new ''LOG4'') 6 0),
     (0xF0, stack_io (op_code_info_new ''CREATE'') 3 1),
     (0xF1, stack_io (op_code_info_new ''CALL'') 7 1),
     (0xF2, stack_io (op_code_info_new ''CALLCODE'') 7 1),
     (0xF3, terminating (stack_io (op_code_info_new ''RETURN'') 2 0)),
     (0xF4, stack_io (op_code_info_new ''DELEGATECALL'') 6 1),
     (0xF5, stack_io (op_code_info_new ''CREATE2'') 4 1),
     (0xFA, stack_io (op_code_info_new ''STATICCALL'') 6 1),
     (0xFD, terminating (stack_io (op_code_info_new ''REVERT'') 2 0)),
     (0xFE, terminating (stack_io (op_code_info_new ''INVALID'') 0 0)),
     (0xFF, terminating (stack_io (op_code_info_new ''SELFDESTRUCT'') 1 0))]"

definition OPCODE_INFO :: "u8 \<Rightarrow> op_code_info option" where
  "OPCODE_INFO op = map_of opcode_rows op"

definition op_code_new :: "u8 \<Rightarrow> u8 option" where
  "op_code_new op = (case OPCODE_INFO op of Some _ \<Rightarrow> Some op | None \<Rightarrow> None)"

definition is_jumpdest_by_op :: "u8 \<Rightarrow> bool" where
  "is_jumpdest_by_op op = (case op_code_new op of Some o' \<Rightarrow> o' = op_JUMPDEST | None \<Rightarrow> False)"

definition is_jump_by_op :: "u8 \<Rightarrow> bool" where
  "is_jump_by_op op = (case op_code_new op of Some o' \<Rightarrow> o' = op_JUMP | None \<Rightarrow> False)"

definition is_push :: "u8 \<Rightarrow> bool" where
  "is_push op \<longleftrightarrow> op \<ge> op_PUSH1 \<and> op \<le> op_PUSH32"

definition is_push_by_op :: "u8 \<Rightarrow> bool" where
  "is_push_by_op op = (case op_code_new op of Some o' \<Rightarrow> is_push o' | None \<Rightarrow> False)"

definition name_by_op :: "u8 \<Rightarrow> string" where
  "name_by_op op = (case OPCODE_INFO op of Some i \<Rightarrow> oi_name i | None \<Rightarrow> ''Unknown'')"

definition io_diff :: "op_code_info \<Rightarrow> int" where
  "io_diff i = uint (oi_outputs i) - uint (oi_inputs i)"

definition modifies_memory :: "u8 \<Rightarrow> bool" where
  "modifies_memory op \<longleftrightarrow> op \<in> {op_EXTCODECOPY, op_MSTORE, op_MSTORE8, op_MCOPY, op_CODECOPY,
     op_CALLDATACOPY, op_RETURNDATACOPY, op_CALL, op_CALLCODE, op_DELEGATECALL, op_STATICCALL}"

text \<open>Parsing a name: the perfect hash map \<open>NAME_TO_OPCODE\<close> as a lookup in the rows.\<close>

definition op_parse :: "string \<Rightarrow> u8 option" where
  "op_parse s = map_option fst (find (\<lambda>(v, i). oi_name i = s) opcode_rows)"

section \<open>Properties of the table\<close>

text \<open>All 256 bytes, for exhaustive checks.\<close>

lemma all_u8: "(\<forall>n \<in> set [0..<256]. P (of_nat n)) \<Longrightarrow> P (op :: u8)"
proof -
  assume a: "\<forall>n \<in> set [0..<256]. P (of_nat n)"
  have "unat op \<in> set [0..<256]" using unsigned_less [of op, where 'a = nat] by simp
  with a have "P (of_nat (unat op))" by (rule bspec)
  then show "P op" by simp
qed

lemma opcode_rows_sorted: "sorted_wrt (<) (map fst opcode_rows)"
proof -
  have "successively (<) (map fst opcode_rows)" by code_simp
  then show ?thesis by (simp add: successively_conv_sorted_wrt)
qed

lemma opcode_rows_distinct: "distinct (map fst opcode_rows)"
  using opcode_rows_sorted by (simp add: strict_sorted_iff)

lemma OPCODE_INFO_iff: "OPCODE_INFO op = Some i \<longleftrightarrow> (op, i) \<in> set opcode_rows"
  by (simp add: OPCODE_INFO_def opcode_rows_distinct)

lemma opcode_rows_consistent:
  "\<forall>(op, i) \<in> set opcode_rows.
     unat (oi_immediate_size i) = (if is_push op then unat op - 0x5F else 0)
     \<and> (oi_terminating i \<longleftrightarrow>
          op \<in> set [op_STOP, op_RETURN, op_REVERT, op_INVALID, op_SELFDESTRUCT])
     \<and> oi_inputs i \<le> 17 \<and> oi_outputs i \<le> 17"
proof -
  have "list_all (\<lambda>(op, i).
     unat (oi_immediate_size i) = (if is_push op then unat op - 0x5F else 0)
     \<and> (oi_terminating i \<longleftrightarrow>
          op \<in> set [op_STOP, op_RETURN, op_REVERT, op_INVALID, op_SELFDESTRUCT])
     \<and> oi_inputs i \<le> 17 \<and> oi_outputs i \<le> 17) opcode_rows"
    by code_simp
  then show ?thesis by (simp only: list_all_iff)
qed

lemma push_in_opcode_rows:
  assumes "is_push op"
  shows "OPCODE_INFO op \<noteq> None"
proof -
  have "\<forall>n \<in> set [0x60..<0x80]. (of_nat n :: u8) \<in> set (map fst opcode_rows)"
    by code_simp
  moreover have "unat op \<in> set [0x60..<0x80]"
    using assms by (simp add: is_push_def op_const word_le_nat_alt del: upt_rec_numeral)
  ultimately have "(of_nat (unat op) :: u8) \<in> set (map fst opcode_rows)" by blast
  then show ?thesis by (simp add: OPCODE_INFO_def map_of_eq_None_iff)
qed

text \<open>C32. The opcode table agrees with the opcode ranges the analysis and the interpreter rely on:
  the rows are in strictly ascending order, so no opcode is defined twice; exactly the \<open>PUSH1\<close> to
  \<open>PUSH32\<close> bytes carry immediates, \<open>PUSHn\<close> exactly \<open>n\<close> bytes, and all of them are defined; and
  exactly \<open>STOP\<close>, \<open>RETURN\<close>, \<open>REVERT\<close>, \<open>INVALID\<close> and \<open>SELFDESTRUCT\<close> are marked terminating.\<close>
theorem opcode_info_consistent:
  "sorted_wrt (<) (map fst opcode_rows)
   \<and> (is_push op \<longleftrightarrow> (\<exists>i. OPCODE_INFO op = Some i \<and> 0 < unat (oi_immediate_size i)))
   \<and> (\<forall>i. OPCODE_INFO op = Some i \<longrightarrow>
        unat (oi_immediate_size i) = (if is_push op then unat op - 0x5F else 0)
        \<and> (oi_terminating i \<longleftrightarrow>
             op \<in> set [op_STOP, op_RETURN, op_REVERT, op_INVALID, op_SELFDESTRUCT]))"
proof (intro conjI allI impI)
  fix i assume i: "OPCODE_INFO op = Some i"
  with opcode_rows_consistent show
    "unat (oi_immediate_size i) = (if is_push op then unat op - 0x5F else 0)"
    "oi_terminating i \<longleftrightarrow> op \<in> set [op_STOP, op_RETURN, op_REVERT, op_INVALID, op_SELFDESTRUCT]"
    by (auto simp only: OPCODE_INFO_iff)
next
  show "is_push op \<longleftrightarrow> (\<exists>i. OPCODE_INFO op = Some i \<and> 0 < unat (oi_immediate_size i))"
  proof
    assume p: "is_push op"
    then obtain i where i: "OPCODE_INFO op = Some i" using push_in_opcode_rows by auto
    then have "unat (oi_immediate_size i) = unat op - 0x5F"
      using opcode_rows_consistent p by (auto simp only: OPCODE_INFO_iff if_True)
    with i p show "\<exists>i. OPCODE_INFO op = Some i \<and> 0 < unat (oi_immediate_size i)"
      by (auto simp: is_push_def op_const word_le_nat_alt)
  next
    assume "\<exists>i. OPCODE_INFO op = Some i \<and> 0 < unat (oi_immediate_size i)"
    then show "is_push op"
      using opcode_rows_consistent by (auto simp only: OPCODE_INFO_iff split: if_splits)
  qed
qed (rule opcode_rows_sorted)

theorem opcode_info_consistent_witness:
  "\<exists>i. OPCODE_INFO 0x7F = Some i \<and> unat (oi_immediate_size i) = 32"
proof -
  have "is_push 0x7F" by (simp add: is_push_def op_const)
  with opcode_info_consistent [of "0x7F"] show ?thesis by auto
qed

end
