(* ===== verification/Bytecode.thy ===== *)
theory Bytecode
  imports Opcode
begin

text \<open>
  Contract code (\<open>crates/bytecode/src\<close>): the legacy analysis with its jump table and padding
  (\<open>legacy/analysis.rs\<close>, \<open>legacy/analyzed.rs\<close>, \<open>legacy/jump_map.rs\<close>), EIP-7702 delegations
  (\<open>eip7702.rs\<close>), the \<open>Bytecode\<close> enumeration (\<open>bytecode.rs\<close>) and the opcode iterator (\<open>iter.rs\<close>).
  The hash function \<open>keccak256\<close> is a parameter of the definitions that use it.
\<close>

section \<open>Jump tables\<close>

record jump_table =
  jt_len :: usize
  jt_table :: bytes

text \<open>A \<open>BitVec<u8, Lsb0>\<close> is the list of its bits; \<open>into_vec\<close> packs eight bits per byte, the
  least significant first.\<close>

definition bitvec_byte :: "bool list \<Rightarrow> nat \<Rightarrow> u8" where
  "bitvec_byte bits i =
     foldr (\<lambda>j acc. if 8 * i + j < length bits \<and> bits ! (8 * i + j) then acc OR push_bit j 1 else acc)
       [0..<8] 0"

definition bitvec_into_vec :: "bool list \<Rightarrow> bytes" where
  "bitvec_into_vec bits = map (bitvec_byte bits) [0..<(length bits + 7) div 8]"

definition jump_table_from_bytes :: "bytes \<Rightarrow> usize \<Rightarrow> jump_table option" where
  "jump_table_from_bytes table bit_len =
     (if length table * 8 \<ge> unat bit_len then Some \<lparr>jt_len = bit_len, jt_table = table\<rparr> else None)"

definition jump_table_new :: "bool list \<Rightarrow> jump_table option" where
  "jump_table_new jumps = jump_table_from_bytes (bitvec_into_vec jumps) (of_nat (length jumps))"

definition jump_table_default :: jump_table where
  "jump_table_default = \<lparr>jt_len = 0, jt_table = []\<rparr>"

definition jump_table_is_valid :: "jump_table \<Rightarrow> usize \<Rightarrow> bool" where
  "jump_table_is_valid t pc \<longleftrightarrow>
     pc < jt_len t
     \<and> (jt_table t ! unat (drop_bit 3 pc)) AND push_bit (unat (pc AND 7)) 1 \<noteq> 0"

section \<open>Analysis of legacy code\<close>

text \<open>The scan over the code. The result is the position of the iterator after the last
  instruction, the last opcode and the bits of the jump destinations.\<close>

function analyze_loop :: "bytes \<Rightarrow> nat \<Rightarrow> u8 \<Rightarrow> bool list \<Rightarrow> nat \<times> u8 \<times> bool list" where
  "analyze_loop code iter op jumps =
     (if iter < length code then
        (let op = code ! iter in
         if op = op_JUMPDEST then analyze_loop code (iter + 1) op (jumps[iter := True])
         else
           (let push_offset = op - op_PUSH1 in
            if push_offset < 32 then analyze_loop code (iter + (unat push_offset + 2)) op jumps
            else analyze_loop code (iter + 1) op jumps))
      else (iter, op, jumps))"
  by pat_completeness auto
termination by (relation "measure (\<lambda>(code, iter, op, jumps). length code - iter)") auto

declare analyze_loop.simps [simp del]

definition analyze_legacy :: "bytes \<Rightarrow> (jump_table \<times> bytes) option" where
  "analyze_legacy code =
     (if code = [] then Some (jump_table_default, [op_STOP])
      else
        (let (iter, op, jumps) = analyze_loop code 0 0 (replicate (length code) False);
             padding = iter - length code + (if op \<noteq> op_STOP then 1 else 0);
             padded = (if padding > 0 then code @ replicate padding 0 else code)
         in map_option (\<lambda>t. (t, padded)) (jump_table_new jumps)))"

record legacy_analyzed =
  la_bytecode :: bytes
  la_original_len :: usize
  la_jump_table :: jump_table

definition legacy_analyzed_default :: legacy_analyzed where
  "legacy_analyzed_default =
     \<lparr>la_bytecode = [0], la_original_len = 0, la_jump_table = jump_table_default\<rparr>"

definition legacy_analyzed_new :: "bytes \<Rightarrow> usize \<Rightarrow> jump_table \<Rightarrow> legacy_analyzed option" where
  "legacy_analyzed_new code original_len t =
     (if unat original_len \<le> length code \<and> original_len \<le> jt_len t \<and> code \<noteq> []
      then Some \<lparr>la_bytecode = code, la_original_len = original_len, la_jump_table = t\<rparr> else None)"

definition legacy_analyze :: "bytes \<Rightarrow> legacy_analyzed option" where
  "legacy_analyze code =
     Option.bind (analyze_legacy code)
       (\<lambda>(t, padded). legacy_analyzed_new padded (of_nat (length code)) t)"

definition la_original_bytes :: "legacy_analyzed \<Rightarrow> bytes" where
  "la_original_bytes a = take (unat (la_original_len a)) (la_bytecode a)"

section \<open>EIP-7702 delegations\<close>

datatype eip7702_decode_error = InvalidLength | InvalidMagic | UnsupportedVersion

definition EIP7702_MAGIC_HASH :: b256 where
  "EIP7702_MAGIC_HASH = 0xeadcdba66a79ab5dce91622d1d75c8cff5cff0b96944c3bf1072cd08ce018329"

definition EIP7702_MAGIC_BYTES :: bytes where
  "EIP7702_MAGIC_BYTES = [0xef, 0x01]"

definition EIP7702_VERSION :: u8 where
  "EIP7702_VERSION = 0"

record eip7702_bytecode =
  delegated_address :: address
  ev_version :: u8
  ev_raw :: bytes

definition eip7702_new_raw :: "bytes \<Rightarrow> eip7702_decode_error + eip7702_bytecode" where
  "eip7702_new_raw raw =
     (if length raw \<noteq> 23 then Inl InvalidLength
      else if take 2 raw \<noteq> EIP7702_MAGIC_BYTES then Inl InvalidMagic
      else if raw ! 2 \<noteq> EIP7702_VERSION then Inl UnsupportedVersion
      else Inr \<lparr>delegated_address = from_be_bytes (drop 3 raw), ev_version = raw ! 2, ev_raw = raw\<rparr>)"

definition eip7702_new :: "address \<Rightarrow> eip7702_bytecode" where
  "eip7702_new a =
     \<lparr>delegated_address = a, ev_version = EIP7702_VERSION,
      ev_raw = EIP7702_MAGIC_BYTES @ [EIP7702_VERSION] @ to_be_bytes 20 a\<rparr>"

section \<open>Bytecode\<close>

datatype bytecode = Eip7702 eip7702_bytecode | LegacyAnalyzed legacy_analyzed

definition KECCAK_EMPTY :: b256 where
  "KECCAK_EMPTY = 0xc5d2460186f7233c927e7db2dcc703c0e500b653ca82273b7bfad8045d85a470"

definition bytecode_new :: bytecode where
  "bytecode_new = LegacyAnalyzed legacy_analyzed_default"

fun legacy_jump_table :: "bytecode \<Rightarrow> jump_table option" where
  "legacy_jump_table (LegacyAnalyzed a) = Some (la_jump_table a)"
| "legacy_jump_table _ = None"

fun is_eip7702 :: "bytecode \<Rightarrow> bool" where
  "is_eip7702 (Eip7702 _) = True"
| "is_eip7702 _ = False"

definition new_legacy :: "bytes \<Rightarrow> bytecode option" where
  "new_legacy raw = map_option LegacyAnalyzed (legacy_analyze raw)"

definition new_eip7702 :: "address \<Rightarrow> bytecode" where
  "new_eip7702 a = Eip7702 (eip7702_new a)"

definition new_raw_checked :: "bytes \<Rightarrow> (eip7702_decode_error + bytecode) option" where
  "new_raw_checked bs =
     (if length bs \<ge> 2 \<and> take 2 bs = EIP7702_MAGIC_BYTES then
        Some (case eip7702_new_raw bs of Inl e \<Rightarrow> Inl e | Inr c \<Rightarrow> Inr (Eip7702 c))
      else map_option Inr (new_legacy bs))"

fun bytes_ref :: "bytecode \<Rightarrow> bytes" where
  "bytes_ref (LegacyAnalyzed a) = la_bytecode a"
| "bytes_ref (Eip7702 c) = ev_raw c"

fun original_bytes :: "bytecode \<Rightarrow> bytes" where
  "original_bytes (LegacyAnalyzed a) = la_original_bytes a"
| "original_bytes (Eip7702 c) = ev_raw c"

definition bytecode_len :: "bytecode \<Rightarrow> usize" where
  "bytecode_len b = of_nat (length (original_bytes b))"

definition bytecode_is_empty :: "bytecode \<Rightarrow> bool" where
  "bytecode_is_empty b \<longleftrightarrow> bytecode_len b = 0"

definition hash_slow :: "(bytes \<Rightarrow> b256) \<Rightarrow> bytecode \<Rightarrow> b256" where
  "hash_slow keccak256 b =
     (if bytecode_is_empty b then KECCAK_EMPTY else keccak256 (original_bytes b))"

section \<open>Iterating over opcodes\<close>

text \<open>The state of the iterator is the slice of the remaining bytes.\<close>

definition iter_new :: "bytecode \<Rightarrow> bytes" where
  "iter_new b = (case b of LegacyAnalyzed _ \<Rightarrow> bytes_ref b | Eip7702 _ \<Rightarrow> [])"

definition skip_immediate :: "u8 \<Rightarrow> bytes \<Rightarrow> bytes" where
  "skip_immediate op bs =
     (let n = (case OPCODE_INFO op of Some i \<Rightarrow> unat (oi_immediate_size i) | None \<Rightarrow> 0)
      in if n > 0 then (if n \<le> length bs then drop n bs else []) else bs)"

fun iter_next :: "bytes \<Rightarrow> (u8 \<times> bytes) option" where
  "iter_next [] = None"
| "iter_next (b # bs) = Some (b, skip_immediate b bs)"

lemma length_skip_immediate: "length (skip_immediate op bs) \<le> length bs"
  by (simp add: skip_immediate_def Let_def)

function iter_opcodes :: "bytes \<Rightarrow> u8 list" where
  "iter_opcodes bs = (case iter_next bs of None \<Rightarrow> [] | Some (b, bs') \<Rightarrow> b # iter_opcodes bs')"
  by pat_completeness auto
termination
proof (relation "measure length", goal_cases)
  case (2 bs p b bs')
  then show ?case
    using length_skip_immediate by (cases bs) (auto simp: less_Suc_eq_le)
qed simp

declare iter_opcodes.simps [simp del]

section \<open>Instruction boundaries\<close>

definition push_bytes :: "u8 \<Rightarrow> nat" where
  "push_bytes op = (if is_push op then unat op - 0x5F else 0)"

definition next_pc :: "bytes \<Rightarrow> nat \<Rightarrow> nat" where
  "next_pc code pc = pc + 1 + push_bytes (code ! pc)"

text \<open>The positions at which an instruction starts, when decoding begins at \<open>s\<close>.\<close>

inductive boundary :: "bytes \<Rightarrow> nat \<Rightarrow> nat \<Rightarrow> bool" for code s where
  boundary_start: "boundary code s s"
| boundary_next: "boundary code s pc \<Longrightarrow> pc < length code \<Longrightarrow> boundary code s (next_pc code pc)"

lemma boundary_front:
  "boundary code s pc \<longleftrightarrow> pc = s \<or> s < length code \<and> boundary code (next_pc code s) pc"
proof
  assume "boundary code s pc"
  then show "pc = s \<or> s < length code \<and> boundary code (next_pc code s) pc"
    by induction (auto intro: boundary.intros)
next
  assume "pc = s \<or> s < length code \<and> boundary code (next_pc code s) pc"
  then show "boundary code s pc"
  proof
    assume "s < length code \<and> boundary code (next_pc code s) pc"
    then have "s < length code" "boundary code (next_pc code s) pc" by auto
    from this(2,1) show ?thesis by induction (auto intro: boundary.intros)
  qed (simp add: boundary_start)
qed

lemma next_pc_gt: "pc < next_pc code pc"
  by (simp add: next_pc_def)

lemma boundary_ge: "boundary code s pc \<Longrightarrow> s \<le> pc"
  by (induction rule: boundary.induct) (auto intro: less_imp_le le_less_trans next_pc_gt)

lemma push_bytes_le: "push_bytes op \<le> 32"
  by (auto simp: push_bytes_def is_push_def op_const word_le_nat_alt)

lemma push_offset_less: "op - op_PUSH1 < 32 \<longleftrightarrow> is_push op"
proof -
  have "\<forall>n \<in> set [0..<256]. of_nat n - op_PUSH1 < (32 :: u8) \<longleftrightarrow> is_push (of_nat n)"
    by code_simp
  then show ?thesis by (rule all_u8 [where P = "\<lambda>op. op - op_PUSH1 < 32 \<longleftrightarrow> is_push op"])
qed

lemma unat_push_offset:
  assumes "is_push op"
  shows "unat (op - op_PUSH1) + 1 = push_bytes op"
proof -
  have "0x60 \<le> unat op" "unat (op - op_PUSH1) = unat op - 0x60"
    using assms by (simp_all add: is_push_def op_const unat_minus_le word_le_nat_alt)
  then show ?thesis using assms by (simp add: push_bytes_def)
qed

lemma analyze_loop_step:
  "analyze_loop code iter op jumps =
     (if iter < length code
      then analyze_loop code (next_pc code iter) (code ! iter)
             (if code ! iter = op_JUMPDEST then jumps[iter := True] else jumps)
      else (iter, op, jumps))"
proof (cases "iter < length code \<and> code ! iter \<noteq> op_JUMPDEST")
  case True
  show ?thesis
  proof (cases "is_push (code ! iter)")
    case push: True
    have "next_pc code iter = iter + (unat (code ! iter - op_PUSH1) + 2)"
      using unat_push_offset [OF push] by (simp add: next_pc_def)
    then show ?thesis
      using True push by (subst analyze_loop.simps) (simp add: Let_def push_offset_less)
  next
    case False
    then show ?thesis
      using True by (subst analyze_loop.simps) (simp add: Let_def push_offset_less next_pc_def push_bytes_def)
  qed
next
  case False
  have "push_bytes op_JUMPDEST = 0" by (simp add: push_bytes_def is_push_def op_const)
  with False show ?thesis
    by (subst analyze_loop.simps) (auto simp: Let_def next_pc_def)
qed

lemma analyze_loop_spec:
  assumes "analyze_loop code iter op jumps = (iter', op', jumps')" "length jumps = length code"
  shows "length jumps' = length code
    \<and> (\<forall>pc < length code. jumps' ! pc \<longleftrightarrow>
          jumps ! pc \<or> boundary code iter pc \<and> code ! pc = op_JUMPDEST)
    \<and> length code \<le> iter'
    \<and> (\<forall>pc. boundary code iter pc \<longrightarrow> pc < length code \<longrightarrow> length code \<le> next_pc code pc \<longrightarrow>
          op' = code ! pc \<and> iter' = next_pc code pc)
    \<and> (iter < length code \<longrightarrow> (\<exists>pc. pc < length code \<and> iter' = next_pc code pc))"
  using assms
proof (induction "length code - iter" arbitrary: iter op jumps rule: less_induct)
  case less
  show ?case
  proof (cases "iter < length code")
    case False
    then have "iter' = iter \<and> jumps' = jumps"
      using less.prems by (simp add: analyze_loop_step [of code iter])
    moreover have "boundary code iter pc \<Longrightarrow> \<not> pc < length code" for pc
      using False boundary_ge by force
    ultimately show ?thesis using False less.prems by auto
  next
    case True
    let ?n = "next_pc code iter"
    let ?j = "if code ! iter = op_JUMPDEST then jumps[iter := True] else jumps"
    have loop: "analyze_loop code ?n (code ! iter) ?j = (iter', op', jumps')"
      using less.prems(1) True by (simp add: analyze_loop_step [of code iter])
    have dec: "length code - ?n < length code - iter" using True next_pc_gt [of iter code] by linarith
    have len: "length ?j = length code" using less.prems(2) by simp
    note IH = less.hyps [OF dec loop len]
    have bits: "pc < length code \<Longrightarrow>
        jumps' ! pc \<longleftrightarrow> ?j ! pc \<or> boundary code ?n pc \<and> code ! pc = op_JUMPDEST" for pc
      using IH by blast
    have b: "boundary code iter pc \<longleftrightarrow> pc = iter \<or> boundary code ?n pc" for pc
      using True boundary_front [of code iter pc] by auto
    have ni: "\<not> boundary code ?n iter" using boundary_ge [of code ?n iter] next_pc_gt [of iter code] by auto
    show ?thesis
    proof (intro conjI allI impI)
      fix pc assume "pc < length code"
      then show "jumps' ! pc \<longleftrightarrow> jumps ! pc \<or> boundary code iter pc \<and> code ! pc = op_JUMPDEST"
        using less.prems(2) ni True by (simp add: bits b nth_list_update)
    next
      fix pc assume pc: "boundary code iter pc" "pc < length code" "length code \<le> next_pc code pc"
      have "op' = code ! pc \<and> iter' = next_pc code pc"
      proof (cases "pc = iter")
        case True
        then have "\<not> ?n < length code" using pc by simp
        then show ?thesis using loop True by (simp add: analyze_loop_step [of code ?n])
      next
        case False
        then show ?thesis using IH pc b by blast
      qed
      then show "op' = code ! pc" "iter' = next_pc code pc" by auto
    next
      show "\<exists>pc<length code. iter' = next_pc code pc"
      proof (cases "?n < length code")
        case True
        then show ?thesis using IH by blast
      next
        case False
        then have "iter' = ?n" using loop by (simp add: analyze_loop_step [of code ?n])
        then show ?thesis using True by blast
      qed
    next
      show "length jumps' = length code" "length code \<le> iter'" using IH by blast+
    qed
  qed
qed

section \<open>Correctness of the jump table\<close>

lemma bit_foldr_or:
  "k < LENGTH('a) \<Longrightarrow>
     bit (foldr (\<lambda>j acc. if P j then acc OR push_bit j 1 else acc) js (0 :: 'a::len word)) k
       \<longleftrightarrow> k \<in> set js \<and> P k"
  by (induction js) (auto simp: bit_simps)

lemma bit_bitvec_byte:
  "j < 8 \<Longrightarrow> bit (bitvec_byte bits i) j \<longleftrightarrow> 8 * i + j < length bits \<and> bits ! (8 * i + j)"
  unfolding bitvec_byte_def by (subst bit_foldr_or) auto

lemma and_push_bit_1: "w AND 2 ^ k \<noteq> 0 \<longleftrightarrow> bit w k" for w :: "'a::len word"
  by (simp add: and_exp_eq_0_iff_not_bit)

lemma unat_and_7: "unat (pc AND 7 :: usize) = unat pc mod 8"
proof -
  have "pc AND 7 = take_bit 3 pc" by (simp add: take_bit_eq_mask mask_eq_exp_minus_1)
  then show ?thesis by (simp add: take_bit_eq_mod unat_mod_distrib)
qed

lemma unat_shift_3: "unat (drop_bit 3 pc :: usize) = unat pc div 8"
  by (simp add: drop_bit_eq_div unat_div_distrib)

lemma jump_table_new_eq:
  assumes "length jumps < 2 ^ 63"
  obtains t where "jump_table_new jumps = Some t" "unat (jt_len t) = length jumps"
    "\<And>pc. jump_table_is_valid t pc \<longleftrightarrow> unat pc < length jumps \<and> jumps ! unat pc"
proof
  let ?t = "\<lparr>jt_len = of_nat (length jumps), jt_table = bitvec_into_vec jumps\<rparr>"
  have len: "unat (of_nat (length jumps) :: usize) = length jumps"
    using assms by (simp add: unat_of_nat_small)
  show "jump_table_new jumps = Some ?t"
    using len by (simp add: jump_table_new_def jump_table_from_bytes_def bitvec_into_vec_def)
  show "unat (jt_len ?t) = length jumps" using len by simp
  fix pc :: usize
  have "unat pc < length jumps \<Longrightarrow>
      bitvec_into_vec jumps ! (unat pc div 8) = bitvec_byte jumps (unat pc div 8)"
    by (simp add: bitvec_into_vec_def)
  then show "jump_table_is_valid ?t pc \<longleftrightarrow> unat pc < length jumps \<and> jumps ! unat pc"
    using len
    by (auto simp: jump_table_is_valid_def word_less_nat_alt and_push_bit_1 [simplified] unat_and_7
        unat_shift_3 bit_bitvec_byte and_exp_eq_0_iff_not_bit)
qed

section \<open>Correctness of the analysis\<close>

text \<open>Code that can be executed without bounds checks: control never runs past the last byte,
  because every instruction either is a \<open>STOP\<close> or is followed by another instruction start.\<close>

definition code_closed :: "bytes \<Rightarrow> bool" where
  "code_closed code \<longleftrightarrow> code \<noteq> [] \<and>
     (\<forall>pc. boundary code 0 pc \<longrightarrow> pc < length code \<longrightarrow>
        code ! pc = op_STOP \<or> next_pc code pc < length code)"

lemma next_pc_append: "pc < length code \<Longrightarrow> next_pc (code @ xs) pc = next_pc code pc"
  by (simp add: next_pc_def nth_append)

lemma boundary_append:
  "boundary (code @ xs) s pc \<Longrightarrow> pc < length code \<Longrightarrow> boundary code s pc"
proof (induction rule: boundary.induct)
  case boundary_start
  show ?case by (rule boundary.boundary_start)
next
  case (boundary_next pc)
  then have "pc < length code"
    using next_pc_gt [of pc "code @ xs"] by linarith
  with boundary_next show ?case
    by (simp add: next_pc_append boundary.boundary_next)
qed

lemma analyze_legacy_spec:
  assumes "length code < 2 ^ 63 - 33"
  obtains t padded k where "analyze_legacy code = Some (t, padded)" "padded = code @ replicate k 0"
    "k \<le> 33" "code_closed padded" "unat (jt_len t) = length code"
    "\<And>pc. jump_table_is_valid t pc \<longleftrightarrow>
       boundary code 0 (unat pc) \<and> unat pc < length code \<and> code ! unat pc = op_JUMPDEST"
proof (cases "code = []")
  case True
  have "boundary [0::u8] 0 pc \<Longrightarrow> pc < 1 \<Longrightarrow> pc = 0" for pc by simp
  then have "code_closed [0]" by (auto simp: code_closed_def op_const)
  with True show thesis
    by (intro that [of jump_table_default "[0]" 1])
      (simp_all add: analyze_legacy_def op_const jump_table_default_def jump_table_is_valid_def)
next
  case False
  obtain iter op jumps where loop:
    "analyze_loop code 0 0 (replicate (length code) False) = (iter, op, jumps)" by (metis prod_cases3)
  have len: "length jumps = length code" and le: "length code \<le> iter"
    and bits: "\<And>pc. pc < length code \<Longrightarrow> jumps ! pc \<longleftrightarrow> boundary code 0 pc \<and> code ! pc = op_JUMPDEST"
    and last: "\<And>pc. boundary code 0 pc \<Longrightarrow> pc < length code \<Longrightarrow> length code \<le> next_pc code pc \<Longrightarrow>
        op = code ! pc \<and> iter = next_pc code pc"
    and ex: "\<exists>pc. pc < length code \<and> iter = next_pc code pc"
    using analyze_loop_spec [OF loop] False by simp_all
  define k where "k = iter - length code + (if op \<noteq> op_STOP then 1 else 0)"
  let ?p = "code @ replicate k 0"
  have k: "k \<le> 33"
  proof -
    from ex obtain pc where "pc < length code" "iter = next_pc code pc" by blast
    then have "iter \<le> length code + 32" using push_bytes_le [of "code ! pc"] by (simp add: next_pc_def)
    then show ?thesis by (auto simp: k_def)
  qed
  have closed: "?p ! pc = op_STOP \<or> next_pc ?p pc < length ?p"
    if pc: "boundary ?p 0 pc" "pc < length ?p" for pc
  proof (cases "pc < length code")
    case True
    then have b: "boundary code 0 pc" using pc boundary_append by blast
    show ?thesis
    proof (cases "length code \<le> next_pc code pc")
      case nx: True
      then show ?thesis
        using last [OF b True nx] True by (simp add: next_pc_append nth_append k_def)
    qed (use True in \<open>simp add: next_pc_append\<close>)
  qed (use pc in \<open>simp add: nth_append op_const\<close>)
  obtain t where t: "jump_table_new jumps = Some t" "unat (jt_len t) = length jumps"
    "\<And>pc. jump_table_is_valid t pc \<longleftrightarrow> unat pc < length jumps \<and> jumps ! unat pc"
    using jump_table_new_eq [of jumps] len assms by auto
  show thesis
  proof (rule that [of t ?p k])
    show "analyze_legacy code = Some (t, ?p)"
      using False t by (simp add: analyze_legacy_def loop Let_def k_def)
    show "code_closed ?p" using False closed by (simp add: code_closed_def)
    show "jump_table_is_valid t pc \<longleftrightarrow>
        boundary code 0 (unat pc) \<and> unat pc < length code \<and> code ! unat pc = op_JUMPDEST" for pc
      using t bits len by auto
  qed (use k t len in auto)
qed

text \<open>C5. Analysis of legacy code is total and correct. For every code whose length is below the
  allocation limit, \<open>analyze\<close> does not panic and gives code that is the original followed by at
  most 33 zero bytes; executing it never runs past its end and never reads an incomplete
  immediate; the original bytes are recovered; and the bit-packed jump table accepts exactly
  the positions of the original code that start an instruction and hold a \<open>JUMPDEST\<close>, so bytes
  inside \<open>PUSH\<close> immediates are never accepted.\<close>
theorem legacy_analyze_correct:
  assumes "length code < 2 ^ 63 - 33"
  shows "\<exists>a k. legacy_analyze code = Some a \<and> la_bytecode a = code @ replicate k 0 \<and> k \<le> 33
    \<and> code_closed (la_bytecode a) \<and> la_original_bytes a = code
    \<and> (\<forall>pc. jump_table_is_valid (la_jump_table a) pc \<longleftrightarrow>
          boundary code 0 (unat pc) \<and> unat pc < length code \<and> code ! unat pc = op_JUMPDEST)"
  using assms
proof (rule analyze_legacy_spec)
  fix t padded k
  assume a: "analyze_legacy code = Some (t, padded)" "padded = code @ replicate k 0" "k \<le> 33"
    "code_closed padded" "unat (jt_len t) = length code"
    "\<And>pc. jump_table_is_valid t pc \<longleftrightarrow>
       boundary code 0 (unat pc) \<and> unat pc < length code \<and> code ! unat pc = op_JUMPDEST"
  have l: "unat (of_nat (length code) :: usize) = length code"
    using assms by (simp add: unat_of_nat_small)
  have "padded \<noteq> []" using a(4) by (simp add: code_closed_def)
  then have "legacy_analyze code
      = Some \<lparr>la_bytecode = padded, la_original_len = of_nat (length code), la_jump_table = t\<rparr>"
    using a l by (simp add: legacy_analyze_def legacy_analyzed_new_def word_le_nat_alt)
  then show ?thesis using a l by (auto simp: la_original_bytes_def)
qed

theorem legacy_analyze_correct_witness:
  "\<exists>a. legacy_analyze [op_PUSH1, op_JUMPDEST, op_JUMPDEST, op_PUSH2] = Some a
     \<and> \<not> jump_table_is_valid (la_jump_table a) 3
     \<and> la_original_bytes a = [op_PUSH1, op_JUMPDEST, op_JUMPDEST, op_PUSH2]"
  using legacy_analyze_correct [of "[op_PUSH1, op_JUMPDEST, op_JUMPDEST, op_PUSH2]"]
  by (auto simp: op_const)

section \<open>Delegations\<close>

text \<open>C28. EIP-7702 delegations round-trip: encoding an address and decoding the raw bytes gives the
  same delegation back, for every address; and every raw code that decodes is the canonical
  encoding of the decoded address, so distinct accepted codes delegate to distinct addresses.\<close>
theorem eip7702_round_trip:
  "eip7702_new_raw (ev_raw (eip7702_new a)) = Inr (eip7702_new a)
   \<and> (eip7702_new_raw raw = Inr c \<longleftrightarrow> raw = ev_raw c \<and> c = eip7702_new (delegated_address c))"
proof
  have s: "take 2 (ev_raw (eip7702_new a)) = EIP7702_MAGIC_BYTES" "length (ev_raw (eip7702_new a)) = 23"
    "ev_raw (eip7702_new a) ! 2 = EIP7702_VERSION" "drop 3 (ev_raw (eip7702_new a)) = to_be_bytes 20 a"
    for a by (simp_all add: eip7702_new_def EIP7702_MAGIC_BYTES_def)
  have new: "eip7702_new_raw (ev_raw (eip7702_new a)) = Inr (eip7702_new a)" for a
    unfolding eip7702_new_raw_def s by (simp add: eip7702_new_def)
  then show "eip7702_new_raw (ev_raw (eip7702_new a)) = Inr (eip7702_new a)" .
  have "raw = ev_raw c \<and> c = eip7702_new (delegated_address c)" if "eip7702_new_raw raw = Inr c"
  proof -
    from that have r: "length raw = 23" "take 2 raw = EIP7702_MAGIC_BYTES" "raw ! 2 = EIP7702_VERSION"
      "c = \<lparr>delegated_address = from_be_bytes (drop 3 raw), ev_version = raw ! 2, ev_raw = raw\<rparr>"
      by (auto simp: eip7702_new_raw_def split: if_splits)
    have "to_be_bytes (length (drop 3 raw)) (from_be_bytes (drop 3 raw) :: address) = drop 3 raw"
      by (rule to_be_from_be) (simp add: r)
    moreover have "raw = take 2 raw @ raw ! 2 # drop 3 raw"
      using id_take_nth_drop [of 2 raw] r(1) by (simp add: numeral_3_eq_3)
    ultimately show ?thesis using r by (simp add: eip7702_new_def)
  qed
  then show "eip7702_new_raw raw = Inr c \<longleftrightarrow> raw = ev_raw c \<and> c = eip7702_new (delegated_address c)"
    using new by metis
qed

end
