(* ===== verification/Account.thy ===== *)
theory Account
  imports Bytecode Hardfork
begin

text \<open>
  Accounts and storage slots (\<open>crates/state/src/lib.rs\<close>, \<open>account_info.rs\<close>, \<open>types.rs\<close>). Hash
  maps are partial maps; the status flags are the bits of a \<open>u8\<close> as in the \<open>bitflags!\<close> block.
\<close>

section \<open>Account info\<close>

record account_info =
  ai_balance :: u256
  ai_nonce :: u64
  ai_code_hash :: b256
  ai_storage_id :: "usize option"
  ai_code :: "bytecode option"

definition account_info_default :: account_info where
  "account_info_default =
     \<lparr>ai_balance = 0, ai_nonce = 0, ai_code_hash = KECCAK_EMPTY, ai_storage_id = None,
      ai_code = Some bytecode_new\<rparr>"

definition account_info_new :: "u256 \<Rightarrow> u64 \<Rightarrow> b256 \<Rightarrow> bytecode \<Rightarrow> account_info" where
  "account_info_new balance nonce code_hash code =
     \<lparr>ai_balance = balance, ai_nonce = nonce, ai_code_hash = code_hash, ai_storage_id = None,
      ai_code = Some code\<rparr>"

definition info_set_code_hash :: "b256 \<Rightarrow> account_info \<Rightarrow> account_info" where
  "info_set_code_hash h i = i\<lparr>ai_code := None, ai_code_hash := h\<rparr>"

definition info_set_code :: "(bytes \<Rightarrow> b256) \<Rightarrow> bytecode \<Rightarrow> account_info \<Rightarrow> account_info" where
  "info_set_code keccak256 code i =
     i\<lparr>ai_code_hash := hash_slow keccak256 code, ai_code := Some code\<rparr>"

definition info_copy_without_code :: "account_info \<Rightarrow> account_info" where
  "info_copy_without_code i = i\<lparr>ai_code := None\<rparr>"

definition is_empty_code_hash :: "account_info \<Rightarrow> bool" where
  "is_empty_code_hash i \<longleftrightarrow> ai_code_hash i = KECCAK_EMPTY"

definition info_is_empty :: "account_info \<Rightarrow> bool" where
  "info_is_empty i \<longleftrightarrow>
     (let code_empty = is_empty_code_hash i \<or> ai_code_hash i = 0
      in code_empty \<and> ai_balance i = 0 \<and> ai_nonce i = 0)"

definition has_no_code_and_nonce :: "account_info \<Rightarrow> bool" where
  "has_no_code_and_nonce i \<longleftrightarrow> is_empty_code_hash i \<and> ai_nonce i = 0"

section \<open>Storage slots\<close>

record evm_storage_slot =
  ss_original_value :: u256
  ss_present_value :: u256
  ss_transaction_id :: usize
  ss_is_cold :: bool

definition slot_new :: "u256 \<Rightarrow> usize \<Rightarrow> evm_storage_slot" where
  "slot_new original tid =
     \<lparr>ss_original_value = original, ss_present_value = original, ss_transaction_id = tid,
      ss_is_cold = False\<rparr>"

definition slot_is_changed :: "evm_storage_slot \<Rightarrow> bool" where
  "slot_is_changed s \<longleftrightarrow> ss_original_value s \<noteq> ss_present_value s"

definition slot_mark_cold :: "evm_storage_slot \<Rightarrow> evm_storage_slot" where
  "slot_mark_cold s = s\<lparr>ss_is_cold := True\<rparr>"

definition slot_is_cold_transaction_id :: "usize \<Rightarrow> evm_storage_slot \<Rightarrow> bool" where
  "slot_is_cold_transaction_id tid s \<longleftrightarrow> ss_transaction_id s \<noteq> tid \<or> ss_is_cold s"

definition slot_mark_warm :: "usize \<Rightarrow> evm_storage_slot \<Rightarrow> bool \<times> evm_storage_slot" where
  "slot_mark_warm tid s =
     (let is_cold = slot_is_cold_transaction_id tid s;
          s = (if is_cold then s\<lparr>ss_original_value := ss_present_value s\<rparr> else s)
      in (is_cold, s\<lparr>ss_transaction_id := tid, ss_is_cold := False\<rparr>))"

section \<open>Status flags\<close>

type_synonym account_status = u8

definition flag_Created :: account_status where "flag_Created = 0x01"
definition flag_CreatedLocal :: account_status where "flag_CreatedLocal = 0x80"
definition flag_SelfDestructed :: account_status where "flag_SelfDestructed = 0x02"
definition flag_SelfDestructedLocal :: account_status where "flag_SelfDestructedLocal = 0x40"
definition flag_Touched :: account_status where "flag_Touched = 0x04"
definition flag_LoadedAsNotExisting :: account_status where "flag_LoadedAsNotExisting = 0x08"
definition flag_Cold :: account_status where "flag_Cold = 0x10"

text \<open>The operations of \<open>bitflags\<close>: \<open>contains\<close>, \<open>|=\<close> and \<open>-=\<close>.\<close>

definition flag_contains :: "account_status \<Rightarrow> account_status \<Rightarrow> bool" where
  "flag_contains s f \<longleftrightarrow> s AND f = f"

definition flag_insert :: "account_status \<Rightarrow> account_status \<Rightarrow> account_status" where
  "flag_insert s f = s OR f"

definition flag_remove :: "account_status \<Rightarrow> account_status \<Rightarrow> account_status" where
  "flag_remove s f = s AND NOT f"

section \<open>Accounts\<close>

type_synonym evm_storage = "u256 \<rightharpoonup> evm_storage_slot"

record account =
  ac_info :: account_info
  ac_original_info :: account_info
  ac_transaction_id :: usize
  ac_storage :: evm_storage
  ac_status :: account_status

type_synonym evm_state = "address \<rightharpoonup> account"
type_synonym transient_storage = "address \<times> u256 \<rightharpoonup> u256"

definition new_not_existing :: "usize \<Rightarrow> account" where
  "new_not_existing tid =
     \<lparr>ac_info = account_info_default, ac_original_info = account_info_default,
      ac_transaction_id = tid, ac_storage = Map.empty, ac_status = flag_LoadedAsNotExisting\<rparr>"

definition account_from_info :: "account_info \<Rightarrow> account" where
  "account_from_info info =
     \<lparr>ac_info = info, ac_original_info = info, ac_transaction_id = 0, ac_storage = Map.empty,
      ac_status = 0\<rparr>"

definition mark_selfdestruct :: "account \<Rightarrow> account" where
  "mark_selfdestruct a = a\<lparr>ac_status := flag_insert (ac_status a) flag_SelfDestructed\<rparr>"

definition unmark_selfdestruct :: "account \<Rightarrow> account" where
  "unmark_selfdestruct a = a\<lparr>ac_status := flag_remove (ac_status a) flag_SelfDestructed\<rparr>"

definition is_selfdestructed :: "account \<Rightarrow> bool" where
  "is_selfdestructed a \<longleftrightarrow> flag_contains (ac_status a) flag_SelfDestructed"

definition mark_touch :: "account \<Rightarrow> account" where
  "mark_touch a = a\<lparr>ac_status := flag_insert (ac_status a) flag_Touched\<rparr>"

definition unmark_touch :: "account \<Rightarrow> account" where
  "unmark_touch a = a\<lparr>ac_status := flag_remove (ac_status a) flag_Touched\<rparr>"

definition is_touched :: "account \<Rightarrow> bool" where
  "is_touched a \<longleftrightarrow> flag_contains (ac_status a) flag_Touched"

definition unmark_created :: "account \<Rightarrow> account" where
  "unmark_created a = a\<lparr>ac_status := flag_remove (ac_status a) flag_Created\<rparr>"

definition mark_cold :: "account \<Rightarrow> account" where
  "mark_cold a = a\<lparr>ac_status := flag_insert (ac_status a) flag_Cold\<rparr>"

definition is_cold_transaction_id :: "usize \<Rightarrow> account \<Rightarrow> bool" where
  "is_cold_transaction_id tid a \<longleftrightarrow>
     ac_transaction_id a \<noteq> tid \<or> flag_contains (ac_status a) flag_Cold"

definition mark_warm_with_transaction_id :: "usize \<Rightarrow> account \<Rightarrow> bool \<times> account" where
  "mark_warm_with_transaction_id tid a =
     (let is_cold = is_cold_transaction_id tid a
      in (is_cold, a\<lparr>ac_status := flag_remove (ac_status a) flag_Cold, ac_transaction_id := tid\<rparr>))"

definition is_created_locally :: "account \<Rightarrow> bool" where
  "is_created_locally a \<longleftrightarrow> flag_contains (ac_status a) flag_CreatedLocal"

definition is_selfdestructed_locally :: "account \<Rightarrow> bool" where
  "is_selfdestructed_locally a \<longleftrightarrow> flag_contains (ac_status a) flag_SelfDestructedLocal"

definition account_selfdestruct :: "account \<Rightarrow> account" where
  "account_selfdestruct a = a\<lparr>ac_storage := Map.empty, ac_info := account_info_default\<rparr>"

definition mark_created_locally :: "account \<Rightarrow> bool \<times> account" where
  "mark_created_locally a =
     (let s = flag_insert (ac_status a) flag_CreatedLocal;
          is_created_globaly = \<not> flag_contains s flag_Created
      in (is_created_globaly, a\<lparr>ac_status := flag_insert s flag_Created\<rparr>))"

definition unmark_created_locally :: "account \<Rightarrow> account" where
  "unmark_created_locally a = a\<lparr>ac_status := flag_remove (ac_status a) flag_CreatedLocal\<rparr>"

definition mark_selfdestructed_locally :: "account \<Rightarrow> bool \<times> account" where
  "mark_selfdestructed_locally a =
     (let s = flag_insert (ac_status a) flag_SelfDestructedLocal;
          is_global_selfdestructed = \<not> flag_contains s flag_SelfDestructed
      in (is_global_selfdestructed, a\<lparr>ac_status := flag_insert s flag_SelfDestructed\<rparr>))"

definition unmark_selfdestructed_locally :: "account \<Rightarrow> account" where
  "unmark_selfdestructed_locally a =
     a\<lparr>ac_status := flag_remove (ac_status a) flag_SelfDestructedLocal\<rparr>"

definition is_loaded_as_not_existing_not_touched :: "account \<Rightarrow> bool" where
  "is_loaded_as_not_existing_not_touched a \<longleftrightarrow>
     flag_contains (ac_status a) flag_LoadedAsNotExisting \<and> \<not> is_touched a"

definition is_created :: "account \<Rightarrow> bool" where
  "is_created a \<longleftrightarrow> flag_contains (ac_status a) flag_Created"

definition account_is_empty :: "account \<Rightarrow> bool" where
  "account_is_empty a \<longleftrightarrow> info_is_empty (ac_info a)"

definition state_clear_aware_is_empty :: "spec_id \<Rightarrow> account \<Rightarrow> bool" where
  "state_clear_aware_is_empty spec a =
     (if is_enabled_in spec SPURIOUS_DRAGON then account_is_empty a
      else is_loaded_as_not_existing_not_touched a)"

definition caller_initial_modification :: "u256 \<Rightarrow> bool \<Rightarrow> account \<Rightarrow> u256 \<times> account" where
  "caller_initial_modification new_balance is_call a =
     (let a = mark_touch a;
          i = ac_info a;
          i = (if is_call then i\<lparr>ai_nonce := saturating_add (ai_nonce i) 1\<rparr> else i)
      in (ai_balance i, a\<lparr>ac_info := i\<lparr>ai_balance := new_balance\<rparr>\<rparr>))"

section \<open>Flags as independent bits\<close>

lemmas flag_defs = flag_Created_def flag_CreatedLocal_def flag_SelfDestructed_def
  flag_SelfDestructedLocal_def flag_Touched_def flag_LoadedAsNotExisting_def flag_Cold_def

lemma flag_eq_exp:
  "flag_Created = 2 ^ 0" "flag_CreatedLocal = 2 ^ 7" "flag_SelfDestructed = 2 ^ 1"
  "flag_SelfDestructedLocal = 2 ^ 6" "flag_Touched = 2 ^ 2" "flag_LoadedAsNotExisting = 2 ^ 3"
  "flag_Cold = 2 ^ 4"
  by (simp_all add: flag_defs)

lemma contains_exp:
  assumes "n < 8"
  shows "flag_contains s (2 ^ n) \<longleftrightarrow> bit s n"
proof
  assume "flag_contains s (2 ^ n)"
  then have "bit (s AND 2 ^ n) n = bit (2 ^ n :: u8) n" by (simp add: flag_contains_def)
  then show "bit s n" using assms by (simp add: bit_simps)
next
  assume "bit s n"
  then show "flag_contains s (2 ^ n)"
    unfolding flag_contains_def by (intro bit_eqI) (auto simp: bit_simps)
qed

lemma bit_flag_insert: "n < 8 \<Longrightarrow> bit (flag_insert s (2 ^ m)) n \<longleftrightarrow> bit s n \<or> m = n"
  by (auto simp: flag_insert_def bit_simps)

lemma bit_flag_remove: "n < 8 \<Longrightarrow> bit (flag_remove s (2 ^ m)) n \<longleftrightarrow> bit s n \<and> m \<noteq> n"
  by (auto simp: flag_remove_def bit_simps)

lemma flag_remove_insert: "\<not> bit s n \<Longrightarrow> flag_remove (flag_insert s (2 ^ n)) (2 ^ n) = s"
  by (rule bit_eqI) (auto simp: flag_insert_def flag_remove_def bit_simps)

text \<open>The flags as a set, for rules that hold of any two of them.\<close>

definition account_flags :: "account_status set" where
  "account_flags = {flag_Created, flag_CreatedLocal, flag_SelfDestructed, flag_SelfDestructedLocal,
     flag_Touched, flag_LoadedAsNotExisting, flag_Cold}"

lemma flag_in_flags [simp]:
  "flag_Created \<in> account_flags" "flag_CreatedLocal \<in> account_flags"
  "flag_SelfDestructed \<in> account_flags" "flag_SelfDestructedLocal \<in> account_flags"
  "flag_Touched \<in> account_flags" "flag_LoadedAsNotExisting \<in> account_flags"
  "flag_Cold \<in> account_flags"
  by (simp_all add: account_flags_def)

lemma flags_exp: "f \<in> account_flags \<Longrightarrow> \<exists>n < 8. f = 2 ^ n"
  unfolding account_flags_def flag_eq_exp insert_iff empty_iff
  by (elim disjE FalseE; (rule exI, erule conjI [rotated]; simp))

lemma flags_distinct [simp]:
  "flag_Created \<noteq> flag_CreatedLocal" "flag_Created \<noteq> flag_SelfDestructed"
  "flag_Created \<noteq> flag_SelfDestructedLocal" "flag_Created \<noteq> flag_Touched"
  "flag_Created \<noteq> flag_LoadedAsNotExisting" "flag_Created \<noteq> flag_Cold"
  "flag_CreatedLocal \<noteq> flag_Created" "flag_CreatedLocal \<noteq> flag_SelfDestructed"
  "flag_CreatedLocal \<noteq> flag_SelfDestructedLocal" "flag_CreatedLocal \<noteq> flag_Touched"
  "flag_CreatedLocal \<noteq> flag_LoadedAsNotExisting" "flag_CreatedLocal \<noteq> flag_Cold"
  "flag_SelfDestructed \<noteq> flag_Created" "flag_SelfDestructed \<noteq> flag_CreatedLocal"
  "flag_SelfDestructed \<noteq> flag_SelfDestructedLocal"
  "flag_SelfDestructed \<noteq> flag_Touched"
  "flag_SelfDestructed \<noteq> flag_LoadedAsNotExisting" "flag_SelfDestructed \<noteq> flag_Cold"
  "flag_SelfDestructedLocal \<noteq> flag_Created"
  "flag_SelfDestructedLocal \<noteq> flag_CreatedLocal"
  "flag_SelfDestructedLocal \<noteq> flag_SelfDestructed"
  "flag_SelfDestructedLocal \<noteq> flag_Touched"
  "flag_SelfDestructedLocal \<noteq> flag_LoadedAsNotExisting"
  "flag_SelfDestructedLocal \<noteq> flag_Cold" "flag_Touched \<noteq> flag_Created"
  "flag_Touched \<noteq> flag_CreatedLocal" "flag_Touched \<noteq> flag_SelfDestructed"
  "flag_Touched \<noteq> flag_SelfDestructedLocal" "flag_Touched \<noteq> flag_LoadedAsNotExisting"
  "flag_Touched \<noteq> flag_Cold" "flag_LoadedAsNotExisting \<noteq> flag_Created"
  "flag_LoadedAsNotExisting \<noteq> flag_CreatedLocal"
  "flag_LoadedAsNotExisting \<noteq> flag_SelfDestructed"
  "flag_LoadedAsNotExisting \<noteq> flag_SelfDestructedLocal"
  "flag_LoadedAsNotExisting \<noteq> flag_Touched" "flag_LoadedAsNotExisting \<noteq> flag_Cold"
  "flag_Cold \<noteq> flag_Created" "flag_Cold \<noteq> flag_CreatedLocal"
  "flag_Cold \<noteq> flag_SelfDestructed" "flag_Cold \<noteq> flag_SelfDestructedLocal"
  "flag_Cold \<noteq> flag_Touched" "flag_Cold \<noteq> flag_LoadedAsNotExisting"
  by (simp_all add: flag_defs)

lemma contains_insert [simp]:
  assumes "f \<in> account_flags" "g \<in> account_flags"
  shows "flag_contains (flag_insert s f) g \<longleftrightarrow> f = g \<or> flag_contains s g"
  using flags_exp [OF assms(1)] flags_exp [OF assms(2)] by (auto simp: contains_exp bit_flag_insert)

lemma contains_remove [simp]:
  assumes "f \<in> account_flags" "g \<in> account_flags"
  shows "flag_contains (flag_remove s f) g \<longleftrightarrow> f \<noteq> g \<and> flag_contains s g"
  using flags_exp [OF assms(1)] flags_exp [OF assms(2)] by (auto simp: contains_exp bit_flag_remove)

end
