(* ===== verification/Journal.thy ===== *)
theory Journal
  imports Account Warm Loads
begin

text \<open>
  The journaled state (\<open>crates/context/src/journal/inner.rs\<close>,
  \<open>crates/context/interface/src/journaled_state/entry.rs\<close> and \<open>account.rs\<close>): accounts loaded
  from the database, transient storage and logs, with the list of entries that undo the changes
  made since a checkpoint. The database is a record of its methods passed to the operations
  that use it; a Rust \<open>Result\<close> is a sum with the error on the left, and an outer \<open>None\<close> is a
  panic (\<open>unwrap\<close> of an account or slot that is not loaded).
\<close>

section \<open>Database interface\<close>

record ('db, 'e) database =
  db_basic :: "'db \<Rightarrow> address \<Rightarrow> ('e + account_info option) \<times> 'db"
  db_code_by_hash :: "'db \<Rightarrow> b256 \<Rightarrow> ('e + bytecode) \<times> 'db"
  db_storage :: "'db \<Rightarrow> address \<Rightarrow> u256 \<Rightarrow> ('e + u256) \<times> 'db"
  db_block_hash :: "'db \<Rightarrow> u64 \<Rightarrow> ('e + b256) \<times> 'db"

datatype 'e journal_load_error = DBError 'e | ColdLoadSkipped

section \<open>Journal entries\<close>

datatype selfdestruction_revert_status =
    GloballySelfdestroyed
  | LocallySelfdestroyed
  | RepeatedSelfdestruction

datatype journal_entry =
    AccountWarmed address
  | AccountDestroyed u256 address address selfdestruction_revert_status
  | AccountTouched address
  | BalanceChange u256 address
  | BalanceTransfer u256 address address
  | NonceChange address
  | AccountCreated address bool
  | StorageChanged u256 u256 address
  | StorageWarmed u256 address
  | TransientStorageChange u256 u256 address
  | CodeChange address

text \<open>Updating a loaded account, \<open>state.get_mut(&address).unwrap()\<close>, and its balance.\<close>

definition upd_account :: "address \<Rightarrow> (account \<Rightarrow> account) \<Rightarrow> evm_state \<Rightarrow> evm_state option" where
  "upd_account a f st = (case st a of None \<Rightarrow> None | Some acc \<Rightarrow> Some (st(a \<mapsto> f acc)))"

definition upd_info :: "(account_info \<Rightarrow> account_info) \<Rightarrow> account \<Rightarrow> account" where
  "upd_info f acc = acc\<lparr>ac_info := f (ac_info acc)\<rparr>"

definition add_balance :: "u256 \<Rightarrow> account \<Rightarrow> account" where
  "add_balance b = upd_info (\<lambda>i. i\<lparr>ai_balance := ai_balance i + b\<rparr>)"

definition sub_balance :: "u256 \<Rightarrow> account \<Rightarrow> account" where
  "sub_balance b = upd_info (\<lambda>i. i\<lparr>ai_balance := ai_balance i - b\<rparr>)"

definition upd_slot :: "u256 \<Rightarrow> (evm_storage_slot \<Rightarrow> evm_storage_slot) \<Rightarrow> account \<Rightarrow> account option" where
  "upd_slot key f acc =
     (case ac_storage acc key of
        None \<Rightarrow> None
      | Some s \<Rightarrow> Some (acc\<lparr>ac_storage := (ac_storage acc)(key \<mapsto> f s)\<rparr>))"

definition PRECOMPILE3 :: address where
  "PRECOMPILE3 = 3"

fun entry_revert ::
    "bool \<Rightarrow> journal_entry \<Rightarrow> evm_state \<times> transient_storage option
       \<Rightarrow> (evm_state \<times> transient_storage option) option" where
  "entry_revert isd (AccountWarmed address) (st, ts) =
     map_option (\<lambda>st. (st, ts)) (upd_account address mark_cold st)"
| "entry_revert isd (AccountTouched address) (st, ts) =
     (if isd \<and> address = PRECOMPILE3 then Some (st, ts)
      else map_option (\<lambda>st. (st, ts)) (upd_account address unmark_touch st))"
| "entry_revert isd (AccountDestroyed had_balance address target destroyed_status) (st, ts) =
     map_option (\<lambda>st. (st, ts))
       (Option.bind
          (upd_account address
             (\<lambda>acc. add_balance had_balance
                (case destroyed_status of
                   GloballySelfdestroyed \<Rightarrow> unmark_selfdestructed_locally (unmark_selfdestruct acc)
                 | LocallySelfdestroyed \<Rightarrow> unmark_selfdestructed_locally acc
                 | RepeatedSelfdestruction \<Rightarrow> acc)) st)
          (\<lambda>st. if address \<noteq> target then upd_account target (sub_balance had_balance) st else Some st))"
| "entry_revert isd (BalanceChange old_balance address) (st, ts) =
     map_option (\<lambda>st. (st, ts))
       (upd_account address (upd_info (\<lambda>i. i\<lparr>ai_balance := old_balance\<rparr>)) st)"
| "entry_revert isd (BalanceTransfer balance frm to) (st, ts) =
     map_option (\<lambda>st. (st, ts))
       (Option.bind (upd_account frm (add_balance balance) st) (upd_account to (sub_balance balance)))"
| "entry_revert isd (NonceChange address) (st, ts) =
     map_option (\<lambda>st. (st, ts))
       (upd_account address (upd_info (\<lambda>i. i\<lparr>ai_nonce := ai_nonce i - 1\<rparr>)) st)"
| "entry_revert isd (AccountCreated address is_created_globally) (st, ts) =
     map_option (\<lambda>st. (st, ts))
       (upd_account address
          (\<lambda>acc. let acc = unmark_created_locally acc;
                     acc = (if is_created_globally then unmark_created acc else acc)
                 in upd_info (\<lambda>i. i\<lparr>ai_nonce := 0\<rparr>) acc) st)"
| "entry_revert isd (StorageWarmed key address) (st, ts) =
     Option.bind (st address)
       (\<lambda>acc. map_option (\<lambda>acc. (st(address \<mapsto> acc), ts)) (upd_slot key slot_mark_cold acc))"
| "entry_revert isd (StorageChanged key old_value address) (st, ts) =
     Option.bind (st address)
       (\<lambda>acc. map_option (\<lambda>acc. (st(address \<mapsto> acc), ts))
                (upd_slot key (\<lambda>s. s\<lparr>ss_present_value := old_value\<rparr>) acc))"
| "entry_revert isd (TransientStorageChange key old_value address) (st, ts) =
     (case ts of
        None \<Rightarrow> Some (st, None)
      | Some t \<Rightarrow>
          if old_value = 0 then Some (st, Some (t((address, key) := None)))
          else Some (st, Some (t((address, key) \<mapsto> old_value))))"
| "entry_revert isd (CodeChange address) (st, ts) =
     map_option (\<lambda>st. (st, ts))
       (upd_account address (upd_info (\<lambda>i. i\<lparr>ai_code_hash := KECCAK_EMPTY, ai_code := None\<rparr>)) st)"

text \<open>Reverting drained entries, the last one first.\<close>

fun entries_revert ::
    "bool \<Rightarrow> journal_entry list \<Rightarrow> evm_state \<times> transient_storage option
       \<Rightarrow> (evm_state \<times> transient_storage option) option" where
  "entries_revert isd [] s = Some s"
| "entries_revert isd (e # es) s = Option.bind (entries_revert isd es s) (entry_revert isd e)"

section \<open>Journaled accounts\<close>

text \<open>An account together with the journal entries, as \<open>JournaledAccount\<close> borrows them.\<close>

type_synonym journaled_account = "account \<times> journal_entry list"

definition ja_touch :: "address \<Rightarrow> journaled_account \<Rightarrow> journaled_account" where
  "ja_touch address = (\<lambda>(acc, es).
     if \<not> is_touched acc then (mark_touch acc, es @ [AccountTouched address]) else (acc, es))"

definition ja_set_balance :: "address \<Rightarrow> u256 \<Rightarrow> journaled_account \<Rightarrow> journaled_account" where
  "ja_set_balance address balance ja =
     (let (acc, es) = ja_touch address ja
      in if ai_balance (ac_info acc) \<noteq> balance
         then (upd_info (\<lambda>i. i\<lparr>ai_balance := balance\<rparr>) acc,
               es @ [BalanceChange (ai_balance (ac_info acc)) address])
         else (acc, es))"

definition ja_incr_balance :: "address \<Rightarrow> u256 \<Rightarrow> journaled_account \<Rightarrow> bool \<times> journaled_account" where
  "ja_incr_balance address balance ja =
     (let ja = ja_touch address ja
      in case checked_add (ai_balance (ac_info (fst ja))) balance of
           None \<Rightarrow> (False, ja)
         | Some b \<Rightarrow> (True, ja_set_balance address b ja))"

definition ja_decr_balance :: "address \<Rightarrow> u256 \<Rightarrow> journaled_account \<Rightarrow> bool \<times> journaled_account" where
  "ja_decr_balance address balance ja =
     (let ja = ja_touch address ja
      in case checked_sub (ai_balance (ac_info (fst ja))) balance of
           None \<Rightarrow> (False, ja)
         | Some b \<Rightarrow> (True, ja_set_balance address b ja))"

definition ja_bump_nonce :: "address \<Rightarrow> journaled_account \<Rightarrow> bool \<times> journaled_account" where
  "ja_bump_nonce address ja =
     (let (acc, es) = ja_touch address ja
      in case checked_add (ai_nonce (ac_info acc)) 1 of
           None \<Rightarrow> (False, (acc, es))
         | Some n \<Rightarrow> (True, (upd_info (\<lambda>i. i\<lparr>ai_nonce := n\<rparr>) acc, es @ [NonceChange address])))"

definition ja_set_code ::
    "(bytes \<Rightarrow> b256) \<Rightarrow> address \<Rightarrow> b256 \<Rightarrow> bytecode \<Rightarrow> journaled_account \<Rightarrow> journaled_account" where
  "ja_set_code keccak256 address code_hash code ja =
     (let (acc, es) = ja_touch address ja
      in (upd_info (\<lambda>i. info_set_code keccak256 code (info_set_code_hash code_hash i)) acc,
          es @ [CodeChange address]))"

definition ja_delegate ::
    "(bytes \<Rightarrow> b256) \<Rightarrow> address \<Rightarrow> address \<Rightarrow> journaled_account \<Rightarrow> journaled_account" where
  "ja_delegate keccak256 self address ja =
     (let (code, hash) =
            (if address = 0 then (bytecode_new, KECCAK_EMPTY)
             else (let b = new_eip7702 address in (b, hash_slow keccak256 b)));
          ja = ja_touch self ja;
          ja = ja_set_code keccak256 self hash code ja
      in snd (ja_bump_nonce self ja))"

section \<open>The journal\<close>

record log =
  log_address :: address
  log_topics :: "b256 list"
  log_data :: bytes

record journal_checkpoint =
  jc_log_i :: nat
  jc_journal_i :: nat

datatype transfer_error = OutOfFunds | OverflowPayment | CreateCollision

record journal_inner =
  j_state :: evm_state
  j_transient_storage :: transient_storage
  j_logs :: "log list"
  j_depth :: usize
  j_journal :: "journal_entry list"
  j_transaction_id :: usize
  j_spec :: spec_id
  j_warm_addresses :: warm_addresses

definition journal_inner_new :: journal_inner where
  "journal_inner_new =
     \<lparr>j_state = Map.empty, j_transient_storage = Map.empty, j_logs = [], j_depth = 0,
      j_journal = [], j_transaction_id = 0, j_spec = PRAGUE, j_warm_addresses = warm_addresses_new\<rparr>"

definition take_logs :: "journal_inner \<Rightarrow> log list \<times> journal_inner" where
  "take_logs j = (j_logs j, j\<lparr>j_logs := []\<rparr>)"

definition commit_tx :: "journal_inner \<Rightarrow> journal_inner" where
  "commit_tx j =
     j\<lparr>j_transient_storage := Map.empty, j_depth := 0, j_journal := [],
       j_warm_addresses := clear_coinbase_and_access_list (j_warm_addresses j),
       j_transaction_id := j_transaction_id j + 1, j_logs := []\<rparr>"

definition discard_tx :: "journal_inner \<Rightarrow> journal_inner option" where
  "discard_tx j =
     (let isd = is_enabled_in (j_spec j) SPURIOUS_DRAGON
      in map_option
           (\<lambda>(st, ts). j\<lparr>j_state := st, j_journal := [], j_transient_storage := Map.empty,
              j_depth := 0, j_logs := [], j_transaction_id := j_transaction_id j + 1,
              j_warm_addresses := clear_coinbase_and_access_list (j_warm_addresses j)\<rparr>)
           (entries_revert isd (j_journal j) (j_state j, None)))"

definition finalize :: "journal_inner \<Rightarrow> evm_state \<times> journal_inner" where
  "finalize j =
     (j_state j,
      j\<lparr>j_warm_addresses := clear_coinbase_and_access_list (j_warm_addresses j),
        j_state := Map.empty, j_logs := [], j_transient_storage := Map.empty, j_journal := [],
        j_depth := 0, j_transaction_id := 0\<rparr>)"

text \<open>\<open>touch_account\<close> on the journal and an account.\<close>

definition touch_account :: "address \<Rightarrow> account \<Rightarrow> journal_entry list \<Rightarrow> account \<times> journal_entry list" where
  "touch_account address acc es =
     (if \<not> is_touched acc then (mark_touch acc, es @ [AccountTouched address]) else (acc, es))"

text \<open>Storing a modified account with its journal entries.\<close>

definition put_account :: "address \<Rightarrow> account \<times> journal_entry list \<Rightarrow> journal_inner \<Rightarrow> journal_inner" where
  "put_account address = (\<lambda>(acc, es) j.
     j\<lparr>j_state := (j_state j)(address \<mapsto> acc), j_journal := es\<rparr>)"

definition touch :: "address \<Rightarrow> journal_inner \<Rightarrow> journal_inner" where
  "touch address j =
     (case j_state j address of
        None \<Rightarrow> j
      | Some acc \<Rightarrow> put_account address (touch_account address acc (j_journal j)) j)"

definition set_code_with_hash ::
    "address \<Rightarrow> bytecode \<Rightarrow> b256 \<Rightarrow> journal_inner \<Rightarrow> journal_inner option" where
  "set_code_with_hash address code hash j =
     map_option
       (\<lambda>acc. let (acc, es) = touch_account address acc (j_journal j);
                  es = es @ [CodeChange address];
                  acc = upd_info (\<lambda>i. i\<lparr>ai_code_hash := hash, ai_code := Some code\<rparr>) acc
              in put_account address (acc, es) j)
       (j_state j address)"

definition set_code ::
    "(bytes \<Rightarrow> b256) \<Rightarrow> address \<Rightarrow> bytecode \<Rightarrow> journal_inner \<Rightarrow> journal_inner option" where
  "set_code keccak256 address code j =
     (case code of
        Eip7702 c \<Rightarrow>
          if delegated_address c = 0 then set_code_with_hash address bytecode_new KECCAK_EMPTY j
          else set_code_with_hash address code (hash_slow keccak256 code) j
      | LegacyAnalyzed _ \<Rightarrow> set_code_with_hash address code (hash_slow keccak256 code) j)"

definition caller_accounting_journal_entry :: "address \<Rightarrow> u256 \<Rightarrow> bool \<Rightarrow> journal_inner \<Rightarrow> journal_inner" where
  "caller_accounting_journal_entry address old_balance bump_nonce j =
     (let es = j_journal j @ [BalanceChange old_balance address];
          es = es @ [AccountTouched address]
      in j\<lparr>j_journal := (if bump_nonce then es @ [NonceChange address] else es)\<rparr>)"

definition nonce_bump_journal_entry :: "address \<Rightarrow> journal_inner \<Rightarrow> journal_inner" where
  "nonce_bump_journal_entry address j = j\<lparr>j_journal := j_journal j @ [NonceChange address]\<rparr>"

definition transfer_loaded ::
    "address \<Rightarrow> address \<Rightarrow> u256 \<Rightarrow> journal_inner \<Rightarrow> (transfer_error option \<times> journal_inner) option" where
  "transfer_loaded frm to balance j =
     (if frm = to then
        map_option
          (\<lambda>acc. if balance > ai_balance (ac_info acc) then (Some OutOfFunds, j) else (None, j))
          (j_state j to)
      else if balance = 0 then
        map_option (\<lambda>acc. (None, put_account to (touch_account to acc (j_journal j)) j)) (j_state j to)
      else
        Option.bind (j_state j frm)
          (\<lambda>from_account.
             let (from_account, es) = touch_account frm from_account (j_journal j)
             in case checked_sub (ai_balance (ac_info from_account)) balance of
                  None \<Rightarrow> Some (Some OutOfFunds, put_account frm (from_account, es) j)
                | Some from_balance_decr \<Rightarrow>
                    (let from_account = upd_info (\<lambda>i. i\<lparr>ai_balance := from_balance_decr\<rparr>) from_account;
                         j = put_account frm (from_account, es) j
                     in Option.bind (j_state j to)
                          (\<lambda>to_account.
                             let (to_account, es) = touch_account to to_account (j_journal j)
                             in case checked_add (ai_balance (ac_info to_account)) balance of
                                  None \<Rightarrow> Some (Some OverflowPayment, put_account to (to_account, es) j)
                                | Some to_balance_incr \<Rightarrow>
                                    Some (None,
                                      put_account to
                                        (upd_info (\<lambda>i. i\<lparr>ai_balance := to_balance_incr\<rparr>) to_account,
                                         es @ [BalanceTransfer balance frm to]) j)))))"

definition checkpoint :: "journal_inner \<Rightarrow> journal_checkpoint \<times> journal_inner" where
  "checkpoint j =
     (\<lparr>jc_log_i = length (j_logs j), jc_journal_i = length (j_journal j)\<rparr>,
      j\<lparr>j_depth := j_depth j + 1\<rparr>)"

definition checkpoint_commit :: "journal_inner \<Rightarrow> journal_inner" where
  "checkpoint_commit j = j\<lparr>j_depth := saturating_sub (j_depth j) 1\<rparr>"

definition checkpoint_revert :: "journal_checkpoint \<Rightarrow> journal_inner \<Rightarrow> journal_inner option" where
  "checkpoint_revert c j =
     (let isd = is_enabled_in (j_spec j) SPURIOUS_DRAGON;
          j = j\<lparr>j_depth := saturating_sub (j_depth j) 1, j_logs := take (jc_log_i c) (j_logs j)\<rparr>
      in if jc_journal_i c < length (j_journal j) then
           map_option
             (\<lambda>(st, ts). j\<lparr>j_state := st,
                j_transient_storage := (case ts of None \<Rightarrow> j_transient_storage j | Some t \<Rightarrow> t),
                j_journal := take (jc_journal_i c) (j_journal j)\<rparr>)
             (entries_revert isd (drop (jc_journal_i c) (j_journal j))
                (j_state j, Some (j_transient_storage j)))
         else Some j)"

definition create_account_checkpoint ::
    "address \<Rightarrow> address \<Rightarrow> u256 \<Rightarrow> spec_id \<Rightarrow> journal_inner
       \<Rightarrow> ((transfer_error + journal_checkpoint) \<times> journal_inner) option" where
  "create_account_checkpoint caller target_address balance spec j =
     (let (c, j) = checkpoint j
      in Option.bind (j_state j target_address)
           (\<lambda>target_acc.
              if ai_code_hash (ac_info target_acc) \<noteq> KECCAK_EMPTY \<or> ai_nonce (ac_info target_acc) \<noteq> 0
              then map_option (\<lambda>j. (Inl CreateCollision, j)) (checkpoint_revert c j)
              else
                (let (is_created_globally, target_acc) = mark_created_locally target_acc;
                     es = j_journal j @ [AccountCreated target_address is_created_globally];
                     target_acc = upd_info (\<lambda>i. i\<lparr>ai_code := None\<rparr>) target_acc;
                     target_acc = (if is_enabled_in spec SPURIOUS_DRAGON
                                   then upd_info (\<lambda>i. i\<lparr>ai_nonce := 1\<rparr>) target_acc else target_acc);
                     (target_acc, es) = touch_account target_address target_acc es
                 in case checked_add (ai_balance (ac_info target_acc)) balance of
                      None \<Rightarrow>
                        map_option (\<lambda>j. (Inl OverflowPayment, j))
                          (checkpoint_revert c (put_account target_address (target_acc, es) j))
                    | Some new_balance \<Rightarrow>
                        (let target_acc = upd_info (\<lambda>i. i\<lparr>ai_balance := new_balance\<rparr>) target_acc;
                             j = put_account target_address (target_acc, es) j
                         in map_option
                              (\<lambda>st. (Inr c, j\<lparr>j_state := st,
                                 j_journal := es @ [BalanceTransfer balance caller target_address]\<rparr>))
                              (upd_account caller (sub_balance balance) (j_state j))))))"

section \<open>Loading accounts\<close>

text \<open>The second half of a load: the account is in the state; journal the warming and load the
  code if it is asked for and absent. The result tells whether the access was cold.\<close>

definition finish_load ::
    "('db, 'e) database \<Rightarrow> address \<Rightarrow> bool \<Rightarrow> bool \<Rightarrow> account \<Rightarrow> journal_inner \<Rightarrow> 'db
       \<Rightarrow> ('e journal_load_error + bool) \<times> journal_inner \<times> 'db" where
  "finish_load D address load_code acc_cold acc j db =
     (let j = j\<lparr>j_state := (j_state j)(address \<mapsto> acc),
                j_journal := (if acc_cold then j_journal j @ [AccountWarmed address] else j_journal j)\<rparr>
      in if load_code \<and> ai_code (ac_info acc) = None then
           (case (if ai_code_hash (ac_info acc) = KECCAK_EMPTY then (Inr bytecode_new, db)
                  else db_code_by_hash D db (ai_code_hash (ac_info acc))) of
              (Inl e, db) \<Rightarrow> (Inl (DBError e), j, db)
            | (Inr code, db) \<Rightarrow>
                (Inr acc_cold,
                 j\<lparr>j_state := (j_state j)(address \<mapsto> upd_info (\<lambda>i. i\<lparr>ai_code := Some code\<rparr>) acc)\<rparr>,
                 db))
         else (Inr acc_cold, j, db))"

text \<open>What a load of a cold, already present account does to it: it starts a new transaction
  scope for the account.\<close>

definition refresh_account :: "usize \<Rightarrow> account \<Rightarrow> account" where
  "refresh_account tid acc =
     (let acc = snd (mark_warm_with_transaction_id tid acc);
          acc = (if is_selfdestructed_locally acc
                 then unmark_selfdestructed_locally (account_selfdestruct acc) else acc);
          acc = acc\<lparr>ac_original_info := ac_info acc\<rparr>
      in unmark_created_locally acc)"

definition load_account_mut_optional_code ::
    "('db, 'e) database \<Rightarrow> address \<Rightarrow> bool \<Rightarrow> bool \<Rightarrow> journal_inner \<Rightarrow> 'db
       \<Rightarrow> ('e journal_load_error + bool) \<times> journal_inner \<times> 'db" where
  "load_account_mut_optional_code D address load_code skip_cold_load j db =
     (case j_state j address of
        Some acc \<Rightarrow>
          if is_cold_transaction_id (j_transaction_id j) acc then
            (let should_be_cold = is_cold (j_warm_addresses j) address
             in if should_be_cold \<and> skip_cold_load then (Inl ColdLoadSkipped, j, db)
                else finish_load D address load_code should_be_cold
                       (refresh_account (j_transaction_id j) acc) j db)
          else finish_load D address load_code False acc j db
      | None \<Rightarrow>
          (let cold = is_cold (j_warm_addresses j) address
           in if cold \<and> skip_cold_load then (Inl ColdLoadSkipped, j, db)
              else
                (case db_basic D db address of
                   (Inl e, db) \<Rightarrow> (Inl (DBError e), j, db)
                 | (Inr r, db) \<Rightarrow>
                     finish_load D address load_code cold
                       (case r of Some info \<Rightarrow> account_from_info info
                                | None \<Rightarrow> new_not_existing (j_transaction_id j)) j db)))"

text \<open>\<open>map_err(JournalLoadError::unwrap_db_error)\<close>, a panic on a skipped load.\<close>

definition unwrap_db_error ::
    "('e journal_load_error + 'a) \<times> 'b \<Rightarrow> (('e + 'a) \<times> 'b) option" where
  "unwrap_db_error = (\<lambda>(r, b).
     case r of Inl (DBError e) \<Rightarrow> Some (Inl e, b) | Inl ColdLoadSkipped \<Rightarrow> None | Inr x \<Rightarrow> Some (Inr x, b))"

definition load_account ::
    "('db, 'e) database \<Rightarrow> address \<Rightarrow> journal_inner \<Rightarrow> 'db
       \<Rightarrow> (('e + bool) \<times> journal_inner \<times> 'db) option" where
  "load_account D address j db =
     unwrap_db_error (load_account_mut_optional_code D address False False j db)"

definition load_code ::
    "('db, 'e) database \<Rightarrow> address \<Rightarrow> journal_inner \<Rightarrow> 'db
       \<Rightarrow> (('e + bool) \<times> journal_inner \<times> 'db) option" where
  "load_code D address j db =
     unwrap_db_error (load_account_mut_optional_code D address True False j db)"

definition load_account_delegated ::
    "('db, 'e) database \<Rightarrow> address \<Rightarrow> journal_inner \<Rightarrow> 'db
       \<Rightarrow> (('e + account_load state_load) \<times> journal_inner \<times> 'db) option" where
  "load_account_delegated D address j db =
     (let spec = j_spec j;
          is_eip7702_enabled = is_enabled_in spec PRAGUE
      in Option.bind
           (unwrap_db_error (load_account_mut_optional_code D address is_eip7702_enabled False j db))
           (\<lambda>(r, j, db). case r of
              Inl e \<Rightarrow> Some (Inl e, j, db)
            | Inr cold \<Rightarrow>
                Option.bind (j_state j address)
                  (\<lambda>acc. let load = state_load_new
                               \<lparr>is_delegate_account_cold = None,
                                al_is_empty = state_clear_aware_is_empty spec acc\<rparr> cold
                         in case ai_code (ac_info acc) of
                              Some (Eip7702 c) \<Rightarrow>
                                Option.bind
                                  (unwrap_db_error
                                     (load_account_mut_optional_code D (delegated_address c) True False j db))
                                  (\<lambda>(r, j, db). case r of
                                     Inl e \<Rightarrow> Some (Inl e, j, db)
                                   | Inr dcold \<Rightarrow>
                                       Some (Inr (load\<lparr>sl_data := (sl_data load)
                                               \<lparr>is_delegate_account_cold := Some dcold\<rparr>\<rparr>), j, db))
                            | _ \<Rightarrow> Some (Inr load, j, db))))"

definition balance_incr ::
    "('db, 'e) database \<Rightarrow> address \<Rightarrow> u256 \<Rightarrow> journal_inner \<Rightarrow> 'db
       \<Rightarrow> (('e + unit) \<times> journal_inner \<times> 'db) option" where
  "balance_incr D address balance j db =
     Option.bind (load_account D address j db)
       (\<lambda>(r, j, db). case r of
          Inl e \<Rightarrow> Some (Inl e, j, db)
        | Inr _ \<Rightarrow>
            map_option
              (\<lambda>acc. (Inr (), put_account address
                 (snd (ja_incr_balance address balance (acc, j_journal j))) j, db))
              (j_state j address))"

definition transfer ::
    "('db, 'e) database \<Rightarrow> address \<Rightarrow> address \<Rightarrow> u256 \<Rightarrow> journal_inner \<Rightarrow> 'db
       \<Rightarrow> (('e + transfer_error option) \<times> journal_inner \<times> 'db) option" where
  "transfer D frm to balance j db =
     Option.bind (load_account D frm j db)
       (\<lambda>(r, j, db). case r of
          Inl e \<Rightarrow> Some (Inl e, j, db)
        | Inr _ \<Rightarrow>
            Option.bind (load_account D to j db)
              (\<lambda>(r, j, db). case r of
                 Inl e \<Rightarrow> Some (Inl e, j, db)
               | Inr _ \<Rightarrow> map_option (\<lambda>(t, j). (Inr t, j, db)) (transfer_loaded frm to balance j)))"

section \<open>Storage\<close>

definition sload ::
    "('db, 'e) database \<Rightarrow> address \<Rightarrow> u256 \<Rightarrow> bool \<Rightarrow> journal_inner \<Rightarrow> 'db
       \<Rightarrow> (('e journal_load_error + u256 state_load) \<times> journal_inner \<times> 'db) option" where
  "sload D address key skip_cold_load j db =
     map_option
       (\<lambda>acc.
          let put = (\<lambda>slot. (j_state j)(address \<mapsto> acc\<lparr>ac_storage := (ac_storage acc)(key \<mapsto> slot)\<rparr>));
              finish = (\<lambda>value acc_cold st db.
                (Inr (state_load_new value acc_cold),
                 j\<lparr>j_state := st,
                   j_journal := (if acc_cold then j_journal j @ [StorageWarmed key address]
                                 else j_journal j)\<rparr>, db))
          in case ac_storage acc key of
               Some slot \<Rightarrow>
                 (let acc_cold = slot_is_cold_transaction_id (j_transaction_id j) slot
                  in if skip_cold_load \<and> acc_cold then (Inl ColdLoadSkipped, j, db)
                     else
                       (let slot = snd (slot_mark_warm (j_transaction_id j) slot)
                        in finish (ss_present_value slot) acc_cold (put slot) db))
             | None \<Rightarrow>
                 if skip_cold_load then (Inl ColdLoadSkipped, j, db)
                 else
                   (case (if is_created acc then (Inr 0, db) else db_storage D db address key) of
                      (Inl e, db) \<Rightarrow> (Inl (DBError e), j, db)
                    | (Inr value, db) \<Rightarrow>
                        finish value (\<not> is_storage_warm (j_warm_addresses j) address key)
                          (put (slot_new value (j_transaction_id j))) db))
       (j_state j address)"

definition sstore ::
    "('db, 'e) database \<Rightarrow> address \<Rightarrow> u256 \<Rightarrow> u256 \<Rightarrow> bool \<Rightarrow> journal_inner \<Rightarrow> 'db
       \<Rightarrow> (('e journal_load_error + sstore_result state_load) \<times> journal_inner \<times> 'db) option" where
  "sstore D address key new skip_cold_load j db =
     Option.bind (sload D address key skip_cold_load j db)
       (\<lambda>(r, j, db). case r of
          Inl e \<Rightarrow> Some (Inl e, j, db)
        | Inr present \<Rightarrow>
            Option.bind (j_state j address)
              (\<lambda>acc. Option.bind (ac_storage acc key)
                (\<lambda>slot.
                   let res = state_load_new
                         \<lparr>original_value = ss_original_value slot, present_value = sl_data present,
                          new_value = new\<rparr> (sl_is_cold present)
                   in if ss_present_value slot = new then Some (Inr res, j, db)
                      else
                        Some (Inr res,
                          j\<lparr>j_journal := j_journal j @ [StorageChanged key (sl_data present) address],
                            j_state := (j_state j)(address \<mapsto> acc\<lparr>ac_storage :=
                              (ac_storage acc)(key \<mapsto> slot\<lparr>ss_present_value := new\<rparr>)\<rparr>)\<rparr>, db))))"

definition tload :: "address \<Rightarrow> u256 \<Rightarrow> journal_inner \<Rightarrow> u256" where
  "tload address key j = (case j_transient_storage j (address, key) of None \<Rightarrow> 0 | Some v \<Rightarrow> v)"

definition tstore :: "address \<Rightarrow> u256 \<Rightarrow> u256 \<Rightarrow> journal_inner \<Rightarrow> journal_inner" where
  "tstore address key new j =
     (let k = (address, key);
          old = j_transient_storage j k;
          (old_value, ts) =
            (if new = 0 then (old, (j_transient_storage j)(k := None))
             else
               (let previous_value = (case old of None \<Rightarrow> 0 | Some v \<Rightarrow> v)
                in (if previous_value \<noteq> new then Some previous_value else None,
                    (j_transient_storage j)(k \<mapsto> new))));
          j = j\<lparr>j_transient_storage := ts\<rparr>
      in case old_value of
           Some h \<Rightarrow> j\<lparr>j_journal := j_journal j @ [TransientStorageChange key h address]\<rparr>
         | None \<Rightarrow> j)"

definition journal_log :: "log \<Rightarrow> journal_inner \<Rightarrow> journal_inner" where
  "journal_log l j = j\<lparr>j_logs := j_logs j @ [l]\<rparr>"

section \<open>Self destruct\<close>

definition journal_selfdestruct ::
    "('db, 'e) database \<Rightarrow> address \<Rightarrow> address \<Rightarrow> journal_inner \<Rightarrow> 'db
       \<Rightarrow> (('e + selfdestruct_result state_load) \<times> journal_inner \<times> 'db) option" where
  "journal_selfdestruct D address target j db =
     (let spec = j_spec j
      in Option.bind (load_account D target j db)
        (\<lambda>(r, j, db). case r of
           Inl e \<Rightarrow> Some (Inl e, j, db)
         | Inr cold \<Rightarrow>
             Option.bind (j_state j target) (\<lambda>tacc.
             let is_empty = state_clear_aware_is_empty spec tacc
             in Option.bind
               (if address \<noteq> target then
                  map_option
                    (\<lambda>acc. let (tacc, es) = touch_account target tacc (j_journal j)
                           in put_account target (add_balance (ai_balance (ac_info acc)) tacc, es) j)
                    (j_state j address)
                else Some j)
               (\<lambda>j. Option.bind (j_state j address) (\<lambda>acc.
                 let balance = ai_balance (ac_info acc);
                     destroyed_status =
                       (if \<not> is_selfdestructed acc then GloballySelfdestroyed
                        else if \<not> is_selfdestructed_locally acc then LocallySelfdestroyed
                        else RepeatedSelfdestruction);
                     is_cancun_enabled = is_enabled_in spec CANCUN;
                     zero = upd_info (\<lambda>i. i\<lparr>ai_balance := 0\<rparr>);
                     j = (if is_created_locally acc \<or> \<not> is_cancun_enabled then
                            put_account address
                              (zero (snd (mark_selfdestructed_locally acc)),
                               j_journal j @ [AccountDestroyed balance address target destroyed_status]) j
                          else if address \<noteq> target then
                            put_account address
                              (zero acc, j_journal j @ [BalanceTransfer balance address target]) j
                          else j)
                 in Some
                      (Inr (state_load_new
                         \<lparr>had_value = balance \<noteq> 0, target_exists = \<not> is_empty,
                          previously_destroyed = (destroyed_status = RepeatedSelfdestruction)\<rparr> cold),
                       j, db))))))"

end
