(* ===== verification/Env.thy ===== *)
theory Env
  imports Hardfork
begin

text \<open>
  The environment of an execution: the transaction (\<open>crates/context/src/tx.rs\<close> with the methods
  of \<open>crates/context/interface/src/transaction.rs\<close>), the block (\<open>crates/context/src/block.rs\<close>,
  \<open>crates/context/interface/src/block\<close>) and the configuration (\<open>crates/context/src/cfg.rs\<close>).
  The optional configuration features are compiled in; without one its flag is false. Recovering
  the signer of an authorization is done by another library: an authorization is the record of
  the values its trait returns.
\<close>

section \<open>Transactions\<close>

datatype transaction_type =
  TxLegacy | TxEip2930 | TxEip1559 | TxEip4844 | TxEip7702 | TxCustom

primrec transaction_type_as_u8 :: "transaction_type \<Rightarrow> u8" where
  "transaction_type_as_u8 TxLegacy = 0"
| "transaction_type_as_u8 TxEip2930 = 1"
| "transaction_type_as_u8 TxEip1559 = 2"
| "transaction_type_as_u8 TxEip4844 = 3"
| "transaction_type_as_u8 TxEip7702 = 4"
| "transaction_type_as_u8 TxCustom = 0xFF"

definition transaction_type_from :: "u8 \<Rightarrow> transaction_type" where
  "transaction_type_from v =
     (if v = 0 then TxLegacy else if v = 1 then TxEip2930 else if v = 2 then TxEip1559
      else if v = 3 then TxEip4844 else if v = 4 then TxEip7702 else TxCustom)"

datatype tx_kind = TxCall address | TxCreate

record authorization =
  au_authority :: "address option"
  au_chain_id :: u256
  au_nonce :: u64
  au_address :: address

record tx_env =
  te_tx_type :: u8
  te_caller :: address
  te_gas_limit :: u64
  te_gas_price :: u128
  te_kind :: tx_kind
  te_value :: u256
  te_data :: bytes
  te_nonce :: u64
  te_chain_id :: "u64 option"
  te_access_list :: "(address \<times> b256 list) list"
  te_gas_priority_fee :: "u128 option"
  te_blob_hashes :: "b256 list"
  te_max_fee_per_blob_gas :: u128
  te_authorization_list :: "authorization list"

datatype derive_tx_type_error = MissingTargetForEip4844 | MissingTargetForEip7702 | MissingTargetForEip7873

definition derive_tx_type :: "tx_env \<Rightarrow> (derive_tx_type_error option) \<times> tx_env" where
  "derive_tx_type tx =
     (let tx = (if te_access_list tx \<noteq> [] then tx\<lparr>te_tx_type := transaction_type_as_u8 TxEip2930\<rparr> else tx);
          tx = (if te_gas_priority_fee tx \<noteq> None
                then tx\<lparr>te_tx_type := transaction_type_as_u8 TxEip1559\<rparr> else tx)
      in if te_blob_hashes tx \<noteq> [] \<or> te_max_fee_per_blob_gas tx > 0 then
           (case te_kind tx of
              TxCall _ \<Rightarrow> (None, tx\<lparr>te_tx_type := transaction_type_as_u8 TxEip4844\<rparr>)
            | TxCreate \<Rightarrow> (Some MissingTargetForEip4844, tx))
         else if te_authorization_list tx \<noteq> [] then
           (case te_kind tx of
              TxCall _ \<Rightarrow> (None, tx\<lparr>te_tx_type := transaction_type_as_u8 TxEip7702\<rparr>)
            | TxCreate \<Rightarrow> (Some MissingTargetForEip7702, tx))
         else (None, tx))"

datatype invalid_transaction =
    PriorityFeeGreaterThanMaxFee
  | GasPriceLessThanBasefee
  | CallerGasLimitMoreThanBlock
  | CallGasCostMoreThanGasLimit u64 u64
  | GasFloorMoreThanGasLimit u64 u64
  | RejectCallerWithCode
  | LackOfFundForMaxFee u256 u256
  | OverflowPaymentInTransaction
  | NonceOverflowInTransaction
  | NonceTooHigh u64 u64
  | NonceTooLow u64 u64
  | CreateInitCodeSizeLimitTx
  | InvalidChainId
  | MissingChainId
  | TxGasLimitGreaterThanCap u64 u64
  | AccessListNotSupported
  | MaxFeePerBlobGasNotSupported
  | BlobVersionedHashesNotSupported
  | BlobGasPriceGreaterThanMax u128 u128
  | EmptyBlobs
  | BlobCreateTransaction
  | TooManyBlobs usize usize
  | BlobVersionNotSupported
  | AuthorizationListNotSupported
  | AuthorizationListInvalidFields
  | EmptyAuthorizationList
  | Eip2930NotSupported
  | Eip1559NotSupported
  | Eip4844NotSupported
  | Eip7702NotSupported
  | Eip7873NotSupported
  | Eip7873MissingTarget
  | InvalidTransactionStr string

definition GAS_PER_BLOB :: u64 where
  "GAS_PER_BLOB = 131072"

definition total_blob_gas :: "tx_env \<Rightarrow> u64" where
  "total_blob_gas tx = GAS_PER_BLOB * of_nat (length (te_blob_hashes tx))"

definition calc_max_data_fee :: "tx_env \<Rightarrow> u256" where
  "calc_max_data_fee tx =
     ucast (saturating_mul (ucast (total_blob_gas tx) :: u128) (te_max_fee_per_blob_gas tx))"

definition effective_gas_price :: "tx_env \<Rightarrow> u128 \<Rightarrow> u128" where
  "effective_gas_price tx base_fee =
     (if te_tx_type tx = transaction_type_as_u8 TxLegacy
         \<or> te_tx_type tx = transaction_type_as_u8 TxEip2930
      then te_gas_price tx
      else
        (case te_gas_priority_fee tx of
           None \<Rightarrow> te_gas_price tx
         | Some max_priority_fee \<Rightarrow>
             min (te_gas_price tx) (saturating_add base_fee max_priority_fee)))"

text \<open>The gas limit times a price, plus the value; \<open>None\<close> on overflow.\<close>

definition gas_cost_plus_value :: "u128 \<Rightarrow> tx_env \<Rightarrow> u256 option" where
  "gas_cost_plus_value price tx =
     Option.bind (checked_mul (ucast (te_gas_limit tx) :: u128) price)
       (\<lambda>gas_cost. checked_add (ucast gas_cost) (te_value tx))"

definition max_balance_spending :: "tx_env \<Rightarrow> invalid_transaction + u256" where
  "max_balance_spending tx =
     (case gas_cost_plus_value (te_gas_price tx) tx of
        None \<Rightarrow> Inl OverflowPaymentInTransaction
      | Some s \<Rightarrow>
          if te_tx_type tx = transaction_type_as_u8 TxEip4844 then
            (case checked_add s (calc_max_data_fee tx) of
               None \<Rightarrow> Inl OverflowPaymentInTransaction
             | Some s \<Rightarrow> Inr s)
          else Inr s)"

definition ensure_enough_balance :: "tx_env \<Rightarrow> u256 \<Rightarrow> invalid_transaction + unit" where
  "ensure_enough_balance tx balance =
     (case max_balance_spending tx of
        Inl e \<Rightarrow> Inl e
      | Inr s \<Rightarrow> if s > balance then Inl (LackOfFundForMaxFee s balance) else Inr ())"

definition effective_balance_spending :: "tx_env \<Rightarrow> u128 \<Rightarrow> u128 \<Rightarrow> invalid_transaction + u256" where
  "effective_balance_spending tx base_fee blob_price =
     (case gas_cost_plus_value (effective_gas_price tx base_fee) tx of
        None \<Rightarrow> Inl OverflowPaymentInTransaction
      | Some s \<Rightarrow>
          if te_tx_type tx = transaction_type_as_u8 TxEip4844 then
            (case checked_add s (ucast (saturating_mul blob_price (ucast (total_blob_gas tx)))) of
               None \<Rightarrow> Inl OverflowPaymentInTransaction
             | Some s \<Rightarrow> Inr s)
          else Inr s)"

section \<open>Blocks\<close>

record blob_excess_gas_and_price =
  excess_blob_gas :: u64
  blob_gasprice :: u128

record block_env =
  be_number :: u256
  be_beneficiary :: address
  be_timestamp :: u256
  be_gas_limit :: u64
  be_basefee :: u64
  be_difficulty :: u256
  be_prevrandao :: "b256 option"
  be_blob_excess_gas_and_price :: "blob_excess_gas_and_price option"

definition block_blob_gasprice :: "block_env \<Rightarrow> u128 option" where
  "block_blob_gasprice b = map_option blob_gasprice (be_blob_excess_gas_and_price b)"

section \<open>Configuration\<close>

record cfg_env =
  ce_chain_id :: u64
  ce_tx_chain_id_check :: bool
  ce_spec :: spec_id
  ce_limit_contract_code_size :: "usize option"
  ce_limit_contract_initcode_size :: "usize option"
  ce_disable_nonce_check :: bool
  ce_max_blobs_per_tx :: "u64 option"
  ce_blob_base_fee_update_fraction :: "u64 option"
  ce_tx_gas_limit_cap :: "u64 option"
  ce_disable_balance_check :: bool
  ce_disable_block_gas_limit :: bool
  ce_disable_eip3541 :: bool
  ce_disable_eip3607 :: bool
  ce_disable_eip7623 :: bool
  ce_disable_base_fee :: bool
  ce_disable_priority_fee_check :: bool
  ce_disable_fee_charge :: bool

definition MAX_CODE_SIZE :: usize where "MAX_CODE_SIZE = 0x6000"
definition MAX_INITCODE_SIZE :: usize where "MAX_INITCODE_SIZE = 2 * MAX_CODE_SIZE"
definition TX_GAS_LIMIT_CAP :: u64 where "TX_GAS_LIMIT_CAP = 16777216"

definition cfg_new_with_spec :: "spec_id \<Rightarrow> cfg_env" where
  "cfg_new_with_spec spec =
     \<lparr>ce_chain_id = 1, ce_tx_chain_id_check = True, ce_spec = spec,
      ce_limit_contract_code_size = None, ce_limit_contract_initcode_size = None,
      ce_disable_nonce_check = False, ce_max_blobs_per_tx = None,
      ce_blob_base_fee_update_fraction = None, ce_tx_gas_limit_cap = None,
      ce_disable_balance_check = False, ce_disable_block_gas_limit = False,
      ce_disable_eip3541 = False, ce_disable_eip3607 = False, ce_disable_eip7623 = False,
      ce_disable_base_fee = False, ce_disable_priority_fee_check = False,
      ce_disable_fee_charge = False\<rparr>"

definition cfg_tx_gas_limit_cap :: "cfg_env \<Rightarrow> u64" where
  "cfg_tx_gas_limit_cap c =
     (case ce_tx_gas_limit_cap c of
        Some v \<Rightarrow> v
      | None \<Rightarrow> if is_enabled_in (ce_spec c) OSAKA then TX_GAS_LIMIT_CAP else - 1)"

definition max_code_size :: "cfg_env \<Rightarrow> usize" where
  "max_code_size c = (case ce_limit_contract_code_size c of Some v \<Rightarrow> v | None \<Rightarrow> MAX_CODE_SIZE)"

definition max_initcode_size :: "cfg_env \<Rightarrow> usize" where
  "max_initcode_size c =
     (case ce_limit_contract_initcode_size c of
        Some v \<Rightarrow> v
      | None \<Rightarrow>
          (case ce_limit_contract_code_size c of
             Some s \<Rightarrow> saturating_mul s 2
           | None \<Rightarrow> MAX_INITCODE_SIZE))"

end
