(* ===== verification/Host.thy ===== *)
theory Host
  imports Journal Env
begin

text \<open>
  The host of the interpreter (\<open>crates/context/interface/src/host.rs\<close>): the \<open>Host\<close> trait as a
  record of its required methods, the provided methods defined on it, the \<open>DummyHost\<close>, and the
  host that an execution \<open>Context\<close> is (\<open>crates/context/src/context.rs\<close>, over
  \<open>crates/context/src/journal.rs\<close>). An outer \<open>None\<close> is a panic.
\<close>

section \<open>The trait\<close>

datatype load_error = LoadDBError | LoadColdLoadSkipped

record account_info_load =
  ail_account :: account_info
  ail_is_cold :: bool
  ail_is_empty :: bool

definition into_state_load :: "(account_info \<Rightarrow> 'a) \<Rightarrow> account_info_load \<Rightarrow> 'a state_load" where
  "into_state_load f l = state_load_new (f (ail_account l)) (ail_is_cold l)"

record 'h host_ops =
  h_basefee :: "'h \<Rightarrow> u256"
  h_blob_gasprice :: "'h \<Rightarrow> u256"
  h_gas_limit :: "'h \<Rightarrow> u256"
  h_difficulty :: "'h \<Rightarrow> u256"
  h_prevrandao :: "'h \<Rightarrow> u256 option"
  h_block_number :: "'h \<Rightarrow> u256"
  h_timestamp :: "'h \<Rightarrow> u256"
  h_beneficiary :: "'h \<Rightarrow> address"
  h_chain_id :: "'h \<Rightarrow> u256"
  h_effective_gas_price :: "'h \<Rightarrow> u256"
  h_caller :: "'h \<Rightarrow> address"
  h_blob_hash :: "'h \<Rightarrow> usize \<Rightarrow> u256 option"
  h_max_initcode_size :: "'h \<Rightarrow> usize"
  h_block_hash :: "'h \<Rightarrow> u64 \<Rightarrow> b256 option \<times> 'h"
  h_selfdestruct :: "'h \<Rightarrow> address \<Rightarrow> address \<Rightarrow> (selfdestruct_result state_load option \<times> 'h) option"
  h_log :: "'h \<Rightarrow> log \<Rightarrow> 'h"
  h_sstore_skip_cold_load ::
    "'h \<Rightarrow> address \<Rightarrow> u256 \<Rightarrow> u256 \<Rightarrow> bool \<Rightarrow> ((load_error + sstore_result state_load) \<times> 'h) option"
  h_sload_skip_cold_load ::
    "'h \<Rightarrow> address \<Rightarrow> u256 \<Rightarrow> bool \<Rightarrow> ((load_error + u256 state_load) \<times> 'h) option"
  h_tstore :: "'h \<Rightarrow> address \<Rightarrow> u256 \<Rightarrow> u256 \<Rightarrow> 'h"
  h_tload :: "'h \<Rightarrow> address \<Rightarrow> u256 \<Rightarrow> u256 \<times> 'h"
  h_load_account_info_skip_cold_load ::
    "'h \<Rightarrow> address \<Rightarrow> bool \<Rightarrow> bool \<Rightarrow> ((load_error + account_info_load) \<times> 'h) option"

text \<open>\<open>Result::ok\<close>.\<close>

fun result_ok :: "'e + 'a \<Rightarrow> 'a option" where
  "result_ok (Inl e) = None"
| "result_ok (Inr x) = Some x"

definition host_sstore ::
    "'h host_ops \<Rightarrow> 'h \<Rightarrow> address \<Rightarrow> u256 \<Rightarrow> u256 \<Rightarrow> (sstore_result state_load option \<times> 'h) option" where
  "host_sstore H h address key val =
     map_option (\<lambda>(r, h). (result_ok r, h)) (h_sstore_skip_cold_load H h address key val False)"

definition host_sload ::
    "'h host_ops \<Rightarrow> 'h \<Rightarrow> address \<Rightarrow> u256 \<Rightarrow> (u256 state_load option \<times> 'h) option" where
  "host_sload H h address key =
     map_option (\<lambda>(r, h). (result_ok r, h)) (h_sload_skip_cold_load H h address key False)"

definition host_balance ::
    "'h host_ops \<Rightarrow> 'h \<Rightarrow> address \<Rightarrow> (u256 state_load option \<times> 'h) option" where
  "host_balance H h address =
     map_option (\<lambda>(r, h). (map_option (into_state_load ai_balance) (result_ok r), h))
       (h_load_account_info_skip_cold_load H h address False False)"

definition host_load_account_delegated ::
    "'h host_ops \<Rightarrow> 'h \<Rightarrow> address \<Rightarrow> (account_load state_load option \<times> 'h) option" where
  "host_load_account_delegated H h address =
     Option.bind (h_load_account_info_skip_cold_load H h address True False)
       (\<lambda>(r, h). case r of
          Inl e \<Rightarrow> Some (None, h)
        | Inr account \<Rightarrow>
            (let load = state_load_new
                   \<lparr>is_delegate_account_cold = None, al_is_empty = ail_is_empty account\<rparr>
                   (ail_is_cold account)
             in case ai_code (ail_account account) of
                  Some (Eip7702 c) \<Rightarrow>
                    Option.bind (h_load_account_info_skip_cold_load H h (delegated_address c) True False)
                      (\<lambda>(r, h). case r of
                         Inl e \<Rightarrow> Some (None, h)
                       | Inr delegate \<Rightarrow>
                           Some (Some (load\<lparr>sl_data :=
                             \<lparr>is_delegate_account_cold = Some (ail_is_cold delegate),
                              al_is_empty = ail_is_empty delegate\<rparr>\<rparr>), h))
                | _ \<Rightarrow> Some (Some load, h)))"

definition host_load_account_code ::
    "'h host_ops \<Rightarrow> 'h \<Rightarrow> address \<Rightarrow> (bytes state_load option \<times> 'h) option" where
  "host_load_account_code H h address =
     map_option
       (\<lambda>(r, h). (map_option (into_state_load
          (\<lambda>i. case ai_code i of None \<Rightarrow> [] | Some b \<Rightarrow> original_bytes b)) (result_ok r), h))
       (h_load_account_info_skip_cold_load H h address True False)"

definition host_load_account_code_hash ::
    "'h host_ops \<Rightarrow> 'h \<Rightarrow> address \<Rightarrow> (b256 state_load option \<times> 'h) option" where
  "host_load_account_code_hash H h address =
     map_option
       (\<lambda>(r, h). (map_option (into_state_load
          (\<lambda>i. if info_is_empty i then 0 else ai_code_hash i)) (result_ok r), h))
       (h_load_account_info_skip_cold_load H h address False False)"

section \<open>The dummy host\<close>

definition dummy_host :: "unit host_ops" where
  "dummy_host =
     \<lparr>h_basefee = (\<lambda>h. 0), h_blob_gasprice = (\<lambda>h. 0), h_gas_limit = (\<lambda>h. 0),
      h_difficulty = (\<lambda>h. 0), h_prevrandao = (\<lambda>h. None), h_block_number = (\<lambda>h. 0),
      h_timestamp = (\<lambda>h. 0), h_beneficiary = (\<lambda>h. 0), h_chain_id = (\<lambda>h. 0),
      h_effective_gas_price = (\<lambda>h. 0), h_caller = (\<lambda>h. 0), h_blob_hash = (\<lambda>h n. None),
      h_max_initcode_size = (\<lambda>h. 0), h_block_hash = (\<lambda>h n. (None, h)),
      h_selfdestruct = (\<lambda>h a t. Some (None, h)), h_log = (\<lambda>h l. h),
      h_sstore_skip_cold_load = (\<lambda>h a k v s. Some (Inl LoadDBError, h)),
      h_sload_skip_cold_load = (\<lambda>h a k s. Some (Inl LoadDBError, h)),
      h_tstore = (\<lambda>h a k v. h), h_tload = (\<lambda>h a k. (0, h)),
      h_load_account_info_skip_cold_load = (\<lambda>h a c s. Some (Inl LoadDBError, h))\<rparr>"

section \<open>The execution context as host\<close>

datatype 'e context_error = CtxDb 'e | CtxCustom string

record local_context =
  lc_shared_memory_buffer :: bytes
  lc_precompile_error_message :: "string option"

record ('db, 'e) ctx =
  cx_block :: block_env
  cx_tx :: tx_env
  cx_cfg :: cfg_env
  cx_journal :: journal_inner
  cx_db :: 'db
  cx_local :: local_context
  cx_error :: "'e context_error option"
  cx_par_7702 :: bool

text \<open>Splitting a journal error into the error for the interpreter and the one kept in the
  context (\<open>JournalLoadError::into_parts\<close>).\<close>

fun into_parts :: "'e journal_load_error \<Rightarrow> load_error \<times> 'e option" where
  "into_parts (DBError e) = (LoadDBError, Some e)"
| "into_parts ColdLoadSkipped = (LoadColdLoadSkipped, None)"

definition ctx_store :: "journal_inner \<Rightarrow> 'db \<Rightarrow> ('db, 'e) ctx \<Rightarrow> ('db, 'e) ctx" where
  "ctx_store j db c = c\<lparr>cx_journal := j, cx_db := db\<rparr>"

definition ctx_map_err ::
    "('e journal_load_error + 'a) \<times> journal_inner \<times> 'db \<Rightarrow> ('db, 'e) ctx
       \<Rightarrow> (load_error + 'a) \<times> ('db, 'e) ctx" where
  "ctx_map_err = (\<lambda>(r, j, db) c.
     let c = ctx_store j db c
     in case r of
          Inr x \<Rightarrow> (Inr x, c)
        | Inl e \<Rightarrow>
            (let (ret, err) = into_parts e
             in (Inl ret, case err of Some e \<Rightarrow> c\<lparr>cx_error := Some (CtxDb e)\<rparr> | None \<Rightarrow> c)))"

definition ctx_effective_gas_price :: "('db, 'e) ctx \<Rightarrow> u256" where
  "ctx_effective_gas_price c =
     ucast (effective_gas_price (cx_tx c) (ucast (be_basefee (cx_block c))))"

definition ctx_blob_hash :: "('db, 'e) ctx \<Rightarrow> usize \<Rightarrow> u256 option" where
  "ctx_blob_hash c number =
     (if te_tx_type (cx_tx c) \<noteq> transaction_type_as_u8 TxEip4844 then None
      else if unat number < length (te_blob_hashes (cx_tx c))
           then Some (te_blob_hashes (cx_tx c) ! unat number) else None)"

definition ctx_block_hash ::
    "('db, 'e) database \<Rightarrow> ('db, 'e) ctx \<Rightarrow> u64 \<Rightarrow> b256 option \<times> ('db, 'e) ctx" where
  "ctx_block_hash D c number =
     (case db_block_hash D (cx_db c) number of
        (Inr h, db) \<Rightarrow> (Some h, c\<lparr>cx_db := db\<rparr>)
      | (Inl e, db) \<Rightarrow> (None, c\<lparr>cx_db := db, cx_error := Some (CtxDb e)\<rparr>))"

definition ctx_selfdestruct ::
    "('db, 'e) database \<Rightarrow> ('db, 'e) ctx \<Rightarrow> address \<Rightarrow> address
       \<Rightarrow> (selfdestruct_result state_load option \<times> ('db, 'e) ctx) option" where
  "ctx_selfdestruct D c address target =
     map_option
       (\<lambda>(r, j, db). case r of
          Inr x \<Rightarrow> (Some x, ctx_store j db c)
        | Inl e \<Rightarrow> (None, (ctx_store j db c)\<lparr>cx_error := Some (CtxDb e)\<rparr>))
       (journal_selfdestruct D address target (cx_journal c) (cx_db c))"

definition ctx_load_account_info ::
    "('db, 'e) database \<Rightarrow> ('db, 'e) ctx \<Rightarrow> address \<Rightarrow> bool \<Rightarrow> bool
       \<Rightarrow> ((load_error + account_info_load) \<times> ('db, 'e) ctx) option" where
  "ctx_load_account_info D c address with_code skip_cold_load =
     (let spec = j_spec (cx_journal c)
      in case load_account_mut_optional_code D address with_code skip_cold_load (cx_journal c) (cx_db c) of
           (Inl e, j, db) \<Rightarrow> Some (ctx_map_err (Inl e, j, db) c)
         | (Inr cold, j, db) \<Rightarrow>
             map_option
               (\<lambda>a. ctx_map_err
                  (Inr \<lparr>ail_account = ac_info a, ail_is_cold = cold,
                        ail_is_empty = state_clear_aware_is_empty spec a\<rparr>, j, db) c)
               (j_state j address))"

definition context_host :: "('db, 'e) database \<Rightarrow> ('db, 'e) ctx host_ops" where
  "context_host D =
     \<lparr>h_basefee = (\<lambda>c. ucast (be_basefee (cx_block c))),
      h_blob_gasprice =
        (\<lambda>c. ucast (case block_blob_gasprice (cx_block c) of None \<Rightarrow> 0 | Some p \<Rightarrow> p)),
      h_gas_limit = (\<lambda>c. ucast (be_gas_limit (cx_block c))),
      h_difficulty = (\<lambda>c. be_difficulty (cx_block c)),
      h_prevrandao = (\<lambda>c. be_prevrandao (cx_block c)),
      h_block_number = (\<lambda>c. be_number (cx_block c)),
      h_timestamp = (\<lambda>c. be_timestamp (cx_block c)),
      h_beneficiary = (\<lambda>c. be_beneficiary (cx_block c)),
      h_chain_id = (\<lambda>c. ucast (ce_chain_id (cx_cfg c))),
      h_effective_gas_price = ctx_effective_gas_price,
      h_caller = (\<lambda>c. te_caller (cx_tx c)),
      h_blob_hash = ctx_blob_hash,
      h_max_initcode_size = (\<lambda>c. max_initcode_size (cx_cfg c)),
      h_block_hash = ctx_block_hash D,
      h_selfdestruct = ctx_selfdestruct D,
      h_log = (\<lambda>c l. c\<lparr>cx_journal := journal_log l (cx_journal c)\<rparr>),
      h_sstore_skip_cold_load =
        (\<lambda>c a k v s. map_option (\<lambda>r. ctx_map_err r c) (sstore D a k v s (cx_journal c) (cx_db c))),
      h_sload_skip_cold_load =
        (\<lambda>c a k s. map_option (\<lambda>r. ctx_map_err r c) (sload D a k s (cx_journal c) (cx_db c))),
      h_tstore = (\<lambda>c a k v. c\<lparr>cx_journal := tstore a k v (cx_journal c)\<rparr>),
      h_tload = (\<lambda>c a k. (tload a k (cx_journal c), c)),
      h_load_account_info_skip_cold_load = ctx_load_account_info D\<rparr>"

end
