(* ===== verification/Stack.thy ===== *)
theory Stack
  imports Prelude
begin

text \<open>
  The operand stack (\<open>crates/interpreter/src/interpreter/stack.rs\<close>). The stack is the list of its
  \<open>Vec\<close>, the top being the last element. Unchecked operations return \<open>None\<close> where the Rust
  code would have undefined behaviour; operations that report failure return their boolean.
  \<open>push_slice_\<close> is modelled at the level of the 64-bit limbs it writes.
\<close>

section \<open>Operations\<close>

type_synonym stack = "u256 list"

definition STACK_LIMIT :: nat where "STACK_LIMIT = 1024"

definition stack_new :: stack where "stack_new = []"

definition pop_unsafe :: "stack \<Rightarrow> (u256 \<times> stack) option" where
  "pop_unsafe st = (if st = [] then None else Some (last st, butlast st))"

definition top_unsafe :: "stack \<Rightarrow> u256 option" where
  "top_unsafe st = (if st = [] then None else Some (last st))"

fun popn_unsafe :: "nat \<Rightarrow> stack \<Rightarrow> (u256 list \<times> stack) option" where
  "popn_unsafe 0 st = Some ([], st)"
| "popn_unsafe (Suc n) st =
     Option.bind (pop_unsafe st)
       (\<lambda>(x, st'). map_option (\<lambda>(xs, st''). (x # xs, st'')) (popn_unsafe n st'))"

definition stack_popn :: "nat \<Rightarrow> stack \<Rightarrow> (u256 list \<times> stack) option" where
  "stack_popn n st = (if length st < n then None else popn_unsafe n st)"

definition stack_popn_top :: "nat \<Rightarrow> stack \<Rightarrow> (u256 list \<times> u256 \<times> stack) option" where
  "stack_popn_top n st =
     (if length st < n + 1 then None
      else Option.bind (popn_unsafe n st)
        (\<lambda>(xs, st'). map_option (\<lambda>t. (xs, t, st')) (top_unsafe st')))"

text \<open>Writing through the reference to the top that \<open>popn_top\<close> returns.\<close>

definition set_top :: "u256 \<Rightarrow> stack \<Rightarrow> stack" where
  "set_top v st = st[length st - 1 := v]"

definition stack_push :: "u256 \<Rightarrow> stack \<Rightarrow> bool \<times> stack" where
  "stack_push v st = (if length st = STACK_LIMIT then (False, st) else (True, st @ [v]))"

definition stack_peek :: "nat \<Rightarrow> stack \<Rightarrow> u256 option" where
  "stack_peek n st = (if length st > n then Some (st ! (length st - n - 1)) else None)"

definition stack_dup :: "nat \<Rightarrow> stack \<Rightarrow> (bool \<times> stack) option" where
  "stack_dup n st =
     (if n > 0 then
        (if length st < n \<or> length st + 1 > STACK_LIMIT then Some (False, st)
         else Some (True, st @ [st ! (length st - n)]))
      else None)"

definition stack_exchange :: "nat \<Rightarrow> nat \<Rightarrow> stack \<Rightarrow> (bool \<times> stack) option" where
  "stack_exchange n m st =
     (if m > 0 then
        (let n_m_index = n + m in
         if n_m_index \<ge> length st then Some (False, st)
         else
           (let top = length st - 1; i = top - n; j = top - n_m_index
            in Some (True, st[i := st ! j, j := st ! i])))
      else None)"

definition stack_swap :: "nat \<Rightarrow> stack \<Rightarrow> (bool \<times> stack) option" where
  "stack_swap n st = stack_exchange 0 n st"

section \<open>Pushing byte slices\<close>

text \<open>\<open>chunks_exact(32)\<close> and \<open>rchunks_exact(8)\<close> with their remainders.\<close>

function chunks32 :: "bytes \<Rightarrow> bytes list \<times> bytes" where
  "chunks32 bs =
     (if length bs < 32 then ([], bs)
      else (let (cs, r) = chunks32 (drop 32 bs) in (take 32 bs # cs, r)))"
  by pat_completeness auto
termination by (relation "measure length") auto

function rchunks8 :: "bytes \<Rightarrow> bytes list \<times> bytes" where
  "rchunks8 bs =
     (if length bs < 8 then ([], bs)
      else (let (cs, r) = rchunks8 (take (length bs - 8) bs) in (drop (length bs - 8) bs # cs, r)))"
  by pat_completeness auto
termination by (relation "measure length") auto

declare chunks32.simps [simp del] rchunks8.simps [simp del]

text \<open>The limbs written for the partial last word, before the upper limbs are zeroed.\<close>

definition partial_limbs :: "bytes \<Rightarrow> u64 list" where
  "partial_limbs bs =
     (let (cs, r) = rchunks8 bs
      in map from_be_bytes cs @
         (if r = [] then [] else [from_be_bytes (replicate (8 - length r) 0 @ r)]))"

definition slice_limbs :: "bytes \<Rightarrow> u64 list" where
  "slice_limbs sl =
     (let (words, partial_last_word) = chunks32 sl;
          ls = concat (map (\<lambda>w. map from_be_bytes (fst (rchunks8 w))) words)
      in if partial_last_word = [] then ls
         else
           (let ls = ls @ partial_limbs partial_last_word;
                m = length ls mod 4
            in if m = 0 then ls else ls @ replicate (4 - m) 0))"

text \<open>The memory written as 64-bit limbs, read back as \<open>U256\<close> values of four limbs.\<close>

fun limbs_value :: "u64 list \<Rightarrow> u256" where
  "limbs_value [] = 0"
| "limbs_value (l # ls) = ucast l + 2 ^ 64 * limbs_value ls"

fun words_of_limbs :: "u64 list \<Rightarrow> u256 list" where
  "words_of_limbs (a # b # c # d # ls) = limbs_value [a, b, c, d] # words_of_limbs ls"
| "words_of_limbs _ = []"

definition div_ceil :: "nat \<Rightarrow> nat \<Rightarrow> nat" where
  "div_ceil a b = (if a mod b = 0 then a div b else a div b + 1)"

definition stack_push_slice :: "bytes \<Rightarrow> stack \<Rightarrow> bool \<times> stack" where
  "stack_push_slice sl st =
     (if sl = [] then (True, st)
      else if length st + div_ceil (length sl) 32 > STACK_LIMIT then (False, st)
      else (True, st @ words_of_limbs (slice_limbs sl)))"

section \<open>Contract: a stack with its top first\<close>

lemma popn_unsafe_eq:
  "n \<le> length st \<Longrightarrow> popn_unsafe n st = Some (take n (rev st), take (length st - n) st)"
proof (induction n arbitrary: st)
  case 0
  then show ?case by simp
next
  case (Suc n)
  then obtain st' x where st: "st = st' @ [x]" by (cases st rule: rev_cases) auto
  with Suc show ?case by (simp add: pop_unsafe_def)
qed

lemma stack_popn_eq:
  "stack_popn n st =
     (if length st < n then None else Some (take n (rev st), take (length st - n) st))"
  by (simp add: stack_popn_def popn_unsafe_eq)

lemma stack_popn_top_eq:
  "stack_popn_top n st =
     (if length st < n + 1 then None
      else Some (take n (rev st), rev st ! n, take (length st - n) st))"
  by (auto simp: stack_popn_top_def popn_unsafe_eq top_unsafe_def rev_nth last_conv_nth)

lemma length_set_top [simp]: "length (set_top v st) = length st"
  by (simp add: set_top_def)

lemma rev_set_top: "st \<noteq> [] \<Longrightarrow> rev (set_top v st) = v # tl (rev st)"
  by (cases st rule: rev_cases) (auto simp: set_top_def)

text \<open>The contract of the instructions' operand stack: the observable is the list with the top
  first, of at most \<open>lim\<close> elements.\<close>

locale operand_stack =
  fixes abs :: "'s \<Rightarrow> 'v list"
    and lim :: nat
    and push :: "'v \<Rightarrow> 's \<Rightarrow> bool \<times> 's"
    and popn :: "nat \<Rightarrow> 's \<Rightarrow> ('v list \<times> 's) option"
    and dup :: "nat \<Rightarrow> 's \<Rightarrow> (bool \<times> 's) option"
    and swap :: "nat \<Rightarrow> 's \<Rightarrow> (bool \<times> 's) option"
  assumes push_full: "length (abs s) = lim \<Longrightarrow> push v s = (False, s)"
    and push_room: "length (abs s) < lim \<Longrightarrow> \<exists>s'. push v s = (True, s') \<and> abs s' = v # abs s"
    and popn_short: "length (abs s) < n \<Longrightarrow> popn n s = None"
    and popn_ok: "n \<le> length (abs s) \<Longrightarrow>
           \<exists>s'. popn n s = Some (take n (abs s), s') \<and> abs s' = drop n (abs s)"
    and dup_fail: "0 < n \<Longrightarrow> length (abs s) < n \<or> lim \<le> length (abs s) \<Longrightarrow> dup n s = Some (False, s)"
    and dup_ok: "0 < n \<Longrightarrow> n \<le> length (abs s) \<Longrightarrow> length (abs s) < lim \<Longrightarrow>
           \<exists>s'. dup n s = Some (True, s') \<and> abs s' = abs s ! (n - 1) # abs s"
    and swap_fail: "0 < n \<Longrightarrow> length (abs s) \<le> n \<Longrightarrow> swap n s = Some (False, s)"
    and swap_ok: "0 < n \<Longrightarrow> n < length (abs s) \<Longrightarrow>
           \<exists>s'. swap n s = Some (True, s') \<and> abs s' = (abs s)[0 := abs s ! n, n := abs s ! 0]"
begin

lemma dup_cases:
  assumes "0 < n" "length (abs s) \<le> lim"
  obtains s' where "dup n s = Some (n \<le> length (abs s) \<and> length (abs s) < lim, s')"
    "abs s' = (if n \<le> length (abs s) \<and> length (abs s) < lim then abs s ! (n - 1) # abs s else abs s)"
proof (cases "n \<le> length (abs s) \<and> length (abs s) < lim")
  case True
  then show thesis using dup_ok [of n s] assms(1) that by auto
next
  case False
  then show thesis using dup_fail [of n s] assms that [of s] by (auto simp: not_le not_less)
qed

lemma swap_cases:
  assumes "0 < n"
  obtains s' where "swap n s = Some (n < length (abs s), s')"
    "abs s' = (if n < length (abs s) then (abs s)[0 := abs s ! n, n := abs s ! 0] else abs s)"
proof (cases "n < length (abs s)")
  case True
  then show thesis using swap_ok [of n s] assms that by auto
next
  case False
  then show thesis using swap_fail [of n s] assms that [of s] by (auto simp: not_less)
qed

end

interpretation vec_stack: operand_stack rev STACK_LIMIT stack_push stack_popn stack_dup stack_swap
proof
  fix n and s :: stack
  assume n: "0 < n" "n < length (rev s)"
  let ?s = "s[length s - 1 := s ! (length s - 1 - n), length s - 1 - n := s ! (length s - 1)]"
  have "rev ?s = (rev s)[0 := rev s ! n, n := rev s ! 0]"
  proof (rule nth_equalityI)
    fix i assume "i < length (rev ?s)"
    moreover have "s \<noteq> []" using n by auto
    ultimately show "rev ?s ! i = (rev s)[0 := rev s ! n, n := rev s ! 0] ! i"
      using n by (cases "i = 0"; cases "i = n") (auto simp: rev_nth nth_list_update)
  qed simp
  then show "\<exists>s'. stack_swap n s = Some (True, s')
      \<and> rev s' = (rev s)[0 := rev s ! n, n := rev s ! 0]"
    using n by (auto simp: stack_swap_def stack_exchange_def Let_def)
qed (auto simp: stack_push_def stack_popn_eq stack_dup_def stack_swap_def stack_exchange_def
    take_rev rev_take rev_nth Let_def)

section \<open>Correctness of the limb-wise push of a slice\<close>

lemma from_be_bytes_append:
  "from_be_bytes (xs @ ys) = (from_be_bytes xs * 256 ^ length ys + from_be_bytes ys :: 'a::len word)"
proof (induction ys rule: rev_induct)
  case Nil
  then show ?case by simp
next
  case (snoc y ys)
  then show ?case
    by (simp add: from_be_bytes_snoc algebra_simps flip: append_assoc)
qed

lemma ucast_from_be_bytes:
  "length bs \<le> 8 \<Longrightarrow> ucast (from_be_bytes bs :: u64) = (from_be_bytes bs :: u256)"
proof (induction bs rule: rev_induct)
  case Nil
  then show ?case by simp
next
  case (snoc b bs)
  let ?x = "from_be_bytes bs :: u64"
  have x: "bit ?x i \<Longrightarrow> i < 8 * length bs" for i
    using take_bit_from_be_bytes [of bs, where 'a = 64] by (metis bit_take_bit_iff)
  have "ucast (push_bit 8 ?x OR ucast b) = (push_bit 8 (ucast ?x) OR ucast b :: u256)"
    using snoc.prems by (intro bit_eqI) (auto simp: bit_simps dest: x bit_imp_le_length)
  with snoc show ?case by (simp add: from_be_bytes_snoc push_bit_plus_ucast)
qed

lemma from_be_bytes_zeros [simp]: "from_be_bytes (replicate n 0 @ bs) = from_be_bytes bs"
  by (induction n) (simp_all add: from_be_bytes_def)

lemma limbs_value_zeros [simp]: "limbs_value (ls @ replicate n 0) = limbs_value ls"
proof (induction ls)
  case Nil
  then show ?case by (induction n) simp_all
qed simp

lemma partial_limbs_short:
  "length bs < 8 \<Longrightarrow> partial_limbs bs = (if bs = [] then [] else [from_be_bytes bs])"
  by (simp add: partial_limbs_def rchunks8.simps)

lemma partial_limbs_long:
  "8 \<le> length bs \<Longrightarrow>
     partial_limbs bs = from_be_bytes (drop (length bs - 8) bs) # partial_limbs (take (length bs - 8) bs)"
  by (simp add: partial_limbs_def rchunks8.simps [of bs] case_prod_unfold Let_def)

lemma limbs_value_partial_limbs: "limbs_value (partial_limbs bs) = from_be_bytes bs"
proof (induction bs rule: rchunks8.induct)
  case (1 bs)
  show ?case
  proof (cases "length bs < 8")
    case True
    then show ?thesis by (simp add: partial_limbs_short ucast_from_be_bytes)
  next
    case False
    let ?k = "length bs - 8"
    have "from_be_bytes bs = (from_be_bytes (take ?k bs) * 256 ^ 8 + from_be_bytes (drop ?k bs) :: u256)"
      using False from_be_bytes_append [of "take ?k bs" "drop ?k bs", where 'a = 256] by simp
    with False 1 show ?thesis
      by (simp add: partial_limbs_long ucast_from_be_bytes algebra_simps)
  qed
qed

lemma length_partial_limbs: "length (partial_limbs bs) = (length bs + 7) div 8"
proof (induction bs rule: rchunks8.induct)
  case (1 bs)
  show ?case
  proof (cases "length bs < 8")
    case True
    then show ?thesis
      by (cases bs) (simp_all add: partial_limbs_short div_nat_eqI)
  next
    case False
    then have "(length bs + 7) div 8 = Suc ((length bs - 8 + 7) div 8)" by presburger
    with False 1 show ?thesis by (simp add: partial_limbs_long)
  qed
qed

lemma length_snd_rchunks8: "length (snd (rchunks8 bs)) = length bs mod 8"
proof (induction bs rule: rchunks8.induct)
  case (1 bs)
  then show ?case
    by (subst rchunks8.simps) (simp add: case_prod_unfold Let_def le_mod_geq)
qed

lemma rchunks8_exact:
  "length bs mod 8 = 0 \<Longrightarrow> map from_be_bytes (fst (rchunks8 bs)) = partial_limbs bs"
  using length_snd_rchunks8 [of bs] by (simp add: partial_limbs_def case_prod_unfold Let_def)

lemma words_of_limbs_append4:
  "length ls = 4 \<Longrightarrow> words_of_limbs (ls @ ms) = limbs_value ls # words_of_limbs ms"
  by (auto simp: numeral_eq_Suc length_Suc_conv)

lemma length_fst_chunks32: "w \<in> set (fst (chunks32 bs)) \<Longrightarrow> length w = 32"
proof (induction bs rule: chunks32.induct)
  case (1 bs)
  then show ?case
    by (subst (asm) (2) chunks32.simps) (auto simp: case_prod_unfold Let_def split: if_splits)
qed

lemma chunks32_lengths:
  "length (fst (chunks32 bs)) = length bs div 32 \<and> length (snd (chunks32 bs)) = length bs mod 32"
proof (induction bs rule: chunks32.induct)
  case (1 bs)
  then show ?case
    by (subst (1 2) chunks32.simps) (simp add: case_prod_unfold Let_def le_mod_geq le_div_geq)
qed

lemma words_of_full_limbs:
  "\<forall>w\<in>set ws. length w = 32 \<Longrightarrow>
     words_of_limbs (concat (map (\<lambda>w. map from_be_bytes (fst (rchunks8 w))) ws) @ ls)
       = map from_be_bytes ws @ words_of_limbs ls"
  by (induction ws)
    (auto simp: rchunks8_exact words_of_limbs_append4 length_partial_limbs limbs_value_partial_limbs)

text \<open>The reference: each 32-byte chunk, and the shorter last one, read as a big-endian number.\<close>

definition be_words :: "bytes \<Rightarrow> u256 list" where
  "be_words bs = (let (ws, r) = chunks32 bs
                  in map from_be_bytes ws @ (if r = [] then [] else [from_be_bytes r]))"

lemma words_of_partial_limbs:
  assumes "r \<noteq> []" "length r < 32"
  shows "words_of_limbs (partial_limbs r @ replicate ((4 - length (partial_limbs r) mod 4) mod 4) 0)
           = [from_be_bytes r]"
proof -
  let ?n = "length (partial_limbs r)"
  have "0 < ?n" "?n \<le> 4"
    using assms by (cases r; simp add: length_partial_limbs div_greater_zero_iff)+
  then have "?n + (4 - ?n mod 4) mod 4 = 4"
    by (cases "?n = 4") auto
  then have "words_of_limbs ((partial_limbs r @ replicate ((4 - ?n mod 4) mod 4) 0) @ [])
      = [limbs_value (partial_limbs r @ replicate ((4 - ?n mod 4) mod 4) 0)]"
    by (subst words_of_limbs_append4) simp_all
  then show ?thesis by (simp add: limbs_value_partial_limbs)
qed

lemma length_full_limbs:
  "\<forall>w\<in>set ws. length w = 32 \<Longrightarrow>
     length (concat (map (\<lambda>w. map (from_be_bytes :: bytes \<Rightarrow> u64) (fst (rchunks8 w))) ws)) mod 4 = 0"
  by (induction ws) (auto simp: rchunks8_exact length_partial_limbs mod_add_eq)

lemma words_of_slice_limbs: "words_of_limbs (slice_limbs sl) = be_words sl"
proof -
  obtain ws r where c: "chunks32 sl = (ws, r)" by fastforce
  have ws: "\<forall>w\<in>set ws. length w = 32" and r: "length r < 32"
    using length_fst_chunks32 [of _ sl] chunks32_lengths [of sl] by (simp_all add: c)
  let ?full = "concat (map (\<lambda>w. map (from_be_bytes :: bytes \<Rightarrow> u64) (fst (rchunks8 w))) ws)"
  have m: "length (?full @ partial_limbs r) mod 4 = length (partial_limbs r) mod 4"
    unfolding length_append
    by (subst mod_add_left_eq [symmetric], subst length_full_limbs [OF ws]) simp
  show ?thesis
  proof (cases "r = []")
    case True
    then show ?thesis
      using words_of_full_limbs [OF ws, of "[]"] by (simp add: slice_limbs_def be_words_def c)
  next
    case False
    have "slice_limbs sl
        = ?full @ partial_limbs r @ replicate ((4 - length (partial_limbs r) mod 4) mod 4) 0"
      using False m by (simp add: slice_limbs_def c Let_def)
    then show ?thesis
      using False r words_of_partial_limbs [of r] words_of_full_limbs [OF ws]
      by (simp add: be_words_def c)
  qed
qed

lemma length_be_words: "length (be_words sl) = div_ceil (length sl) 32"
proof -
  have "snd (chunks32 sl) = [] \<longleftrightarrow> length sl mod 32 = 0"
    using chunks32_lengths [of sl] by (metis length_0_conv)
  then show ?thesis
    using chunks32_lengths [of sl]
    by (simp add: be_words_def div_ceil_def case_prod_unfold Let_def)
qed

lemma chunks32_Nil [simp]: "chunks32 [] = ([], [])"
  by (simp add: chunks32.simps)

lemma be_words_single: "sl \<noteq> [] \<Longrightarrow> length sl \<le> 32 \<Longrightarrow> be_words sl = [from_be_bytes sl]"
  by (cases "length sl = 32") (simp_all add: be_words_def chunks32.simps [of sl])

text \<open>C24. The unrolled, limb-wise \<open>push_slice\<close> is the plain big-endian push: it fails exactly when
  the words of the slice do not fit under the limit, leaving the stack unchanged, and otherwise
  appends every 32-byte chunk as a big-endian number; a slice of at most 32 bytes (the
  immediate of a \<open>PUSHn\<close>) is pushed as one zero-extended number.\<close>
theorem push_slice_spec:
  "stack_push_slice sl st =
     (if length st + length (be_words sl) > STACK_LIMIT \<and> sl \<noteq> [] then (False, st)
      else (True, st @ be_words sl))
   \<and> be_words (b # bs) =
     (if length bs < 32 then [from_be_bytes (b # bs)]
      else from_be_bytes (b # take 31 bs) # be_words (drop 31 bs))"
proof
  have "be_words [] = []" by (simp add: be_words_def)
  then show "stack_push_slice sl st =
     (if length st + length (be_words sl) > STACK_LIMIT \<and> sl \<noteq> [] then (False, st)
      else (True, st @ be_words sl))"
    by (simp add: stack_push_slice_def words_of_slice_limbs length_be_words)
  show "be_words (b # bs) =
     (if length bs < 32 then [from_be_bytes (b # bs)]
      else from_be_bytes (b # take 31 bs) # be_words (drop 31 bs))"
    using be_words_single [of "b # bs"]
    by (auto simp: be_words_def chunks32.simps [of "b # bs"] case_prod_unfold Let_def)
qed

end
