(* ===== verification/Memory.thy ===== *)
theory Memory
  imports Gas
begin

text \<open>
  The memory shared between call frames (\<open>crates/interpreter/src/interpreter/shared_memory.rs\<close>).
  All frames of a call stack hold the same reference-counted buffer; a frame's own memory is the
  part above its checkpoint. A handle carries the contents of that buffer as the running frame
  sees it, and \<open>mem_share\<close> hands the contents back to the parent when a child frame ends.
  \<open>None\<close> is a panic or undefined behaviour. A \<open>Vec\<close> never holds \<open>2^63\<close> bytes or more
  (\<open>isize::MAX\<close>); growing beyond that panics. The optional \<open>memory_limit\<close> feature is off.
\<close>

section \<open>Vectors and slices with \<open>usize\<close> indices\<close>

definition vec_len :: "'a list \<Rightarrow> usize" where
  "vec_len xs = of_nat (length xs)"

definition vec_resize :: "usize \<Rightarrow> bytes \<Rightarrow> bytes option" where
  "vec_resize n b =
     (if unat n < 2 ^ 63 then Some (take (unat n) b @ replicate (unat n - length b) 0) else None)"

definition range_get :: "usize \<Rightarrow> usize \<Rightarrow> bytes \<Rightarrow> bytes option" where
  "range_get s e b = slice_get (unat s) (unat e) b"

definition range_put :: "usize \<Rightarrow> usize \<Rightarrow> bytes \<Rightarrow> bytes \<Rightarrow> bytes option" where
  "range_put s e d b =
     (if unat s \<le> unat e \<and> unat e \<le> length b \<and> length d = unat e - unat s
      then slice_put (unat s) d b else None)"

definition range_fill :: "usize \<Rightarrow> usize \<Rightarrow> u8 \<Rightarrow> bytes \<Rightarrow> bytes option" where
  "range_fill s e v b = range_put s e (replicate (unat e - unat s) v) b"

section \<open>Shared memory\<close>

record shared_memory =
  sm_buffer :: "bytes option"
  sm_my_checkpoint :: usize
  sm_child_checkpoint :: "usize option"

definition mem_new :: shared_memory where
  "mem_new = \<lparr>sm_buffer = Some [], sm_my_checkpoint = 0, sm_child_checkpoint = None\<rparr>"

definition mem_invalid :: shared_memory where
  "mem_invalid = \<lparr>sm_buffer = None, sm_my_checkpoint = 0, sm_child_checkpoint = None\<rparr>"

definition mem_new_with_buffer :: "bytes \<Rightarrow> shared_memory" where
  "mem_new_with_buffer b = \<lparr>sm_buffer = Some b, sm_my_checkpoint = 0, sm_child_checkpoint = None\<rparr>"

definition full_len :: "shared_memory \<Rightarrow> usize option" where
  "full_len m = map_option vec_len (sm_buffer m)"

definition mem_len :: "shared_memory \<Rightarrow> usize option" where
  "mem_len m = map_option (\<lambda>l. l - sm_my_checkpoint m) (full_len m)"

text \<open>The child's handle and the parent's, in this order.\<close>

definition new_child_context :: "shared_memory \<Rightarrow> (shared_memory \<times> shared_memory) option" where
  "new_child_context m =
     (case sm_child_checkpoint m of
        Some _ \<Rightarrow> None
      | None \<Rightarrow>
          map_option (\<lambda>new_checkpoint.
            (\<lparr>sm_buffer = sm_buffer m, sm_my_checkpoint = new_checkpoint, sm_child_checkpoint = None\<rparr>,
             m\<lparr>sm_child_checkpoint := Some new_checkpoint\<rparr>)) (full_len m))"

definition free_child_context :: "shared_memory \<Rightarrow> shared_memory option" where
  "free_child_context m =
     (case sm_child_checkpoint m of
        None \<Rightarrow> Some m
      | Some child_checkpoint \<Rightarrow>
          Option.bind (sm_buffer m)
            (\<lambda>b. if unat child_checkpoint \<le> length b
                 then Some (m\<lparr>sm_buffer := Some (take (unat child_checkpoint) b),
                              sm_child_checkpoint := None\<rparr>)
                 else None))"

text \<open>The parent's handle points to the buffer the child wrote to.\<close>

definition mem_share :: "shared_memory \<Rightarrow> shared_memory \<Rightarrow> shared_memory" where
  "mem_share child parent = parent\<lparr>sm_buffer := sm_buffer child\<rparr>"

definition mem_resize :: "usize \<Rightarrow> shared_memory \<Rightarrow> shared_memory option" where
  "mem_resize new_size m =
     Option.bind (sm_buffer m)
       (\<lambda>b. map_option (\<lambda>b'. m\<lparr>sm_buffer := Some b'\<rparr>)
              (vec_resize (sm_my_checkpoint m + new_size) b))"

definition slice_range :: "usize \<Rightarrow> usize \<Rightarrow> shared_memory \<Rightarrow> bytes option" where
  "slice_range s e m =
     Option.bind (sm_buffer m) (range_get (s + sm_my_checkpoint m) (e + sm_my_checkpoint m))"

definition slice_len :: "usize \<Rightarrow> usize \<Rightarrow> shared_memory \<Rightarrow> bytes option" where
  "slice_len offset sz m = slice_range offset (offset + sz) m"

definition global_slice_range :: "usize \<Rightarrow> usize \<Rightarrow> shared_memory \<Rightarrow> bytes option" where
  "global_slice_range s e m = Option.bind (sm_buffer m) (range_get s e)"

text \<open>Copying a slice into \<open>slice_mut(offset, size)\<close>.\<close>

definition slice_mut_copy :: "usize \<Rightarrow> usize \<Rightarrow> bytes \<Rightarrow> shared_memory \<Rightarrow> shared_memory option" where
  "slice_mut_copy offset sz val m =
     Option.bind (sm_buffer m)
       (\<lambda>b. map_option (\<lambda>b'. m\<lparr>sm_buffer := Some b'\<rparr>)
              (range_put (sm_my_checkpoint m + offset) (sm_my_checkpoint m + offset + sz) val b))"

definition get_byte :: "usize \<Rightarrow> shared_memory \<Rightarrow> u8 option" where
  "get_byte offset m = Option.bind (slice_len offset 1 m) (\<lambda>s. if s = [] then None else Some (s ! 0))"

definition get_word :: "usize \<Rightarrow> shared_memory \<Rightarrow> b256 option" where
  "get_word offset m =
     Option.bind (slice_len offset 32 m)
       (\<lambda>s. if length s = 32 then Some (from_be_bytes s) else None)"

definition get_u256 :: "usize \<Rightarrow> shared_memory \<Rightarrow> u256 option" where
  "get_u256 offset m = get_word offset m"

definition mem_set :: "usize \<Rightarrow> bytes \<Rightarrow> shared_memory \<Rightarrow> shared_memory option" where
  "mem_set offset val m =
     (if val \<noteq> [] then slice_mut_copy offset (vec_len val) val m else Some m)"

definition set_byte :: "usize \<Rightarrow> u8 \<Rightarrow> shared_memory \<Rightarrow> shared_memory option" where
  "set_byte offset byte m = mem_set offset [byte] m"

definition set_word :: "usize \<Rightarrow> b256 \<Rightarrow> shared_memory \<Rightarrow> shared_memory option" where
  "set_word offset val m = mem_set offset (to_be_bytes 32 val) m"

definition set_u256 :: "usize \<Rightarrow> u256 \<Rightarrow> shared_memory \<Rightarrow> shared_memory option" where
  "set_u256 offset val m = mem_set offset (to_be_bytes 32 val) m"

text \<open>The free function \<open>set_data\<close>.\<close>

definition set_data_raw :: "bytes \<Rightarrow> bytes \<Rightarrow> usize \<Rightarrow> usize \<Rightarrow> usize \<Rightarrow> bytes option" where
  "set_data_raw dst src dst_offset src_offset len =
     (if len = 0 then Some dst
      else if src_offset \<ge> vec_len src then range_fill dst_offset (dst_offset + len) 0 dst
      else
        (let src_end = min (src_offset + len) (vec_len src);
             src_len = src_end - src_offset
         in Option.bind (range_get src_offset src_end src)
              (\<lambda>data. Option.bind (range_put dst_offset (dst_offset + src_len) data dst)
                (range_fill (dst_offset + src_len) (dst_offset + len) 0))))"

definition context_memory :: "shared_memory \<Rightarrow> bytes option" where
  "context_memory m =
     Option.bind (sm_buffer m)
       (\<lambda>b. if unat (sm_my_checkpoint m) \<le> length b
            then Some (drop (unat (sm_my_checkpoint m)) b) else None)"

text \<open>An update through \<open>context_memory_mut\<close>.\<close>

definition context_memory_mut :: "(bytes \<Rightarrow> bytes option) \<Rightarrow> shared_memory \<Rightarrow> shared_memory option" where
  "context_memory_mut f m =
     Option.bind (sm_buffer m)
       (\<lambda>b. Option.bind (context_memory m)
         (\<lambda>c. map_option
           (\<lambda>c'. m\<lparr>sm_buffer := Some (take (unat (sm_my_checkpoint m)) b @ c')\<rparr>) (f c)))"

definition mem_set_data ::
    "usize \<Rightarrow> usize \<Rightarrow> usize \<Rightarrow> bytes \<Rightarrow> shared_memory \<Rightarrow> shared_memory option" where
  "mem_set_data memory_offset data_offset len data m =
     context_memory_mut (\<lambda>dst. set_data_raw dst data memory_offset data_offset len) m"

definition global_to_local_set_data ::
    "usize \<Rightarrow> usize \<Rightarrow> usize \<Rightarrow> usize \<Rightarrow> usize \<Rightarrow> shared_memory \<Rightarrow> shared_memory option" where
  "global_to_local_set_data memory_offset data_offset len range_start range_end m =
     Option.bind (sm_buffer m)
       (\<lambda>b. if unat (sm_my_checkpoint m) \<le> length b then
              (let src = take (unat (sm_my_checkpoint m)) b;
                   dst = drop (unat (sm_my_checkpoint m)) b
               in Option.bind
                    (if \<not> range_start < range_end then Some [] else range_get range_start range_end src)
                    (\<lambda>s. map_option (\<lambda>dst'. m\<lparr>sm_buffer := Some (src @ dst')\<rparr>)
                           (set_data_raw dst s memory_offset data_offset len)))
            else None)"

text \<open>\<open>slice::copy_within\<close>.\<close>

definition copy_within :: "usize \<Rightarrow> usize \<Rightarrow> usize \<Rightarrow> bytes \<Rightarrow> bytes option" where
  "copy_within s e dest b = Option.bind (range_get s e b) (\<lambda>d. slice_put (unat dest) d b)"

definition mem_copy :: "usize \<Rightarrow> usize \<Rightarrow> usize \<Rightarrow> shared_memory \<Rightarrow> shared_memory option" where
  "mem_copy dst src len m = context_memory_mut (copy_within src (src + len) dst) m"

section \<open>Resizing with gas\<close>

definition resize_memory_cold ::
    "gas \<Rightarrow> shared_memory \<Rightarrow> usize \<Rightarrow> (bool \<times> gas \<times> shared_memory) option" where
  "resize_memory_cold g m new_num_words =
     (let (c, mg) = record_new_len new_num_words (g_memory g); g = g\<lparr>g_memory := mg\<rparr>
      in Option.bind c
           (\<lambda>cost. let (succ, g) = record_cost cost g
                   in if \<not> succ then Some (False, g, m)
                      else map_option (\<lambda>m'. (True, g, m')) (mem_resize (new_num_words * 32) m)))"

definition resize_memory ::
    "gas \<Rightarrow> shared_memory \<Rightarrow> usize \<Rightarrow> usize \<Rightarrow> (bool \<times> gas \<times> shared_memory) option" where
  "resize_memory g m offset len =
     (let new_num_words = num_words (saturating_add offset len)
      in if new_num_words > words_num (g_memory g) then resize_memory_cold g m new_num_words
         else Some (True, g, m))"

section \<open>The memory of a frame\<close>

definition mem_inv :: "shared_memory \<Rightarrow> bool" where
  "mem_inv m \<longleftrightarrow>
     (case sm_buffer m of
        None \<Rightarrow> False
      | Some b \<Rightarrow> unat (sm_my_checkpoint m) \<le> length b \<and> length b < 2 ^ 63)"

definition mem_bytes :: "shared_memory \<Rightarrow> bytes" where
  "mem_bytes m = (case context_memory m of None \<Rightarrow> [] | Some c \<Rightarrow> c)"

text \<open>The handle with the frame's own bytes replaced.\<close>

definition mem_upd :: "shared_memory \<Rightarrow> bytes \<Rightarrow> shared_memory" where
  "mem_upd m c =
     (case sm_buffer m of
        None \<Rightarrow> m
      | Some b \<Rightarrow> m\<lparr>sm_buffer := Some (take (unat (sm_my_checkpoint m)) b @ c)\<rparr>)"

named_theorems mem_simps \<open>memory operations as updates of the frame's bytes\<close>

lemma mem_invE:
  assumes "mem_inv m"
  obtains b where "sm_buffer m = Some b" "unat (sm_my_checkpoint m) \<le> length b" "length b < 2 ^ 63"
    "mem_bytes m = drop (unat (sm_my_checkpoint m)) b"
    "unat (sm_my_checkpoint m) + length (mem_bytes m) = length b"
  using assms by (auto simp: mem_inv_def mem_bytes_def context_memory_def split: option.splits)

lemma mem_inv_length: "mem_inv m \<Longrightarrow> unat (sm_my_checkpoint m) + length (mem_bytes m) < 2 ^ 63"
  by (erule mem_invE) simp

lemma mem_bytes_upd [simp]: "mem_inv m \<Longrightarrow> mem_bytes (mem_upd m c) = c"
  by (auto simp: mem_upd_def mem_bytes_def context_memory_def min_absorb2 elim!: mem_invE)

lemma mem_inv_upd:
  "mem_inv m \<Longrightarrow> unat (sm_my_checkpoint m) + length c < 2 ^ 63 \<Longrightarrow> mem_inv (mem_upd m c)"
  by (auto simp: mem_upd_def mem_inv_def min_absorb2 split: option.splits)

lemma mem_upd_fields [simp]:
  "sm_my_checkpoint (mem_upd m c) = sm_my_checkpoint m"
  "sm_child_checkpoint (mem_upd m c) = sm_child_checkpoint m"
  by (simp_all add: mem_upd_def split: option.split)

lemma mem_upd_upd [simp]: "mem_inv m \<Longrightarrow> mem_upd (mem_upd m c) d = mem_upd m d"
  by (auto simp: mem_upd_def min_absorb2 elim!: mem_invE)

lemma mem_upd_same: "mem_inv m \<Longrightarrow> mem_upd m (mem_bytes m) = m"
  by (auto simp: mem_upd_def elim!: mem_invE)

lemma mem_inv_new: "mem_inv mem_new"
  by (simp add: mem_inv_def mem_new_def)

lemma mem_bytes_new: "mem_bytes mem_new = []"
  by (simp add: mem_bytes_def context_memory_def mem_new_def)

lemma context_memory_eq [mem_simps]: "mem_inv m \<Longrightarrow> context_memory m = Some (mem_bytes m)"
  by (auto simp: context_memory_def elim!: mem_invE)

lemma mem_len_eq [mem_simps]: "mem_inv m \<Longrightarrow> mem_len m = Some (of_nat (length (mem_bytes m)))"
  by (auto simp: mem_len_def full_len_def vec_len_def of_nat_diff elim!: mem_invE)

lemma context_memory_mut_eq [mem_simps]:
  "mem_inv m \<Longrightarrow> context_memory_mut f m = map_option (mem_upd m) (f (mem_bytes m))"
  by (auto simp: context_memory_mut_def context_memory_eq mem_upd_def elim!: mem_invE
      intro!: option.map_cong)

lemma mem_resize_eq [mem_simps]:
  assumes "mem_inv m" "unat (sm_my_checkpoint m) + unat n < 2 ^ 63"
  shows "mem_resize n m
           = Some (mem_upd m (take (unat n) (mem_bytes m) @ replicate (unat n - length (mem_bytes m)) 0))"
proof -
  have "unat (sm_my_checkpoint m + n) = unat (sm_my_checkpoint m) + unat n"
    using assms(2) by (intro unat_add_small) simp
  with assms show ?thesis
    by (auto simp: mem_resize_def vec_resize_def mem_upd_def take_add diff_diff_add elim!: mem_invE)
qed

lemma slice_len_eq [mem_simps]:
  assumes "mem_inv m" "unat off + unat n \<le> length (mem_bytes m)"
  shows "slice_len off n m = Some (take (unat n) (drop (unat off) (mem_bytes m)))"
proof -
  let ?cp = "sm_my_checkpoint m"
  have b: "unat ?cp + (unat off + unat n) < 2 ^ 63" using assms mem_inv_length [OF assms(1)] by linarith
  then have "unat (off + n) = unat off + unat n" by (intro unat_add_small) simp
  moreover from this b have "unat (off + n + ?cp) = unat off + unat n + unat ?cp"
    by (subst unat_add_small) simp_all
  moreover from b have "unat (off + ?cp) = unat off + unat ?cp"
    by (subst unat_add_small) simp_all
  ultimately show ?thesis
    using assms by (auto simp: slice_len_def slice_range_def range_get_def slice_get_def add.commute
        elim!: mem_invE)
qed

lemma take_add_comm: "take (a + b) xs = take b xs @ take a (drop b xs)"
  by (metis add.commute take_add)

lemma mem_set_eq [mem_simps]:
  assumes "mem_inv m" "unat off + length v \<le> length (mem_bytes m)"
  shows "mem_set off v m
    = Some (mem_upd m (take (unat off) (mem_bytes m) @ v @ drop (unat off + length v) (mem_bytes m)))"
proof (cases "v = []")
  case True
  then show ?thesis using assms by (simp add: mem_set_def mem_upd_same)
next
  case False
  let ?cp = "sm_my_checkpoint m"
  have b: "unat ?cp + (unat off + length v) < 2 ^ 63" using assms mem_inv_length [OF assms(1)] by linarith
  then have v: "unat (vec_len v) = length v"
    by (simp add: vec_len_def unat_of_nat_small)
  from b have o: "unat (?cp + off) = unat ?cp + unat off" by (subst unat_add_small) simp_all
  with b v have "unat (?cp + off + vec_len v) = unat ?cp + unat off + length v"
    by (subst unat_add_small) simp_all
  with assms False o v show ?thesis
    by (auto simp: mem_set_def slice_mut_copy_def range_put_def slice_put_def mem_upd_def take_add_comm
        ac_simps elim!: mem_invE)
qed

lemma get_word_eq [mem_simps]:
  "mem_inv m \<Longrightarrow> unat off + 32 \<le> length (mem_bytes m) \<Longrightarrow>
     get_word off m = Some (from_be_bytes (take 32 (drop (unat off) (mem_bytes m))))"
  using slice_len_eq [of m off 32] by (simp add: get_word_def)

lemma mem_copy_eq [mem_simps]:
  assumes "mem_inv m" "unat src + unat len \<le> length (mem_bytes m)"
    "unat dst + unat len \<le> length (mem_bytes m)"
  shows "mem_copy dst src len m
    = Some (mem_upd m (take (unat dst) (mem_bytes m) @
        take (unat len) (drop (unat src) (mem_bytes m)) @
        drop (unat dst + unat len) (mem_bytes m)))"
proof -
  have "unat (src + len) = unat src + unat len"
    using assms mem_inv_length [OF assms(1)] by (intro unat_add_small) simp
  with assms show ?thesis
    by (simp add: mem_copy_def context_memory_mut_eq copy_within_def range_get_def slice_get_def
        slice_put_def min_absorb2)
qed

text \<open>The bytes \<open>set_data\<close> writes: the source from the offset on, padded with zeros.\<close>

definition padded :: "bytes \<Rightarrow> nat \<Rightarrow> nat \<Rightarrow> bytes" where
  "padded src off n = take n (drop off src @ replicate n 0)"

lemma length_padded [simp]: "length (padded src off n) = n"
  by (simp add: padded_def)

lemma range_fill_eq: "range_fill s e v = range_put s e (replicate (unat e - unat s) v)"
  by (simp add: range_fill_def fun_eq_iff)

lemma range_put_twice:
  assumes "unat b = unat a + length d" "unat c = unat a + length d + length e" "unat c \<le> length dst"
  shows "Option.bind (range_put a b d dst) (range_put b c e)
           = Some (take (unat a) dst @ (d @ e) @ drop (unat c) dst)"
  using assms by (simp add: range_put_def slice_put_def min_absorb2 add.commute)

lemma set_data_raw_eq [mem_simps]:
  assumes "length src < 2 ^ 63" "length dst < 2 ^ 63" "unat doff + unat len \<le> length dst"
  shows "set_data_raw dst src doff soff len
    = Some (take (unat doff) dst @ padded src (unat soff) (unat len) @ drop (unat doff + unat len) dst)"
proof (cases "len = 0")
  case True
  then show ?thesis by (simp add: set_data_raw_def padded_def)
next
  case False
  have d: "unat (doff + len) = unat doff + unat len" using assms by (intro unat_add_small) simp
  have vs: "unat (vec_len src) = length src" using assms by (simp add: vec_len_def unat_of_nat_small)
  show ?thesis
  proof (cases "soff \<ge> vec_len src")
    case True
    then have "padded src (unat soff) (unat len) = replicate (unat len) 0"
      by (simp add: padded_def word_le_nat_alt vs)
    with True False d assms show ?thesis
      by (simp add: set_data_raw_def range_fill_def range_put_def slice_put_def)
  next
    case soff: False
    define n where "n = min (unat len) (length src - unat soff)"
    have lt: "unat soff < length src" using soff by (simp add: word_le_nat_alt vs)
    have "unat (soff + len) = unat soff + unat len"
      using assms lt by (intro unat_add_small) simp
    then have e: "unat (min (soff + len) (vec_len src)) = unat soff + n"
      using lt by (auto simp: n_def min_def word_le_nat_alt vs)
    then have l: "unat (min (soff + len) (vec_len src) - soff) = n"
      by (subst unat_minus_le) (simp_all add: word_le_nat_alt)
    then have dl: "unat (doff + (min (soff + len) (vec_len src) - soff)) = unat doff + n"
      using assms by (subst unat_add_small) (auto simp: n_def)
    have "n \<le> unat len" "unat soff + n \<le> length src" using lt by (auto simp: n_def)
    moreover have "take n (drop (unat soff) src) @ replicate (unat len - n) 0
        = padded src (unat soff) (unat len)"
      by (auto simp: padded_def n_def min_def)
    ultimately show ?thesis
      using False soff d dl e assms
      by (simp add: set_data_raw_def Let_def range_get_def slice_get_def range_fill_eq
          range_put_twice)
  qed
qed

lemma mem_set_data_eq [mem_simps]:
  "mem_inv m \<Longrightarrow> length src < 2 ^ 63 \<Longrightarrow> unat doff + unat len \<le> length (mem_bytes m) \<Longrightarrow>
     mem_set_data doff soff len src m
       = Some (mem_upd m (take (unat doff) (mem_bytes m) @ padded src (unat soff) (unat len)
           @ drop (unat doff + unat len) (mem_bytes m)))"
  using mem_inv_length [of m]
  by (simp add: mem_set_data_def context_memory_mut_eq set_data_raw_eq)

lemma global_to_local_set_data_eq [mem_simps]:
  assumes "mem_inv m" "unat doff + unat len \<le> length (mem_bytes m)"
    "rs < re \<Longrightarrow> re \<le> sm_my_checkpoint m"
  shows "\<exists>src. global_to_local_set_data doff soff len rs re m
    = Some (mem_upd m (take (unat doff) (mem_bytes m) @ padded src (unat soff) (unat len)
        @ drop (unat doff + unat len) (mem_bytes m)))"
  using assms(1)
proof (rule mem_invE)
  fix b assume b: "sm_buffer m = Some b" "unat (sm_my_checkpoint m) \<le> length b" "length b < 2 ^ 63"
    and bytes: "mem_bytes m = drop (unat (sm_my_checkpoint m)) b"
  let ?cp = "unat (sm_my_checkpoint m)"
  define s where "s = (if rs < re then take (unat re - unat rs) (drop (unat rs) (take ?cp b)) else [])"
  have "(if \<not> rs < re then Some [] else range_get rs re (take ?cp b)) = Some s"
    using assms(3) b by (auto simp: s_def range_get_def slice_get_def word_le_nat_alt word_less_nat_alt)
  moreover have "length s < 2 ^ 63" using b by (auto simp: s_def)
  then have "set_data_raw (drop ?cp b) s doff soff len
      = Some (take (unat doff) (drop ?cp b) @ padded s (unat soff) (unat len)
          @ drop (unat doff + unat len) (drop ?cp b))"
    using assms(2) b bytes by (intro set_data_raw_eq) simp_all
  ultimately show ?thesis
    using b bytes by (auto simp: global_to_local_set_data_def mem_upd_def Let_def)
qed

section \<open>Properties of the memory\<close>

text \<open>C29. A word stored in memory is read back, and every byte outside the stored word is unchanged:
  \<open>set_u256\<close> within the frame's memory succeeds, a following \<open>get_u256\<close> at the same offset
  returns the value, and the length and the other bytes of the frame's memory are kept.\<close>
theorem set_get_u256:
  assumes "mem_inv m" "unat off + 32 \<le> length (mem_bytes m)"
  shows "\<exists>m'. set_u256 off v m = Some m' \<and> get_u256 off m' = Some v
    \<and> length (mem_bytes m') = length (mem_bytes m)
    \<and> (\<forall>i. i < unat off \<or> unat off + 32 \<le> i \<longrightarrow> i < length (mem_bytes m) \<longrightarrow>
          mem_bytes m' ! i = mem_bytes m ! i)"
proof -
  let ?c = "take (unat off) (mem_bytes m) @ to_be_bytes 32 v @ drop (unat off + 32) (mem_bytes m)"
  have len: "length ?c = length (mem_bytes m)" using assms by simp
  have "set_u256 off v m = Some (mem_upd m ?c)"
    using assms mem_set_eq [of m off "to_be_bytes 32 v"] by (simp add: set_u256_def)
  moreover have "mem_inv (mem_upd m ?c)"
    using assms mem_inv_length [of m] by (intro mem_inv_upd) simp_all
  then have "get_u256 off (mem_upd m ?c) = Some v"
    using assms len by (simp add: get_u256_def get_word_eq)
  ultimately show ?thesis
    using assms len by (auto simp: nth_append min_absorb2)
qed

theorem set_get_u256_witness:
  "\<exists>m'. set_u256 7 42 (mem_new_with_buffer (replicate 64 1)) = Some m' \<and> get_u256 7 m' = Some 42"
  using set_get_u256 [of "mem_new_with_buffer (replicate 64 1)" 7 42]
  by (auto simp: mem_inv_def mem_new_with_buffer_def mem_bytes_def context_memory_def)

text \<open>C27. Copying data into memory (\<open>CALLDATACOPY\<close>, \<open>CODECOPY\<close>, \<open>RETURNDATACOPY\<close>, ...) writes the
  source from the data offset on and zeros past its end, for every data offset including those
  beyond the source, and changes nothing else.\<close>
theorem mem_set_data_spec:
  assumes "mem_inv m" "length src < 2 ^ 63" "unat doff + unat len \<le> length (mem_bytes m)"
  shows "\<exists>m'. mem_set_data doff soff len src m = Some m'
    \<and> length (mem_bytes m') = length (mem_bytes m)
    \<and> (\<forall>i < length (mem_bytes m). mem_bytes m' ! i =
          (if unat doff \<le> i \<and> i < unat doff + unat len
           then (if unat soff + (i - unat doff) < length src then src ! (unat soff + (i - unat doff)) else 0)
           else mem_bytes m ! i))"
proof -
  have p: "j < unat len \<Longrightarrow> padded src (unat soff) (unat len) ! j
      = (if unat soff + j < length src then src ! (unat soff + j) else 0)" for j
    by (auto simp: padded_def nth_append)
  show ?thesis
    using assms by (auto simp: mem_set_data_eq nth_append p min_absorb2)
qed

theorem mem_set_data_spec_witness:
  "\<exists>m'. mem_set_data 2 1 4 [5, 6, 7] (mem_new_with_buffer (replicate 8 1)) = Some m'
     \<and> mem_bytes m' ! 3 = 7 \<and> mem_bytes m' ! 5 = 0 \<and> mem_bytes m' ! 6 = 1"
  using mem_set_data_spec [of "mem_new_with_buffer (replicate 8 1)" "[5, 6, 7]" 2 4 1]
  by (auto simp: mem_inv_def mem_new_with_buffer_def mem_bytes_def context_memory_def)

text \<open>The writes a frame can do to its memory, and running a sequence of them.\<close>

datatype mem_op =
    MemSet usize bytes
  | MemSetData usize usize usize bytes
  | MemGlobal usize usize usize usize usize
  | MemCopy usize usize usize
  | MemResize usize

primrec mem_exec :: "mem_op \<Rightarrow> shared_memory \<Rightarrow> shared_memory option" where
  "mem_exec (MemSet off v) m = mem_set off v m"
| "mem_exec (MemSetData d s n src) m = mem_set_data d s n src m"
| "mem_exec (MemGlobal d s n a b) m = global_to_local_set_data d s n a b m"
| "mem_exec (MemCopy d s n) m = mem_copy d s n m"
| "mem_exec (MemResize n) m = mem_resize n m"

fun mem_execs :: "mem_op list \<Rightarrow> shared_memory \<Rightarrow> shared_memory option" where
  "mem_execs [] m = Some m"
| "mem_execs (p # ps) m = Option.bind (mem_exec p m) (mem_execs ps)"

text \<open>An access within the frame's memory, which the interpreter ensures by resizing first; source
  data respects the size limit of vectors and a source range in the shared buffer lies below the
  frame's checkpoint.\<close>

primrec mem_op_ok :: "mem_op \<Rightarrow> shared_memory \<Rightarrow> bool" where
  "mem_op_ok (MemSet off v) m \<longleftrightarrow> unat off + length v \<le> length (mem_bytes m)"
| "mem_op_ok (MemSetData d s n src) m \<longleftrightarrow>
     unat d + unat n \<le> length (mem_bytes m) \<and> length src < 2 ^ 63"
| "mem_op_ok (MemGlobal d s n a b) m \<longleftrightarrow>
     unat d + unat n \<le> length (mem_bytes m) \<and> (a < b \<longrightarrow> b \<le> sm_my_checkpoint m)"
| "mem_op_ok (MemCopy d s n) m \<longleftrightarrow>
     unat d + unat n \<le> length (mem_bytes m) \<and> unat s + unat n \<le> length (mem_bytes m)"
| "mem_op_ok (MemResize n) m \<longleftrightarrow> unat (sm_my_checkpoint m) + unat n < 2 ^ 63"

fun mem_ops_ok :: "mem_op list \<Rightarrow> shared_memory \<Rightarrow> bool" where
  "mem_ops_ok [] m \<longleftrightarrow> True"
| "mem_ops_ok (p # ps) m \<longleftrightarrow>
     mem_op_ok p m \<and> (case mem_exec p m of None \<Rightarrow> True | Some m' \<Rightarrow> mem_ops_ok ps m')"

lemma mem_exec_upd:
  assumes "mem_inv m" "mem_op_ok p m"
  obtains c where "mem_exec p m = Some (mem_upd m c)" "mem_inv (mem_upd m c)"
proof -
  have "\<exists>c. mem_exec p m = Some (mem_upd m c) \<and> unat (sm_my_checkpoint m) + length c < 2 ^ 63"
  proof (cases p)
    case (MemGlobal d s n a b)
    then obtain src where "mem_exec p m = Some (mem_upd m (take (unat d) (mem_bytes m)
        @ padded src (unat s) (unat n) @ drop (unat d + unat n) (mem_bytes m)))"
      using assms global_to_local_set_data_eq [of m d n a b s] by auto
    then show ?thesis using MemGlobal assms mem_inv_length [of m] by auto
  qed (use assms mem_inv_length [of m] in \<open>auto simp: mem_simps\<close>)
  then show thesis using that mem_inv_upd [OF assms(1)] by blast
qed

lemma mem_execs_upd:
  "mem_inv m \<Longrightarrow> mem_ops_ok ps m \<Longrightarrow> \<exists>c. mem_execs ps m = Some (mem_upd m c) \<and> mem_inv (mem_upd m c)"
proof (induction ps arbitrary: m)
  case Nil
  then show ?case by (auto intro!: exI [of _ "mem_bytes m"] simp: mem_upd_same)
next
  case (Cons p ps)
  then obtain c where c: "mem_exec p m = Some (mem_upd m c)" "mem_inv (mem_upd m c)"
    using mem_exec_upd [of m p] by auto
  with Cons.prems Cons.IH [of "mem_upd m c"] show ?case by auto
qed

text \<open>C7. Call frames are isolated in the shared buffer: when a child context is opened, runs any
  sequence of memory writes within its own memory, and is freed, no operation panics and the
  parent gets back exactly the memory it had, although both use the same buffer.\<close>
theorem child_context_isolated:
  assumes "mem_inv p" "sm_child_checkpoint p = None"
    and "new_child_context p = Some (ch, p')" "mem_ops_ok ops ch"
  shows "mem_bytes ch = []
    \<and> (\<exists>ch'. mem_execs ops ch = Some ch' \<and> free_child_context (mem_share ch' p') = Some p)"
  using assms(1)
proof (rule mem_invE)
  fix b assume b: "sm_buffer p = Some b" "unat (sm_my_checkpoint p) \<le> length b" "length b < 2 ^ 63"
  have v: "unat (vec_len b) = length b" using b by (simp add: vec_len_def unat_of_nat_small)
  have ch: "ch = \<lparr>sm_buffer = Some b, sm_my_checkpoint = vec_len b, sm_child_checkpoint = None\<rparr>"
    and p': "p' = p\<lparr>sm_child_checkpoint := Some (vec_len b)\<rparr>"
    using assms(2,3) b by (simp_all add: new_child_context_def full_len_def)
  have "mem_inv ch" using b v by (simp add: ch mem_inv_def)
  then obtain c where c: "mem_execs ops ch = Some (mem_upd ch c)"
    using mem_execs_upd assms(4) by blast
  have "free_child_context (mem_share (mem_upd ch c) p') = Some p"
    using b v assms(2) by (cases p) (simp add: ch p' mem_upd_def mem_share_def free_child_context_def)
  with c v show ?thesis by (simp add: ch mem_bytes_def context_memory_def)
qed

theorem child_context_isolated_witness:
  "\<exists>ch'. mem_execs [MemResize 32, MemSet 3 [7, 7]]
       (fst (the (new_child_context (mem_new_with_buffer [1, 2])))) = Some ch'
     \<and> free_child_context
         (mem_share ch' (snd (the (new_child_context (mem_new_with_buffer [1, 2])))))
       = Some (mem_new_with_buffer [1, 2])"
  using child_context_isolated [of "mem_new_with_buffer [1, 2]"
      "fst (the (new_child_context (mem_new_with_buffer [1, 2])))"
      "snd (the (new_child_context (mem_new_with_buffer [1, 2])))" "[MemResize 32, MemSet 3 [7, 7]]"]
  by (simp add: mem_inv_def mem_new_with_buffer_def mem_bytes_def context_memory_def
      new_child_context_def full_len_def vec_len_def mem_resize_def vec_resize_def split: option.split)

section \<open>Resizing under a gas limit\<close>

text \<open>The meter and the memory agree: the memory has exactly the paid number of words, and what
  was paid for it together with the remaining gas is below \<open>2^55 - 1\<close>, the cost of \<open>2^32\<close> words,
  where the saturating price stops being quadratic.\<close>

definition mem_gas_inv :: "gas \<Rightarrow> shared_memory \<Rightarrow> bool" where
  "mem_gas_inv g m \<longleftrightarrow> mem_inv m \<and> memory_gas_inv (g_memory g)
     \<and> unat (sm_my_checkpoint m) < 2 ^ 62
     \<and> length (mem_bytes m) = 32 * unat (words_num (g_memory g))
     \<and> unat (g_remaining g) + unat (expansion_cost (g_memory g)) < 2 ^ 55 - 1"

lemma unat_num_words: "unat (num_words n) = min (unat n + 31) (2 ^ 64 - 1) div 32"
  by (simp add: num_words_def unat_div_distrib unat_saturating_add)

lemma num_words_covers:
  "unat (num_words (saturating_add a b)) < 2 ^ 32 \<Longrightarrow>
     unat a + unat b \<le> 32 * unat (num_words (saturating_add a b))"
  unfolding unat_num_words unat_saturating_add
  by (cases "unat a + unat b \<le> 2 ^ 64 - 1 - 31") (simp_all add: min_def split: if_splits)

lemma mem_gas_inv_length:
  assumes "mem_gas_inv g m"
  shows "length (mem_bytes m) < 2 ^ 37"
proof -
  have "unat (words_num (g_memory g)) < 2 ^ 32"
    using assms by (intro memory_gas_small) (auto simp: mem_gas_inv_def memory_gas_inv_def)
  with assms show ?thesis by (simp add: mem_gas_inv_def)
qed

text \<open>The effect of a resize on meter and memory: \<open>resized n g m g' m'\<close> relates the state before
  and after growing to \<open>n\<close> words.\<close>

definition resized :: "usize \<Rightarrow> gas \<Rightarrow> shared_memory \<Rightarrow> gas \<Rightarrow> shared_memory \<Rightarrow> bool" where
  "resized n g m g' m' \<longleftrightarrow> mem_gas_inv g' m' \<and> unat n < 2 ^ 32
     \<and> words_num (g_memory g') = max n (words_num (g_memory g))
     \<and> g_remaining g' \<le> g_remaining g
     \<and> unat (g_remaining g') + unat (expansion_cost (g_memory g'))
        = unat (g_remaining g) + unat (expansion_cost (g_memory g))
     \<and> g_limit g' = g_limit g \<and> g_refunded g' = g_refunded g
     \<and> m' = mem_upd m (mem_bytes m @ replicate (32 * unat n - length (mem_bytes m)) 0)"

lemma resize_memory_cold_ok:
  assumes inv: "mem_gas_inv g m" and new: "words_num (g_memory g) < n"
  obtains g' where "resize_memory_cold g m n = Some (False, g', m)" "g_remaining g' = g_remaining g"
      "g_limit g' = g_limit g"
    | g' m' where "resize_memory_cold g m n = Some (True, g', m')" "resized n g m g' m'"
proof -
  let ?e = "expansion_cost (g_memory g)"
  let ?g = "g\<lparr>g_memory := \<lparr>words_num = n, expansion_cost = memory_gas n\<rparr>\<rparr>"
  define cost where "cost = memory_gas n - ?e"
  have "?e \<le> memory_gas n"
    using inv new by (simp add: mem_gas_inv_def memory_gas_inv_def memory_gas_mono)
  then have cost: "unat cost + unat ?e = unat (memory_gas n)"
    by (simp add: cost_def unat_minus_le word_le_nat_alt)
  have rec: "record_new_len n (g_memory g) = (Some cost, \<lparr>words_num = n, expansion_cost = memory_gas n\<rparr>)"
    using new by (simp add: record_new_len_def cost_def Let_def)
  show thesis
  proof (cases "cost \<le> g_remaining g")
    case False
    then have "resize_memory_cold g m n = Some (False, ?g, m)"
      by (simp add: resize_memory_cold_def rec record_cost_def checked_sub_def)
    then show thesis by (rule that(1)) simp_all
  next
    case True
    then have r: "unat (g_remaining g - cost) + unat (memory_gas n) = unat (g_remaining g) + unat ?e"
      using cost by (simp add: unat_minus_le word_le_nat_alt)
    then have "unat (memory_gas n) < 2 ^ 55 - 1"
      using inv by (simp add: mem_gas_inv_def)
    then have n: "unat n < 2 ^ 32"
      by (rule memory_gas_small)
    then have n32: "unat (n * 32) = 32 * unat n" by (simp add: unat_word_ariths)
    let ?m = "mem_upd m (mem_bytes m @ replicate (32 * unat n - length (mem_bytes m)) 0)"
    let ?g' = "?g\<lparr>g_remaining := g_remaining g - cost\<rparr>"
    have le: "length (mem_bytes m) \<le> 32 * unat n"
      using inv new by (simp add: mem_gas_inv_def word_less_nat_alt)
    have "mem_resize (n * 32) m = Some ?m"
      using inv n n32 le mem_resize_eq [of m "n * 32"] by (simp add: mem_gas_inv_def)
    then have "resize_memory_cold g m n = Some (True, ?g', ?m)"
      using True by (simp add: resize_memory_cold_def rec record_cost_def checked_sub_def)
    moreover have "max n (words_num (g_memory g)) = n" using new by simp
    then have "resized n g m ?g' ?m"
      using inv n le r True
      by (auto simp: resized_def mem_gas_inv_def memory_gas_inv_def word_le_nat_alt unat_minus_le
          intro!: mem_inv_upd)
    ultimately show thesis by (rule that(2))
  qed
qed

lemma resize_memory_ok:
  assumes inv: "mem_gas_inv g m"
  obtains g' where "resize_memory g m off len = Some (False, g', m)" "g_remaining g' = g_remaining g"
      "g_limit g' = g_limit g"
    | g' m' where "resize_memory g m off len = Some (True, g', m')" "g_limit g' = g_limit g"
      "g_refunded g' = g_refunded g"
      "g_remaining g' \<le> g_remaining g"
      "unat (g_remaining g') + unat (expansion_cost (g_memory g'))
        = unat (g_remaining g) + unat (expansion_cost (g_memory g))" "mem_gas_inv g' m'" "m' = mem_upd m (mem_bytes m')"
      "unat off + unat len \<le> length (mem_bytes m')" "length (mem_bytes m) \<le> length (mem_bytes m')"
      "take (length (mem_bytes m)) (mem_bytes m') = mem_bytes m"
proof -
  let ?n = "num_words (saturating_add off len)"
  show thesis
  proof (cases "words_num (g_memory g) < ?n")
    case False
    moreover have small: "unat (words_num (g_memory g)) < 2 ^ 32"
      using inv by (intro memory_gas_small) (auto simp: mem_gas_inv_def memory_gas_inv_def)
    ultimately have "unat off + unat len \<le> 32 * unat (words_num (g_memory g))"
      using num_words_covers [of off len] by (simp add: word_le_nat_alt not_less)
    with False that(2) [of g m] show thesis
      using inv by (simp add: resize_memory_def mem_gas_inv_def mem_upd_same Let_def)
  next
    case True
    from inv True show thesis
    proof (cases rule: resize_memory_cold_ok)
      case (1 g')
      then show thesis using True that(1) by (simp add: resize_memory_def Let_def)
    next
      case (2 g' m')
      then have "unat off + unat len \<le> 32 * unat ?n"
        using num_words_covers [of off len] by (simp add: resized_def)
      with 2 True inv show thesis
        by (intro that(2) [of g' m'])
          (auto simp: resize_memory_def Let_def resized_def mem_gas_inv_def word_less_nat_alt)
    qed
  qed
qed

end
