(* ===== verification/I256.thy ===== *)
theory I256
  imports Gas "HOL-Library.Signed_Division"
begin

text \<open>
  Signed 256-bit arithmetic and the word conversions of the instructions
  (\<open>crates/interpreter/src/instructions/i256.rs\<close>, \<open>utility.rs\<close> and the conversion macros of
  \<open>macros.rs\<close>), with the proofs that the sign-and-magnitude routines compute two's complement
  comparison, truncated division and remainder.
\<close>

section \<open>Signed arithmetic\<close>

datatype sgn = Minus | Zero | Plus

fun sgn_num :: "sgn \<Rightarrow> int" where
  "sgn_num Minus = -1"
| "sgn_num Zero = 0"
| "sgn_num Plus = 1"

datatype ordering = Less | Equal | Greater

definition MIN_NEGATIVE_VALUE :: u256 where
  "MIN_NEGATIVE_VALUE = push_bit 255 1"

definition MAX_POSITIVE_VALUE :: u256 where
  "MAX_POSITIVE_VALUE = mask 255"

definition i256_sign :: "u256 \<Rightarrow> sgn" where
  "i256_sign val = (if bit val 255 then Minus else if val \<noteq> 0 then Plus else Zero)"

definition two_compl :: "u256 \<Rightarrow> u256" where
  "two_compl op = - op"

definition i256_sign_compl :: "u256 \<Rightarrow> sgn \<times> u256" where
  "i256_sign_compl val =
     (let s = i256_sign val in if s = Minus then (s, two_compl val) else (s, val))"

text \<open>Clearing the top bit of the most significant limb.\<close>

definition u256_remove_sign :: "u256 \<Rightarrow> u256" where
  "u256_remove_sign val = take_bit 192 val OR push_bit 192 (ucast (limb val 3 AND 0x7FFFFFFFFFFFFFFF))"

definition cmp :: "'a::linorder \<Rightarrow> 'a \<Rightarrow> ordering" where
  "cmp a b = (if a < b then Less else if a = b then Equal else Greater)"

definition i256_cmp :: "u256 \<Rightarrow> u256 \<Rightarrow> ordering" where
  "i256_cmp first second =
     (let first_sign = i256_sign first; second_sign = i256_sign second
      in case cmp (sgn_num first_sign) (sgn_num second_sign) of
           Equal \<Rightarrow> cmp first second
         | ord \<Rightarrow> ord)"

definition i256_div :: "u256 \<Rightarrow> u256 \<Rightarrow> u256" where
  "i256_div first second =
     (let (second_sign, second) = i256_sign_compl second
      in if second_sign = Zero then 0
         else
           (let (first_sign, first) = i256_sign_compl first
            in if first = MIN_NEGATIVE_VALUE \<and> second = 1 then two_compl MIN_NEGATIVE_VALUE
               else
                 (let d = u256_remove_sign (first div second)
                  in if first_sign = Minus \<and> second_sign \<noteq> Minus
                        \<or> second_sign = Minus \<and> first_sign \<noteq> Minus
                     then two_compl d else d)))"

definition i256_mod :: "u256 \<Rightarrow> u256 \<Rightarrow> u256" where
  "i256_mod first second =
     (let (first_sign, first) = i256_sign_compl first
      in if first_sign = Zero then 0
         else
           (let (second_sign, second) = i256_sign_compl second
            in if second_sign = Zero then 0
               else
                 (let r = u256_remove_sign (first mod second)
                  in if first_sign = Minus then two_compl r else r)))"

section \<open>Conversions\<close>

definition as_u64_saturated :: "u256 \<Rightarrow> u64" where
  "as_u64_saturated v =
     (if limb v 1 = 0 \<and> limb v 2 = 0 \<and> limb v 3 = 0 then limb v 0 else - 1)"

definition as_usize_saturated :: "u256 \<Rightarrow> usize" where
  "as_usize_saturated v = as_u64_saturated v"

text \<open>The test and the value of \<open>as_usize_or_fail\<close>; \<open>None\<close> halts the instruction. The first
  comparison is trivially false for a 64-bit \<open>usize\<close>.\<close>

definition as_usize_checked :: "u256 \<Rightarrow> usize option" where
  "as_usize_checked v =
     (if limb v 0 > - 1 \<or> limb v 1 \<noteq> 0 \<or> limb v 2 \<noteq> 0 \<or> limb v 3 \<noteq> 0 then None else Some (limb v 0))"

definition into_u256 :: "address \<Rightarrow> u256" where
  "into_u256 a = ucast a"

definition into_address :: "u256 \<Rightarrow> address" where
  "into_address v = from_be_bytes (drop 12 (to_be_bytes 32 v))"

section \<open>Correctness of the conversions\<close>

lemma unat_limb: "unat (limb v i) = unat v div 2 ^ (64 * i) mod 2 ^ 64"
  unfolding limb_def unsigned_ucast_eq unat_drop_bit_eq
  by (simp add: drop_bit_eq_div take_bit_eq_mod)

lemma high_limbs_zero_iff:
  "limb v 1 = 0 \<and> limb v 2 = 0 \<and> limb v 3 = 0 \<longleftrightarrow> unat v < 2 ^ 64"
proof
  assume z: "limb v 1 = 0 \<and> limb v 2 = 0 \<and> limb v 3 = 0"
  have "take_bit 64 v = v"
  proof (rule bit_eqI)
    fix n
    show "bit (take_bit 64 v) n \<longleftrightarrow> bit v n"
    proof (cases "64 \<le> n \<and> n < 256")
      case True
      then have "n div 64 = 1 \<or> n div 64 = 2 \<or> n div 64 = 3" by auto
      then have "limb v (n div 64) = 0" using z by auto
      then have "\<not> bit v (64 * (n div 64) + n mod 64)"
        unfolding limb_zero_iff by (meson mod_less_divisor zero_less_numeral)
      then show ?thesis using True by (simp add: bit_take_bit_iff)
    next
      case False
      then show ?thesis by (auto simp: bit_take_bit_iff dest: bit_imp_le_length)
    qed
  qed
  then have "take_bit 64 (unat v) = unat v" by (metis unsigned_take_bit_eq)
  then show "unat v < 2 ^ 64" by (metis take_bit_nat_less_exp)
next
  assume "unat v < 2 ^ 64"
  then show "limb v 1 = 0 \<and> limb v 2 = 0 \<and> limb v 3 = 0"
    by (simp add: word_unat_eq_iff unat_limb)
qed

lemma as_usize_checked_eq:
  "as_usize_checked v = (if unat v < 2 ^ 64 then Some (ucast v) else None)"
proof -
  have "\<not> limb v 0 > - 1" by (simp add: not_less word_le_nat_alt)
  then show ?thesis
    using high_limbs_zero_iff [of v] by (auto simp: as_usize_checked_def limb_def)
qed

lemma unat_as_usize_checked: "as_usize_checked v = Some x \<Longrightarrow> unat x = unat v"
  by (auto simp: as_usize_checked_eq unat_ucast_small split: if_splits)

lemma unat_as_usize_saturated: "unat (as_usize_saturated v) = min (unat v) (2 ^ 64 - 1)"
proof (cases "unat v < 2 ^ 64")
  case True
  then have "as_usize_saturated v = ucast v"
    using high_limbs_zero_iff [of v]
    by (simp add: as_usize_saturated_def as_u64_saturated_def limb_def)
  with True show ?thesis by (simp add: unat_ucast_small)
next
  case False
  then have "as_usize_saturated v = - 1"
    using high_limbs_zero_iff [of v] by (auto simp: as_usize_saturated_def as_u64_saturated_def)
  with False show ?thesis by (simp add: unat_minus_one_eq)
qed

lemma into_address_eq: "into_address v = ucast v"
proof -
  have "drop 12 (to_be_bytes 32 v) = to_be_bytes 20 (ucast v :: address)"
  proof (rule nth_equalityI)
    fix i assume "i < length (drop 12 (to_be_bytes 32 v))"
    then have "i < 20" by simp
    then show "drop 12 (to_be_bytes 32 v) ! i = to_be_bytes 20 (ucast v :: address) ! i"
      by (intro bit_eqI) (auto simp: to_be_bytes_def bit_simps)
  qed simp
  then show ?thesis by (simp add: into_address_def)
qed

lemma into_address_into_u256: "into_address (into_u256 a) = a"
  by (rule bit_eqI) (auto simp: into_address_eq into_u256_def bit_simps)

section \<open>Correctness of the signed routines\<close>

lemma uint_less_256: "uint (v :: u256) < 2 ^ 256"
  using uint_lt2p [of v] by simp

lemma bit_255_iff: "bit v 255 \<longleftrightarrow> 2 ^ 255 \<le> uint (v :: u256)"
proof -
  have "2 ^ 255 \<le> uint v \<longleftrightarrow> 2 ^ 255 \<le> unat v"
    unfolding uint_nat by (metis of_nat_le_iff of_nat_numeral of_nat_power)
  then show ?thesis using msb_bit_iff [of v] by simp
qed

lemma sint_eq: "sint (v :: u256) = uint v - (if bit v 255 then 2 ^ 256 else 0)"
proof -
  have "take_bit 256 (uint v) = uint v"
    using uint_less_256 [of v] by (simp only: take_bit_int_eq_self_iff) simp
  then show ?thesis
    by (simp add: sint_uint signed_take_bit_eq_take_bit_minus bit_unsigned_iff)
qed

lemma uint_minus:
  assumes "v \<noteq> (0 :: u256)"
  shows "uint (- v) = 2 ^ 256 - uint v"
proof -
  have "uint v \<noteq> 0" using assms by (simp add: unsigned_eq_0_iff)
  then have "0 < uint v" using uint_ge_0 [of v] by linarith
  then have "(- uint v) mod 2 ^ 256 = 2 ^ 256 - uint v"
    using uint_less_256 [of v] by (simp add: zmod_zminus1_eq_if)
  then show ?thesis by (simp add: uint_word_ariths)
qed

lemma i256_sign_iff:
  "i256_sign v = Minus \<longleftrightarrow> bit v 255" "i256_sign v = Zero \<longleftrightarrow> v = 0"
  by (auto simp: i256_sign_def)

lemma sign_compl_eq:
  "i256_sign_compl v = (i256_sign v, if bit v 255 then - v else v)"
  by (simp add: i256_sign_compl_def Let_def i256_sign_iff two_compl_def)

lemma abs_sint: "uint (if bit v 255 then - v else v) = \<bar>sint v\<bar>" for v :: u256
proof (cases "bit v 255")
  case True
  then have "v \<noteq> 0" by auto
  with True uint_less_256 [of v] show ?thesis by (simp add: sint_eq uint_minus)
qed (simp add: sint_eq)

lemma sint_sign: "bit v 255 \<longleftrightarrow> sint v < 0" for v :: u256
  using uint_less_256 [of v] by (simp add: sint_eq)

lemma abs_sint_le: "\<bar>sint v\<bar> \<le> 2 ^ 255" for v :: u256
  using uint_less_256 [of v] bit_255_iff [of v] by (auto simp: sint_eq)

lemma remove_sign_small:
  assumes "\<not> bit v 255"
  shows "u256_remove_sign v = v"
proof (rule bit_eqI)
  fix n
  have m: "(0x7FFFFFFFFFFFFFFF :: u64) = mask 63" by (simp add: mask_eq_exp_minus_1)
  show "bit (u256_remove_sign v) n \<longleftrightarrow> bit v n"
    using assms unfolding u256_remove_sign_def m
    by (cases "n = 255") (auto simp: bit_simps bit_limb dest: bit_imp_le_length)
qed

lemma uint_lt_not_sign: "uint v < 2 ^ 255 \<Longrightarrow> \<not> bit v 255" for v :: u256
  by (simp add: bit_255_iff)

lemma sint_eq_0_iff: "sint v = 0 \<longleftrightarrow> v = 0" for v :: u256
  by (simp add: signed_eq_0_iff)

lemma i256_div_magnitude:
  fixes a b :: u256
  assumes "b \<noteq> 0" "\<not> (\<bar>sint a\<bar> = 2 ^ 255 \<and> \<bar>sint b\<bar> = 1)"
  shows "\<bar>sint a\<bar> div \<bar>sint b\<bar> < 2 ^ 255"
proof (cases "\<bar>sint b\<bar> = 1")
  case True
  then show ?thesis using assms abs_sint_le [of a] by simp
next
  case False
  have "sint b \<noteq> 0" using assms(1) by (simp add: sint_eq_0_iff)
  with False have "2 \<le> \<bar>sint b\<bar>" by linarith
  then have "\<bar>sint a\<bar> div \<bar>sint b\<bar> \<le> \<bar>sint a\<bar> div 2" by (intro zdiv_mono2) simp_all
  also have "\<dots> < 2 ^ 255" using abs_sint_le [of a] by simp
  finally show ?thesis .
qed

lemma i256_div_magnitudes:
  assumes "b \<noteq> 0"
  shows "i256_div a b =
    (let A = (if bit a 255 then - a else a); B = (if bit b 255 then - b else b)
     in if A = MIN_NEGATIVE_VALUE \<and> B = 1 then - MIN_NEGATIVE_VALUE
        else (let d = u256_remove_sign (A div B) in if bit a 255 \<noteq> bit b 255 then - d else d))"
  using assms unfolding i256_div_def sign_compl_eq Let_def prod.case i256_sign_iff two_compl_def
  by (cases "bit a 255"; cases "bit b 255") (simp_all only: simp_thms if_True if_False)

lemma i256_mod_magnitudes:
  assumes "b \<noteq> 0" "a \<noteq> 0"
  shows "i256_mod a b =
    (let A = (if bit a 255 then - a else a); B = (if bit b 255 then - b else b);
         r = u256_remove_sign (A mod B)
     in if bit a 255 then - r else r)"
  using assms unfolding i256_mod_def sign_compl_eq Let_def prod.case i256_sign_iff two_compl_def
  by (simp only: if_False)

lemma i256_div_eq:
  assumes "b \<noteq> 0"
  shows "i256_div a b = word_of_int (sint a sdiv sint b)"
proof -
  define A where "A = (if bit a 255 then - a else a)"
  define B where "B = (if bit b 255 then - b else b)"
  have A: "uint A = \<bar>sint a\<bar>" and B: "uint B = \<bar>sint b\<bar>"
    unfolding A_def B_def by (rule abs_sint)+
  have "uint MIN_NEGATIVE_VALUE = 2 ^ 255" by (simp add: MIN_NEGATIVE_VALUE_def)
  then have min: "A = MIN_NEGATIVE_VALUE \<longleftrightarrow> \<bar>sint a\<bar> = 2 ^ 255" "B = 1 \<longleftrightarrow> \<bar>sint b\<bar> = 1"
    unfolding word_uint_eq_iff A B by simp_all
  note eq = i256_div_magnitudes [OF assms, of a, folded A_def B_def, unfolded Let_def]
  show ?thesis
  proof (cases "\<bar>sint a\<bar> = 2 ^ 255 \<and> \<bar>sint b\<bar> = 1")
    case True
    then have "i256_div a b = - MIN_NEGATIVE_VALUE" unfolding eq min by simp
    moreover have "sint a sdiv sint b = 2 ^ 255 \<or> sint a sdiv sint b = - (2 ^ 255)"
      using True by (auto simp: signed_divide_int_def abs_if sgn_if split: if_splits)
    ultimately show ?thesis by (auto simp: MIN_NEGATIVE_VALUE_def)
  next
    case False
    define q where "q = A div B"
    have q: "uint q = \<bar>sint a\<bar> div \<bar>sint b\<bar>" by (simp add: q_def uint_div A B)
    with i256_div_magnitude [OF assms False] have "\<not> bit q 255" by (intro uint_lt_not_sign) simp
    then have "u256_remove_sign q = q" by (rule remove_sign_small)
    with False have d: "i256_div a b = (if (sint a < 0) \<noteq> (sint b < 0) then - q else q)"
      unfolding eq min sint_sign q_def by auto
    have "sint a sdiv sint b = sgn (sint a) * sgn (sint b) * uint q"
      by (simp add: signed_divide_int_def q)
    moreover have "sint a = 0 \<Longrightarrow> q = 0" using q by (simp add: word_uint_eq_iff)
    moreover have "sint b \<noteq> 0" using assms by (simp add: sint_eq_0_iff)
    ultimately show ?thesis
      unfolding d by (cases "sint a = 0") (auto simp: sgn_if)
  qed
qed

lemma i256_mod_eq:
  assumes "b \<noteq> 0"
  shows "i256_mod a b = word_of_int (sint a smod sint b)"
proof (cases "a = 0")
  case True
  then show ?thesis by (simp add: i256_mod_def sign_compl_eq i256_sign_iff signed_modulo_int_def
        signed_divide_int_def)
next
  case False
  define A where "A = (if bit a 255 then - a else a)"
  define B where "B = (if bit b 255 then - b else b)"
  have A: "uint A = \<bar>sint a\<bar>" and B: "uint B = \<bar>sint b\<bar>"
    unfolding A_def B_def by (rule abs_sint)+
  define r where "r = A mod B"
  have r: "uint r = \<bar>sint a\<bar> mod \<bar>sint b\<bar>" by (simp add: r_def uint_mod A B)
  have b0: "sint b \<noteq> 0" using assms by (simp add: sint_eq_0_iff)
  then have "uint r < \<bar>sint b\<bar>" unfolding r by (intro pos_mod_bound) simp
  then have "\<not> bit r 255" using abs_sint_le [of b] by (intro uint_lt_not_sign) linarith
  then have "u256_remove_sign r = r" by (rule remove_sign_small)
  then have m: "i256_mod a b = (if sint a < 0 then - r else r)"
    using i256_mod_magnitudes [OF assms False, unfolded Let_def, folded A_def B_def r_def]
    unfolding sint_sign by simp
  have "sint a smod sint b = sgn (sint a) * uint r" by (simp add: signed_modulo_int_def r)
  then show ?thesis
    using False unfolding m by (auto simp: sgn_if sint_eq_0_iff)
qed

text \<open>C13. Signed division and remainder on 256-bit words are truncated two's complement division:
  \<open>i256_div\<close> is the quotient rounded towards zero (wrapping in the one case \<open>MIN / -1\<close>), zero
  for a zero divisor, and \<open>i256_mod\<close> is the remainder with the sign of the dividend, although
  both work on magnitudes, clear the sign limb and patch the sign.\<close>
theorem i256_div_mod_correct:
  "i256_div a b = (if b = 0 then 0 else word_of_int (sint a sdiv sint b))
   \<and> i256_mod a b = (if b = 0 then 0 else word_of_int (sint a smod sint b))"
proof (cases "b = 0")
  case True
  then have "i256_sign_compl b = (Zero, 0)" by (simp add: sign_compl_eq i256_sign_def)
  with True show ?thesis by (simp add: i256_div_def i256_mod_def case_prod_beta Let_def)
qed (simp add: i256_div_eq i256_mod_eq)

text \<open>C31. Signed comparison on 256-bit words is comparison of the two's complement values.\<close>
theorem i256_cmp_correct: "i256_cmp a b = cmp (sint a) (sint b)"
proof -
  have s: "sgn_num (i256_sign v) = (if sint v < 0 then - 1 else if sint v = 0 then 0 else 1)" for v
    by (auto simp: i256_sign_def sint_sign sint_eq_0_iff)
  have "sint a < 0 \<longleftrightarrow> sint b < 0 \<Longrightarrow> cmp a b = cmp (sint a) (sint b)"
    unfolding sint_sign [symmetric] cmp_def word_less_def word_uint_eq_iff by (simp add: sint_eq)
  then show ?thesis
    unfolding i256_cmp_def Let_def s by (auto simp: cmp_def split: if_splits)
qed

end
