(* ===== verification/Interp.thy ===== *)
theory Interp
  imports Host Stack Memory I256
begin

text \<open>
  The state of the interpreter and the vocabulary of its instructions
  (\<open>crates/interpreter/src\<close>): results of instructions (\<open>instruction_result.rs\<close>), actions
  (\<open>interpreter_action.rs\<close> and its submodules), the extended bytecode with its instruction pointer
  (\<open>interpreter/ext_bytecode.rs\<close>), inputs, flags, the \<open>Interpreter\<close> with its ways to halt
  (\<open>interpreter.rs\<close>), and the macros of \<open>instructions/macros.rs\<close>. A macro that may leave the
  instruction early takes the rest of the instruction as its continuation. The state with the
  host is the \<open>InstructionContext\<close>. The type parameter \<open>EXT\<close> is the unit type, so the field
  \<open>extend\<close> is left out. \<open>None\<close> is a panic or undefined behaviour.
\<close>

section \<open>Results of instructions\<close>

datatype instruction_result =
    Stop | Return | SelfDestruct
  | Revert | CallTooDeep | OutOfFunds | CreateInitCodeStartingEF00 | InvalidEOFInitCode
  | InvalidExtDelegateCallTarget
  | OutOfGas | MemoryOOG | MemoryLimitOOG | PrecompileOOG | InvalidOperandOOG | ReentrancySentryOOG
  | OpcodeNotFound | CallNotAllowedInsideStatic | StateChangeDuringStaticCall | InvalidFEOpcode
  | InvalidJump | NotActivated | StackUnderflow | StackOverflow | OutOfOffset | CreateCollision
  | OverflowPayment | PrecompileError | NonceOverflow | CreateContractSizeLimit
  | CreateContractStartingWithEF | CreateInitCodeSizeLimit | FatalExternalError

fun result_of_transfer_error :: "transfer_error \<Rightarrow> instruction_result" where
  "result_of_transfer_error transfer_error.OutOfFunds = OutOfFunds"
| "result_of_transfer_error transfer_error.OverflowPayment = OverflowPayment"
| "result_of_transfer_error transfer_error.CreateCollision = CreateCollision"

definition return_ok :: "instruction_result list" where
  "return_ok = [Stop, Return, SelfDestruct]"

definition return_revert :: "instruction_result list" where
  "return_revert =
     [Revert, CallTooDeep, OutOfFunds, InvalidEOFInitCode, CreateInitCodeStartingEF00,
      InvalidExtDelegateCallTarget]"

definition return_error :: "instruction_result list" where
  "return_error =
     [OutOfGas, MemoryOOG, MemoryLimitOOG, PrecompileOOG, InvalidOperandOOG, ReentrancySentryOOG,
      OpcodeNotFound, CallNotAllowedInsideStatic, StateChangeDuringStaticCall, InvalidFEOpcode,
      InvalidJump, NotActivated, StackUnderflow, StackOverflow, OutOfOffset, CreateCollision,
      OverflowPayment, PrecompileError, NonceOverflow, CreateContractSizeLimit,
      CreateContractStartingWithEF, CreateInitCodeSizeLimit, FatalExternalError]"

definition result_is_ok :: "instruction_result \<Rightarrow> bool" where
  "result_is_ok r \<longleftrightarrow> List.member return_ok r"

definition result_is_ok_or_revert :: "instruction_result \<Rightarrow> bool" where
  "result_is_ok_or_revert r \<longleftrightarrow> List.member return_ok r \<or> List.member return_revert r"

definition result_is_revert :: "instruction_result \<Rightarrow> bool" where
  "result_is_revert r \<longleftrightarrow> List.member return_revert r"

definition result_is_error :: "instruction_result \<Rightarrow> bool" where
  "result_is_error r \<longleftrightarrow> List.member return_error r"

section \<open>Actions\<close>

record interpreter_result =
  ir_result :: instruction_result
  ir_output :: bytes
  ir_gas :: gas

text \<open>A range \<open>start..end\<close> of the shared buffer, or bytes.\<close>

datatype call_input = SharedBuffer usize usize | CallBytes bytes

definition range_len :: "usize \<Rightarrow> usize \<Rightarrow> usize" where
  "range_len s e = (if s < e then e - s else 0)"

fun call_input_len :: "call_input \<Rightarrow> usize" where
  "call_input_len (CallBytes bs) = vec_len bs"
| "call_input_len (SharedBuffer s e) = range_len s e"

datatype call_scheme = Call | CallCode | DelegateCall | StaticCall

datatype call_value = Transfer u256 | Apparent u256

fun call_value_get :: "call_value \<Rightarrow> u256" where
  "call_value_get (Transfer v) = v"
| "call_value_get (Apparent v) = v"

fun call_value_transfer :: "call_value \<Rightarrow> u256 option" where
  "call_value_transfer (Transfer v) = Some v"
| "call_value_transfer (Apparent v) = None"

record call_inputs =
  ci_input :: call_input
  ci_return_memory_offset :: "usize \<times> usize"
  ci_gas_limit :: u64
  ci_bytecode_address :: address
  ci_known_bytecode :: "(b256 \<times> bytecode) option"
  ci_target_address :: address
  ci_caller :: address
  ci_value :: call_value
  ci_scheme :: call_scheme
  ci_is_static :: bool

definition transfers_value :: "call_inputs \<Rightarrow> bool" where
  "transfers_value i = (case call_value_transfer (ci_value i) of None \<Rightarrow> False | Some x \<Rightarrow> x > 0)"

datatype create_scheme = Create | Create2 u256 | CreateCustom address

record create_inputs =
  cr_caller :: address
  cr_scheme :: create_scheme
  cr_value :: u256
  cr_init_code :: bytes
  cr_gas_limit :: u64

datatype frame_input = FrameEmpty | FrameCall call_inputs | FrameCreate create_inputs

datatype interpreter_action = NewFrame frame_input | ReturnAction interpreter_result

definition new_return :: "instruction_result \<Rightarrow> bytes \<Rightarrow> gas \<Rightarrow> interpreter_action" where
  "new_return r output g = ReturnAction \<lparr>ir_result = r, ir_output = output, ir_gas = g\<rparr>"

definition new_halt :: "instruction_result \<Rightarrow> gas \<Rightarrow> interpreter_action" where
  "new_halt r g = ReturnAction \<lparr>ir_result = r, ir_output = [], ir_gas = g\<rparr>"

section \<open>Bytecode under execution\<close>

text \<open>The instruction pointer is the offset from the start of the bytes.\<close>

record ext_bytecode =
  eb_instruction_pointer :: nat
  eb_continue_execution :: bool
  eb_bytecode_hash :: "b256 option"
  eb_action :: "interpreter_action option"
  eb_base :: bytecode

definition new_with_optional_hash :: "bytecode \<Rightarrow> b256 option \<Rightarrow> ext_bytecode" where
  "new_with_optional_hash base hash =
     \<lparr>eb_instruction_pointer = 0, eb_continue_execution = True, eb_bytecode_hash = hash,
      eb_action = None, eb_base = base\<rparr>"

definition ext_bytecode_new :: "bytecode \<Rightarrow> ext_bytecode" where
  "ext_bytecode_new base = new_with_optional_hash base None"

definition ext_bytecode_new_with_hash :: "bytecode \<Rightarrow> b256 \<Rightarrow> ext_bytecode" where
  "ext_bytecode_new_with_hash base hash = new_with_optional_hash base (Some hash)"

definition get_or_calculate_hash :: "(bytes \<Rightarrow> b256) \<Rightarrow> ext_bytecode \<Rightarrow> b256 \<times> ext_bytecode" where
  "get_or_calculate_hash keccak256 b =
     (case eb_bytecode_hash b of
        Some h \<Rightarrow> (h, b)
      | None \<Rightarrow> (let h = hash_slow keccak256 (eb_base b) in (h, b\<lparr>eb_bytecode_hash := Some h\<rparr>)))"

definition is_not_end :: "ext_bytecode \<Rightarrow> bool" where
  "is_not_end b = eb_continue_execution b"

definition reset_action :: "ext_bytecode \<Rightarrow> ext_bytecode" where
  "reset_action b = b\<lparr>eb_continue_execution := True\<rparr>"

definition set_action :: "interpreter_action \<Rightarrow> ext_bytecode \<Rightarrow> ext_bytecode" where
  "set_action a b = b\<lparr>eb_continue_execution := False, eb_action := Some a\<rparr>"

text \<open>A pointer may be moved within the bytes or one past their end.\<close>

definition relative_jump :: "nat \<Rightarrow> ext_bytecode \<Rightarrow> ext_bytecode option" where
  "relative_jump offset b =
     (if eb_instruction_pointer b + offset \<le> length (bytes_ref (eb_base b))
      then Some (b\<lparr>eb_instruction_pointer := eb_instruction_pointer b + offset\<rparr>) else None)"

definition absolute_jump :: "usize \<Rightarrow> ext_bytecode \<Rightarrow> ext_bytecode option" where
  "absolute_jump offset b =
     (if unat offset \<le> length (bytes_ref (eb_base b))
      then Some (b\<lparr>eb_instruction_pointer := unat offset\<rparr>) else None)"

definition is_valid_legacy_jump :: "usize \<Rightarrow> ext_bytecode \<Rightarrow> bool option" where
  "is_valid_legacy_jump offset b =
     map_option (\<lambda>t. jump_table_is_valid t offset) (legacy_jump_table (eb_base b))"

definition eb_opcode :: "ext_bytecode \<Rightarrow> u8 option" where
  "eb_opcode b =
     (if eb_instruction_pointer b < length (bytes_ref (eb_base b))
      then Some (bytes_ref (eb_base b) ! eb_instruction_pointer b) else None)"

definition eb_pc :: "ext_bytecode \<Rightarrow> usize" where
  "eb_pc b = of_nat (eb_instruction_pointer b)"

definition read_slice :: "nat \<Rightarrow> ext_bytecode \<Rightarrow> bytes option" where
  "read_slice n b =
     slice_get (eb_instruction_pointer b) (eb_instruction_pointer b + n) (bytes_ref (eb_base b))"

section \<open>The interpreter\<close>

record inputs_impl =
  in_target_address :: address
  in_bytecode_address :: "address option"
  in_caller_address :: address
  in_input :: call_input
  in_call_value :: u256

record runtime_flags =
  rf_is_static :: bool
  rf_spec_id :: spec_id

record interpreter =
  i_bytecode :: ext_bytecode
  i_gas :: gas
  i_stack :: stack
  i_return_data :: bytes
  i_memory :: shared_memory
  i_input :: inputs_impl
  i_runtime_flag :: runtime_flags

text \<open>\<open>InstructionContext\<close>: the interpreter together with the host.\<close>

record 'h instruction_context = interpreter +
  i_host :: 'h

definition interpreter_new ::
    "shared_memory \<Rightarrow> ext_bytecode \<Rightarrow> inputs_impl \<Rightarrow> bool \<Rightarrow> spec_id \<Rightarrow> u64 \<Rightarrow> interpreter" where
  "interpreter_new memory bytecode input is_static spec_id gas_limit =
     \<lparr>i_bytecode = bytecode, i_gas = gas_new gas_limit, i_stack = stack_new, i_return_data = [],
      i_memory = memory, i_input = input,
      i_runtime_flag = \<lparr>rf_is_static = is_static, rf_spec_id = spec_id\<rparr>\<rparr>"

definition interpreter_clear ::
    "shared_memory \<Rightarrow> ext_bytecode \<Rightarrow> inputs_impl \<Rightarrow> bool \<Rightarrow> spec_id \<Rightarrow> u64 \<Rightarrow> interpreter \<Rightarrow> interpreter" where
  "interpreter_clear memory bytecode input is_static spec_id gas_limit i =
     i\<lparr>i_bytecode := bytecode, i_gas := gas_new gas_limit, i_stack := [], i_return_data := [],
       i_memory := memory, i_input := input,
       i_runtime_flag := \<lparr>rf_is_static = is_static, rf_spec_id = spec_id\<rparr>\<rparr>"

abbreviation i_spec :: "'z interpreter_scheme \<Rightarrow> spec_id" where
  "i_spec c \<equiv> rf_spec_id (i_runtime_flag c)"

abbreviation i_target :: "'z interpreter_scheme \<Rightarrow> address" where
  "i_target c \<equiv> in_target_address (i_input c)"

abbreviation i_remaining :: "'z interpreter_scheme \<Rightarrow> u64" where
  "i_remaining c \<equiv> g_remaining (i_gas c)"

definition interp_set_action :: "interpreter_action \<Rightarrow> 'z interpreter_scheme \<Rightarrow> 'z interpreter_scheme" where
  "interp_set_action a c = c\<lparr>i_bytecode := set_action a (i_bytecode c)\<rparr>"

definition halt :: "instruction_result \<Rightarrow> 'z interpreter_scheme \<Rightarrow> 'z interpreter_scheme" where
  "halt r c = interp_set_action (new_halt r (i_gas c)) c"

definition halt_fatal :: "'z interpreter_scheme \<Rightarrow> 'z interpreter_scheme" where
  "halt_fatal c = interp_set_action (new_halt FatalExternalError (i_gas c)) c"

definition halt_oog :: "'z interpreter_scheme \<Rightarrow> 'z interpreter_scheme" where
  "halt_oog c = halt OutOfGas (c\<lparr>i_gas := spend_all (i_gas c)\<rparr>)"

definition halt_memory_oog :: "'z interpreter_scheme \<Rightarrow> 'z interpreter_scheme" where
  "halt_memory_oog c = halt MemoryOOG c"

definition halt_overflow :: "'z interpreter_scheme \<Rightarrow> 'z interpreter_scheme" where
  "halt_overflow c = halt StackOverflow c"

definition halt_underflow :: "'z interpreter_scheme \<Rightarrow> 'z interpreter_scheme" where
  "halt_underflow c = halt StackUnderflow c"

definition halt_not_activated :: "'z interpreter_scheme \<Rightarrow> 'z interpreter_scheme" where
  "halt_not_activated c = halt NotActivated c"

text \<open>Taking the action leaves none behind; there has to be one.\<close>

definition take_next_action ::
    "'z interpreter_scheme \<Rightarrow> (interpreter_action \<times> 'z interpreter_scheme) option" where
  "take_next_action c =
     (let b = reset_action (i_bytecode c)
      in map_option (\<lambda>a. (a, c\<lparr>i_bytecode := b\<lparr>eb_action := None\<rparr>\<rparr>)) (eb_action b))"

section \<open>Macros of the instructions\<close>

definition require_non_staticcall ::
    "'z interpreter_scheme \<Rightarrow> ('z interpreter_scheme \<Rightarrow> 'z interpreter_scheme option)
       \<Rightarrow> 'z interpreter_scheme option" where
  "require_non_staticcall c k =
     (if rf_is_static (i_runtime_flag c) then Some (halt StateChangeDuringStaticCall c) else k c)"

definition check_spec ::
    "spec_id \<Rightarrow> 'z interpreter_scheme \<Rightarrow> ('z interpreter_scheme \<Rightarrow> 'z interpreter_scheme option)
       \<Rightarrow> 'z interpreter_scheme option" where
  "check_spec min_spec c k =
     (if \<not> is_enabled_in (i_spec c) min_spec then Some (halt_not_activated c) else k c)"

definition charge ::
    "u64 \<Rightarrow> 'z interpreter_scheme \<Rightarrow> ('z interpreter_scheme \<Rightarrow> 'z interpreter_scheme option)
       \<Rightarrow> 'z interpreter_scheme option" where
  "charge cost c k =
     (let (succ, g) = record_cost cost (i_gas c); c = c\<lparr>i_gas := g\<rparr>
      in if \<not> succ then Some (halt_oog c) else k c)"

definition gas_or_fail ::
    "u64 option \<Rightarrow> 'z interpreter_scheme \<Rightarrow> ('z interpreter_scheme \<Rightarrow> 'z interpreter_scheme option)
       \<Rightarrow> 'z interpreter_scheme option" where
  "gas_or_fail cost c k =
     (case cost of Some gas_used \<Rightarrow> charge gas_used c k | None \<Rightarrow> Some (halt_oog c))"

definition resize_memory_m ::
    "usize \<Rightarrow> usize \<Rightarrow> 'z interpreter_scheme \<Rightarrow> ('z interpreter_scheme \<Rightarrow> 'z interpreter_scheme option)
       \<Rightarrow> 'z interpreter_scheme option" where
  "resize_memory_m offset len c k =
     Option.bind (resize_memory (i_gas c) (i_memory c) offset len)
       (\<lambda>(succ, g, m). let c = c\<lparr>i_gas := g, i_memory := m\<rparr>
                        in if \<not> succ then Some (halt_memory_oog c) else k c)"

definition popn ::
    "nat \<Rightarrow> 'z interpreter_scheme \<Rightarrow> (u256 list \<Rightarrow> 'z interpreter_scheme \<Rightarrow> 'z interpreter_scheme option)
       \<Rightarrow> 'z interpreter_scheme option" where
  "popn n c k =
     (case stack_popn n (i_stack c) of
        None \<Rightarrow> Some (halt_underflow c)
      | Some (xs, st) \<Rightarrow> k xs (c\<lparr>i_stack := st\<rparr>))"

definition popn_top ::
    "nat \<Rightarrow> 'z interpreter_scheme
       \<Rightarrow> (u256 list \<Rightarrow> u256 \<Rightarrow> 'z interpreter_scheme \<Rightarrow> 'z interpreter_scheme option)
       \<Rightarrow> 'z interpreter_scheme option" where
  "popn_top n c k =
     (if length (i_stack c) < 1 + n then Some (halt_underflow c)
      else Option.bind (stack_popn_top n (i_stack c)) (\<lambda>(xs, top, st). k xs top (c\<lparr>i_stack := st\<rparr>)))"

text \<open>Writing through the reference \<open>top\<close>, which ends most instructions.\<close>

definition put_top :: "u256 \<Rightarrow> 'z interpreter_scheme \<Rightarrow> 'z interpreter_scheme" where
  "put_top v c = c\<lparr>i_stack := set_top v (i_stack c)\<rparr>"

definition push_m :: "u256 \<Rightarrow> 'z interpreter_scheme \<Rightarrow> 'z interpreter_scheme option" where
  "push_m x c =
     (let (succ, st) = stack_push x (i_stack c); c = c\<lparr>i_stack := st\<rparr>
      in if \<not> succ then Some (halt_overflow c) else Some c)"

definition as_usize_or_fail_with ::
    "u256 \<Rightarrow> instruction_result \<Rightarrow> 'z interpreter_scheme
       \<Rightarrow> (usize \<Rightarrow> 'z interpreter_scheme option) \<Rightarrow> 'z interpreter_scheme option" where
  "as_usize_or_fail_with v reason c k =
     (case as_usize_checked v of None \<Rightarrow> Some (halt reason c) | Some x \<Rightarrow> k x)"

definition as_usize_or_fail ::
    "u256 \<Rightarrow> 'z interpreter_scheme \<Rightarrow> (usize \<Rightarrow> 'z interpreter_scheme option)
       \<Rightarrow> 'z interpreter_scheme option" where
  "as_usize_or_fail v c k = as_usize_or_fail_with v InvalidOperandOOG c k"

definition berlin_load_account ::
    "'h host_ops \<Rightarrow> address \<Rightarrow> bool \<Rightarrow> 'h instruction_context
       \<Rightarrow> (account_info_load \<Rightarrow> 'h instruction_context \<Rightarrow> 'h instruction_context option)
       \<Rightarrow> 'h instruction_context option" where
  "berlin_load_account H address with_code c k =
     charge gas_WARM_STORAGE_READ_COST c
       (\<lambda>c. let skip_cold_load = i_remaining c < gas_COLD_ACCOUNT_ACCESS_COST_ADDITIONAL
             in Option.bind (h_load_account_info_skip_cold_load H (i_host c) address with_code skip_cold_load)
               (\<lambda>(r, h). let c = c\<lparr>i_host := h\<rparr> in
                  case r of
                    Inr account \<Rightarrow>
                      (if ail_is_cold account
                       then charge gas_COLD_ACCOUNT_ACCESS_COST_ADDITIONAL c (k account)
                       else k account c)
                  | Inl LoadColdLoadSkipped \<Rightarrow> Some (halt_oog c)
                  | Inl LoadDBError \<Rightarrow> Some (halt_fatal c)))"

text \<open>The pops by their number of operands.\<close>

abbreviation popn1 where "popn1 c k \<equiv> popn 1 c (\<lambda>xs. k (xs ! 0))"
abbreviation popn2 where "popn2 c k \<equiv> popn 2 c (\<lambda>xs. k (xs ! 0) (xs ! 1))"
abbreviation popn3 where "popn3 c k \<equiv> popn 3 c (\<lambda>xs. k (xs ! 0) (xs ! 1) (xs ! 2))"
abbreviation popn4 where "popn4 c k \<equiv> popn 4 c (\<lambda>xs. k (xs ! 0) (xs ! 1) (xs ! 2) (xs ! 3))"
abbreviation popn_top0 where "popn_top0 c k \<equiv> popn_top 0 c (\<lambda>xs. k)"
abbreviation popn_top1 where "popn_top1 c k \<equiv> popn_top 1 c (\<lambda>xs. k (xs ! 0))"
abbreviation popn_top2 where "popn_top2 c k \<equiv> popn_top 2 c (\<lambda>xs. k (xs ! 0) (xs ! 1))"

end
