(* ===== verification/Instr_Pure.thy ===== *)
theory Instr_Pure
  imports Interp
begin

text \<open>
  The instructions that do not use the host (\<open>crates/interpreter/src/instructions\<close>):
  \<open>arithmetic.rs\<close>, \<open>bitwise.rs\<close>, \<open>stack.rs\<close>, \<open>memory.rs\<close>, \<open>control.rs\<close>, \<open>system.rs\<close>. The
  operations of the 256-bit integer library are the operations on words they are documented as.
  The hash function of \<open>KECCAK256\<close> is a parameter.
\<close>

named_theorems instr_defs \<open>definitions of the instructions\<close>

section \<open>Arithmetic\<close>

text \<open>\<open>U256::add_mod\<close> and \<open>U256::mul_mod\<close>: computed without overflow, zero for a zero modulus.\<close>

definition add_mod :: "u256 \<Rightarrow> u256 \<Rightarrow> u256 \<Rightarrow> u256" where
  "add_mod a b n = (if n = 0 then 0 else of_nat ((unat a + unat b) mod unat n))"

definition mul_mod :: "u256 \<Rightarrow> u256 \<Rightarrow> u256 \<Rightarrow> u256" where
  "mul_mod a b n = (if n = 0 then 0 else of_nat ((unat a * unat b) mod unat n))"

definition add_instr :: "'z interpreter_scheme \<Rightarrow> 'z interpreter_scheme option" where
  [instr_defs]: "add_instr c = popn_top1 c (\<lambda>op1 op2 c. Some (put_top (op1 + op2) c))"

definition mul_instr :: "'z interpreter_scheme \<Rightarrow> 'z interpreter_scheme option" where
  [instr_defs]: "mul_instr c = popn_top1 c (\<lambda>op1 op2 c. Some (put_top (op1 * op2) c))"

definition sub_instr :: "'z interpreter_scheme \<Rightarrow> 'z interpreter_scheme option" where
  [instr_defs]: "sub_instr c = popn_top1 c (\<lambda>op1 op2 c. Some (put_top (op1 - op2) c))"

definition div_instr :: "'z interpreter_scheme \<Rightarrow> 'z interpreter_scheme option" where
  [instr_defs]: "div_instr c =
     popn_top1 c (\<lambda>op1 op2 c. if op2 \<noteq> 0 then Some (put_top (op1 div op2) c) else Some c)"

definition sdiv_instr :: "'z interpreter_scheme \<Rightarrow> 'z interpreter_scheme option" where
  [instr_defs]: "sdiv_instr c = popn_top1 c (\<lambda>op1 op2 c. Some (put_top (i256_div op1 op2) c))"

definition rem_instr :: "'z interpreter_scheme \<Rightarrow> 'z interpreter_scheme option" where
  [instr_defs]: "rem_instr c =
     popn_top1 c (\<lambda>op1 op2 c. if op2 \<noteq> 0 then Some (put_top (op1 mod op2) c) else Some c)"

definition smod_instr :: "'z interpreter_scheme \<Rightarrow> 'z interpreter_scheme option" where
  [instr_defs]: "smod_instr c = popn_top1 c (\<lambda>op1 op2 c. Some (put_top (i256_mod op1 op2) c))"

definition addmod_instr :: "'z interpreter_scheme \<Rightarrow> 'z interpreter_scheme option" where
  [instr_defs]: "addmod_instr c = popn_top2 c (\<lambda>op1 op2 op3 c. Some (put_top (add_mod op1 op2 op3) c))"

definition mulmod_instr :: "'z interpreter_scheme \<Rightarrow> 'z interpreter_scheme option" where
  [instr_defs]: "mulmod_instr c = popn_top2 c (\<lambda>op1 op2 op3 c. Some (put_top (mul_mod op1 op2 op3) c))"

definition exp_instr :: "'z interpreter_scheme \<Rightarrow> 'z interpreter_scheme option" where
  [instr_defs]: "exp_instr c =
     (let spec_id = i_spec c in
      popn_top1 c (\<lambda>op1 op2 c.
        gas_or_fail (exp_cost spec_id op2) c (\<lambda>c. Some (put_top (op1 ^ unat op2) c))))"

definition signextend_value :: "u256 \<Rightarrow> u256 \<Rightarrow> u256" where
  "signextend_value ext x =
     (if ext < 31 then
        (let bit_index = unat (8 * limb ext 0 + 7);
             b = bit x bit_index;
             mask = push_bit bit_index 1 - 1
         in if b then x OR NOT mask else x AND mask)
      else x)"

definition signextend_instr :: "'z interpreter_scheme \<Rightarrow> 'z interpreter_scheme option" where
  [instr_defs]: "signextend_instr c =
     popn_top1 c (\<lambda>ext x c. Some (put_top (signextend_value ext x) c))"

section \<open>Comparisons and bits\<close>

definition u256_of_bool :: "bool \<Rightarrow> u256" where
  "u256_of_bool b = (if b then 1 else 0)"

text \<open>\<open>U256::byte\<close>, which counts from the least significant byte.\<close>

definition u256_byte :: "u256 \<Rightarrow> nat \<Rightarrow> u8" where
  "u256_byte x i = ucast (drop_bit (8 * i) x)"

text \<open>\<open>U256::leading_zeros\<close>.\<close>

definition u256_leading_zeros :: "u256 \<Rightarrow> nat" where
  "u256_leading_zeros w = length (takeWhile (\<lambda>i. \<not> bit w i) (rev [0..<256]))"

definition lt_instr :: "'z interpreter_scheme \<Rightarrow> 'z interpreter_scheme option" where
  [instr_defs]: "lt_instr c = popn_top1 c (\<lambda>op1 op2 c. Some (put_top (u256_of_bool (op1 < op2)) c))"

definition gt_instr :: "'z interpreter_scheme \<Rightarrow> 'z interpreter_scheme option" where
  [instr_defs]: "gt_instr c = popn_top1 c (\<lambda>op1 op2 c. Some (put_top (u256_of_bool (op1 > op2)) c))"

definition clz_instr :: "'z interpreter_scheme \<Rightarrow> 'z interpreter_scheme option" where
  [instr_defs]: "clz_instr c =
     check_spec OSAKA c (\<lambda>c. popn_top0 c (\<lambda>op1 c. Some (put_top (of_nat (u256_leading_zeros op1)) c)))"

definition slt_instr :: "'z interpreter_scheme \<Rightarrow> 'z interpreter_scheme option" where
  [instr_defs]: "slt_instr c =
     popn_top1 c (\<lambda>op1 op2 c. Some (put_top (u256_of_bool (i256_cmp op1 op2 = Less)) c))"

definition sgt_instr :: "'z interpreter_scheme \<Rightarrow> 'z interpreter_scheme option" where
  [instr_defs]: "sgt_instr c =
     popn_top1 c (\<lambda>op1 op2 c. Some (put_top (u256_of_bool (i256_cmp op1 op2 = Greater)) c))"

definition eq_instr :: "'z interpreter_scheme \<Rightarrow> 'z interpreter_scheme option" where
  [instr_defs]: "eq_instr c = popn_top1 c (\<lambda>op1 op2 c. Some (put_top (u256_of_bool (op1 = op2)) c))"

definition iszero_instr :: "'z interpreter_scheme \<Rightarrow> 'z interpreter_scheme option" where
  [instr_defs]: "iszero_instr c = popn_top0 c (\<lambda>op1 c. Some (put_top (u256_of_bool (op1 = 0)) c))"

definition bitand_instr :: "'z interpreter_scheme \<Rightarrow> 'z interpreter_scheme option" where
  [instr_defs]: "bitand_instr c = popn_top1 c (\<lambda>op1 op2 c. Some (put_top (op1 AND op2) c))"

definition bitor_instr :: "'z interpreter_scheme \<Rightarrow> 'z interpreter_scheme option" where
  [instr_defs]: "bitor_instr c = popn_top1 c (\<lambda>op1 op2 c. Some (put_top (op1 OR op2) c))"

definition bitxor_instr :: "'z interpreter_scheme \<Rightarrow> 'z interpreter_scheme option" where
  [instr_defs]: "bitxor_instr c = popn_top1 c (\<lambda>op1 op2 c. Some (put_top (op1 XOR op2) c))"

definition not_instr :: "'z interpreter_scheme \<Rightarrow> 'z interpreter_scheme option" where
  [instr_defs]: "not_instr c = popn_top0 c (\<lambda>op1 c. Some (put_top (NOT op1) c))"

definition byte_value :: "u256 \<Rightarrow> u256 \<Rightarrow> u256" where
  "byte_value op1 op2 =
     (let o1 = as_usize_saturated op1
      in if o1 < 32 then ucast (u256_byte op2 (unat (31 - o1))) else 0)"

definition byte_instr :: "'z interpreter_scheme \<Rightarrow> 'z interpreter_scheme option" where
  [instr_defs]: "byte_instr c = popn_top1 c (\<lambda>op1 op2 c. Some (put_top (byte_value op1 op2) c))"

definition shl_value :: "u256 \<Rightarrow> u256 \<Rightarrow> u256" where
  "shl_value op1 op2 =
     (let shift = as_usize_saturated op1 in if shift < 256 then push_bit (unat shift) op2 else 0)"

definition shl_instr :: "'z interpreter_scheme \<Rightarrow> 'z interpreter_scheme option" where
  [instr_defs]: "shl_instr c =
     check_spec CONSTANTINOPLE c (\<lambda>c. popn_top1 c (\<lambda>op1 op2 c. Some (put_top (shl_value op1 op2) c)))"

definition shr_value :: "u256 \<Rightarrow> u256 \<Rightarrow> u256" where
  "shr_value op1 op2 =
     (let shift = as_usize_saturated op1 in if shift < 256 then drop_bit (unat shift) op2 else 0)"

definition shr_instr :: "'z interpreter_scheme \<Rightarrow> 'z interpreter_scheme option" where
  [instr_defs]: "shr_instr c =
     check_spec CONSTANTINOPLE c (\<lambda>c. popn_top1 c (\<lambda>op1 op2 c. Some (put_top (shr_value op1 op2) c)))"

text \<open>\<open>U256::arithmetic_shr\<close> fills with copies of the top bit.\<close>

definition sar_value :: "u256 \<Rightarrow> u256 \<Rightarrow> u256" where
  "sar_value op1 op2 =
     (let shift = as_usize_saturated op1
      in if shift < 256 then signed_drop_bit (unat shift) op2 else if bit op2 255 then - 1 else 0)"

definition sar_instr :: "'z interpreter_scheme \<Rightarrow> 'z interpreter_scheme option" where
  [instr_defs]: "sar_instr c =
     check_spec CONSTANTINOPLE c (\<lambda>c. popn_top1 c (\<lambda>op1 op2 c. Some (put_top (sar_value op1 op2) c)))"

section \<open>Stack\<close>

definition pop_instr :: "'z interpreter_scheme \<Rightarrow> 'z interpreter_scheme option" where
  [instr_defs]: "pop_instr c = popn1 c (\<lambda>_ c. Some c)"

definition push0_instr :: "'z interpreter_scheme \<Rightarrow> 'z interpreter_scheme option" where
  [instr_defs]: "push0_instr c = check_spec SHANGHAI c (push_m 0)"

definition push_instr :: "nat \<Rightarrow> 'z interpreter_scheme \<Rightarrow> 'z interpreter_scheme option" where
  "push_instr n c =
     Option.bind (read_slice n (i_bytecode c))
       (\<lambda>sl. let (succ, st) = stack_push_slice sl (i_stack c); c = c\<lparr>i_stack := st\<rparr>
             in if \<not> succ then Some (halt StackOverflow c)
                else map_option (\<lambda>b. c\<lparr>i_bytecode := b\<rparr>) (relative_jump n (i_bytecode c)))"

definition dup_instr :: "nat \<Rightarrow> 'z interpreter_scheme \<Rightarrow> 'z interpreter_scheme option" where
  "dup_instr n c =
     map_option
       (\<lambda>(succ, st). let c = c\<lparr>i_stack := st\<rparr> in if \<not> succ then halt StackOverflow c else c)
       (stack_dup n (i_stack c))"

definition swap_instr :: "nat \<Rightarrow> 'z interpreter_scheme \<Rightarrow> 'z interpreter_scheme option" where
  "swap_instr n c =
     (if n \<noteq> 0 then
        map_option
          (\<lambda>(succ, st). let c = c\<lparr>i_stack := st\<rparr> in if \<not> succ then halt StackOverflow c else c)
          (stack_exchange 0 n (i_stack c))
      else None)"

section \<open>Memory\<close>

text \<open>An update of the memory that may panic.\<close>

definition put_memory ::
    "shared_memory option \<Rightarrow> 'z interpreter_scheme \<Rightarrow> 'z interpreter_scheme option" where
  "put_memory r c = map_option (\<lambda>m. c\<lparr>i_memory := m\<rparr>) r"

definition mload_instr :: "'z interpreter_scheme \<Rightarrow> 'z interpreter_scheme option" where
  [instr_defs]: "mload_instr c =
     popn_top0 c (\<lambda>top c.
       as_usize_or_fail top c (\<lambda>offset.
       resize_memory_m offset 32 c (\<lambda>c.
       Option.bind (slice_len offset 32 (i_memory c))
         (\<lambda>s. if length s \<le> 32 then Some (put_top (from_be_bytes s) c) else None))))"

definition mstore_instr :: "'z interpreter_scheme \<Rightarrow> 'z interpreter_scheme option" where
  [instr_defs]: "mstore_instr c =
     popn2 c (\<lambda>offset val c.
       as_usize_or_fail offset c (\<lambda>offset.
       resize_memory_m offset 32 c (\<lambda>c.
       put_memory (mem_set offset (to_be_bytes 32 val) (i_memory c)) c)))"

definition mstore8_instr :: "'z interpreter_scheme \<Rightarrow> 'z interpreter_scheme option" where
  [instr_defs]: "mstore8_instr c =
     popn2 c (\<lambda>offset val c.
       as_usize_or_fail offset c (\<lambda>offset.
       resize_memory_m offset 1 c (\<lambda>c.
       put_memory (mem_set offset [u256_byte val 0] (i_memory c)) c)))"

definition msize_instr :: "'z interpreter_scheme \<Rightarrow> 'z interpreter_scheme option" where
  [instr_defs]: "msize_instr c =
     Option.bind (mem_len (i_memory c)) (\<lambda>n. push_m (ucast n) c)"

definition mcopy_instr :: "'z interpreter_scheme \<Rightarrow> 'z interpreter_scheme option" where
  [instr_defs]: "mcopy_instr c =
     check_spec CANCUN c (\<lambda>c.
     popn3 c (\<lambda>dst src len c.
       as_usize_or_fail len c (\<lambda>len.
       gas_or_fail (copy_cost_verylow len) c (\<lambda>c.
       if len = 0 then Some c
       else
         as_usize_or_fail dst c (\<lambda>dst.
         as_usize_or_fail src c (\<lambda>src.
         resize_memory_m (max dst src) len c (\<lambda>c.
         put_memory (mem_copy dst src len (i_memory c)) c)))))))"

section \<open>Control\<close>

definition jump_inner :: "u256 \<Rightarrow> 'z interpreter_scheme \<Rightarrow> 'z interpreter_scheme option" where
  [instr_defs]: "jump_inner target c =
     as_usize_or_fail_with target InvalidJump c (\<lambda>target.
       Option.bind (is_valid_legacy_jump target (i_bytecode c))
         (\<lambda>valid. if \<not> valid then Some (halt InvalidJump c)
                  else map_option (\<lambda>b. c\<lparr>i_bytecode := b\<rparr>) (absolute_jump target (i_bytecode c))))"

definition jump_instr :: "'z interpreter_scheme \<Rightarrow> 'z interpreter_scheme option" where
  [instr_defs]: "jump_instr c = popn1 c (\<lambda>target c. jump_inner target c)"

definition jumpi_instr :: "'z interpreter_scheme \<Rightarrow> 'z interpreter_scheme option" where
  [instr_defs]: "jumpi_instr c =
     popn2 c (\<lambda>target cond c. if cond \<noteq> 0 then jump_inner target c else Some c)"

definition jumpdest_instr :: "'z interpreter_scheme \<Rightarrow> 'z interpreter_scheme option" where
  [instr_defs]: "jumpdest_instr c = Some c"

definition pc_instr :: "'z interpreter_scheme \<Rightarrow> 'z interpreter_scheme option" where
  [instr_defs]: "pc_instr c = push_m (ucast (eb_pc (i_bytecode c) - 1)) c"

definition return_inner :: "instruction_result \<Rightarrow> 'z interpreter_scheme \<Rightarrow> 'z interpreter_scheme option" where
  [instr_defs]: "return_inner instruction_result c =
     popn2 c (\<lambda>offset len c.
       as_usize_or_fail len c (\<lambda>len.
       let finish = (\<lambda>output c.
             Some (interp_set_action (new_return instruction_result output (i_gas c)) c))
       in if len \<noteq> 0 then
            as_usize_or_fail offset c (\<lambda>offset.
            resize_memory_m offset len c (\<lambda>c.
            Option.bind (slice_len offset len (i_memory c)) (\<lambda>output. finish output c)))
          else finish [] c))"

definition ret_instr :: "'z interpreter_scheme \<Rightarrow> 'z interpreter_scheme option" where
  [instr_defs]: "ret_instr c = return_inner Return c"

definition revert_instr :: "'z interpreter_scheme \<Rightarrow> 'z interpreter_scheme option" where
  [instr_defs]: "revert_instr c = check_spec BYZANTIUM c (return_inner Revert)"

definition stop_instr :: "'z interpreter_scheme \<Rightarrow> 'z interpreter_scheme option" where
  [instr_defs]: "stop_instr c = Some (halt Stop c)"

definition invalid_instr :: "'z interpreter_scheme \<Rightarrow> 'z interpreter_scheme option" where
  [instr_defs]: "invalid_instr c = Some (halt InvalidFEOpcode c)"

definition unknown_instr :: "'z interpreter_scheme \<Rightarrow> 'z interpreter_scheme option" where
  [instr_defs]: "unknown_instr c = Some (halt OpcodeNotFound c)"

section \<open>System\<close>

definition keccak256_instr ::
    "(bytes \<Rightarrow> b256) \<Rightarrow> 'z interpreter_scheme \<Rightarrow> 'z interpreter_scheme option" where
  [instr_defs]: "keccak256_instr keccak256 c =
     popn_top1 c (\<lambda>offset top c.
       as_usize_or_fail top c (\<lambda>len.
       gas_or_fail (keccak256_cost len) c (\<lambda>c.
       if len = 0 then Some (put_top KECCAK_EMPTY c)
       else
         as_usize_or_fail offset c (\<lambda>from.
         resize_memory_m from len c (\<lambda>c.
         Option.bind (slice_len from len (i_memory c)) (\<lambda>s. Some (put_top (keccak256 s) c)))))))"

definition address_instr :: "'z interpreter_scheme \<Rightarrow> 'z interpreter_scheme option" where
  [instr_defs]: "address_instr c = push_m (into_u256 (i_target c)) c"

definition caller_instr :: "'z interpreter_scheme \<Rightarrow> 'z interpreter_scheme option" where
  [instr_defs]: "caller_instr c = push_m (into_u256 (in_caller_address (i_input c))) c"

definition codesize_instr :: "'z interpreter_scheme \<Rightarrow> 'z interpreter_scheme option" where
  [instr_defs]: "codesize_instr c = push_m (ucast (bytecode_len (eb_base (i_bytecode c)))) c"

text \<open>\<open>memory_resize\<close>: the continuation gets the memory offset; a length of zero ends the
  instruction.\<close>

definition memory_resize ::
    "u256 \<Rightarrow> usize \<Rightarrow> 'z interpreter_scheme
       \<Rightarrow> (usize \<Rightarrow> 'z interpreter_scheme \<Rightarrow> 'z interpreter_scheme option)
       \<Rightarrow> 'z interpreter_scheme option" where
  "memory_resize memory_offset len c k =
     gas_or_fail (copy_cost_verylow len) c (\<lambda>c.
       if len = 0 then Some c
       else as_usize_or_fail memory_offset c (\<lambda>memory_offset.
              resize_memory_m memory_offset len c (k memory_offset)))"

definition codecopy_instr :: "'z interpreter_scheme \<Rightarrow> 'z interpreter_scheme option" where
  [instr_defs]: "codecopy_instr c =
     popn3 c (\<lambda>memory_offset code_offset len c.
       as_usize_or_fail len c (\<lambda>len.
       memory_resize memory_offset len c (\<lambda>memory_offset c.
       put_memory (mem_set_data memory_offset (as_usize_saturated code_offset) len
         (original_bytes (eb_base (i_bytecode c))) (i_memory c)) c)))"

text \<open>The bytes copied to the word by \<open>CALLDATALOAD\<close>, for an offset within the input.\<close>

definition calldata_bytes :: "call_input \<Rightarrow> usize \<Rightarrow> usize \<Rightarrow> shared_memory \<Rightarrow> bytes option" where
  "calldata_bytes input offset count m =
     Option.bind (case input of CallBytes bs \<Rightarrow> Some bs | SharedBuffer s e \<Rightarrow> global_slice_range s e m)
       (\<lambda>bs. slice_get (unat offset) (unat offset + unat count) bs)"

definition calldataload_instr :: "'z interpreter_scheme \<Rightarrow> 'z interpreter_scheme option" where
  [instr_defs]: "calldataload_instr c =
     popn_top0 c (\<lambda>offset_ptr c.
       let offset = as_usize_saturated offset_ptr;
           input = in_input (i_input c);
           input_len = call_input_len input
       in if offset < input_len then
            (let count = min 32 (input_len - offset)
             in Option.bind (calldata_bytes input offset count (i_memory c))
                  (\<lambda>bs. Some (put_top (from_be_bytes (bs @ replicate (32 - length bs) 0)) c)))
          else Some (put_top 0 c))"

definition calldatasize_instr :: "'z interpreter_scheme \<Rightarrow> 'z interpreter_scheme option" where
  [instr_defs]: "calldatasize_instr c = push_m (ucast (call_input_len (in_input (i_input c)))) c"

definition callvalue_instr :: "'z interpreter_scheme \<Rightarrow> 'z interpreter_scheme option" where
  [instr_defs]: "callvalue_instr c = push_m (in_call_value (i_input c)) c"

definition calldatacopy_instr :: "'z interpreter_scheme \<Rightarrow> 'z interpreter_scheme option" where
  [instr_defs]: "calldatacopy_instr c =
     popn3 c (\<lambda>memory_offset data_offset len c.
       as_usize_or_fail len c (\<lambda>len.
       memory_resize memory_offset len c (\<lambda>memory_offset c.
       let data_offset = as_usize_saturated data_offset
       in case in_input (i_input c) of
            CallBytes bs \<Rightarrow>
              put_memory (mem_set_data memory_offset data_offset len bs (i_memory c)) c
          | SharedBuffer s e \<Rightarrow>
              put_memory (global_to_local_set_data memory_offset data_offset len s e (i_memory c)) c)))"

definition returndatasize_instr :: "'z interpreter_scheme \<Rightarrow> 'z interpreter_scheme option" where
  [instr_defs]: "returndatasize_instr c =
     check_spec BYZANTIUM c (\<lambda>c. push_m (ucast (vec_len (i_return_data c))) c)"

definition returndatacopy_instr :: "'z interpreter_scheme \<Rightarrow> 'z interpreter_scheme option" where
  [instr_defs]: "returndatacopy_instr c =
     check_spec BYZANTIUM c (\<lambda>c.
     popn3 c (\<lambda>memory_offset offset len c.
       as_usize_or_fail len c (\<lambda>len.
       let data_offset = as_usize_saturated offset;
           data_end = saturating_add data_offset len
       in if data_end > vec_len (i_return_data c) then Some (halt OutOfOffset c)
          else
            memory_resize memory_offset len c (\<lambda>memory_offset c.
            put_memory (mem_set_data memory_offset data_offset len (i_return_data c) (i_memory c)) c))))"

definition gas_instr :: "'z interpreter_scheme \<Rightarrow> 'z interpreter_scheme option" where
  [instr_defs]: "gas_instr c = push_m (ucast (i_remaining c)) c"

end
