(* ===== verification/Instr_Host.thy ===== *)
theory Instr_Host
  imports Instr_Pure
begin

text \<open>
  The instructions that use the host (\<open>crates/interpreter/src/instructions\<close>): \<open>host.rs\<close>,
  \<open>block_info.rs\<close>, \<open>tx_info.rs\<close>, and the calls and creations of \<open>contract.rs\<close> with
  \<open>contract/call_helpers.rs\<close>. The host is the record of operations \<open>H\<close> and the state
  \<open>i_host\<close> of the context.
\<close>

type_synonym 'h instr = "'h instruction_context \<Rightarrow> 'h instruction_context option"

section \<open>Accounts\<close>

text \<open>The load before Berlin, where the error is fatal.\<close>

definition legacy_load_account ::
    "'h host_ops \<Rightarrow> address \<Rightarrow> bool \<Rightarrow> 'h instruction_context
       \<Rightarrow> (account_info_load \<Rightarrow> 'h instr) \<Rightarrow> 'h instruction_context option" where
  "legacy_load_account H address with_code c k =
     Option.bind (h_load_account_info_skip_cold_load H (i_host c) address with_code False)
       (\<lambda>(r, h). let c = c\<lparr>i_host := h\<rparr> in
          case r of Inr account \<Rightarrow> k account c | Inl _ \<Rightarrow> Some (halt_fatal c))"

definition balance_instr :: "'h host_ops \<Rightarrow> 'h instr" where
  [instr_defs]: "balance_instr H c =
     popn_top0 c (\<lambda>top c.
       let address = into_address top; spec_id = i_spec c;
           finish = (\<lambda>account c. Some (put_top (ai_balance (ail_account account)) c))
       in if is_enabled_in spec_id BERLIN then berlin_load_account H address False c finish
          else
            (let g = (if is_enabled_in spec_id ISTANBUL then 700
                      else if is_enabled_in spec_id TANGERINE then 400 else 20)
             in charge g c (\<lambda>c. legacy_load_account H address False c finish)))"

definition selfbalance_instr :: "'h host_ops \<Rightarrow> 'h instr" where
  [instr_defs]: "selfbalance_instr H c =
     check_spec ISTANBUL c (\<lambda>c.
       Option.bind (host_balance H (i_host c) (i_target c))
         (\<lambda>(r, h). let c = c\<lparr>i_host := h\<rparr> in
            case r of None \<Rightarrow> Some (halt_fatal c) | Some balance \<Rightarrow> push_m (sl_data balance) c))"

definition extcodesize_instr :: "'h host_ops \<Rightarrow> 'h instr" where
  [instr_defs]: "extcodesize_instr H c =
     popn_top0 c (\<lambda>top c.
       let address = into_address top; spec_id = i_spec c;
           finish = (\<lambda>account c. Option.bind (ai_code (ail_account account))
                       (\<lambda>code. Some (put_top (ucast (bytecode_len code)) c)))
       in if is_enabled_in spec_id BERLIN then berlin_load_account H address True c finish
          else
            (let g = (if is_enabled_in spec_id TANGERINE then 700 else 20)
             in charge g c (\<lambda>c. legacy_load_account H address True c finish)))"

definition extcodehash_instr :: "'h host_ops \<Rightarrow> 'h instr" where
  [instr_defs]: "extcodehash_instr H c =
     check_spec CONSTANTINOPLE c (\<lambda>c.
     popn_top0 c (\<lambda>top c.
       let address = into_address top; spec_id = i_spec c;
           finish = (\<lambda>account c.
             Some (put_top (if info_is_empty (ail_account account) then 0
                           else ai_code_hash (ail_account account)) c))
       in if is_enabled_in spec_id BERLIN then berlin_load_account H address True c finish
          else
            (let g = (if is_enabled_in spec_id ISTANBUL then 700 else 400)
             in charge g c (\<lambda>c. legacy_load_account H address True c finish))))"

definition extcodecopy_instr :: "'h host_ops \<Rightarrow> 'h instr" where
  [instr_defs]: "extcodecopy_instr H c =
     popn4 c (\<lambda>address memory_offset code_offset len_u256 c.
       let address = into_address address; spec_id = i_spec c
       in as_usize_or_fail len_u256 c (\<lambda>len.
          charge (case copy_cost 0 len of Some g \<Rightarrow> g | None \<Rightarrow> - 1) c (\<lambda>c.
          let copy = (\<lambda>memory_offset_usize code c.
                let code_offset_usize = min (as_usize_saturated code_offset) (vec_len code)
                in put_memory
                     (mem_set_data memory_offset_usize code_offset_usize len code (i_memory c)) c);
              load = (\<lambda>memory_offset_usize c.
                if is_enabled_in spec_id BERLIN then
                  berlin_load_account H address True c (\<lambda>account c.
                    Option.bind (ai_code (ail_account account))
                      (\<lambda>code. copy memory_offset_usize (original_bytes code) c))
                else
                  charge (if is_enabled_in spec_id TANGERINE then 700 else 20) c (\<lambda>c.
                    Option.bind (host_load_account_code H (i_host c) address)
                      (\<lambda>(r, h). let c = c\<lparr>i_host := h\<rparr> in
                         case r of
                           None \<Rightarrow> Some (halt_fatal c)
                         | Some code \<Rightarrow> copy memory_offset_usize (sl_data code) c)))
          in if len \<noteq> 0 then
               as_usize_or_fail memory_offset c (\<lambda>memory_offset_usize.
               resize_memory_m memory_offset_usize len c (load memory_offset_usize))
             else load 0 c)))"

definition BLOCK_HASH_HISTORY :: u64 where
  "BLOCK_HASH_HISTORY = 256"

definition blockhash_instr :: "'h host_ops \<Rightarrow> 'h instr" where
  [instr_defs]: "blockhash_instr H c =
     popn_top0 c (\<lambda>requested_number c.
       case checked_sub (h_block_number H (i_host c)) requested_number of
         None \<Rightarrow> Some (put_top 0 c)
       | Some diff \<Rightarrow>
           (let diff = as_u64_saturated diff
            in if diff = 0 then Some (put_top 0 c)
               else if diff \<le> BLOCK_HASH_HISTORY then
                 (let (r, h) = h_block_hash H (i_host c) (as_u64_saturated requested_number);
                      c = c\<lparr>i_host := h\<rparr>
                  in case r of None \<Rightarrow> Some (halt_fatal c) | Some hash \<Rightarrow> Some (put_top hash c))
               else Some (put_top 0 c)))"

section \<open>Storage\<close>

definition sload_instr :: "'h host_ops \<Rightarrow> 'h instr" where
  [instr_defs]: "sload_instr H c =
     popn_top0 c (\<lambda>index c.
       let spec_id = i_spec c; target = i_target c;
           g = (if is_enabled_in spec_id BERLIN then gas_WARM_STORAGE_READ_COST
                else if is_enabled_in spec_id ISTANBUL then gas_ISTANBUL_SLOAD_GAS
                else if is_enabled_in spec_id TANGERINE then 200 else 50)
       in charge g c (\<lambda>c.
          if is_enabled_in spec_id BERLIN then
            (let skip_cold = i_remaining c < gas_COLD_SLOAD_COST_ADDITIONAL
             in Option.bind (h_sload_skip_cold_load H (i_host c) target index skip_cold)
                  (\<lambda>(r, h). let c = c\<lparr>i_host := h\<rparr> in
                     case r of
                       Inr storage \<Rightarrow>
                         (if sl_is_cold storage then
                            charge gas_COLD_SLOAD_COST_ADDITIONAL c
                              (\<lambda>c. Some (put_top (sl_data storage) c))
                          else Some (put_top (sl_data storage) c))
                     | Inl LoadColdLoadSkipped \<Rightarrow> Some (halt_oog c)
                     | Inl LoadDBError \<Rightarrow> Some (halt_fatal c)))
          else
            Option.bind (host_sload H (i_host c) target index)
              (\<lambda>(r, h). let c = c\<lparr>i_host := h\<rparr> in
                 case r of
                   None \<Rightarrow> Some (halt_fatal c)
                 | Some storage \<Rightarrow> Some (put_top (sl_data storage) c))))"

text \<open>The dynamic cost and the refund of \<open>SSTORE\<close>.\<close>

definition sstore_finish :: "sstore_result state_load \<Rightarrow> 'z interpreter_scheme \<Rightarrow> 'z interpreter_scheme option" where
  "sstore_finish state_load c =
     charge (dyn_sstore_cost (i_spec c) (sl_data state_load) (sl_is_cold state_load)) c (\<lambda>c.
       Some (c\<lparr>i_gas := record_refund (sstore_refund (i_spec c) (sl_data state_load)) (i_gas c)\<rparr>))"

definition sstore_instr :: "'h host_ops \<Rightarrow> 'h instr" where
  [instr_defs]: "sstore_instr H c =
     require_non_staticcall c (\<lambda>c.
     popn2 c (\<lambda>index val c.
       let target = i_target c; spec_id = i_spec c
       in if is_enabled_in spec_id ISTANBUL \<and> i_remaining c \<le> gas_CALL_STIPEND
          then Some (halt ReentrancySentryOOG c)
          else charge (static_sstore_cost spec_id) c (\<lambda>c.
            if is_enabled_in spec_id BERLIN then
              (let skip_cold = i_remaining c < gas_COLD_SLOAD_COST_ADDITIONAL
               in Option.bind (h_sstore_skip_cold_load H (i_host c) target index val skip_cold)
                    (\<lambda>(r, h). let c = c\<lparr>i_host := h\<rparr> in
                       case r of
                         Inr load \<Rightarrow> sstore_finish load c
                       | Inl LoadColdLoadSkipped \<Rightarrow> Some (halt_oog c)
                       | Inl LoadDBError \<Rightarrow> Some (halt_fatal c)))
            else
              Option.bind (host_sstore H (i_host c) target index val)
                (\<lambda>(r, h). let c = c\<lparr>i_host := h\<rparr> in
                   case r of None \<Rightarrow> Some (halt_fatal c) | Some load \<Rightarrow> sstore_finish load c))))"

definition tstore_instr :: "'h host_ops \<Rightarrow> 'h instr" where
  [instr_defs]: "tstore_instr H c =
     check_spec CANCUN c (\<lambda>c.
     require_non_staticcall c (\<lambda>c.
     popn2 c (\<lambda>index val c. Some (c\<lparr>i_host := h_tstore H (i_host c) (i_target c) index val\<rparr>))))"

definition tload_instr :: "'h host_ops \<Rightarrow> 'h instr" where
  [instr_defs]: "tload_instr H c =
     check_spec CANCUN c (\<lambda>c.
     popn_top0 c (\<lambda>index c.
       let (v, h) = h_tload H (i_host c) (i_target c) index in Some (put_top v (c\<lparr>i_host := h\<rparr>))))"

section \<open>Logs and self-destruction\<close>

definition log_instr :: "'h host_ops \<Rightarrow> nat \<Rightarrow> 'h instr" where
  [instr_defs]: "log_instr H n c =
     require_non_staticcall c (\<lambda>c.
     popn2 c (\<lambda>offset len c.
       as_usize_or_fail len c (\<lambda>len.
       gas_or_fail (log_cost (of_nat n) len) c (\<lambda>c.
       let finish = (\<lambda>data c.
             popn n c (\<lambda>topics c.
               if length topics \<le> 4 then
                 Some (c\<lparr>i_host := h_log H (i_host c)
                   \<lparr>log_address = i_target c, log_topics = topics, log_data = data\<rparr>\<rparr>)
               else None))
       in if len = 0 then finish [] c
          else
            as_usize_or_fail offset c (\<lambda>offset.
            resize_memory_m offset len c (\<lambda>c.
            Option.bind (slice_len offset len (i_memory c)) (\<lambda>data. finish data c)))))))"

definition selfdestruct_instr :: "'h host_ops \<Rightarrow> 'h instr" where
  [instr_defs]: "selfdestruct_instr H c =
     require_non_staticcall c (\<lambda>c.
     popn1 c (\<lambda>target c.
       let target = into_address target; spec = i_spec c
       in charge (static_selfdestruct_cost spec) c (\<lambda>c.
          Option.bind (h_selfdestruct H (i_host c) (i_target c) target)
            (\<lambda>(r, h). let c = c\<lparr>i_host := h\<rparr> in
               case r of
                 None \<Rightarrow> Some (halt FatalExternalError c)
               | Some res \<Rightarrow>
                   charge (dyn_selfdestruct_cost spec res) c (\<lambda>c.
                     let c = (if \<not> is_enabled_in (i_spec c) LONDON \<and> \<not> previously_destroyed (sl_data res)
                              then c\<lparr>i_gas := record_refund gas_SELFDESTRUCT_REFUND (i_gas c)\<rparr> else c)
                     in Some (halt SelfDestruct c))))))"

section \<open>Block and transaction\<close>

definition chainid_instr :: "'h host_ops \<Rightarrow> 'h instr" where
  [instr_defs]: "chainid_instr H c = check_spec ISTANBUL c (\<lambda>c. push_m (h_chain_id H (i_host c)) c)"

definition coinbase_instr :: "'h host_ops \<Rightarrow> 'h instr" where
  [instr_defs]: "coinbase_instr H c = push_m (into_u256 (h_beneficiary H (i_host c))) c"

definition timestamp_instr :: "'h host_ops \<Rightarrow> 'h instr" where
  [instr_defs]: "timestamp_instr H c = push_m (h_timestamp H (i_host c)) c"

definition block_number_instr :: "'h host_ops \<Rightarrow> 'h instr" where
  [instr_defs]: "block_number_instr H c = push_m (h_block_number H (i_host c)) c"

definition difficulty_instr :: "'h host_ops \<Rightarrow> 'h instr" where
  [instr_defs]: "difficulty_instr H c =
     (if is_enabled_in (i_spec c) MERGE
      then Option.bind (h_prevrandao H (i_host c)) (\<lambda>v. push_m v c)
      else push_m (h_difficulty H (i_host c)) c)"

definition gaslimit_instr :: "'h host_ops \<Rightarrow> 'h instr" where
  [instr_defs]: "gaslimit_instr H c = push_m (h_gas_limit H (i_host c)) c"

definition basefee_instr :: "'h host_ops \<Rightarrow> 'h instr" where
  [instr_defs]: "basefee_instr H c = check_spec LONDON c (\<lambda>c. push_m (h_basefee H (i_host c)) c)"

definition blob_basefee_instr :: "'h host_ops \<Rightarrow> 'h instr" where
  [instr_defs]: "blob_basefee_instr H c = check_spec CANCUN c (\<lambda>c. push_m (h_blob_gasprice H (i_host c)) c)"

definition gasprice_instr :: "'h host_ops \<Rightarrow> 'h instr" where
  [instr_defs]: "gasprice_instr H c = push_m (h_effective_gas_price H (i_host c)) c"

definition origin_instr :: "'h host_ops \<Rightarrow> 'h instr" where
  [instr_defs]: "origin_instr H c = push_m (into_u256 (h_caller H (i_host c))) c"

definition blob_hash_instr :: "'h host_ops \<Rightarrow> 'h instr" where
  [instr_defs]: "blob_hash_instr H c =
     check_spec CANCUN c (\<lambda>c.
     popn_top0 c (\<lambda>index c.
       Some (put_top (case h_blob_hash H (i_host c) (as_usize_saturated index) of
                        None \<Rightarrow> 0 | Some h \<Rightarrow> h) c)))"

section \<open>Calls and creations\<close>

text \<open>The helper \<open>resize_memory\<close> of the calls: the range of memory; for a length of zero the
  offset is \<open>usize::MAX\<close>.\<close>

definition resize_memory_range ::
    "u256 \<Rightarrow> u256 \<Rightarrow> 'z interpreter_scheme
       \<Rightarrow> (usize \<times> usize \<Rightarrow> 'z interpreter_scheme \<Rightarrow> 'z interpreter_scheme option)
       \<Rightarrow> 'z interpreter_scheme option" where
  "resize_memory_range offset len c k =
     as_usize_or_fail len c (\<lambda>len.
       if len \<noteq> 0 then
         as_usize_or_fail offset c (\<lambda>offset.
         resize_memory_m offset len c (k (offset, offset + len)))
       else k (- 1, - 1 + len) c)"

definition get_memory_input_and_out_ranges ::
    "'z interpreter_scheme
       \<Rightarrow> (usize \<times> usize \<Rightarrow> usize \<times> usize \<Rightarrow> 'z interpreter_scheme \<Rightarrow> 'z interpreter_scheme option)
       \<Rightarrow> 'z interpreter_scheme option" where
  "get_memory_input_and_out_ranges c k =
     popn4 c (\<lambda>in_offset in_len out_offset out_len c.
       resize_memory_range in_offset in_len c (\<lambda>in_range c.
       let in_range =
             (if fst in_range < snd in_range then
                (let offset = sm_my_checkpoint (i_memory c)
                 in (saturating_add (fst in_range) offset, saturating_add (snd in_range) offset))
              else in_range)
       in resize_memory_range out_offset out_len c (\<lambda>ret_range c. k in_range ret_range c)))"

definition new_account_cost :: "bool \<Rightarrow> bool \<Rightarrow> u64" where
  "new_account_cost is_spurious_dragon transfers =
     (if \<not> is_spurious_dragon \<or> transfers then gas_NEWACCOUNT else 0)"

definition unwrap_code :: "account_info_load \<Rightarrow> bytecode" where
  "unwrap_code l = (case ai_code (ail_account l) of None \<Rightarrow> bytecode_new | Some b \<Rightarrow> b)"

definition helper_load_account_delegated ::
    "'h host_ops \<Rightarrow> 'h \<Rightarrow> spec_id \<Rightarrow> u64 \<Rightarrow> address \<Rightarrow> bool \<Rightarrow> bool
       \<Rightarrow> ((load_error + u64 \<times> bytecode \<times> b256) \<times> 'h) option" where
  "helper_load_account_delegated H h spec remaining_gas address transfers create_empty_account =
     (let is_berlin = is_enabled_in spec BERLIN;
          is_spurious_dragon = is_enabled_in spec SPURIOUS_DRAGON;
          skip_cold_load = (is_berlin \<and> remaining_gas < gas_COLD_ACCOUNT_ACCESS_COST_ADDITIONAL)
      in Option.bind (h_load_account_info_skip_cold_load H h address True skip_cold_load)
        (\<lambda>(r, h). case r of
           Inl e \<Rightarrow> Some (Inl e, h)
         | Inr account \<Rightarrow>
             (let cost = (if is_berlin \<and> ail_is_cold account
                          then gas_COLD_ACCOUNT_ACCESS_COST_ADDITIONAL else 0);
                  code = unwrap_code account;
                  code_hash = ai_code_hash (ail_account account)
              in if create_empty_account \<and> ail_is_empty account then
                   Some (Inr (cost + new_account_cost is_spurious_dragon transfers, code, code_hash), h)
                 else
                   (case ai_code (ail_account account) of
                      Some (Eip7702 ec) \<Rightarrow>
                        (let cost = cost + gas_WARM_STORAGE_READ_COST
                         in if cost > remaining_gas then Some (Inl LoadColdLoadSkipped, h)
                            else
                              (let skip_cold_load =
                                     remaining_gas < cost + gas_COLD_ACCOUNT_ACCESS_COST_ADDITIONAL
                               in Option.bind
                                    (h_load_account_info_skip_cold_load H h (delegated_address ec) True
                                       skip_cold_load)
                                    (\<lambda>(r, h). case r of
                                       Inl e \<Rightarrow> Some (Inl e, h)
                                     | Inr delegate \<Rightarrow>
                                         (let cost = (if ail_is_cold delegate
                                            then cost + gas_COLD_ACCOUNT_ACCESS_COST_ADDITIONAL else cost)
                                          in Some (Inr (cost, unwrap_code delegate,
                                               ai_code_hash (ail_account delegate)), h)))))
                    | _ \<Rightarrow> Some (Inr (cost, code, code_hash), h)))))"

definition load_account_delegated_handle_error ::
    "'h host_ops \<Rightarrow> address \<Rightarrow> bool \<Rightarrow> bool \<Rightarrow> 'h instruction_context
       \<Rightarrow> (u64 \<Rightarrow> bytecode \<Rightarrow> b256 \<Rightarrow> 'h instr) \<Rightarrow> 'h instruction_context option" where
  "load_account_delegated_handle_error H to transfers create_empty_account c k =
     Option.bind
       (helper_load_account_delegated H (i_host c) (i_spec c) (i_remaining c) to transfers
          create_empty_account)
       (\<lambda>(r, h). let c = c\<lparr>i_host := h\<rparr> in
          case r of
            Inr (g, code, code_hash) \<Rightarrow> k g code code_hash c
          | Inl LoadColdLoadSkipped \<Rightarrow> Some (halt_oog c)
          | Inl LoadDBError \<Rightarrow> Some (halt_fatal c))"

definition load_acc_and_calc_gas ::
    "'h host_ops \<Rightarrow> address \<Rightarrow> bool \<Rightarrow> bool \<Rightarrow> u64 \<Rightarrow> 'h instruction_context
       \<Rightarrow> (u64 \<Rightarrow> bytecode \<Rightarrow> b256 \<Rightarrow> 'h instr) \<Rightarrow> 'h instruction_context option" where
  "load_acc_and_calc_gas H to transfers create_empty_account stack_gas_limit c k =
     (let spec = i_spec c
      in charge (calc_call_static_gas spec transfers) c (\<lambda>c.
         load_account_delegated_handle_error H to transfers create_empty_account c
           (\<lambda>g code code_hash c.
              charge g c (\<lambda>c.
              let gas_limit = (if is_enabled_in (i_spec c) TANGERINE
                               then min (remaining_63_of_64_parts (i_gas c)) stack_gas_limit
                               else stack_gas_limit)
              in charge gas_limit c
                   (k (if transfers then saturating_add gas_limit gas_CALL_STIPEND else gas_limit)
                      code code_hash)))))"

definition new_frame_call ::
    "usize \<times> usize \<Rightarrow> usize \<times> usize \<Rightarrow> u64 \<Rightarrow> address \<Rightarrow> b256 \<Rightarrow> bytecode \<Rightarrow> address \<Rightarrow> address
       \<Rightarrow> call_value \<Rightarrow> call_scheme \<Rightarrow> bool \<Rightarrow> 'z interpreter_scheme \<Rightarrow> 'z interpreter_scheme option" where
  "new_frame_call input ret gas_limit code_address hash code target sender val scheme is_static c =
     Some (interp_set_action (NewFrame (FrameCall
       \<lparr>ci_input = SharedBuffer (fst input) (snd input), ci_return_memory_offset = ret,
        ci_gas_limit = gas_limit, ci_bytecode_address = code_address,
        ci_known_bytecode = Some (hash, code), ci_target_address = target, ci_caller = sender,
        ci_value = val, ci_scheme = scheme, ci_is_static = is_static\<rparr>)) c)"

text \<open>\<open>u64::try_from(local_gas_limit).unwrap_or(u64::MAX)\<close>.\<close>

definition u64_saturated :: "u256 \<Rightarrow> u64" where
  "u64_saturated v = (if v < 2 ^ 64 then ucast v else - 1)"

definition call_instr :: "'h host_ops \<Rightarrow> 'h instr" where
  [instr_defs]: "call_instr H c =
     popn3 c (\<lambda>local_gas_limit to val c.
       let to = into_address to; local_gas_limit = u64_saturated local_gas_limit;
           has_transfer = (val \<noteq> 0)
       in if rf_is_static (i_runtime_flag c) \<and> has_transfer
          then Some (halt CallNotAllowedInsideStatic c)
          else
            get_memory_input_and_out_ranges c (\<lambda>input ret c.
            load_acc_and_calc_gas H to has_transfer True local_gas_limit c (\<lambda>gas_limit code hash c.
            new_frame_call input ret gas_limit to hash code to (i_target c) (Transfer val) Call
              (rf_is_static (i_runtime_flag c)) c)))"

definition call_code_instr :: "'h host_ops \<Rightarrow> 'h instr" where
  [instr_defs]: "call_code_instr H c =
     popn3 c (\<lambda>local_gas_limit to val c.
       let to = into_address to; local_gas_limit = u64_saturated local_gas_limit;
           has_transfer = (val \<noteq> 0)
       in get_memory_input_and_out_ranges c (\<lambda>input ret c.
          load_acc_and_calc_gas H to has_transfer False local_gas_limit c (\<lambda>gas_limit code hash c.
          new_frame_call input ret gas_limit to hash code (i_target c) (i_target c) (Transfer val) CallCode
            (rf_is_static (i_runtime_flag c)) c)))"

definition delegate_call_instr :: "'h host_ops \<Rightarrow> 'h instr" where
  [instr_defs]: "delegate_call_instr H c =
     check_spec HOMESTEAD c (\<lambda>c.
     popn2 c (\<lambda>local_gas_limit to c.
       let to = into_address to; local_gas_limit = u64_saturated local_gas_limit
       in get_memory_input_and_out_ranges c (\<lambda>input ret c.
          load_acc_and_calc_gas H to False False local_gas_limit c (\<lambda>gas_limit code hash c.
          new_frame_call input ret gas_limit to hash code (i_target c) (in_caller_address (i_input c))
            (Apparent (in_call_value (i_input c))) DelegateCall (rf_is_static (i_runtime_flag c)) c))))"

definition static_call_instr :: "'h host_ops \<Rightarrow> 'h instr" where
  [instr_defs]: "static_call_instr H c =
     check_spec BYZANTIUM c (\<lambda>c.
     popn2 c (\<lambda>local_gas_limit to c.
       let to = into_address to; local_gas_limit = u64_saturated local_gas_limit
       in get_memory_input_and_out_ranges c (\<lambda>input ret c.
          load_acc_and_calc_gas H to False False local_gas_limit c (\<lambda>gas_limit code hash c.
          new_frame_call input ret gas_limit to hash code to (i_target c) (Transfer 0) StaticCall True c))))"

definition create_finish ::
    "create_scheme \<Rightarrow> u256 \<Rightarrow> bytes \<Rightarrow> 'z interpreter_scheme \<Rightarrow> 'z interpreter_scheme option" where
  "create_finish scheme val code c =
     (let gas_limit = i_remaining c;
          gas_limit = (if is_enabled_in (i_spec c) TANGERINE then gas_limit - gas_limit div 64
                       else gas_limit)
      in charge gas_limit c (\<lambda>c.
         Some (interp_set_action (NewFrame (FrameCreate
           \<lparr>cr_caller = i_target c, cr_scheme = scheme, cr_value = val, cr_init_code = code,
            cr_gas_limit = gas_limit\<rparr>)) c)))"

definition create_instr :: "'h host_ops \<Rightarrow> bool \<Rightarrow> 'h instr" where
  [instr_defs]: "create_instr H is_create2 c =
     require_non_staticcall c (\<lambda>c.
     (if is_create2 then check_spec PETERSBURG c else (\<lambda>k. k c)) (\<lambda>c.
     popn3 c (\<lambda>val code_offset len c.
       as_usize_or_fail len c (\<lambda>len.
       let finish = (\<lambda>code c.
             if is_create2 then
               popn1 c (\<lambda>salt c.
                 gas_or_fail (create2_cost len) c (create_finish (Create2 salt) val code))
             else charge gas_CREATE c (create_finish Create val code));
           load = (\<lambda>c.
             as_usize_or_fail code_offset c (\<lambda>code_offset.
             resize_memory_m code_offset len c (\<lambda>c.
             Option.bind (slice_len code_offset len (i_memory c)) (\<lambda>code. finish code c))))
       in if len \<noteq> 0 then
            (if is_enabled_in (i_spec c) SHANGHAI then
               (if len > h_max_initcode_size H (i_host c)
                then Some (halt CreateInitCodeSizeLimit c)
                else Option.bind (initcode_cost len) (\<lambda>g. charge g c load))
             else load c)
          else finish [] c))))"

end
