(* ===== verification/Exec.thy ===== *)
theory Exec
  imports Instr_Host
begin

text \<open>
  The instruction table (\<open>crates/interpreter/src/instructions.rs\<close>) and the execution loop
  (\<open>Interpreter::step\<close> and \<open>Interpreter::run_plain\<close> in \<open>crates/interpreter/src/interpreter.rs\<close>).
  The table is the list of the assignments to its entries; an opcode without one is unknown.
\<close>

section \<open>The instruction table\<close>

definition instruction_rows :: "'h host_ops \<Rightarrow> (bytes \<Rightarrow> b256) \<Rightarrow> (u8 \<times> 'h instr \<times> u64) list" where
  "instruction_rows H keccak =
     [
      (op_STOP, stop_instr, 0), (op_ADD, add_instr, 3), (op_MUL, mul_instr, 5),
      (op_SUB, sub_instr, 3), (op_DIV, div_instr, 5), (op_SDIV, sdiv_instr, 5),
      (op_MOD, rem_instr, 5), (op_SMOD, smod_instr, 5), (op_ADDMOD, addmod_instr, 8),
      (op_MULMOD, mulmod_instr, 8), (op_EXP, exp_instr, 0), (op_SIGNEXTEND, signextend_instr, 5),
      (op_LT, lt_instr, 3), (op_GT, gt_instr, 3), (op_SLT, slt_instr, 3), (op_SGT, sgt_instr, 3),
      (op_EQ, eq_instr, 3), (op_ISZERO, iszero_instr, 3), (op_AND, bitand_instr, 3),
      (op_OR, bitor_instr, 3), (op_XOR, bitxor_instr, 3), (op_NOT, not_instr, 3),
      (op_BYTE, byte_instr, 3), (op_SHL, shl_instr, 3), (op_SHR, shr_instr, 3),
      (op_SAR, sar_instr, 3), (op_CLZ, clz_instr, 5), (op_KECCAK256, keccak256_instr keccak, 0),
      (op_ADDRESS, address_instr, 2), (op_BALANCE, balance_instr H, 0),
      (op_ORIGIN, origin_instr H, 2), (op_CALLER, caller_instr, 2),
      (op_CALLVALUE, callvalue_instr, 2), (op_CALLDATALOAD, calldataload_instr, 3),
      (op_CALLDATASIZE, calldatasize_instr, 2), (op_CALLDATACOPY, calldatacopy_instr, 0),
      (op_CODESIZE, codesize_instr, 2), (op_CODECOPY, codecopy_instr, 0),
      (op_GASPRICE, gasprice_instr H, 2), (op_EXTCODESIZE, extcodesize_instr H, 0),
      (op_EXTCODECOPY, extcodecopy_instr H, 0), (op_RETURNDATASIZE, returndatasize_instr, 2),
      (op_RETURNDATACOPY, returndatacopy_instr, 0), (op_EXTCODEHASH, extcodehash_instr H, 0),
      (op_BLOCKHASH, blockhash_instr H, 20), (op_COINBASE, coinbase_instr H, 2),
      (op_TIMESTAMP, timestamp_instr H, 2), (op_NUMBER, block_number_instr H, 2),
      (op_DIFFICULTY, difficulty_instr H, 2), (op_GASLIMIT, gaslimit_instr H, 2),
      (op_CHAINID, chainid_instr H, 2), (op_SELFBALANCE, selfbalance_instr H, 5),
      (op_BASEFEE, basefee_instr H, 2), (op_BLOBHASH, blob_hash_instr H, 3),
      (op_BLOBBASEFEE, blob_basefee_instr H, 2), (op_POP, pop_instr, 2),
      (op_MLOAD, mload_instr, 3), (op_MSTORE, mstore_instr, 3), (op_MSTORE8, mstore8_instr, 3),
      (op_SLOAD, sload_instr H, 0), (op_SSTORE, sstore_instr H, 0), (op_JUMP, jump_instr, 8),
      (op_JUMPI, jumpi_instr, 10), (op_PC, pc_instr, 2), (op_MSIZE, msize_instr, 2),
      (op_GAS, gas_instr, 2), (op_JUMPDEST, jumpdest_instr, 1), (op_TLOAD, tload_instr H, 100),
      (op_TSTORE, tstore_instr H, 100), (op_MCOPY, mcopy_instr, 0), (op_PUSH0, push0_instr, 2),
      (op_PUSH1, push_instr 1, 3), (op_PUSH2, push_instr 2, 3), (op_PUSH3, push_instr 3, 3),
      (op_PUSH4, push_instr 4, 3), (op_PUSH5, push_instr 5, 3), (op_PUSH6, push_instr 6, 3),
      (op_PUSH7, push_instr 7, 3), (op_PUSH8, push_instr 8, 3), (op_PUSH9, push_instr 9, 3),
      (op_PUSH10, push_instr 10, 3), (op_PUSH11, push_instr 11, 3), (op_PUSH12, push_instr 12, 3),
      (op_PUSH13, push_instr 13, 3), (op_PUSH14, push_instr 14, 3), (op_PUSH15, push_instr 15, 3),
      (op_PUSH16, push_instr 16, 3), (op_PUSH17, push_instr 17, 3), (op_PUSH18, push_instr 18, 3),
      (op_PUSH19, push_instr 19, 3), (op_PUSH20, push_instr 20, 3), (op_PUSH21, push_instr 21, 3),
      (op_PUSH22, push_instr 22, 3), (op_PUSH23, push_instr 23, 3), (op_PUSH24, push_instr 24, 3),
      (op_PUSH25, push_instr 25, 3), (op_PUSH26, push_instr 26, 3), (op_PUSH27, push_instr 27, 3),
      (op_PUSH28, push_instr 28, 3), (op_PUSH29, push_instr 29, 3), (op_PUSH30, push_instr 30, 3),
      (op_PUSH31, push_instr 31, 3), (op_PUSH32, push_instr 32, 3), (op_DUP1, dup_instr 1, 3),
      (op_DUP2, dup_instr 2, 3), (op_DUP3, dup_instr 3, 3), (op_DUP4, dup_instr 4, 3),
      (op_DUP5, dup_instr 5, 3), (op_DUP6, dup_instr 6, 3), (op_DUP7, dup_instr 7, 3),
      (op_DUP8, dup_instr 8, 3), (op_DUP9, dup_instr 9, 3), (op_DUP10, dup_instr 10, 3),
      (op_DUP11, dup_instr 11, 3), (op_DUP12, dup_instr 12, 3), (op_DUP13, dup_instr 13, 3),
      (op_DUP14, dup_instr 14, 3), (op_DUP15, dup_instr 15, 3), (op_DUP16, dup_instr 16, 3),
      (op_SWAP1, swap_instr 1, 3), (op_SWAP2, swap_instr 2, 3), (op_SWAP3, swap_instr 3, 3),
      (op_SWAP4, swap_instr 4, 3), (op_SWAP5, swap_instr 5, 3), (op_SWAP6, swap_instr 6, 3),
      (op_SWAP7, swap_instr 7, 3), (op_SWAP8, swap_instr 8, 3), (op_SWAP9, swap_instr 9, 3),
      (op_SWAP10, swap_instr 10, 3), (op_SWAP11, swap_instr 11, 3), (op_SWAP12, swap_instr 12, 3),
      (op_SWAP13, swap_instr 13, 3), (op_SWAP14, swap_instr 14, 3), (op_SWAP15, swap_instr 15, 3),
      (op_SWAP16, swap_instr 16, 3), (op_LOG0, log_instr H 0, 0), (op_LOG1, log_instr H 1, 0),
      (op_LOG2, log_instr H 2, 0), (op_LOG3, log_instr H 3, 0), (op_LOG4, log_instr H 4, 0),
      (op_CREATE, create_instr H False, 0), (op_CALL, call_instr H, 0),
      (op_CALLCODE, call_code_instr H, 0), (op_RETURN, ret_instr, 0),
      (op_DELEGATECALL, delegate_call_instr H, 0), (op_CREATE2, create_instr H True, 0),
      (op_STATICCALL, static_call_instr H, 0), (op_REVERT, revert_instr, 0),
      (op_INVALID, invalid_instr, 0), (op_SELFDESTRUCT, selfdestruct_instr H, 0)
     ]"

definition instruction_table :: "'h host_ops \<Rightarrow> (bytes \<Rightarrow> b256) \<Rightarrow> u8 \<Rightarrow> 'h instr \<times> u64" where
  "instruction_table H keccak opcode =
     (case map_of (instruction_rows H keccak) opcode of
        Some i \<Rightarrow> i | None \<Rightarrow> (unknown_instr, 0))"

section \<open>Execution\<close>

definition step ::
    "'h host_ops \<Rightarrow> (bytes \<Rightarrow> b256) \<Rightarrow> 'h instruction_context \<Rightarrow> 'h instruction_context option" where
  "step H keccak c =
     Option.bind (eb_opcode (i_bytecode c)) (\<lambda>opcode.
     Option.bind (relative_jump 1 (i_bytecode c)) (\<lambda>b.
       let c = c\<lparr>i_bytecode := b\<rparr>;
           (instr, static_gas) = instruction_table H keccak opcode;
           (oog, g) = record_cost_unsafe static_gas (i_gas c);
           c = c\<lparr>i_gas := g\<rparr>
       in if oog then Some (halt_oog c) else instr c))"

text \<open>The loop has no value when it panics or does not end.\<close>

partial_function (option) run_plain ::
    "'h host_ops \<Rightarrow> (bytes \<Rightarrow> b256) \<Rightarrow> 'h instruction_context
       \<Rightarrow> (interpreter_action \<times> 'h instruction_context) option" where
  [code]: "run_plain H keccak c =
     (if is_not_end (i_bytecode c) then Option.bind (step H keccak c) (run_plain H keccak)
      else take_next_action c)"

end
