(* ===== verification/Safety.thy ===== *)
theory Safety
  imports Exec
begin

text \<open>
  What every instruction keeps. A running interpreter satisfies \<open>interp_ok\<close>: the instruction
  pointer is at the start of an instruction, the stack has at most 1024 elements, meter and
  memory agree and the host can serve the executing account. \<open>good c0 d i o c\<close> relates a state
  \<open>c\<close> within an instruction to the state \<open>c0\<close> the instruction started in: \<open>c\<close> is still
  running, at least \<open>d\<close> gas has been spent, \<open>i\<close> operands have been taken and \<open>o\<close> are on top
  of what was below them. The rules in \<open>wp\<close> carry it through the macros of the instructions.
\<close>

named_theorems wp \<open>rules for the macros of the instructions\<close>

section \<open>Invariants\<close>

text \<open>Code the interpreter can run: analysed legacy code, or a delegation, whose first byte is no
  opcode.\<close>

fun bytecode_ok :: "bytecode \<Rightarrow> bool" where
  "bytecode_ok (LegacyAnalyzed a) \<longleftrightarrow>
     code_closed (la_bytecode a) \<and> length (la_bytecode a) < 2 ^ 63
     \<and> (\<forall>pc. jump_table_is_valid (la_jump_table a) pc \<longrightarrow>
          boundary (la_bytecode a) 0 (unat pc) \<and> unat pc < length (la_bytecode a))"
| "bytecode_ok (Eip7702 c) \<longleftrightarrow> length (ev_raw c) = 23 \<and> ev_raw c ! 0 = 0xEF"

definition pc_ok :: "ext_bytecode \<Rightarrow> bool" where
  "pc_ok b \<longleftrightarrow> boundary (bytes_ref (eb_base b)) 0 (eb_instruction_pointer b)
     \<and> eb_instruction_pointer b < length (bytes_ref (eb_base b))
     \<and> (is_eip7702 (eb_base b) \<longrightarrow> eb_instruction_pointer b = 0)"

definition input_ok :: "shared_memory \<Rightarrow> inputs_impl \<Rightarrow> bool" where
  "input_ok m i \<longleftrightarrow>
     (case in_input i of
        CallBytes bs \<Rightarrow> length bs < 2 ^ 63
      | SharedBuffer s e \<Rightarrow> s < e \<longrightarrow> e \<le> sm_my_checkpoint m)"

definition interp_ok ::
    "(spec_id \<Rightarrow> address \<Rightarrow> 'h \<Rightarrow> bool) \<Rightarrow> 'h instruction_context \<Rightarrow> bool" where
  "interp_ok hinv c \<longleftrightarrow>
     eb_continue_execution (i_bytecode c) \<and> eb_action (i_bytecode c) = None
     \<and> bytecode_ok (eb_base (i_bytecode c)) \<and> pc_ok (i_bytecode c)
     \<and> length (i_return_data c) < 2 ^ 63 \<and> input_ok (i_memory c) (i_input c)
     \<and> length (i_stack c) \<le> STACK_LIMIT
     \<and> mem_gas_inv (i_gas c) (i_memory c)
     \<and> hinv (i_spec c) (i_target c) (i_host c)"

text \<open>What an instruction never changes: the code, inputs, flags and return data of the frame, its
  gas limit, and the memory of the frames below.\<close>

definition same_frame :: "'h instruction_context \<Rightarrow> 'h instruction_context \<Rightarrow> bool" where
  "same_frame c0 c \<longleftrightarrow>
     eb_base (i_bytecode c) = eb_base (i_bytecode c0)
     \<and> i_input c = i_input c0 \<and> i_runtime_flag c = i_runtime_flag c0
     \<and> i_return_data c = i_return_data c0 \<and> g_limit (i_gas c) = g_limit (i_gas c0)
     \<and> mem_inv (i_memory c0) \<and> i_memory c = mem_upd (i_memory c0) (mem_bytes (i_memory c))"

text \<open>Gas that is left or was paid for memory; an instruction moves gas from the first to the second
  or spends it.\<close>

abbreviation i_expansion :: "'z interpreter_scheme \<Rightarrow> nat" where
  "i_expansion c \<equiv> unat (expansion_cost (g_memory (i_gas c)))"

definition gas_total :: "'z interpreter_scheme \<Rightarrow> nat" where
  "gas_total c = unat (i_remaining c) + i_expansion c"

definition good ::
    "(spec_id \<Rightarrow> address \<Rightarrow> 'h \<Rightarrow> bool) \<Rightarrow> (spec_id \<Rightarrow> bool \<Rightarrow> 'h \<Rightarrow> 'h \<Rightarrow> bool)
       \<Rightarrow> 'h instruction_context \<Rightarrow> nat \<Rightarrow> int \<Rightarrow> int \<Rightarrow> 'h instruction_context \<Rightarrow> bool" where
  "good hinv ev c0 d i o' c \<longleftrightarrow>
     interp_ok hinv c \<and> same_frame c0 c \<and> \<not> is_eip7702 (eb_base (i_bytecode c))
     \<and> i \<le> int (length (i_stack c0)) \<and> int (length (i_stack c)) + i = int (length (i_stack c0)) + o'
     \<and> length (i_stack c0) \<le> STACK_LIMIT
     \<and> gas_total c + d \<le> gas_total c0 \<and> i_expansion c0 \<le> i_expansion c
     \<and> ev (i_spec c0) (rf_is_static (i_runtime_flag c0)) (i_host c0) (i_host c)"

text \<open>The state in which the interpreter goes on after its action has been taken.\<close>

definition resume :: "'h instruction_context \<Rightarrow> 'h instruction_context" where
  "resume c = c\<lparr>i_bytecode := (i_bytecode c)\<lparr>eb_continue_execution := True, eb_action := None\<rparr>\<rparr>"

text \<open>A requested frame: a static frame only asks for static calls that move no value; the gas given to
  the frame and what is left is less than before, although a stipend may be added; memory ranges
  are within memory; the code of the callee can be run and the accounts concerned are loaded.\<close>

definition range_ok :: "usize \<times> usize \<Rightarrow> nat \<Rightarrow> bool" where
  "range_ok r n \<longleftrightarrow> (fst r < snd r \<longrightarrow> unat (snd r) \<le> n)"

fun frame_ok ::
    "(spec_id \<Rightarrow> address \<Rightarrow> 'h \<Rightarrow> bool) \<Rightarrow> 'h instruction_context \<Rightarrow> 'h instruction_context
       \<Rightarrow> frame_input \<Rightarrow> bool" where
  "frame_ok hinv c0 c FrameEmpty \<longleftrightarrow> False"
| "frame_ok hinv c0 c (FrameCall i) \<longleftrightarrow>
     (rf_is_static (i_runtime_flag c0) \<longrightarrow>
        ci_is_static i \<and> (ci_scheme i = Call \<longrightarrow> ci_value i = Transfer 0)
        \<and> (\<forall>v. ci_value i = Transfer v \<longrightarrow> v = 0 \<or> ci_caller i = ci_target_address i))
     \<and> unat (ci_gas_limit i) + gas_total c < gas_total c0
     \<and> (\<exists>s e. ci_input i = SharedBuffer s e
          \<and> range_ok (s, e) (unat (sm_my_checkpoint (i_memory c)) + length (mem_bytes (i_memory c))))
     \<and> range_ok (ci_return_memory_offset i) (length (mem_bytes (i_memory c)))
     \<and> (\<exists>h b. ci_known_bytecode i = Some (h, b) \<and> bytecode_ok b)
     \<and> hinv (i_spec c0) (ci_target_address i) (i_host c)
     \<and> (\<forall>v. ci_value i = Transfer v \<longrightarrow> hinv (i_spec c0) (ci_caller i) (i_host c))"
| "frame_ok hinv c0 c (FrameCreate i) \<longleftrightarrow>
     \<not> rf_is_static (i_runtime_flag c0)
     \<and> unat (cr_gas_limit i) + gas_total c < gas_total c0
     \<and> length (cr_init_code i) < 2 ^ 62 \<and> hinv (i_spec c0) (cr_caller i) (i_host c)"

text \<open>The results that a frame may end with when no error of the host is recorded.\<close>

abbreviation exported :: "instruction_result \<Rightarrow> bool" where
  "exported r \<equiv> r \<noteq> FatalExternalError \<and> r \<noteq> InvalidExtDelegateCallTarget"

definition ended ::
    "(spec_id \<Rightarrow> address \<Rightarrow> 'h \<Rightarrow> bool) \<Rightarrow> (spec_id \<Rightarrow> bool \<Rightarrow> 'h \<Rightarrow> 'h \<Rightarrow> bool) \<Rightarrow> ('h \<Rightarrow> bool)
       \<Rightarrow> 'h instruction_context \<Rightarrow> 'h instruction_context \<Rightarrow> bool" where
  "ended hinv ev err c0 c \<longleftrightarrow>
     unat (i_remaining c) \<le> unat (i_remaining c0) \<and> length (i_stack c) \<le> STACK_LIMIT
     \<and> ev (i_spec c0) (rf_is_static (i_runtime_flag c0)) (i_host c0) (i_host c)
     \<and> hinv (i_spec c0) (i_target c0) (i_host c) \<and> same_frame c0 c
     \<and> (case eb_action (i_bytecode c) of
          None \<Rightarrow> False
        | Some (ReturnAction r) \<Rightarrow> ir_gas r = i_gas c \<and> length (ir_output r) < 2 ^ 62
            \<and> (ir_result r = FatalExternalError \<longrightarrow> err (i_host c))
            \<and> ir_result r \<noteq> InvalidExtDelegateCallTarget
        | Some (NewFrame f) \<Rightarrow> interp_ok hinv (resume c) \<and> length (i_stack c) < STACK_LIMIT
            \<and> frame_ok hinv c0 c f)"

definition fin ::
    "(spec_id \<Rightarrow> address \<Rightarrow> 'h \<Rightarrow> bool) \<Rightarrow> (spec_id \<Rightarrow> bool \<Rightarrow> 'h \<Rightarrow> 'h \<Rightarrow> bool) \<Rightarrow> ('h \<Rightarrow> bool)
       \<Rightarrow> 'h instruction_context \<Rightarrow> int \<Rightarrow> int \<Rightarrow> 'h instruction_context \<Rightarrow> bool" where
  "fin hinv ev err c0 i o' c \<longleftrightarrow>
     (if is_not_end (i_bytecode c) then \<exists>d \<ge> 1. good hinv ev c0 d i o' c else ended hinv ev err c0 c)"

section \<open>Ends of instructions\<close>

lemma gas_total_upd [simp]:
  "gas_total (c\<lparr>i_stack := st\<rparr>) = gas_total c" "gas_total (c\<lparr>i_bytecode := b\<rparr>) = gas_total c"
  "gas_total (c\<lparr>i_memory := m\<rparr>) = gas_total c" "gas_total (c\<lparr>i_host := h\<rparr>) = gas_total c"
  by (simp_all add: gas_total_def)

lemma bytecode_ok_new [simp]: "bytecode_ok bytecode_new"
proof -
  have "boundary [0 :: u8] 0 pc \<Longrightarrow> pc < 1 \<Longrightarrow> pc = 0" for pc by simp
  then show ?thesis
    by (auto simp: bytecode_new_def legacy_analyzed_default_def code_closed_def op_const
        jump_table_default_def jump_table_is_valid_def)
qed

lemma goodD:
  assumes "good hinv ev c0 d i o' c"
  shows "interp_ok hinv c" "same_frame c0 c" "unat (i_remaining c) + d \<le> unat (i_remaining c0)"
    "mem_gas_inv (i_gas c) (i_memory c)" "mem_inv (i_memory c)" "length (i_stack c) \<le> STACK_LIMIT"
    "hinv (i_spec c) (i_target c) (i_host c)" "bytecode_ok (eb_base (i_bytecode c))"
    "length (i_return_data c) < 2 ^ 63" "input_ok (i_memory c) (i_input c)"
    "i_runtime_flag c = i_runtime_flag c0" "i_input c = i_input c0"
    "\<not> is_eip7702 (eb_base (i_bytecode c))" "gas_total c + d \<le> gas_total c0"
  using assms by (auto simp: good_def interp_ok_def same_frame_def mem_gas_inv_def gas_total_def)

lemma good_hinv: "good hinv ev c0 d i o' c \<Longrightarrow> hinv (i_spec c0) (i_target c0) (i_host c)"
  using goodD(7,11,12) by fastforce

lemma good_less: "good hinv ev c0 d i o' c \<Longrightarrow> d' \<le> d \<Longrightarrow> good hinv ev c0 d' i o' c"
  by (simp add: good_def)

lemma fin_good [wp]: "good hinv ev c0 d i o' c \<Longrightarrow> 1 \<le> d \<Longrightarrow> fin hinv ev err c0 i o' c"
  by (auto simp: fin_def good_def interp_ok_def is_not_end_def)

lemma ended_return:
  assumes "good hinv ev c0 d i o' c" "length out < 2 ^ 62" "r = FatalExternalError \<longrightarrow> err (i_host c)"
    "r \<noteq> InvalidExtDelegateCallTarget"
  shows "fin hinv ev err c0 j k (interp_set_action (new_return r out (i_gas c)) c)"
  using assms
  by (auto simp: fin_def ended_def good_def interp_ok_def is_not_end_def interp_set_action_def
      set_action_def new_return_def same_frame_def gas_total_def)

lemma fin_halt [wp]:
  assumes "good hinv ev c0 d i o' c" "exported r"
  shows "fin hinv ev err c0 j k (halt r c)"
  using ended_return [OF assms(1), of "[]" r] assms(2) by (simp add: halt_def new_halt_def new_return_def)

lemma fin_halt_others [wp]:
  assumes "good hinv ev c0 d i o' c"
  shows "err (i_host c) \<Longrightarrow> fin hinv ev err c0 j k (halt_fatal c)" "fin hinv ev err c0 j k (halt_overflow c)"
    "fin hinv ev err c0 j k (halt_underflow c)" "fin hinv ev err c0 j k (halt_not_activated c)"
  using fin_halt [OF assms] ended_return [OF assms, of "[]" FatalExternalError]
  by (simp_all add: halt_def new_halt_def new_return_def halt_fatal_def halt_overflow_def halt_underflow_def halt_not_activated_def)

lemma fin_halt_oog [wp]:
  assumes "good hinv ev c0 d i o' c"
  shows "fin hinv ev err c0 j k (halt_oog c)"
  using assms
  by (auto simp: fin_def ended_def good_def interp_ok_def is_not_end_def halt_oog_def halt_def
      interp_set_action_def set_action_def new_halt_def spend_all_def same_frame_def gas_total_def)

section \<open>Rules for the macros\<close>

lemma fin_put_top [wp]:
  "good hinv ev c0 d i o' c \<Longrightarrow> 1 \<le> d \<Longrightarrow> fin hinv ev err c0 i o' (put_top v c)"
  by (rule fin_good [where d = d]) (auto simp: good_def interp_ok_def same_frame_def put_top_def)

lemma good_stack:
  assumes "good hinv ev c0 d i o' c" "length st \<le> STACK_LIMIT"
    "i' \<le> int (length (i_stack c0))" "int (length st) + i' = int (length (i_stack c0)) + o''"
  shows "good hinv ev c0 d i' o'' (c\<lparr>i_stack := st\<rparr>)"
  using assms by (auto simp: good_def interp_ok_def same_frame_def)

lemma popn_wp [wp]:
  assumes "good hinv ev c0 d i o' c"
    and "\<And>xs c. length xs = n \<Longrightarrow> i_input c = i_input c0 \<Longrightarrow> good hinv ev c0 d (i + max 0 (int n - o')) (max 0 (o' - int n)) c \<Longrightarrow>
      ok (fin hinv ev err c0 j k) (f xs c)"
  shows "ok (fin hinv ev err c0 j k) (popn n c f)"
proof (cases "length (i_stack c) < n")
  case True
  then show ?thesis using assms(1) by (simp add: popn_def stack_popn_eq wp)
next
  case False
  have "good hinv ev c0 d (i + max 0 (int n - o')) (max 0 (o' - int n))
      (c\<lparr>i_stack := take (length (i_stack c) - n) (i_stack c)\<rparr>)"
    using assms(1) False by (intro good_stack) (auto simp: good_def interp_ok_def)
  with False assms(2) [OF _ goodD(12) [OF this]] show ?thesis by (simp add: popn_def stack_popn_eq)
qed

lemma popn_top_wp [wp]:
  assumes "good hinv ev c0 d i o' c"
    and "\<And>xs t c. length xs = n \<Longrightarrow> i_input c = i_input c0 \<Longrightarrow>
      good hinv ev c0 d (i + max 0 (int n + 1 - o')) (max o' (int n + 1) - int n) c \<Longrightarrow>
      ok (fin hinv ev err c0 j k) (f xs t c)"
  shows "ok (fin hinv ev err c0 j k) (popn_top n c f)"
proof (cases "length (i_stack c) < 1 + n")
  case True
  then show ?thesis using assms(1) by (simp add: popn_top_def wp)
next
  case False
  have "good hinv ev c0 d (i + max 0 (int n + 1 - o')) (max o' (int n + 1) - int n)
      (c\<lparr>i_stack := take (length (i_stack c) - n) (i_stack c)\<rparr>)"
    using assms(1) False by (intro good_stack) (auto simp: good_def interp_ok_def)
  with False assms(2) [OF _ goodD(12) [OF this]] show ?thesis
    by (simp add: popn_top_def stack_popn_top_eq)
qed

lemma push_m_wp [wp]:
  assumes "good hinv ev c0 d i o' c" "1 \<le> d" "k = o' + 1"
  shows "ok (fin hinv ev err c0 i k) (push_m v c)"
proof (cases "length (i_stack c) = STACK_LIMIT")
  case True
  then show ?thesis using assms(1) by (simp add: push_m_def stack_push_def wp)
next
  case False
  have "good hinv ev c0 d i (o' + 1) (c\<lparr>i_stack := i_stack c @ [v]\<rparr>)"
    using assms(1) False by (intro good_stack) (auto simp: good_def interp_ok_def)
  with False assms show ?thesis by (simp add: push_m_def stack_push_def fin_good)
qed

lemma require_non_staticcall_wp [wp]:
  assumes "good hinv ev c0 d i o' c"
    and "good hinv ev c0 d i o' c \<Longrightarrow> \<not> rf_is_static (i_runtime_flag c0) \<Longrightarrow> ok (fin hinv ev err c0 j k) (f c)"
  shows "ok (fin hinv ev err c0 j k) (require_non_staticcall c f)"
  using assms by (simp add: require_non_staticcall_def wp goodD(11))

lemma check_spec_wp [wp]:
  assumes "good hinv ev c0 d i o' c" and "good hinv ev c0 d i o' c \<Longrightarrow> ok (fin hinv ev err c0 j k) (f c)"
  shows "ok (fin hinv ev err c0 j k) (check_spec s c f)"
  using assms by (simp add: check_spec_def wp)

lemma good_charge:
  assumes "good hinv ev c0 d i o' c" "cost \<le> i_remaining c"
  shows "good hinv ev c0 (d + unat cost) i o' (c\<lparr>i_gas := (i_gas c)\<lparr>g_remaining := i_remaining c - cost\<rparr>\<rparr>)"
proof -
  have "unat (i_remaining c - cost) + unat cost = unat (i_remaining c)"
    using assms(2) by (simp add: unat_minus_le word_le_nat_alt)
  with assms(1) show ?thesis
    by (auto simp: good_def interp_ok_def same_frame_def mem_gas_inv_def gas_total_def)
qed

lemma charge_wp [wp]:
  assumes "good hinv ev c0 d i o' c"
    and "\<And>c'. i_input c' = i_input c0 \<Longrightarrow> i_memory c = i_memory c' \<Longrightarrow> i_host c = i_host c' \<Longrightarrow>
      good hinv ev c0 (d + unat cost) i o' c' \<Longrightarrow> ok (fin hinv ev err c0 j k) (f c')"
  shows "ok (fin hinv ev err c0 j k) (charge cost c f)"
proof (cases "cost \<le> i_remaining c")
  case True
  then show ?thesis
    using assms(2) [OF goodD(12) _ _ good_charge] assms(1) good_charge [OF assms(1) True]
    by (simp add: charge_def record_cost_def checked_sub_def)
next
  case False
  then have "charge cost c f = Some (halt_oog c)"
    by (simp add: charge_def record_cost_def checked_sub_def)
  then show ?thesis using assms(1) by (simp add: wp)
qed

lemma gas_or_fail_wp [wp]:
  assumes "good hinv ev c0 d i o' c" "cost \<noteq> Some 0"
    and "\<And>c. good hinv ev c0 (d + 1) i o' c \<Longrightarrow> ok (fin hinv ev err c0 j k) (f c)"
  shows "ok (fin hinv ev err c0 j k) (gas_or_fail cost c f)"
proof (cases cost)
  case None
  then show ?thesis using assms(1) by (auto simp: gas_or_fail_def elim!: wp)
next
  case (Some g)
  then have "1 \<le> unat g" using assms(2) by (simp add: Suc_le_eq unat_gt_0)
  then have "ok (fin hinv ev err c0 j k) (charge g c f)"
    by (intro charge_wp [OF assms(1)] assms(3)) (erule good_less, simp)
  with Some show ?thesis by (simp add: gas_or_fail_def)
qed

lemma as_usize_wp [wp]:
  assumes "good hinv ev c0 d i o' c"
    and "\<And>x. good hinv ev c0 d i o' c \<Longrightarrow> unat x = unat v \<Longrightarrow> ok (fin hinv ev err c0 j k) (f x)"
  shows "exported r \<Longrightarrow> ok (fin hinv ev err c0 j k) (as_usize_or_fail_with v r c f)"
    "ok (fin hinv ev err c0 j k) (as_usize_or_fail v c f)"
  using assms unat_as_usize_checked [of v]
  by (auto simp: as_usize_or_fail_def as_usize_or_fail_with_def elim!: wp split: option.split)

lemma input_ok_upd [simp]: "input_ok (mem_upd m x) = input_ok m"
  by (simp add: input_ok_def fun_eq_iff split: call_input.split)

lemma good_memory:
  assumes "good hinv ev c0 d i o' c" "mem_gas_inv g m" "m = mem_upd (i_memory c) (mem_bytes m)"
    "g_limit g = g_limit (i_gas c)" "g_remaining g \<le> i_remaining c"
    "unat (g_remaining g) + unat (expansion_cost (g_memory g)) = gas_total c"
  shows "good hinv ev c0 d i o' (c\<lparr>i_gas := g, i_memory := m\<rparr>)"
proof -
  have "m = mem_upd (i_memory c0) (mem_bytes m)"
    using assms(1,3) by (metis good_def mem_upd_upd same_frame_def)
  moreover have "input_ok m = input_ok (i_memory c)" using assms(3) input_ok_upd by metis
  moreover have "unat (g_remaining g) \<le> unat (i_remaining c)"
    using assms(5) by (simp add: word_le_nat_alt)
  ultimately show ?thesis
    using assms(1,2,4,6) by (auto simp: good_def interp_ok_def same_frame_def gas_total_def)
qed

lemma resize_memory_grow:
  assumes "good hinv ev c0 d i o' c"
    and "\<And>c'. good hinv ev c0 d i o' c' \<Longrightarrow>
      unat off + unat len \<le> length (mem_bytes (i_memory c')) \<Longrightarrow>
      length (mem_bytes (i_memory c)) \<le> length (mem_bytes (i_memory c')) \<Longrightarrow>
      ok (fin hinv ev err c0 j k) (f c')"
  shows "ok (fin hinv ev err c0 j k) (resize_memory_m off len c f)"
  using goodD(4) [OF assms(1)]
proof (rule resize_memory_ok [where off = off and len = len])
  fix g' assume "resize_memory (i_gas c) (i_memory c) off len = Some (False, g', i_memory c)"
    "g_remaining g' = i_remaining c" "g_limit g' = g_limit (i_gas c)"
  then show ?thesis
    using assms(1)
    by (auto simp: resize_memory_m_def halt_memory_oog_def halt_def fin_def ended_def good_def
        interp_ok_def is_not_end_def interp_set_action_def set_action_def new_halt_def same_frame_def
        gas_total_def)
next
  fix g' m'
  assume r: "resize_memory (i_gas c) (i_memory c) off len = Some (True, g', m')"
    "g_limit g' = g_limit (i_gas c)" "g_remaining g' \<le> i_remaining c"
    "unat (g_remaining g') + unat (expansion_cost (g_memory g'))
      = unat (i_remaining c) + i_expansion c" "mem_gas_inv g' m'"
    "m' = mem_upd (i_memory c) (mem_bytes m')" "unat off + unat len \<le> length (mem_bytes m')"
    "length (mem_bytes (i_memory c)) \<le> length (mem_bytes m')"
  then have "good hinv ev c0 d i o' (c\<lparr>i_gas := g', i_memory := m'\<rparr>)"
    using assms(1) by (intro good_memory) (auto simp: gas_total_def)
  with r assms(2) show ?thesis by (simp add: resize_memory_m_def)
qed

lemma resize_memory_wp [wp]:
  assumes "good hinv ev c0 d i o' c"
    and "\<And>c. good hinv ev c0 d i o' c \<Longrightarrow> unat off + unat len \<le> length (mem_bytes (i_memory c)) \<Longrightarrow>
      ok (fin hinv ev err c0 j k) (f c)"
  shows "ok (fin hinv ev err c0 j k) (resize_memory_m off len c f)"
  using assms by (blast intro: resize_memory_grow)

text \<open>Writes within the memory of the frame.\<close>

lemma put_memory_wp:
  assumes "good hinv ev c0 d i o' c" "1 \<le> d" "length x = length (mem_bytes (i_memory c))"
  shows "ok (fin hinv ev err c0 i o') (put_memory (Some (mem_upd (i_memory c) x)) c)"
proof -
  have "mem_gas_inv (i_gas c) (mem_upd (i_memory c) x)"
    using goodD(4) [OF assms(1)] assms(3) mem_inv_length [of "i_memory c"]
    by (auto simp: mem_gas_inv_def intro!: mem_inv_upd)
  moreover have "mem_bytes (mem_upd (i_memory c) x) = x" using goodD(5) [OF assms(1)] by simp
  ultimately have "good hinv ev c0 d i o' (c\<lparr>i_gas := i_gas c, i_memory := mem_upd (i_memory c) x\<rparr>)"
    using assms(1) by (intro good_memory) (auto simp: gas_total_def)
  then show ?thesis using assms(2) by (simp add: put_memory_def wp)
qed

lemma mem_set_wp [wp]:
  assumes "good hinv ev c0 d i o' c" "1 \<le> d" "unat off + length v \<le> length (mem_bytes (i_memory c))"
  shows "ok (fin hinv ev err c0 i o') (put_memory (mem_set off v (i_memory c)) c)"
  using assms goodD(5) [OF assms(1)] by (simp add: mem_set_eq put_memory_wp)

lemma mem_copy_wp [wp]:
  assumes "good hinv ev c0 d i o' c" "1 \<le> d"
    "unat (max dst src) + unat len \<le> length (mem_bytes (i_memory c))"
  shows "ok (fin hinv ev err c0 i o') (put_memory (mem_copy dst src len (i_memory c)) c)"
proof -
  have "unat src \<le> unat (max dst src)" "unat dst \<le> unat (max dst src)"
    by (simp_all flip: word_le_nat_alt)
  then have "unat src + unat len \<le> length (mem_bytes (i_memory c))"
    "unat dst + unat len \<le> length (mem_bytes (i_memory c))" using assms(3) by linarith+
  with assms goodD(5) [OF assms(1)] show ?thesis
    by (simp add: mem_copy_eq put_memory_wp)
qed

lemma mem_set_data_wp [wp]:
  assumes "good hinv ev c0 d i o' c" "1 \<le> d" "good hinv ev c0 d i o' c \<Longrightarrow> length src < 2 ^ 63"
    "m = i_memory c" "unat doff + unat len \<le> length (mem_bytes m)"
  shows "ok (fin hinv ev err c0 i o') (put_memory (mem_set_data doff soff len src m) c)"
  using assms goodD(5) [OF assms(1)] by (simp add: mem_set_data_eq put_memory_wp)

lemma global_set_data_wp [wp]:
  assumes "good hinv ev c0 d i o' c" "1 \<le> d"
    "good hinv ev c0 d i o' c \<Longrightarrow> s < e \<Longrightarrow> e \<le> sm_my_checkpoint (i_memory c)"
    "unat doff + unat len \<le> length (mem_bytes (i_memory c))"
  shows "ok (fin hinv ev err c0 i o') (put_memory (global_to_local_set_data doff soff len s e (i_memory c)) c)"
proof -
  obtain x where "global_to_local_set_data doff soff len s e (i_memory c)
    = Some (mem_upd (i_memory c) (take (unat doff) (mem_bytes (i_memory c)) @ padded x (unat soff) (unat len)
        @ drop (unat doff + unat len) (mem_bytes (i_memory c))))"
    using global_to_local_set_data_eq goodD(5) [OF assms(1)] assms(3) [OF assms(1)] assms(4) by blast
  with assms show ?thesis by (simp add: put_memory_wp)
qed

lemma slice_len_wp [wp]:
  assumes "good hinv ev c0 d i o' c" "unat off + unat len \<le> length (mem_bytes (i_memory c))"
    and "\<And>s. good hinv ev c0 d i o' c \<Longrightarrow> length s = unat len \<Longrightarrow> length s < 2 ^ 62 \<Longrightarrow> ok Q (f s)"
  shows "ok Q (Option.bind (slice_len off len (i_memory c)) f)"
  using assms goodD(5) [OF assms(1)] mem_gas_inv_length [OF goodD(4) [OF assms(1)]]
  by (simp add: slice_len_eq)

lemma mem_len_wp [wp]:
  assumes "good hinv ev c0 d i o' c" and "\<And>n. good hinv ev c0 d i o' c \<Longrightarrow> ok Q (f n)"
  shows "ok Q (Option.bind (mem_len (i_memory c)) f)"
  using assms goodD(5) [OF assms(1)] by (simp add: mem_len_eq)

lemma length_original_bytes [simp]: "bytecode_ok b \<Longrightarrow> length (original_bytes b) < 2 ^ 63"
  by (cases b) (auto simp: la_original_bytes_def)

text \<open>Every dynamic cost is positive.\<close>

lemma checked_add_pos: "0 < unat a \<Longrightarrow> checked_add a b \<noteq> Some 0" for a :: "'a::len word"
  by (auto dest: unat_checked_add)

lemma costs_pos [simp]:
  "copy_cost_verylow len \<noteq> Some 0" "keccak256_cost len \<noteq> Some 0" "log_cost n l \<noteq> Some 0"
  "create2_cost len \<noteq> Some 0" "static_sstore_cost spec \<noteq> 0"
  by (auto simp: copy_cost_verylow_def copy_cost_def keccak256_cost_def log_cost_def create2_cost_def
      static_sstore_cost_def gas_const bind_eq_Some_conv dest!: unat_checked_add split: if_splits)

lemma exp_cost_pos [simp]: "exp_cost spec v \<noteq> Some 0"
proof
  assume "exp_cost spec v = Some 0"
  then obtain m g where "checked_add (ucast gas_EXP) m = Some g" "unat (g :: u256) < 2 ^ 64"
    "ucast g = (0 :: u64)"
    by (auto simp: exp_cost_def Let_def gas_const bind_eq_Some_conv split: if_splits)
  then show False using unat_ucast_small [of g, where 'b = 64] unat_checked_add [of "ucast gas_EXP" m g]
    by (simp add: gas_const)
qed

lemma memory_resize_wp [wp]:
  assumes "good hinv ev c0 d i o' c"
    and "\<And>off c. good hinv ev c0 (d + 1) i o' c \<Longrightarrow>
      unat off + unat len \<le> length (mem_bytes (i_memory c)) \<Longrightarrow> ok (fin hinv ev err c0 i o') (f off c)"
  shows "ok (fin hinv ev err c0 i o') (memory_resize v len c f)"
  unfolding memory_resize_def
  using assms(1) by (auto elim!: wp intro!: assms(2))

section \<open>Instructions without host\<close>

lemma arithmetic_ok:
  assumes "good hinv ev c0 d 0 0 c" "1 \<le> d"
  shows "ok (fin hinv ev err c0 2 1) (add_instr c)" "ok (fin hinv ev err c0 2 1) (mul_instr c)"
    "ok (fin hinv ev err c0 2 1) (sub_instr c)" "ok (fin hinv ev err c0 2 1) (div_instr c)"
    "ok (fin hinv ev err c0 2 1) (sdiv_instr c)" "ok (fin hinv ev err c0 2 1) (rem_instr c)"
    "ok (fin hinv ev err c0 2 1) (smod_instr c)" "ok (fin hinv ev err c0 3 1) (addmod_instr c)"
    "ok (fin hinv ev err c0 3 1) (mulmod_instr c)" "ok (fin hinv ev err c0 2 1) (signextend_instr c)"
  using assms unfolding instr_defs by (auto elim!: wp)

lemma exp_ok:
  assumes "good hinv ev c0 d 0 0 c"
  shows "ok (fin hinv ev err c0 2 1) (exp_instr c)"
  using assms unfolding instr_defs Let_def by (auto elim!: wp)


lemma bitwise_ok:
  assumes "good hinv ev c0 d 0 0 c" "1 \<le> d"
  shows "ok (fin hinv ev err c0 2 1) (lt_instr c)" "ok (fin hinv ev err c0 2 1) (gt_instr c)"
    "ok (fin hinv ev err c0 2 1) (slt_instr c)" "ok (fin hinv ev err c0 2 1) (sgt_instr c)"
    "ok (fin hinv ev err c0 2 1) (eq_instr c)" "ok (fin hinv ev err c0 1 1) (iszero_instr c)"
    "ok (fin hinv ev err c0 2 1) (bitand_instr c)" "ok (fin hinv ev err c0 2 1) (bitor_instr c)"
    "ok (fin hinv ev err c0 2 1) (bitxor_instr c)" "ok (fin hinv ev err c0 1 1) (not_instr c)"
    "ok (fin hinv ev err c0 2 1) (byte_instr c)" "ok (fin hinv ev err c0 2 1) (shl_instr c)"
    "ok (fin hinv ev err c0 2 1) (shr_instr c)" "ok (fin hinv ev err c0 2 1) (sar_instr c)"
    "ok (fin hinv ev err c0 1 1) (clz_instr c)"
  using assms unfolding instr_defs by (auto elim!: wp)

lemma memory_ok:
  assumes "good hinv ev c0 d 0 0 c" "1 \<le> d"
  shows "ok (fin hinv ev err c0 1 1) (mload_instr c)" "ok (fin hinv ev err c0 2 0) (mstore_instr c)"
    "ok (fin hinv ev err c0 2 0) (mstore8_instr c)" "ok (fin hinv ev err c0 0 1) (msize_instr c)"
  using assms unfolding instr_defs by (auto elim!: wp)

lemma mcopy_ok:
  assumes "good hinv ev c0 d 0 0 c"
  shows "ok (fin hinv ev err c0 3 0) (mcopy_instr c)"
  using assms unfolding instr_defs by (auto elim!: wp)

lemma keccak256_ok:
  assumes "good hinv ev c0 d 0 0 c"
  shows "ok (fin hinv ev err c0 2 1) (keccak256_instr keccak c)"
  using assms unfolding instr_defs by (auto elim!: wp)

lemma push_data_ok:
  assumes "good hinv ev c0 d 0 0 c" "1 \<le> d"
  shows "ok (fin hinv ev err c0 0 1) (push0_instr c)" "ok (fin hinv ev err c0 0 1) (pc_instr c)"
    "ok (fin hinv ev err c0 0 1) (address_instr c)" "ok (fin hinv ev err c0 0 1) (caller_instr c)"
    "ok (fin hinv ev err c0 0 1) (codesize_instr c)" "ok (fin hinv ev err c0 0 1) (calldatasize_instr c)"
    "ok (fin hinv ev err c0 0 1) (callvalue_instr c)" "ok (fin hinv ev err c0 0 1) (returndatasize_instr c)"
    "ok (fin hinv ev err c0 0 1) (gas_instr c)"
  using assms unfolding instr_defs by (auto elim!: wp)

lemma pop_jumpdest_ok:
  assumes "good hinv ev c0 d 0 0 c" "1 \<le> d"
  shows "ok (fin hinv ev err c0 1 0) (pop_instr c)" "ok (fin hinv ev err c0 0 0) (jumpdest_instr c)"
  using assms unfolding instr_defs by (auto elim!: wp)

lemma halting_ok:
  assumes "good hinv ev c0 d 0 0 c"
  shows "ok (fin hinv ev err c0 j k) (stop_instr c)" "ok (fin hinv ev err c0 j k) (invalid_instr c)"
    "ok (fin hinv ev err c0 j k) (unknown_instr c)"
  using assms unfolding instr_defs by (auto elim!: wp)

lemma good_ip:
  assumes "good hinv ev c0 d i o' c" "pc_ok ((i_bytecode c)\<lparr>eb_instruction_pointer := n\<rparr>)"
  shows "good hinv ev c0 d i o' (c\<lparr>i_bytecode := (i_bytecode c)\<lparr>eb_instruction_pointer := n\<rparr>\<rparr>)"
  using assms by (auto simp: good_def interp_ok_def same_frame_def)

lemma jump_inner_wp [wp]:
  assumes "good hinv ev c0 d i o' c" "1 \<le> d"
  shows "ok (fin hinv ev err c0 i o') (jump_inner target c)"
proof -
  obtain a where a: "eb_base (i_bytecode c) = LegacyAnalyzed a"
    using goodD(13) [OF assms(1)] by (cases "eb_base (i_bytecode c)") auto
  have "good hinv ev c0 d i o' (c\<lparr>i_bytecode := (i_bytecode c)\<lparr>eb_instruction_pointer := unat x\<rparr>\<rparr>)"
    if "jump_table_is_valid (la_jump_table a) x" for x
    using assms goodD(8) [OF assms(1)] that a by (intro good_ip) (simp_all add: pc_ok_def)
  moreover have "jump_table_is_valid (la_jump_table a) x \<Longrightarrow> unat x \<le> length (la_bytecode a)" for x
    using goodD(8) [OF assms(1)] a by (auto intro: less_imp_le)
  ultimately have "ok (fin hinv ev err c0 i o') (Option.bind (is_valid_legacy_jump x (i_bytecode c))
      (\<lambda>valid. if \<not> valid then Some (halt InvalidJump c)
        else map_option (\<lambda>b. c\<lparr>i_bytecode := b\<rparr>) (absolute_jump x (i_bytecode c))))" for x
    using fin_halt [OF assms(1), of InvalidJump] assms(2)
    by (auto simp: is_valid_legacy_jump_def absolute_jump_def a intro: fin_good [where d = d])
  then show ?thesis unfolding jump_inner_def by (intro as_usize_wp(1) [OF assms(1)]) simp_all
qed

lemma jump_ok:
  assumes "good hinv ev c0 d 0 0 c" "1 \<le> d"
  shows "ok (fin hinv ev err c0 1 0) (jump_instr c)" "ok (fin hinv ev err c0 2 0) (jumpi_instr c)"
  using assms unfolding jump_instr_def jumpi_instr_def by (auto elim!: wp)

lemma return_ok:
  assumes "good hinv ev c0 d 0 0 c"
  shows "ok (fin hinv ev err c0 j k) (ret_instr c)" "ok (fin hinv ev err c0 j k) (revert_instr c)"
proof -
  have "ok (fin hinv ev err c0 j k) (return_inner r c)" if "exported r" for r
    using assms that unfolding return_inner_def Let_def by (auto elim!: wp ended_return)
  then show "ok (fin hinv ev err c0 j k) (ret_instr c)" "ok (fin hinv ev err c0 j k) (revert_instr c)"
    using assms by (auto elim!: wp simp: ret_instr_def revert_instr_def)
qed


lemma push_slice_single:
  assumes "sl \<noteq> []" "length sl \<le> 32"
  shows "stack_push_slice sl st =
    (if length st < STACK_LIMIT then (True, st @ [from_be_bytes sl]) else (False, st))"
proof -
  have "div_ceil (length sl) 32 = 1"
    using assms by (cases "length sl = 32") (auto simp: div_ceil_def less_Suc_eq_le)
  then show ?thesis
    using assms by (simp add: stack_push_slice_def words_of_slice_limbs be_words_single)
qed

lemma stack_ops_ok:
  assumes "good hinv ev c0 d 0 0 c" "1 \<le> d" "0 < n"
  shows "ok (fin hinv ev err c0 (int n) (int n + 1)) (dup_instr n c)"
    "ok (fin hinv ev err c0 (int n + 1) (int n + 1)) (swap_instr n c)"
proof -
  have l: "length (i_stack c) = length (i_stack c0)" "length (i_stack c) \<le> STACK_LIMIT"
    using assms(1) by (auto simp: good_def interp_ok_def)
  have c: "c\<lparr>i_stack := i_stack c\<rparr> = c" by simp
  show "ok (fin hinv ev err c0 (int n) (int n + 1)) (dup_instr n c)"
    unfolding dup_instr_def stack_dup_def
    using assms l fin_halt [OF assms(1)]
    by (auto simp: c intro!: fin_good [where d = d] good_stack [OF assms(1)])
  show "ok (fin hinv ev err c0 (int n + 1) (int n + 1)) (swap_instr n c)"
    unfolding swap_instr_def stack_exchange_def
    using assms l fin_halt [OF assms(1)]
    by (auto simp: c Let_def intro!: fin_good [where d = d] good_stack [OF assms(1)])
qed

text \<open>\<open>PUSH\<close> starts with the pointer at its immediate bytes; \<open>c'\<close> is the state behind them.\<close>

lemma push_ok:
  assumes "good hinv ev c0 d 0 0 c'" "1 \<le> d" "0 < n" "n \<le> 32"
    "c' = c\<lparr>i_bytecode := (i_bytecode c)\<lparr>eb_instruction_pointer := eb_instruction_pointer (i_bytecode c) + n\<rparr>\<rparr>"
  shows "ok (fin hinv ev err c0 0 1) (push_instr n c)"
proof -
  let ?p = "eb_instruction_pointer (i_bytecode c)"
  have p: "?p + n < length (bytes_ref (eb_base (i_bytecode c)))"
    using assms(1,5) by (auto simp: good_def interp_ok_def pc_ok_def)
  define sl where "sl = take n (drop ?p (bytes_ref (eb_base (i_bytecode c))))"
  have rd: "read_slice n (i_bytecode c) = Some sl"
    using p by (simp add: read_slice_def slice_get_def sl_def)
  have len: "length sl = n" using p by (simp add: sl_def)
  have st: "i_stack c = i_stack c'" using assms(5) by simp
  show ?thesis
  proof (cases "length (i_stack c') < STACK_LIMIT")
    case True
    then have psh: "stack_push_slice sl (i_stack c) = (True, i_stack c' @ [from_be_bytes sl])"
      using push_slice_single [of sl] len assms(3,4) by (auto simp: st)
    have "good hinv ev c0 d 0 1 (c'\<lparr>i_stack := i_stack c' @ [from_be_bytes sl]\<rparr>)"
      using assms(1) True by (intro good_stack) (auto simp: good_def)
    moreover have "c'\<lparr>i_stack := s\<rparr> = c\<lparr>i_stack := s, i_bytecode := i_bytecode c'\<rparr>" for s
      unfolding assms(5) by (cases c) simp
    ultimately show ?thesis
      using fin_good [of hinv ev c0 d] assms(2) p
      by (simp add: push_instr_def rd psh relative_jump_def) (simp add: assms(5))
  next
    case False
    then have psh: "stack_push_slice sl (i_stack c) = (False, i_stack c)"
      using push_slice_single [of sl] len assms(3,4) by (auto simp: st)
    have "fin hinv ev err c0 0 1 (halt StackOverflow c)"
      using assms(1,5)
      by (auto simp: fin_def ended_def good_def interp_ok_def is_not_end_def interp_set_action_def
          set_action_def halt_def new_halt_def same_frame_def gas_total_def)
    then show ?thesis by (simp add: push_instr_def rd psh)
  qed
qed

lemma good_src:
  assumes "good hinv ev c0 d i o' c"
  shows "length (original_bytes (eb_base (i_bytecode c))) < 2 ^ 63" "length (i_return_data c) < 2 ^ 63"
    "in_input (i_input c) = CallBytes bs \<Longrightarrow> length bs < 2 ^ 63"
    "in_input (i_input c) = SharedBuffer s e \<Longrightarrow> s < e \<Longrightarrow> e \<le> sm_my_checkpoint (i_memory c)"
  using length_original_bytes [OF goodD(8) [OF assms]] goodD(9,10) [OF assms]
  by (simp_all add: input_ok_def)

lemma copies_ok:
  assumes "good hinv ev c0 d 0 0 c"
  shows "ok (fin hinv ev err c0 3 0) (codecopy_instr c)" "ok (fin hinv ev err c0 3 0) (returndatacopy_instr c)"
  using assms unfolding instr_defs Let_def by (auto elim!: wp dest: good_src(1,2))

lemma calldatacopy_ok:
  assumes "good hinv ev c0 d 0 0 c"
  shows "ok (fin hinv ev err c0 3 0) (calldatacopy_instr c)"
  unfolding instr_defs Let_def
  by (rule popn_wp [OF assms]) (auto elim!: wp split: call_input.split; (drule goodD(10), simp add: input_ok_def))

lemma calldataload_ok:
  assumes "good hinv ev c0 d 0 0 c" "1 \<le> d"
  shows "ok (fin hinv ev err c0 1 1) (calldataload_instr c)"
proof -
  have bytes: "\<exists>bs. calldata_bytes (in_input (i_input c)) off (min 32 (call_input_len (in_input (i_input c)) - off))
      (i_memory c) = Some bs"
    if g: "good hinv ev c0 d i o' c" and off: "off < call_input_len (in_input (i_input c))" for c off i o'
  proof -
    let ?l = "call_input_len (in_input (i_input c))"
    have "unat (?l - off) = unat ?l - unat off" using off by (intro unat_minus_le) simp
    moreover have "unat (min 32 (?l - off)) \<le> unat (?l - off)"
      by (simp flip: word_le_nat_alt)
    ultimately have le: "unat off + unat (min 32 (?l - off)) \<le> unat ?l"
      using off by (simp add: word_less_nat_alt)
    obtain b where b: "sm_buffer (i_memory c) = Some b" "unat (sm_my_checkpoint (i_memory c)) \<le> length b"
      using goodD(5) [OF g] by (auto elim: mem_invE)
    show ?thesis
    proof (cases "in_input (i_input c)")
      case (SharedBuffer s e)
      then have se: "s < e" using off by (auto simp: range_len_def split: if_splits)
      then have "unat e \<le> length b"
        using good_src(4) [OF g SharedBuffer se] b by (simp add: word_le_nat_alt)
      moreover have "unat ?l = unat e - unat s"
        using SharedBuffer se by (simp add: range_len_def unat_minus_le)
      ultimately show ?thesis
        using SharedBuffer b le se
        by (simp add: calldata_bytes_def global_slice_range_def range_get_def slice_get_def word_less_nat_alt)
    next
      case (CallBytes bs)
      then have "unat ?l = length bs" using good_src(3) [OF g CallBytes]
        by (simp add: vec_len_def unat_of_nat_small)
      with CallBytes le show ?thesis by (simp add: calldata_bytes_def slice_get_def)
    qed
  qed
  have k: "ok (fin hinv ev err c0 i o')
     (if off < call_input_len (in_input (i_input c)) then
        Option.bind (calldata_bytes (in_input (i_input c)) off
           (min 32 (call_input_len (in_input (i_input c)) - off)) (i_memory c)) (\<lambda>bs. Some (put_top (f bs) c))
      else Some (put_top 0 c))" if g: "good hinv ev c0 d i o' c" for c off i o' f
    using bytes [OF g, of off] fin_put_top [OF g assms(2)] by auto
  show ?thesis
    unfolding calldataload_instr_def Let_def
    by (rule popn_top_wp [OF assms(1)]) (rule ok_mono [OF k], assumption, simp)
qed

text \<open>An instruction that asks for a new frame.\<close>

lemma frame_ok_set_action [simp]: "frame_ok hinv c0 (interp_set_action a c) f = frame_ok hinv c0 c f"
  by (cases f) (simp_all add: interp_set_action_def gas_total_def)

lemma fin_new_frame:
  assumes "good hinv ev c0 d i o' c" "o' < i" "frame_ok hinv c0 c f"
  shows "fin hinv ev err c0 j k (interp_set_action (NewFrame f) c)"
proof -
  have "frame_ok hinv c0 (interp_set_action (NewFrame f) c) f" using assms(3) by simp
  moreover have "resume (interp_set_action (NewFrame f) c) = c"
    using goodD(1) [OF assms(1)] by (simp add: resume_def interp_set_action_def set_action_def interp_ok_def)
  moreover have "length (i_stack c) < STACK_LIMIT" using assms(1,2) by (simp add: good_def)
  ultimately show ?thesis
    using assms(1)
    by (auto simp: fin_def ended_def good_def is_not_end_def interp_set_action_def set_action_def
        same_frame_def interp_ok_def gas_total_def)
qed

end
