(* ===== verification/Safety_Host.thy ===== *)
theory Safety_Host
  imports Safety
begin

text \<open>
  The contract between the interpreter and its host, and the instructions that rely on it. The
  host has an invariant \<open>hinv\<close> for the executing account, kept by every operation; loads with code
  return code. \<open>ev\<close> relates a host state to the states that operations lead to, and with the
  flag for static frames only to those that reading operations lead to. \<open>err\<close> holds of a host that
  recorded an error: it does when an operation fails, and only a load that may skip reports a skip.
\<close>

section \<open>The contract of a host\<close>

definition load_ok :: "bool \<Rightarrow> account_info_load \<Rightarrow> bool" where
  "load_ok with_code l \<longleftrightarrow> (with_code \<longrightarrow> ai_code (ail_account l) \<noteq> None)
     \<and> (\<forall>b. ai_code (ail_account l) = Some b \<longrightarrow> bytecode_ok b)"

lemma result_ok_Some_iff [simp]: "result_ok r = Some x \<longleftrightarrow> r = Inr x"
  by (cases r) auto

lemma sl_data_into_state_load [simp]: "sl_data (into_state_load f l) = f (ail_account l)"
  by (simp add: into_state_load_def state_load_new_def)

lemma unwrap_code_ok: "load_ok w l \<Longrightarrow> bytecode_ok (unwrap_code l)"
  by (auto simp: load_ok_def unwrap_code_def split: option.split)

definition load_failed :: "bool \<Rightarrow> bool \<Rightarrow> load_error + 'a \<Rightarrow> bool" where
  "load_failed err skip r \<longleftrightarrow> (r = Inl LoadDBError \<longrightarrow> err) \<and> (\<not> skip \<longrightarrow> r \<noteq> Inl LoadColdLoadSkipped)"

lemma load_failed_simps [simp]:
  "load_failed e skip (Inl LoadDBError) \<longleftrightarrow> e" "load_failed e skip (Inl LoadColdLoadSkipped) \<longleftrightarrow> skip"
  "load_failed e skip (Inr x)" "load_failed e False (Inl y) \<longleftrightarrow> y = LoadDBError \<and> e"
  by (cases y; auto simp: load_failed_def)+

lemma result_ok_None_iff [simp]: "result_ok r = None \<longleftrightarrow> (\<exists>e. r = Inl e)"
  by (cases r) auto

locale evm_host =
  fixes H :: "'h host_ops"
    and hinv :: "spec_id \<Rightarrow> address \<Rightarrow> 'h \<Rightarrow> bool"
    and ev :: "spec_id \<Rightarrow> bool \<Rightarrow> 'h \<Rightarrow> 'h \<Rightarrow> bool"
    and err :: "'h \<Rightarrow> bool"
  assumes ev_refl: "ev sp st h h"
    and ev_trans: "ev sp st h h' \<Longrightarrow> ev sp st h' h'' \<Longrightarrow> ev sp st h h''"
    and ev_hinv: "ev sp st h h' \<Longrightarrow> hinv sp b h \<Longrightarrow> hinv sp b h'"
    and ev_static: "ev sp True h h' \<Longrightarrow> ev sp st h h'"
    and load_law: "hinv sp a h \<Longrightarrow>
      ok (\<lambda>(r, h'). ev sp True h h' \<and> (\<forall>l. r = Inr l \<longrightarrow> load_ok with_code l \<and> hinv sp x h')
          \<and> load_failed (err h') skip r)
        (h_load_account_info_skip_cold_load H h x with_code skip)"
    and sload_law: "hinv sp a h \<Longrightarrow>
      ok (\<lambda>(r, h'). ev sp True h h' \<and> load_failed (err h') skip r) (h_sload_skip_cold_load H h a k skip)"
    and sstore_law: "hinv sp a h \<Longrightarrow>
      ok (\<lambda>(r, h'). ev sp False h h' \<and> load_failed (err h') skip r) (h_sstore_skip_cold_load H h a k v skip)"
    and selfdestruct_law: "hinv sp a h \<Longrightarrow>
      ok (\<lambda>(r, h'). ev sp False h h' \<and> (r = None \<longrightarrow> err h')) (h_selfdestruct H h a x)"
    and tload_law: "hinv sp a h \<Longrightarrow> h_tload H h a k = (w, h') \<Longrightarrow> ev sp True h h'"
    and tstore_law: "hinv sp a h \<Longrightarrow> ev sp False h (h_tstore H h a k v)"
    and log_law: "hinv sp a h \<Longrightarrow> ev sp False h (h_log H h l)"
    and block_hash_law: "hinv sp a h \<Longrightarrow> h_block_hash H h n = (bh, h') \<Longrightarrow>
      ev sp True h h' \<and> (bh = None \<longrightarrow> err h')"
    and prevrandao_law: "hinv sp a h \<Longrightarrow> is_enabled_in sp MERGE \<Longrightarrow> h_prevrandao H h \<noteq> None"

context evm_host
begin

lemma good_host:
  assumes "good hinv ev c0 d i o' c" "ev (i_spec c) st (i_host c) h"
    "st \<or> \<not> rf_is_static (i_runtime_flag c0)"
  shows "good hinv ev c0 d i o' (c\<lparr>i_host := h\<rparr>)"
proof -
  have e: "ev (i_spec c) (rf_is_static (i_runtime_flag c0)) (i_host c) h"
    using assms(2,3) by (cases st) (auto intro: ev_static)
  show ?thesis
    using assms(1) e ev_trans [OF _ e] ev_hinv [OF e] by (auto simp: good_def interp_ok_def same_frame_def)
qed

lemma load_wp [wp]:
  assumes "good hinv ev c0 d i o' c"
    and "\<And>r h. good hinv ev c0 d i o' (c\<lparr>i_host := h\<rparr>) \<Longrightarrow> \<forall>l. r = Inr l \<longrightarrow> load_ok with_code l \<Longrightarrow>
      load_failed (err h) skip r \<Longrightarrow> ok Q (f (r, h))"
  shows "ok Q (Option.bind (h_load_account_info_skip_cold_load H (i_host c) x with_code skip) f)"
  using load_law [OF goodD(7) [OF assms(1)], of with_code x skip] good_host [OF assms(1)] assms(2)
  by (auto simp: ok_iff)

lemma sload_wp [wp]:
  assumes "good hinv ev c0 d i o' c" "a = i_target c0"
    and "\<And>r h. good hinv ev c0 d i o' (c\<lparr>i_host := h\<rparr>) \<Longrightarrow> load_failed (err h) skip r \<Longrightarrow> ok Q (f (r, h))"
  shows "ok Q (Option.bind (h_sload_skip_cold_load H (i_host c) a key skip) f)"
  using sload_law [OF goodD(7) [OF assms(1)], where k = key and skip = skip] good_host [OF assms(1)] assms(2,3)
    goodD(12) [OF assms(1)] by (auto simp: ok_iff)

lemma sstore_wp [wp]:
  assumes "good hinv ev c0 d i o' c" "\<not> rf_is_static (i_runtime_flag c0)" "a = i_target c0"
    and "\<And>r h. good hinv ev c0 d i o' (c\<lparr>i_host := h\<rparr>) \<Longrightarrow> load_failed (err h) skip r \<Longrightarrow> ok Q (f (r, h))"
  shows "ok Q (Option.bind (h_sstore_skip_cold_load H (i_host c) a key val skip) f)"
  using sstore_law [OF goodD(7) [OF assms(1)], where k = key and v = val and skip = skip] good_host [OF assms(1)] assms(2-4)
    goodD(12) [OF assms(1)] by (auto simp: ok_iff)

lemma selfdestruct_wp [wp]:
  assumes "good hinv ev c0 d i o' c" "\<not> rf_is_static (i_runtime_flag c0)" "a = i_target c0"
    and "\<And>r h. good hinv ev c0 d i o' (c\<lparr>i_host := h\<rparr>) \<Longrightarrow> r = None \<longrightarrow> err h \<Longrightarrow> ok Q (f (r, h))"
  shows "ok Q (Option.bind (h_selfdestruct H (i_host c) a x) f)"
  using selfdestruct_law [OF goodD(7) [OF assms(1)], of x] good_host [OF assms(1)] assms(2-4)
    goodD(12) [OF assms(1)] by (auto simp: ok_iff)

lemma berlin_load_account_wp [wp]:
  assumes "good hinv ev c0 d i o' c"
    and "\<And>l c'. i_memory c = i_memory c' \<Longrightarrow> good hinv ev c0 (d + 1) i o' c' \<Longrightarrow> load_ok with_code l \<Longrightarrow>
      ok (fin hinv ev err c0 j k) (f l c')"
  shows "ok (fin hinv ev err c0 j k) (berlin_load_account H x with_code c f)"
proof -
  have g: "i_memory c = i_memory c' \<Longrightarrow> good hinv ev c0 (d + 100 + n) i o' c' \<Longrightarrow> load_ok with_code l \<Longrightarrow>
      ok (fin hinv ev err c0 j k) (f l c')" for n l c'
    using good_less [of hinv ev c0 "d + 100 + n" i o' c' "d + 1"] assms(2) by auto
  show ?thesis
    unfolding berlin_load_account_def Let_def
    using assms(1) g [where n = 0] g [where n = 2500]
    by (auto elim!: wp split: sum.split load_error.split simp: gas_const)
qed

lemma legacy_load_account_wp [wp]:
  assumes "good hinv ev c0 d i o' c"
    and "\<And>l c. good hinv ev c0 d i o' c \<Longrightarrow> load_ok with_code l \<Longrightarrow> ok (fin hinv ev err c0 j k) (f l c)"
  shows "ok (fin hinv ev err c0 j k) (legacy_load_account H x with_code c f)"
  unfolding legacy_load_account_def Let_def
  using assms(1) by (auto elim!: wp split: sum.split intro!: assms(2))

lemma load_ok_code [elim!]:
  assumes "load_ok True l" "\<And>b. ai_code (ail_account l) = Some b \<Longrightarrow> bytecode_ok b \<Longrightarrow> thesis"
  shows thesis
  using assms by (auto simp: load_ok_def)

lemma accounts_ok:
  assumes "good hinv ev c0 d 0 0 c"
  shows "ok (fin hinv ev err c0 1 1) (balance_instr H c)" "ok (fin hinv ev err c0 1 1) (extcodesize_instr H c)"
    "ok (fin hinv ev err c0 1 1) (extcodehash_instr H c)"
  using assms unfolding instr_defs Let_def by (auto elim!: wp)

lemma block_hash_wp [wp]:
  assumes "good hinv ev c0 d i o' c"
    and "\<And>r h. good hinv ev c0 d i o' (c\<lparr>i_host := h\<rparr>) \<Longrightarrow> r = None \<longrightarrow> err h \<Longrightarrow> ok Q (f r h)"
  shows "ok Q (case h_block_hash H (i_host c) n of (r, h) \<Rightarrow> f r h)"
  using good_host [OF assms(1)] block_hash_law [OF goodD(7) [OF assms(1)], of n] assms(2)
  by (auto split: prod.split)

lemma tload_wp [wp]:
  assumes "good hinv ev c0 d i o' c" "a = i_target c0"
    and "\<And>r h. good hinv ev c0 d i o' (c\<lparr>i_host := h\<rparr>) \<Longrightarrow> ok Q (f r h)"
  shows "ok Q (case h_tload H (i_host c) a key of (r, h) \<Rightarrow> f r h)"
  using good_host [OF assms(1)] tload_law [OF goodD(7) [OF assms(1)], of key] assms(2,3) goodD(12) [OF assms(1)]
  by (auto split: prod.split)

lemma tstore_wp [wp]:
  assumes "good hinv ev c0 d i o' c" "\<not> rf_is_static (i_runtime_flag c0)" "1 \<le> d" "a = i_target c0"
  shows "fin hinv ev err c0 i o' (c\<lparr>i_host := h_tstore H (i_host c) a key val\<rparr>)"
  using good_host [OF assms(1) tstore_law [OF goodD(7) [OF assms(1)]], of key val] assms(2-4) goodD(12) [OF assms(1)]
  by (auto intro: fin_good [where d = d])

lemma log_wp [wp]:
  assumes "good hinv ev c0 d i o' c" "\<not> rf_is_static (i_runtime_flag c0)" "1 \<le> d"
  shows "fin hinv ev err c0 i o' (c\<lparr>i_host := h_log H (i_host c) l\<rparr>)"
  using good_host [OF assms(1) log_law [OF goodD(7) [OF assms(1)]], of l] assms(2,3) fin_good by blast

lemma selfbalance_ok:
  assumes "good hinv ev c0 d 0 0 c" "1 \<le> d"
  shows "ok (fin hinv ev err c0 0 1) (selfbalance_instr H c)"
  using assms unfolding instr_defs Let_def host_balance_def Option.bind_map_option comp_def
  by (auto elim!: wp split: option.split)

lemma blockhash_ok:
  assumes "good hinv ev c0 d 0 0 c" "1 \<le> d"
  shows "ok (fin hinv ev err c0 1 1) (blockhash_instr H c)"
  using assms unfolding instr_defs Let_def by (auto elim!: wp split: option.split)

lemma sload_ok:
  assumes "good hinv ev c0 d 0 0 c"
  shows "ok (fin hinv ev err c0 1 1) (sload_instr H c)"
  using assms unfolding instr_defs Let_def host_sload_def Option.bind_map_option comp_def
  by (auto elim!: wp split: option.split sum.split load_error.split simp: gas_const)

lemma good_refund:
  "good hinv ev c0 d i o' c \<Longrightarrow> good hinv ev c0 d i o' (c\<lparr>i_gas := record_refund r (i_gas c)\<rparr>)"
  by (auto simp: good_def interp_ok_def same_frame_def record_refund_def mem_gas_inv_def gas_total_def)

lemma fin_refund [wp]:
  "good hinv ev c0 d i o' c \<Longrightarrow> 1 \<le> d \<Longrightarrow>
     fin hinv ev err c0 i o' (c\<lparr>i_gas := record_refund r (i_gas c)\<rparr>)"
  by (rule fin_good [OF good_refund])

lemma sstore_finish_wp [wp]:
  assumes "good hinv ev c0 d i o' c" "1 \<le> d"
  shows "ok (fin hinv ev err c0 i o') (sstore_finish l c)"
  unfolding sstore_finish_def
  by (rule charge_wp [OF assms(1)]) (use assms(2) in \<open>auto elim!: wp\<close>)

lemma sstore_ok:
  assumes "good hinv ev c0 d 0 0 c"
  shows "ok (fin hinv ev err c0 2 0) (sstore_instr H c)"
proof -
  have "0 < unat (static_sstore_cost spec)" for spec by (simp add: unat_gt_0)
  then show ?thesis
  using assms unfolding instr_defs Let_def host_sstore_def Option.bind_map_option comp_def
  by (auto elim!: wp split: option.split sum.split load_error.split simp: Suc_le_eq)
qed

lemma transient_ok:
  assumes "good hinv ev c0 d 0 0 c" "1 \<le> d"
  shows "ok (fin hinv ev err c0 1 1) (tload_instr H c)" "ok (fin hinv ev err c0 2 0) (tstore_instr H c)"
  using assms unfolding instr_defs Let_def by (auto elim!: wp)

lemma block_ok:
  assumes "good hinv ev c0 d 0 0 c" "1 \<le> d"
  shows "ok (fin hinv ev err c0 0 1) (chainid_instr H c)" "ok (fin hinv ev err c0 0 1) (coinbase_instr H c)"
    "ok (fin hinv ev err c0 0 1) (timestamp_instr H c)" "ok (fin hinv ev err c0 0 1) (block_number_instr H c)"
    "ok (fin hinv ev err c0 0 1) (gaslimit_instr H c)" "ok (fin hinv ev err c0 0 1) (basefee_instr H c)"
    "ok (fin hinv ev err c0 0 1) (blob_basefee_instr H c)" "ok (fin hinv ev err c0 0 1) (gasprice_instr H c)"
    "ok (fin hinv ev err c0 0 1) (origin_instr H c)" "ok (fin hinv ev err c0 1 1) (blob_hash_instr H c)"
  using assms unfolding instr_defs by (auto elim!: wp)

lemma difficulty_ok:
  assumes "good hinv ev c0 d 0 0 c" "1 \<le> d"
  shows "ok (fin hinv ev err c0 0 1) (difficulty_instr H c)"
  using assms prevrandao_law [OF goodD(7) [OF assms(1)]] unfolding instr_defs by (auto elim!: wp)

lemma log_ok:
  assumes "good hinv ev c0 d 0 0 c" "n \<le> 4"
  shows "ok (fin hinv ev err c0 (2 + int n) 0) (log_instr H n c)"
proof -
  have fin: "ok (fin hinv ev err c0 (2 + int n) 0) (popn n c (\<lambda>topics c.
      if length topics \<le> 4 then Some (c\<lparr>i_host := h_log H (i_host c) (l topics c)\<rparr>) else None))"
    if "good hinv ev c0 (d + 1) 2 0 c" "\<not> rf_is_static (i_runtime_flag c0)" for c l
    using that assms(2) by (auto elim!: wp)
  show ?thesis
    using assms unfolding instr_defs Let_def by (auto elim!: wp intro!: fin)
qed

lemma fin_halt_refund [wp]:
  "good hinv ev c0 d i o' c \<Longrightarrow> exported r \<Longrightarrow>
     fin hinv ev err c0 j k (halt r (c\<lparr>i_gas := record_refund v (i_gas c)\<rparr>))"
  by (rule fin_halt [OF good_refund])

lemma halt_fatal_eq: "halt FatalExternalError c = halt_fatal c"
  by (simp add: halt_def halt_fatal_def)

lemma selfdestruct_ok:
  assumes "good hinv ev c0 d 0 0 c"
  shows "ok (fin hinv ev err c0 j k) (selfdestruct_instr H c)"
  using assms unfolding instr_defs Let_def by (auto elim!: wp split: option.split simp: halt_fatal_eq)

lemma extcodecopy_ok:
  assumes "good hinv ev c0 d 0 0 c"
  shows "ok (fin hinv ev err c0 4 0) (extcodecopy_instr H c)"
  using assms unfolding instr_defs Let_def host_load_account_code_def Option.bind_map_option comp_def
  by (auto elim!: wp split: option.split simp: length_original_bytes [simplified])

section \<open>Creations and calls\<close>

lemma create_finish_wp [wp]:
  assumes "good hinv ev c0 d i o' c" "1 \<le> d" "\<not> rf_is_static (i_runtime_flag c0)" "o' < i"
    "length code < 2 ^ 62"
  shows "ok (fin hinv ev err c0 j k) (create_finish scheme val code c)"
  unfolding create_finish_def Let_def
  by (rule charge_wp [OF assms(1)], unfold ok_simps, rule fin_new_frame)
    (use assms in \<open>auto dest: goodD(12,14) good_hinv\<close>)

lemma initcode_cost_total: "\<exists>g. initcode_cost len = Some g"
proof -
  have "unat (num_words len) \<le> (2 ^ 64 - 1) div 32" unfolding unat_num_words by (intro div_le_mono) simp
  then show ?thesis by (simp add: initcode_cost_def cost_per_word_def checked_mul_def gas_const)
qed

lemma create_ok:
  assumes "good hinv ev c0 d 0 0 c"
  shows "ok (fin hinv ev err c0 j k) (create_instr H is_create2 c)"
proof -
  have init: "ok (fin hinv ev err c0 j k) (Option.bind (initcode_cost len) (\<lambda>g. charge g c f))"
    if "\<And>g. ok (fin hinv ev err c0 j k) (charge g c f)" for len c f
    using initcode_cost_total [of len] that by auto
  show ?thesis
    using assms unfolding instr_defs Let_def
    by (auto elim!: wp intro!: init simp: gas_const)
qed

lemma resize_memory_range_wp:
  assumes "good hinv ev c0 d i o' c"
    and "\<And>r c'. good hinv ev c0 d i o' c' \<Longrightarrow> range_ok r (length (mem_bytes (i_memory c'))) \<Longrightarrow>
      length (mem_bytes (i_memory c)) \<le> length (mem_bytes (i_memory c')) \<Longrightarrow>
      ok (fin hinv ev err c0 j k) (f r c')"
  shows "ok (fin hinv ev err c0 j k) (resize_memory_range off len c f)"
  unfolding resize_memory_range_def
proof (rule as_usize_wp(2) [OF assms(1)])
  fix n :: usize
  have r: "range_ok (p, p + n) l" if "unat p + unat n \<le> l" "l < 2 ^ 63" for p l
    using that by (simp add: range_ok_def unat_add_small)
  have z: "range_ok (- 1, - 1 + n) l" if "n = 0" for l using that by (simp add: range_ok_def)
  show "ok (fin hinv ev err c0 j k) (if n \<noteq> 0 then as_usize_or_fail off c (\<lambda>offset.
      resize_memory_m offset n c (f (offset, offset + n))) else f (- 1, - 1 + n) c)"
  proof (cases "n = 0")
    case True
    then show ?thesis using assms(2) [OF assms(1) z [OF True]] by simp
  next
    case False
    have "ok (fin hinv ev err c0 j k) (resize_memory_m p n c (f (p, p + n)))" for p
    proof (rule resize_memory_grow [OF assms(1)])
      fix c' assume c': "good hinv ev c0 d i o' c'" "unat p + unat n \<le> length (mem_bytes (i_memory c'))"
        "length (mem_bytes (i_memory c)) \<le> length (mem_bytes (i_memory c'))"
      have "length (mem_bytes (i_memory c')) < 2 ^ 63"
        using mem_inv_length [OF goodD(5) [OF c'(1)]] by simp
      then show "ok (fin hinv ev err c0 j k) (f (p, p + n) c')"
        using assms(2) c' r by blast
    qed
    then have "ok (fin hinv ev err c0 j k) (as_usize_or_fail off c (\<lambda>p. resize_memory_m p n c (f (p, p + n))))"
      by (intro as_usize_wp(2) [OF assms(1)])
    with False show ?thesis by simp
  qed
qed

lemma get_memory_ranges_wp:
  assumes "good hinv ev c0 d i 0 c"
    and "\<And>s e r c'. good hinv ev c0 d (i + 4) 0 c' \<Longrightarrow>
      range_ok (s, e) (unat (sm_my_checkpoint (i_memory c')) + length (mem_bytes (i_memory c'))) \<Longrightarrow>
      range_ok r (length (mem_bytes (i_memory c'))) \<Longrightarrow> ok (fin hinv ev err c0 j k) (f (s, e) r c')"
  shows "ok (fin hinv ev err c0 j k) (get_memory_input_and_out_ranges c f)"
  unfolding get_memory_input_and_out_ranges_def
proof (rule popn_wp [OF assms(1)], rule resize_memory_range_wp, assumption)
  fix xs c1 r1 c2
  assume r1: "range_ok r1 (length (mem_bytes (i_memory c2)))"
    and c2: "good hinv ev c0 d (i + max 0 (int 4 - 0)) (max 0 (0 - int 4)) c2"
  let ?cp = "sm_my_checkpoint (i_memory c2)"
  define in_r where "in_r = (if fst r1 < snd r1
    then (saturating_add (fst r1) ?cp, saturating_add (snd r1) ?cp) else r1)"
  have sat: "unat (saturating_add (snd r1) ?cp) \<le> unat (snd r1) + unat ?cp"
    by (simp add: unat_saturating_add)
  have "ok (fin hinv ev err c0 j k) (resize_memory_range (xs ! 2) (xs ! 3) c2 (f in_r))"
  proof (rule resize_memory_range_wp [OF c2])
    fix r2 c3
    assume c3: "good hinv ev c0 d (i + max 0 (int 4 - 0)) (max 0 (0 - int 4)) c3"
      and r2: "range_ok r2 (length (mem_bytes (i_memory c3)))"
      and le: "length (mem_bytes (i_memory c2)) \<le> length (mem_bytes (i_memory c3))"
    have "sm_my_checkpoint (i_memory c3) = ?cp"
      using goodD(2) [OF c2] goodD(2) [OF c3] unfolding same_frame_def by (metis mem_upd_fields(1))
    then have "range_ok (fst in_r, snd in_r)
        (unat (sm_my_checkpoint (i_memory c3)) + length (mem_bytes (i_memory c3)))"
      using r1 le sat by (auto simp: range_ok_def in_r_def)
    with c3 r2 assms(2) [of c3 "fst in_r" "snd in_r" r2]
    show "ok (fin hinv ev err c0 j k) (f in_r r2 c3)" by simp
  qed
  then show "ok (fin hinv ev err c0 j k)
      (let in_range = if fst r1 < snd r1
         then let offset = ?cp in (saturating_add (fst r1) offset, saturating_add (snd r1) offset) else r1
       in resize_memory_range (xs ! 2) (xs ! 3) c2 (f in_range))"
    by (simp only: in_r_def Let_def)
qed

lemma helper_load_ok:
  assumes "hinv sp a h"
  shows "ok (\<lambda>(r, h'). ev sp True h h' \<and> (\<forall>g b x. r = Inr (g, b, x) \<longrightarrow> bytecode_ok b \<and> hinv sp to h')
      \<and> (r = Inl LoadDBError \<longrightarrow> err h'))
    (helper_load_account_delegated H h spec rem to transfers create_empty)"
proof -
  define P :: "(load_error + u64 \<times> bytecode \<times> b256) \<times> 'h \<Rightarrow> bool" where
    "P = (\<lambda>(r, h'). ev sp True h h' \<and> (\<forall>g b x. r = Inr (g, b, x) \<longrightarrow> bytecode_ok b \<and> hinv sp to h')
       \<and> (r = Inl LoadDBError \<longrightarrow> err h'))"
  have P: "load_failed (err h1) skip (Inl e :: load_error + account_info_load) \<Longrightarrow> P (Inl e, h1)" "bytecode_ok b \<Longrightarrow> hinv sp to h1 \<Longrightarrow> P (Inr (g, b, x), h1)"
    if "ev sp True h h1" for e h1 g b x skip
    using that by (auto simp: P_def load_failed_def)
  have "ok P (Option.bind (h_load_account_info_skip_cold_load H h1 x True skip)
       (\<lambda>(r, h). case r of Inl e \<Rightarrow> Some (Inl e, h) | Inr l \<Rightarrow> Some (Inr (g l, unwrap_code l, x' l), h)))"
    if "ev sp True h h1" "hinv sp to h1" for h1 x skip g x'
    by (rule ok_bind [OF load_law [OF that(2)]])
      (use ev_trans [OF that(1)] that(2) ev_hinv P in \<open>auto split: sum.split simp: unwrap_code_def\<close>)
  with P have "ok P (helper_load_account_delegated H h spec rem to transfers create_empty)"
    unfolding helper_load_account_delegated_def Let_def
    by (intro ok_bind [OF load_law [OF assms]])
      (auto split: sum.split option.split bytecode.split simp: unwrap_code_def)
  then show ?thesis by (simp add: P_def)
qed

lemma calc_call_static_gas_pos:
  "unat (calc_call_static_gas spec transfers) \<ge> 1 + (if transfers then 2300 else 0)"
  by (simp add: calc_call_static_gas_def gas_const Let_def)

lemma load_acc_and_calc_gas_wp:
  assumes "good hinv ev c0 d i o' c"
    and "\<And>gl b x c'. i_input c' = i_input c0 \<Longrightarrow> i_memory c = i_memory c' \<Longrightarrow>
      good hinv ev c0 (d + 1 + (if transfers then 2300 else 0) + unat gl) i o' c' \<Longrightarrow> bytecode_ok b \<Longrightarrow>
      hinv (i_spec c0) to (i_host c') \<Longrightarrow>
      ok (fin hinv ev err c0 j k) (f (if transfers then saturating_add gl gas_CALL_STIPEND else gl) b x c')"
  shows "ok (fin hinv ev err c0 j k) (load_acc_and_calc_gas H to transfers create_empty lim c f)"
proof -
  let ?e = "1 + (if transfers then 2300 else 0) :: nat"
  have last: "ok (fin hinv ev err c0 j k) (charge gl c1
      (f (if transfers then saturating_add gl gas_CALL_STIPEND else gl) b x))"
    if "good hinv ev c0 (d + e) i o' c1" "i_memory c = i_memory c1" "bytecode_ok b" "?e \<le> e"
      "hinv (i_spec c0) to (i_host c1)" for gl c1 b x e
  proof (rule charge_wp [OF that(1)])
    fix c2 assume c2: "i_input c2 = i_input c0" "i_memory c1 = i_memory c2" "i_host c1 = i_host c2"
      "good hinv ev c0 (d + e + unat gl) i o' c2"
    then have "good hinv ev c0 (d + 1 + (if transfers then 2300 else 0) + unat gl) i o' c2"
      using that(4) good_less [of hinv ev c0 "d + e + unat gl" i o' c2] by (simp split: if_splits)
    then show "ok (fin hinv ev err c0 j k) (f (if transfers then saturating_add gl gas_CALL_STIPEND else gl) b x c2)"
      using that(2,3,5) c2 by (intro assms(2)) simp_all
  qed
  have load: "ok (fin hinv ev err c0 j k) (load_account_delegated_handle_error H to transfers create_empty c1
     (\<lambda>g code hash c. charge g c (\<lambda>c.
        let gl = (if is_enabled_in (i_spec c) TANGERINE
                  then min (remaining_63_of_64_parts (i_gas c)) lim else lim)
        in charge gl c (f (if transfers then saturating_add gl gas_CALL_STIPEND else gl) code hash))))"
    if c1: "good hinv ev c0 (d + e) i o' c1" "i_memory c = i_memory c1" "?e \<le> e" for c1 e
    unfolding load_account_delegated_handle_error_def
  proof (rule ok_bind [OF helper_load_ok [OF goodD(7) [OF c1(1)], where to = to]])
    fix y :: "(load_error + u64 \<times> bytecode \<times> b256) \<times> 'h"
    assume y: "case y of (r, h') \<Rightarrow> ev (i_spec c1) True (i_host c1) h'
        \<and> (\<forall>g b x. r = Inr (g, b, x) \<longrightarrow> bytecode_ok b \<and> hinv (i_spec c1) to h')
        \<and> (r = Inl LoadDBError \<longrightarrow> err h')"
    obtain r h where yr: "y = (r, h)" by (cases y)
    have g: "good hinv ev c0 (d + e) i o' (c1\<lparr>i_host := h\<rparr>)"
      using y yr by (intro good_host [OF c1(1)]) auto
    have sp: "i_spec c1 = i_spec c0" using goodD(11) [OF c1(1)] by simp
    have "ok (fin hinv ev err c0 j k) (charge g (c1\<lparr>i_host := h\<rparr>) (\<lambda>c.
        let gl = (if is_enabled_in (i_spec c) TANGERINE
                  then min (remaining_63_of_64_parts (i_gas c)) lim else lim)
        in charge gl c (f (if transfers then saturating_add gl gas_CALL_STIPEND else gl) code hash)))"
      if "r = Inr (g, code, hash)" for g code hash
      unfolding Let_def using y yr c1(2,3) that sp
      by (intro charge_wp [OF g] last [where e = "e + unat g"]) (simp_all add: add.assoc)
    then show "ok (fin hinv ev err c0 j k) (case y of (r, h) \<Rightarrow> let c = c1\<lparr>i_host := h\<rparr> in
        case r of Inl LoadDBError \<Rightarrow> Some (halt_fatal c) | Inl LoadColdLoadSkipped \<Rightarrow> Some (halt_oog c)
        | Inr (g, code, hash) \<Rightarrow> charge g c (\<lambda>c.
            let gl = (if is_enabled_in (i_spec c) TANGERINE
                      then min (remaining_63_of_64_parts (i_gas c)) lim else lim)
            in charge gl c (f (if transfers then saturating_add gl gas_CALL_STIPEND else gl) code hash)))"
      unfolding yr Let_def using fin_halt_others(1) [OF g] fin_halt_oog [OF g]
      using y yr by (cases r) (auto split: load_error.split)
  qed
  show ?thesis
    unfolding load_acc_and_calc_gas_def Let_def
    by (rule charge_wp [OF assms(1)], rule load [unfolded Let_def])
      (use calc_call_static_gas_pos [of transfers "i_spec c"] in simp_all)
qed

text \<open>The end common to all calls.\<close>

lemma call_end:
  assumes "good hinv ev c0 d i 0 c" "0 \<le> i"
    and "\<And>c'. i_runtime_flag c' = i_runtime_flag c0 \<Longrightarrow> rf_is_static (i_runtime_flag c0) \<Longrightarrow>
      static c' \<and> (scheme = Call \<longrightarrow> value c' = Transfer 0)"
    and "\<And>c'. rf_is_static (i_runtime_flag c0) \<Longrightarrow> i_input c' = i_input c0 \<Longrightarrow>
      \<forall>v. value c' = Transfer v \<longrightarrow> v = 0 \<or> sender c' = target c'"
    and "\<And>c'. transfers \<longleftrightarrow> (\<exists>v. value c' = Transfer v \<and> v \<noteq> 0)"
    and "\<And>c'. i_input c' = i_input c0 \<Longrightarrow> target c' = to \<or> target c' = i_target c0"
    and "\<And>c' v. i_input c' = i_input c0 \<Longrightarrow> value c' = Transfer v \<Longrightarrow> sender c' = i_target c0"
  shows "ok (fin hinv ev err c0 j k) (get_memory_input_and_out_ranges c (\<lambda>input ret c.
      load_acc_and_calc_gas H to transfers create_empty lim c (\<lambda>gas_limit code hash c.
        new_frame_call input ret gas_limit to hash code (target c) (sender c) (value c) scheme (static c) c)))"
proof (rule get_memory_ranges_wp [OF assms(1)], rule load_acc_and_calc_gas_wp, assumption)
  fix s e r c1 b x c2 and gl :: u64
  assume r: "range_ok (s, e) (unat (sm_my_checkpoint (i_memory c1)) + length (mem_bytes (i_memory c1)))"
    "range_ok r (length (mem_bytes (i_memory c1)))" and m: "i_memory c1 = i_memory c2"
    and g: "good hinv ev c0 (d + 1 + (if transfers then 2300 else 0) + unat gl) (i + 4) 0 c2"
    and b: "bytecode_ok b" "hinv (i_spec c0) to (i_host c2)" "i_input c2 = i_input c0"
  let ?gl = "if transfers then saturating_add gl gas_CALL_STIPEND else gl"
  let ?i = "\<lparr>ci_input = SharedBuffer s e, ci_return_memory_offset = r, ci_gas_limit = ?gl,
    ci_bytecode_address = to, ci_known_bytecode = Some (x, b), ci_target_address = target c2,
    ci_caller = sender c2, ci_value = value c2, ci_scheme = scheme, ci_is_static = static c2\<rparr>"
  have "unat ?gl + gas_total c2 < gas_total c0"
    using goodD(14) [OF g] unat_saturating_add_le [of gl gas_CALL_STIPEND] by (auto simp: gas_const)
  then have "frame_ok hinv c0 c2 (FrameCall ?i)"
    using good_hinv [OF g] r m b assms(3) [OF goodD(11) [OF g]] assms(4) [OF _ b(3)] assms(6,7) [OF b(3)]
    by auto
  then show "ok (fin hinv ev err c0 j k) (new_frame_call (s, e) r ?gl to x b (target c2) (sender c2) (value c2)
      scheme (static c2) c2)"
    using fin_new_frame [OF g, of "FrameCall ?i"] assms(2) by (simp add: new_frame_call_def)
qed

lemma calls_ok:
  assumes "good hinv ev c0 d 0 0 c"
  shows "ok (fin hinv ev err c0 j k) (call_instr H c)" "ok (fin hinv ev err c0 j k) (call_code_instr H c)"
    "ok (fin hinv ev err c0 j k) (delegate_call_instr H c)" "ok (fin hinv ev err c0 j k) (static_call_instr H c)"
  using assms unfolding instr_defs Let_def
  by (auto elim!: wp call_end simp: goodD(11))

end

end
