(* ===== verification/Run.thy ===== *)
theory Run
  imports Safety_Host
begin

text \<open>
  The instruction table and the loop of a frame (\<open>crates/interpreter/src/instructions.rs\<close>, \<open>interpreter.rs\<close>), on
  any host of the locale \<open>evm_host\<close>: every row of the table is safe, a step is, and \<open>run_plain\<close> ends.
\<close>

section \<open>The instruction table\<close>

text \<open>The number of operands an opcode takes and leaves according to \<open>OPCODE_INFO\<close>.\<close>

definition stack_effect :: "u8 \<Rightarrow> int \<times> int" where
  "stack_effect op =
     (case OPCODE_INFO op of
        Some i \<Rightarrow> (int (unat (oi_inputs i)), int (unat (oi_outputs i))) | None \<Rightarrow> (0, 0))"

definition advance :: "nat \<Rightarrow> 'h instruction_context \<Rightarrow> 'h instruction_context" where
  "advance n c = c\<lparr>i_bytecode := (i_bytecode c)
     \<lparr>eb_instruction_pointer := eb_instruction_pointer (i_bytecode c) + n\<rparr>\<rparr>"

text \<open>An instruction with \<open>n\<close> immediate bytes, static gas \<open>g\<close>, \<open>i\<close> operands and \<open>o\<close> results.\<close>

definition instr_ok ::
    "(spec_id \<Rightarrow> address \<Rightarrow> 'h \<Rightarrow> bool) \<Rightarrow> (spec_id \<Rightarrow> bool \<Rightarrow> 'h \<Rightarrow> 'h \<Rightarrow> bool) \<Rightarrow> ('h \<Rightarrow> bool)
       \<Rightarrow> nat \<Rightarrow> 'h instr \<Rightarrow> nat \<Rightarrow> int \<Rightarrow> int \<Rightarrow> bool" where
  "instr_ok hinv ev err n f g i o' \<longleftrightarrow>
     (\<forall>c0 c d. good hinv ev c0 d 0 0 (advance n c) \<longrightarrow> g \<le> d \<longrightarrow> ok (fin hinv ev err c0 i o') (f c))"

lemma advance_0 [simp]: "advance 0 c = c"
  by (simp add: advance_def)

lemma instruction_rows_opcodes: "map fst (instruction_rows H keccak) = map fst opcode_rows"
  by (simp add: instruction_rows_def opcode_rows_def op_const)

lemma opcode_effects:
  "map (\<lambda>(op, i). (push_bytes op, int (unat (oi_inputs i)), int (unat (oi_outputs i)))) opcode_rows =
     [(0, 0, 0), (0, 2, 1), (0, 2, 1), (0, 2, 1), (0, 2, 1), (0, 2, 1), (0, 2, 1), (0, 2, 1),
     (0, 3, 1), (0, 3, 1), (0, 2, 1), (0, 2, 1), (0, 2, 1), (0, 2, 1), (0, 2, 1), (0, 2, 1),
     (0, 2, 1), (0, 1, 1), (0, 2, 1), (0, 2, 1), (0, 2, 1), (0, 1, 1), (0, 2, 1), (0, 2, 1),
     (0, 2, 1), (0, 2, 1), (0, 1, 1), (0, 2, 1), (0, 0, 1), (0, 1, 1), (0, 0, 1), (0, 0, 1),
     (0, 0, 1), (0, 1, 1), (0, 0, 1), (0, 3, 0), (0, 0, 1), (0, 3, 0), (0, 0, 1), (0, 1, 1),
     (0, 4, 0), (0, 0, 1), (0, 3, 0), (0, 1, 1), (0, 1, 1), (0, 0, 1), (0, 0, 1), (0, 0, 1),
     (0, 0, 1), (0, 0, 1), (0, 0, 1), (0, 0, 1), (0, 0, 1), (0, 1, 1), (0, 0, 1), (0, 1, 0),
     (0, 1, 1), (0, 2, 0), (0, 2, 0), (0, 1, 1), (0, 2, 0), (0, 1, 0), (0, 2, 0), (0, 0, 1),
     (0, 0, 1), (0, 0, 1), (0, 0, 0), (0, 1, 1), (0, 2, 0), (0, 3, 0), (0, 0, 1), (1, 0, 1),
     (2, 0, 1), (3, 0, 1), (4, 0, 1), (5, 0, 1), (6, 0, 1), (7, 0, 1), (8, 0, 1), (9, 0, 1),
     (10, 0, 1), (11, 0, 1), (12, 0, 1), (13, 0, 1), (14, 0, 1), (15, 0, 1), (16, 0, 1), (17,
     0, 1), (18, 0, 1), (19, 0, 1), (20, 0, 1), (21, 0, 1), (22, 0, 1), (23, 0, 1), (24, 0,
     1), (25, 0, 1), (26, 0, 1), (27, 0, 1), (28, 0, 1), (29, 0, 1), (30, 0, 1), (31, 0, 1),
     (32, 0, 1), (0, 1, 2), (0, 2, 3), (0, 3, 4), (0, 4, 5), (0, 5, 6), (0, 6, 7), (0, 7, 8),
     (0, 8, 9), (0, 9, 10), (0, 10, 11), (0, 11, 12), (0, 12, 13), (0, 13, 14), (0, 14, 15),
     (0, 15, 16), (0, 16, 17), (0, 2, 2), (0, 3, 3), (0, 4, 4), (0, 5, 5), (0, 6, 6), (0, 7,
     7), (0, 8, 8), (0, 9, 9), (0, 10, 10), (0, 11, 11), (0, 12, 12), (0, 13, 13), (0, 14,
     14), (0, 15, 15), (0, 16, 16), (0, 17, 17), (0, 2, 0), (0, 3, 0), (0, 4, 0), (0, 5, 0),
     (0, 6, 0), (0, 3, 1), (0, 7, 1), (0, 7, 1), (0, 2, 0), (0, 6, 1), (0, 4, 1), (0, 6, 1),
     (0, 2, 0), (0, 0, 0), (0, 1, 0)]"
  by code_simp

lemma stack_effect_row:
  "(op, i) \<in> set opcode_rows \<Longrightarrow> stack_effect op = (int (unat (oi_inputs i)), int (unat (oi_outputs i)))"
  using OPCODE_INFO_iff [of op i] by (simp add: stack_effect_def)

context evm_host
begin

lemma push_instr_ok:
  "0 < n \<Longrightarrow> n \<le> 32 \<Longrightarrow> 1 \<le> g \<Longrightarrow> instr_ok hinv ev err n (push_instr n) g 0 1"
  unfolding instr_ok_def by (auto intro!: push_ok simp: advance_def)

lemmas instructions_ok =
  arithmetic_ok exp_ok bitwise_ok memory_ok mcopy_ok keccak256_ok push_data_ok pop_jumpdest_ok
  halting_ok jump_ok return_ok copies_ok calldatacopy_ok calldataload_ok
  accounts_ok selfbalance_ok blockhash_ok sload_ok sstore_ok transient_ok block_ok difficulty_ok
  selfdestruct_ok extcodecopy_ok create_ok calls_ok

lemma dup_swap_log_ok:
  assumes "good hinv ev c0 d 0 0 c"
  shows "1 \<le> d \<Longrightarrow> 0 < n \<Longrightarrow> i = int n \<Longrightarrow> k = i + 1 \<Longrightarrow> ok (fin hinv ev err c0 i k) (dup_instr n c)"
    "1 \<le> d \<Longrightarrow> 0 < n \<Longrightarrow> i = int n + 1 \<Longrightarrow> k = i \<Longrightarrow> ok (fin hinv ev err c0 i k) (swap_instr n c)"
    "n \<le> 4 \<Longrightarrow> i = 2 + int n \<Longrightarrow> ok (fin hinv ev err c0 i 0) (log_instr H n c)"
  using stack_ops_ok [OF assms, of n] log_ok [OF assms, of n] by auto

lemma rows_ok:
  "list_all2 (\<lambda>(op, f, g) (n, i, o'). instr_ok hinv ev err n f (unat g) i o') (instruction_rows H keccak)
     (map (\<lambda>(op, i). (push_bytes op, int (unat (oi_inputs i)), int (unat (oi_outputs i)))) opcode_rows)"
  unfolding opcode_effects instruction_rows_def
  by (simp add: push_instr_ok, unfold instr_ok_def advance_0, intro conjI allI impI)
    (erule instructions_ok dup_swap_log_ok; simp; fail)+

lemma table_ok:
  assumes "instruction_table H keccak op = (f, g)"
  shows "f = unknown_instr \<and> g = 0 \<or>
    instr_ok hinv ev err (push_bytes op) f (unat g) (fst (stack_effect op)) (snd (stack_effect op))"
proof (cases "map_of (instruction_rows H keccak) op")
  case None
  then show ?thesis using assms by (simp add: instruction_table_def)
next
  case (Some y)
  then have "(op, f, g) \<in> set (instruction_rows H keccak)"
    using assms by (auto simp: instruction_table_def dest: map_of_SomeD)
  then obtain k where k: "k < length (instruction_rows H keccak)" "instruction_rows H keccak ! k = (op, f, g)"
    by (auto simp: in_set_conv_nth)
  have len: "length (instruction_rows H keccak) = length opcode_rows"
    using arg_cong [OF instruction_rows_opcodes [of H keccak], of length] by simp
  obtain i where i: "opcode_rows ! k = (op, i)"
    using arg_cong [OF instruction_rows_opcodes [of H keccak], of "\<lambda>l. l ! k"] k len
    by (cases "opcode_rows ! k") simp
  then have "stack_effect op = (int (unat (oi_inputs i)), int (unat (oi_outputs i)))"
    using stack_effect_row [of op i] k len by (metis nth_mem)
  moreover have "instr_ok hinv ev err (push_bytes op) f (unat g) (int (unat (oi_inputs i))) (int (unat (oi_outputs i)))"
    using list_all2_nthD [OF rows_ok [of keccak] k(1)] k i len by simp
  ultimately show ?thesis by simp
qed

lemma ended_halt:
  assumes "interp_ok hinv c0" "same_frame c0 c" "i_host c = i_host c0" "i_stack c = i_stack c0"
    "unat (i_remaining c) \<le> unat (i_remaining c0)" "exported r"
  shows "ended hinv ev err c0 (halt r c)" "\<not> is_not_end (i_bytecode (halt r c))"
  using assms by (auto simp: ended_def interp_ok_def halt_def interp_set_action_def set_action_def
      new_halt_def same_frame_def is_not_end_def ev_refl)

lemma step_good:
  assumes "interp_ok hinv c" "\<not> is_eip7702 (eb_base (i_bytecode c))" "g \<le> i_remaining c"
    and "op = bytes_ref (eb_base (i_bytecode c)) ! eb_instruction_pointer (i_bytecode c)" "op \<noteq> op_STOP"
  shows "good hinv ev c (unat g) 0 0 (advance (push_bytes op)
    ((advance 1 c)\<lparr>i_gas := (i_gas c)\<lparr>g_remaining := i_remaining c - g\<rparr>\<rparr>))"
proof -
  let ?code = "bytes_ref (eb_base (i_bytecode c))" and ?p = "eb_instruction_pointer (i_bytecode c)"
  have p: "?p < length ?code" "boundary ?code 0 ?p" using assms(1) by (auto simp: interp_ok_def pc_ok_def)
  have "code_closed ?code"
    using assms(1,2) by (cases "eb_base (i_bytecode c)") (auto simp: interp_ok_def)
  then have "next_pc ?code ?p < length ?code" using p assms(4,5) by (auto simp: code_closed_def)
  moreover have "boundary ?code 0 (next_pc ?code ?p)" using p by (intro boundary_next)
  moreover have "next_pc ?code ?p = ?p + 1 + push_bytes op" using assms(4) by (simp add: next_pc_def)
  moreover have "unat (i_remaining c - g) + unat g = unat (i_remaining c)"
    using assms(3) by (simp add: unat_minus_le word_le_nat_alt)
  ultimately show ?thesis
    using assms(1,2) by (auto simp: good_def interp_ok_def pc_ok_def same_frame_def advance_def
        mem_gas_inv_def ev_refl mem_upd_same gas_total_def)
qed

lemma table_7702:
  assumes "interp_ok hinv c" "is_eip7702 (eb_base (i_bytecode c))"
  shows "instruction_table H keccak (bytes_ref (eb_base (i_bytecode c)) ! eb_instruction_pointer (i_bytecode c))
    = (unknown_instr, 0)"
proof -
  have "bytes_ref (eb_base (i_bytecode c)) ! eb_instruction_pointer (i_bytecode c) = 0xEF"
    using assms by (cases "eb_base (i_bytecode c)") (auto simp: interp_ok_def pc_ok_def)
  moreover have "0xEF \<notin> set (map fst opcode_rows)" by code_simp
  ultimately show ?thesis
    unfolding instruction_rows_opcodes [of H keccak, symmetric]
    by (simp add: instruction_table_def map_of_eq_None_iff [THEN iffD2])
qed

lemma table_stop: "instruction_table H keccak op_STOP = (stop_instr, 0)"
  by (simp add: instruction_table_def instruction_rows_def)

lemma step_fin:
  assumes "interp_ok hinv c"
    and "op = bytes_ref (eb_base (i_bytecode c)) ! eb_instruction_pointer (i_bytecode c)"
  shows "ok (fin hinv ev err c (fst (stack_effect op)) (snd (stack_effect op))) (step H keccak c)"
proof -
  let ?b = "i_bytecode c" and ?fin = "fin hinv ev err c (fst (stack_effect op)) (snd (stack_effect op))"
  obtain f g where t: "instruction_table H keccak op = (f, g)" by fastforce
  have p: "eb_instruction_pointer ?b < length (bytes_ref (eb_base ?b))"
    using assms by (auto simp: interp_ok_def pc_ok_def)
  define c1 where "c1 = (advance 1 c)\<lparr>i_gas := (i_gas c)\<lparr>g_remaining := i_remaining c - g\<rparr>\<rparr>"
  have step: "step H keccak c = (if i_remaining c < g then Some (halt_oog c1) else f c1)"
    using p t by (simp add: step_def eb_opcode_def relative_jump_def assms(2) [symmetric]
        record_cost_unsafe_def Let_def c1_def advance_def)
  have c1: "same_frame c (c1\<lparr>i_gas := x\<rparr>)" if "g_limit x = g_limit (i_gas c)" for x
    using that assms(1) by (auto simp: c1_def advance_def same_frame_def interp_ok_def mem_gas_inv_def mem_upd_same)
  have halt: "?fin (halt r (c1\<lparr>i_gas := x\<rparr>))"
    if "g_limit x = g_limit (i_gas c)" "unat (g_remaining x) \<le> unat (i_remaining c)"
      "exported r" for r x
    using ended_halt [OF assms(1) c1 [OF that(1)]] that(2,3) by (simp add: fin_def c1_def advance_def)
  have oog: "?fin (halt_oog c1)"
    using halt [of "spend_all (i_gas c1)" OutOfGas] by (simp add: halt_oog_def spend_all_def c1_def advance_def)
  have halt0: "?fin (halt r c1)" if "g = 0" "exported r" for r
    using halt [of "i_gas c1" r] that by (simp add: c1_def advance_def)
  consider "i_remaining c < g" | "g \<le> i_remaining c" "f = unknown_instr" "g = 0"
    | "g \<le> i_remaining c" "op = op_STOP"
    | "g \<le> i_remaining c" "op \<noteq> op_STOP" "\<not> is_eip7702 (eb_base ?b)"
      "instr_ok hinv ev err (push_bytes op) f (unat g) (fst (stack_effect op)) (snd (stack_effect op))"
    using table_ok [OF t] table_7702 [OF assms(1), of keccak] t assms(2) by fastforce
  then show ?thesis
  proof cases
    case 1
    then show ?thesis using oog step by simp
  next
    case 2
    then show ?thesis using halt0 step by (simp add: unknown_instr_def)
  next
    case 3
    then show ?thesis using halt0 step t table_stop [of keccak] by (simp add: stop_instr_def)
  next
    case 4
    then show ?thesis
      using step leD [OF 4(1)] step_good [OF assms(1) 4(3,1) assms(2) 4(2)] by (simp add: instr_ok_def c1_def)
  qed
qed

text \<open>What holds when the loop ends with an action.\<close>

lemma ended_trans:
  assumes "good hinv ev c0 d i o' c1" "ended hinv ev err c1 c"
  shows "ended hinv ev err c0 c"
proof -
  have f: "frame_ok hinv c1 c f \<Longrightarrow> frame_ok hinv c0 c f" for f
    using goodD(11,14) [OF assms(1)] by (cases f) auto
  have m: "mem_upd (i_memory c1) x = mem_upd (i_memory c0) x" for x
    using goodD(2) [OF assms(1)] unfolding same_frame_def by (metis mem_upd_upd)
  show ?thesis
    using assms goodD(2,3,11,12) [OF assms(1)] f m
    by (auto simp: ended_def same_frame_def good_def
        split: option.splits interpreter_action.splits intro: ev_trans)
qed

lemma run_plain_ended:
  assumes "interp_ok hinv c"
  shows "\<exists>a c1. run_plain H keccak c = Some (a, resume c1) \<and> ended hinv ev err c c1
    \<and> eb_action (i_bytecode c1) = Some a"
  using assms
proof (induction "unat (i_remaining c)" arbitrary: c rule: less_induct)
  case less
  obtain i o' c2 where c2: "step H keccak c = Some c2" "fin hinv ev err c i o' c2"
    using step_fin [OF less.prems refl, of keccak] by (auto simp: ok_iff)
  have run: "run_plain H keccak c = run_plain H keccak c2"
    using less.prems c2(1) by (subst run_plain.simps) (simp add: interp_ok_def is_not_end_def)
  show ?case
  proof (cases "is_not_end (i_bytecode c2)")
    case True
    then obtain d where d: "1 \<le> d" "good hinv ev c d i o' c2" using c2(2) by (auto simp: fin_def)
    then show ?thesis
      using less.hyps [of c2] goodD(1,3) [OF d(2)] run ended_trans [OF d(2)] by fastforce
  next
    case False
    then have e: "ended hinv ev err c c2" using c2(2) by (simp add: fin_def)
    then obtain a where a: "eb_action (i_bytecode c2) = Some a" by (auto simp: ended_def split: option.splits)
    have "run_plain H keccak c2 = Some (a, resume c2)"
      using False a by (subst run_plain.simps) (simp add: take_next_action_def resume_def reset_action_def)
    then show ?thesis using run e a by auto
  qed
qed

end

end
