(* ===== verification/Rollback.thy ===== *)
theory Rollback
  imports Journal
begin

text \<open>
  Reverting the journal. Reverting unwraps the accounts and slots the entries name, so it relies on
  everything named by the journal still being loaded. The one way to lose a slot is that loading an
  account again clears it because it was destroyed in an earlier transaction; \<open>journal_wf\<close> excludes
  it for the transaction a new journal starts with. \<open>grows\<close> relates a journal to one that has grown
  from it by appending entries whose reverting leads back to a related state. It is taken at two
  relations of accounts: \<open>same_shape\<close> (the same slots loaded, as cold and as destroyed), which every
  operation respects, so that reverting never panics; and \<open>same_account\<close> (everything observable of an
  account), which holds of the operations that journal all their changes.
\<close>

section \<open>Relations that reverting respects\<close>

text \<open>What reverting an entry does to an account, and to a slot.\<close>

definition revert_updates :: "(account \<Rightarrow> account) set" where
  "revert_updates =
     {mark_cold, unmark_touch, unmark_selfdestructed_locally, unmark_selfdestruct,
      unmark_created_locally, unmark_created, upd_info (\<lambda>i. i\<lparr>ai_nonce := ai_nonce i - 1\<rparr>),
      upd_info (\<lambda>i. i\<lparr>ai_nonce := 0\<rparr>), upd_info (\<lambda>i. i\<lparr>ai_code_hash := KECCAK_EMPTY, ai_code := None\<rparr>)}
     \<union> range add_balance \<union> range sub_balance \<union> range (\<lambda>b. upd_info (\<lambda>i. i\<lparr>ai_balance := b\<rparr>))"

definition slot_updates :: "(evm_storage_slot \<Rightarrow> evm_storage_slot) set" where
  "slot_updates = insert slot_mark_cold (range (\<lambda>v s. s\<lparr>ss_present_value := v\<rparr>))"

definition set_slot :: "u256 \<Rightarrow> evm_storage_slot \<Rightarrow> account \<Rightarrow> account" where
  "set_slot k s acc = acc\<lparr>ac_storage := (ac_storage acc)(k \<mapsto> s)\<rparr>"

definition state_rel ::
    "(address \<Rightarrow> account \<Rightarrow> account \<Rightarrow> bool) \<Rightarrow> (address \<Rightarrow> account \<Rightarrow> bool) \<Rightarrow> evm_state \<Rightarrow> evm_state \<Rightarrow> bool" where
  "state_rel R N st st0 \<longleftrightarrow>
     (\<forall>a acc0. st0 a = Some acc0 \<longrightarrow> (\<exists>acc. st a = Some acc \<and> R a acc acc0))
     \<and> (\<forall>a acc. st0 a = None \<longrightarrow> st a = Some acc \<longrightarrow> N a acc)"

lemma state_relD:
  assumes "state_rel R N st st0" "st0 a = Some acc0"
  obtains acc where "st a = Some acc" "R a acc acc0"
  using assms unfolding state_rel_def by metis

lemma state_rel_upd:
  "state_rel R N st st0 \<Longrightarrow> R a x y \<Longrightarrow> state_rel R N (st(a \<mapsto> x)) (st0(a \<mapsto> y))"
  by (simp add: state_rel_def)

definition warm_in :: "journal_inner \<Rightarrow> address \<Rightarrow> bool" where
  "warm_in j a \<longleftrightarrow> (\<exists>acc. j_state j a = Some acc \<and> \<not> flag_contains (ac_status acc) flag_Cold)"

type_synonym account_relation = "address \<Rightarrow> account \<Rightarrow> account \<Rightarrow> bool"
type_synonym new_account = "warm_addresses \<Rightarrow> address \<Rightarrow> account \<Rightarrow> bool"
type_synonym transient_relation = "transient_storage \<Rightarrow> transient_storage \<Rightarrow> bool"

definition undone ::
    "account_relation \<Rightarrow> new_account \<Rightarrow> transient_relation \<Rightarrow> journal_inner \<Rightarrow> journal_entry list
       \<Rightarrow> journal_inner \<Rightarrow> bool" where
  "undone R N T j es j' \<longleftrightarrow>
     (\<exists>st ts. entries_revert (is_enabled_in (j_spec j) SPURIOUS_DRAGON) es
          (j_state j', Some (j_transient_storage j')) = Some (st, Some ts)
        \<and> state_rel R (N (j_warm_addresses j)) st (j_state j) \<and> T ts (j_transient_storage j))"

definition grows ::
    "account_relation \<Rightarrow> new_account \<Rightarrow> transient_relation \<Rightarrow> (journal_inner \<Rightarrow> bool)
       \<Rightarrow> journal_inner \<Rightarrow> journal_inner \<Rightarrow> bool" where
  "grows R N T I j j' \<longleftrightarrow> (I j \<longrightarrow>
     I j' \<and> j_spec j' = j_spec j \<and> j_warm_addresses j' = j_warm_addresses j
     \<and> j_transaction_id j' = j_transaction_id j
     \<and> (\<forall>a. warm_in j a \<longrightarrow> warm_in j' a)
     \<and> (\<exists>es. j_journal j' = j_journal j @ es \<and> undone R N T j es j')
     \<and> (\<exists>ls. j_logs j' = j_logs j @ ls))"

definition both_rel ::
    "account_relation \<Rightarrow> (address \<Rightarrow> account \<Rightarrow> bool) \<Rightarrow> transient_relation
       \<Rightarrow> evm_state \<times> transient_storage option \<Rightarrow> evm_state \<times> transient_storage option \<Rightarrow> bool" where
  "both_rel R N T s s0 \<longleftrightarrow> state_rel R N (fst s) (fst s0) \<and> rel_option T (snd s) (snd s0)"

lemma entries_revert_append:
  "entries_revert isd (es @ fs) s = Option.bind (entries_revert isd fs s) (entries_revert isd es)"
  by (induction es) (simp_all add: Option.bind_assoc)

locale revert_relation =
  fixes R :: account_relation and N :: new_account and T :: transient_relation
  assumes R_refl: "R a x x"
    and R_trans: "R a x y \<Longrightarrow> R a y z \<Longrightarrow> R a x z"
    and N_keep: "R a x y \<Longrightarrow> N w a y \<Longrightarrow> N w a x"
    and R_update: "f \<in> revert_updates \<Longrightarrow> R a x y \<Longrightarrow> R a (f x) (f y)"
    and R_slot: "g \<in> slot_updates \<Longrightarrow> R a x y \<Longrightarrow> ac_storage y k = Some t
      \<Longrightarrow> \<exists>s. ac_storage x k = Some s \<and> R a (set_slot k (g s) x) (set_slot k (g t) y)"
    and T_refl: "T ts ts"
    and T_trans: "T ts us \<Longrightarrow> T us vs \<Longrightarrow> T ts vs"
    and T_update: "T ts us \<Longrightarrow> T (ts(ak := v)) (us(ak := v))"
begin

lemma rel_refl: "state_rel R (N w) st st"
  by (auto simp: state_rel_def R_refl)

lemma rel_trans:
  assumes "state_rel R (N w) x y" "state_rel R (N w) y z"
  shows "state_rel R (N w) x z"
  unfolding state_rel_def
proof (intro conjI allI impI)
  fix a acc assume "z a = Some acc"
  then obtain v where "y a = Some v" "R a v acc" using assms(2) by (auto elim: state_relD)
  moreover from this(1) obtain u where "x a = Some u" "R a u v" using assms(1) by (auto elim: state_relD)
  ultimately show "\<exists>u. x a = Some u \<and> R a u acc" by (auto dest: R_trans)
next
  fix a acc assume a: "z a = None" "x a = Some acc"
  show "N w a acc"
  proof (cases "y a")
    case (Some v)
    then have "N w a v" using a(1) assms(2) by (simp add: state_rel_def)
    moreover have "R a acc v" using Some a(2) assms(1) by (auto elim: state_relD)
    ultimately show ?thesis by (rule N_keep [rotated])
  qed (use a assms(1) in \<open>simp add: state_rel_def\<close>)
qed

lemma upd_account_rel:
  assumes "state_rel R (N w) st st0" "upd_account a f st0 = Some st0'"
    and "\<And>x y. R a x y \<Longrightarrow> R a (f x) (f y)"
  shows "\<exists>st'. upd_account a f st = Some st' \<and> state_rel R (N w) st' st0'"
proof -
  obtain acc0 where acc0: "st0 a = Some acc0" "st0' = st0(a \<mapsto> f acc0)"
    using assms(2) by (auto simp: upd_account_def split: option.splits)
  obtain acc where "st a = Some acc" "R a acc acc0" using assms(1) acc0(1) by (rule state_relD)
  then show ?thesis
    using acc0 state_rel_upd [of R "N w", OF assms(1) assms(3)] by (simp add: upd_account_def)
qed

lemma upd_slot_rel:
  assumes "state_rel R (N w) st st0" "st0 a = Some acc0" "upd_slot k f acc0 = Some acc0'" "f \<in> slot_updates"
  shows "\<exists>acc acc'. st a = Some acc \<and> upd_slot k f acc = Some acc'
    \<and> state_rel R (N w) (st(a \<mapsto> acc')) (st0(a \<mapsto> acc0'))"
proof -
  obtain acc where acc: "st a = Some acc" "R a acc acc0"
    using assms(1,2) by (rule state_relD)
  obtain s0 where s0: "ac_storage acc0 k = Some s0" "acc0' = set_slot k (f s0) acc0"
    using assms(3) by (auto simp: upd_slot_def set_slot_def split: option.splits)
  obtain s where "ac_storage acc k = Some s" "R a (set_slot k (f s) acc) (set_slot k (f s0) acc0)"
    using R_slot [OF assms(4) acc(2) s0(1)] by blast
  then show ?thesis
    using acc s0 state_rel_upd [of R "N w", OF assms(1)] by (auto simp: upd_slot_def set_slot_def)
qed

lemma both_map:
  assumes "both_rel R (N w) T (st, ts) (st0, ts0)" "map_option (\<lambda>st. (st, ts0)) x0 = Some s0'"
    and "\<And>st0'. x0 = Some st0' \<Longrightarrow> \<exists>st'. x = Some st' \<and> state_rel R (N w) st' st0'"
  shows "\<exists>s'. map_option (\<lambda>st. (st, ts)) x = Some s' \<and> both_rel R (N w) T s' s0'"
  using assms by (auto simp: both_rel_def)

lemma bind_rel:
  assumes "Option.bind x0 g0 = Some r0"
    and "\<And>s. x0 = Some s \<Longrightarrow> \<exists>s'. x = Some s' \<and> state_rel R (N w) s' s"
    and "\<And>s s'. state_rel R (N w) s' s \<Longrightarrow> g0 s = Some r0 \<Longrightarrow> \<exists>r. g s' = Some r \<and> state_rel R (N w) r r0"
  shows "\<exists>r. Option.bind x g = Some r \<and> state_rel R (N w) r r0"
  using assms by (fastforce simp: bind_eq_Some_conv)

lemma entry_revert_rel:
  assumes "both_rel R (N w) T s s0" "entry_revert isd e s0 = Some s0'"
  shows "\<exists>s'. entry_revert isd e s = Some s' \<and> both_rel R (N w) T s' s0'"
proof (cases s; cases s0)
  fix st ts st0 ts0 assume s: "s = (st, ts)" "s0 = (st0, ts0)"
  then have b: "both_rel R (N w) T (st, ts) (st0, ts0)" and sh: "state_rel R (N w) st st0"
    using assms(1) by (simp_all add: both_rel_def)
  note m = both_map [OF b] and u = upd_account_rel [OF sh] and R = R_update [unfolded revert_updates_def]
  show ?thesis
  proof (cases e)
    case (AccountDestroyed b a t d)
    let ?f = "\<lambda>acc. add_balance b (case d of
      GloballySelfdestroyed \<Rightarrow> unmark_selfdestructed_locally (unmark_selfdestruct acc)
      | LocallySelfdestroyed \<Rightarrow> unmark_selfdestructed_locally acc | RepeatedSelfdestruction \<Rightarrow> acc)"
    have "R a (?f u) (?f v)" if "R a u v" for u v
      using that by (cases d) (simp_all add: R)
    then have 1: "\<exists>st'. upd_account a ?f st = Some st' \<and> state_rel R (N w) st' st1"
      if "upd_account a ?f st0 = Some st1" for st1 using u [OF that] by blast
    show ?thesis
      using assms(2) unfolding s AccountDestroyed entry_revert.simps
      by (elim m bind_rel 1) (auto split: if_splits elim!: upd_account_rel simp: R)
  next
    case (BalanceTransfer b f t)
    show ?thesis
      using assms(2) unfolding s BalanceTransfer entry_revert.simps
      by (elim m bind_rel u) (auto elim!: upd_account_rel simp: R)
  next
    case (AccountCreated a g)
    have "R a (upd_info (\<lambda>i. i\<lparr>ai_nonce := 0\<rparr>) (if g then unmark_created (unmark_created_locally x) else unmark_created_locally x))
       (upd_info (\<lambda>i. i\<lparr>ai_nonce := 0\<rparr>) (if g then unmark_created (unmark_created_locally y) else unmark_created_locally y))"
      if "R a x y" for x y using that by (simp add: R)
    then show ?thesis
      using assms(2) unfolding s AccountCreated entry_revert.simps Let_def by (elim m u)
  next
    case (StorageChanged k v a)
    then obtain acc0 acc0' where a: "st0 a = Some acc0" "upd_slot k (\<lambda>s. s\<lparr>ss_present_value := v\<rparr>) acc0 = Some acc0'"
      using assms(2) s by (auto simp: bind_eq_Some_conv)
    show ?thesis using upd_slot_rel [OF sh a] b a assms(2) s StorageChanged by (auto simp: slot_updates_def both_rel_def)
  next
    case (StorageWarmed k a)
    then obtain acc0 acc0' where a: "st0 a = Some acc0" "upd_slot k slot_mark_cold acc0 = Some acc0'"
      using assms(2) s by (auto simp: bind_eq_Some_conv)
    show ?thesis using upd_slot_rel [OF sh a] b a assms(2) s StorageWarmed by (auto simp: slot_updates_def both_rel_def)
  next
    case (TransientStorageChange k v a)
    then show ?thesis
      using assms(2) s b by (auto simp: both_rel_def option_rel_Some1 option_rel_Some2 T_update split: option.splits if_splits)
  next
    case (AccountTouched a)
    then show ?thesis
    proof (cases "isd \<and> a = PRECOMPILE3")
      case False
      then show ?thesis using assms(2) unfolding s AccountTouched entry_revert.simps if_not_P [OF False]
        by (elim m u) (simp add: R)
    qed (use assms(2) s b AccountTouched in auto)
  qed (use assms(2) in \<open>simp_all only: s entry_revert.simps\<close>, (elim m u, simp add: R)+)
qed

lemma entries_revert_rel:
  assumes "both_rel R (N w) T s s0" "entries_revert isd es s0 = Some s0'"
  shows "\<exists>s'. entries_revert isd es s = Some s' \<and> both_rel R (N w) T s' s0'"
  using assms(2)
proof (induction es arbitrary: s0')
  case Nil
  then show ?case using assms(1) by simp
next
  case (Cons e es)
  then obtain s1 where s1: "entries_revert isd es s0 = Some s1" "entry_revert isd e s1 = Some s0'"
    by (auto simp: bind_eq_Some_conv)
  obtain s2 where s2: "entries_revert isd es s = Some s2" "both_rel R (N w) T s2 s1"
    using Cons.IH [OF s1(1)] by auto
  show ?case using entry_revert_rel [OF s2(2) s1(2)] s2(1) by auto
qed

lemma undone_trans:
  assumes "undone R N T j es j'" "undone R N T j' fs j''" "j_spec j' = j_spec j" "j_warm_addresses j' = j_warm_addresses j"
  shows "undone R N T j (es @ fs) j''"
proof -
  let ?isd = "is_enabled_in (j_spec j) SPURIOUS_DRAGON" and ?w = "j_warm_addresses j"
  obtain st ts where s: "entries_revert ?isd es (j_state j', Some (j_transient_storage j')) = Some (st, Some ts)"
      "state_rel R (N ?w) st (j_state j)" "T ts (j_transient_storage j)"
    using assms(1) by (auto simp: undone_def)
  obtain st' ts' where t: "entries_revert ?isd fs (j_state j'', Some (j_transient_storage j'')) = Some (st', Some ts')"
      "both_rel R (N ?w) T (st', Some ts') (j_state j', Some (j_transient_storage j'))"
    using assms(2-4) by (auto simp: undone_def both_rel_def)
  obtain u where u: "entries_revert ?isd es (st', Some ts') = Some u" "both_rel R (N ?w) T u (st, Some ts)"
    using entries_revert_rel [OF t(2) s(1)] by auto
  obtain st'' ts'' where u': "u = (st'', Some ts'')" "state_rel R (N ?w) st'' st" "T ts'' ts"
    using u(2) by (cases u) (auto simp: both_rel_def option_rel_Some2)
  have "entries_revert ?isd (es @ fs) (j_state j'', Some (j_transient_storage j'')) = Some (st'', Some ts'')"
    using u(1) u'(1) t(1) by (simp add: entries_revert_append)
  then show ?thesis
    using rel_trans [OF u'(2) s(2)] T_trans [OF u'(3) s(3)] by (auto simp: undone_def)
qed

lemma grows_refl: "grows R N T I j j"
  by (auto simp: grows_def undone_def rel_refl T_refl)

lemma grows_trans:
  assumes "grows R N T I j j'" "grows R N T I j' j''"
  shows "grows R N T I j j''"
  unfolding grows_def
proof
  assume wf: "I j"
  from wf assms(1) obtain es where 1: "I j'" "j_spec j' = j_spec j" "j_transaction_id j' = j_transaction_id j"
      "j_warm_addresses j' = j_warm_addresses j" "\<And>a. warm_in j a \<Longrightarrow> warm_in j' a"
      "j_journal j' = j_journal j @ es" "\<exists>ls. j_logs j' = j_logs j @ ls" "undone R N T j es j'"
    by (auto simp: grows_def)
  from 1(1) assms(2) obtain fs where 2: "I j''" "j_spec j'' = j_spec j'" "j_transaction_id j'' = j_transaction_id j'"
      "j_warm_addresses j'' = j_warm_addresses j'" "\<And>a. warm_in j' a \<Longrightarrow> warm_in j'' a"
      "j_journal j'' = j_journal j' @ fs" "\<exists>ls. j_logs j'' = j_logs j' @ ls" "undone R N T j' fs j''"
    by (auto simp: grows_def)
  show "I j'' \<and> j_spec j'' = j_spec j \<and> j_warm_addresses j'' = j_warm_addresses j
     \<and> j_transaction_id j'' = j_transaction_id j
     \<and> (\<forall>a. warm_in j a \<longrightarrow> warm_in j'' a)
     \<and> (\<exists>es. j_journal j'' = j_journal j @ es \<and> undone R N T j es j'') \<and> (\<exists>ls. j_logs j'' = j_logs j @ ls)"
    using 1(1-7) 2(1-7) undone_trans [OF 1(8) 2(8) 1(2,4)] by auto
qed

lemma revert_grown:
  assumes "grows R N T I j j'" "I j" "jc_journal_i c = length (j_journal j)" "jc_log_i c = length (j_logs j)"
  shows "\<exists>st ts. checkpoint_revert c j' = Some (j'\<lparr>j_depth := saturating_sub (j_depth j') 1, j_logs := j_logs j,
      j_state := st, j_transient_storage := ts, j_journal := j_journal j\<rparr>)
    \<and> state_rel R (N (j_warm_addresses j)) st (j_state j) \<and> T ts (j_transient_storage j)"
proof -
  obtain es ls where e: "j_journal j' = j_journal j @ es" "j_logs j' = j_logs j @ ls" "j_spec j' = j_spec j"
      "undone R N T j es j'"
    using assms(1,2) by (auto simp: grows_def)
  then obtain st ts where r: "entries_revert (is_enabled_in (j_spec j) SPURIOUS_DRAGON) es
      (j_state j', Some (j_transient_storage j')) = Some (st, Some ts)"
      "state_rel R (N (j_warm_addresses j)) st (j_state j)" "T ts (j_transient_storage j)"
    by (auto simp: undone_def)
  show ?thesis
  proof (cases "es = []")
    case True
    then have "st = j_state j'" "ts = j_transient_storage j'" using r(1) by auto
    then show ?thesis using True e r(2,3) assms(3,4)
      by (intro exI [of _ st] exI [of _ ts]) (simp add: checkpoint_revert_def)
  next
    case False
    then show ?thesis using e r assms(3,4)
      by (intro exI [of _ st] exI [of _ ts]) (simp add: checkpoint_revert_def)
  qed
qed

end

section \<open>The shape of accounts\<close>

abbreviation flagged_cold :: "account \<Rightarrow> bool" where
  "flagged_cold acc \<equiv> flag_contains (ac_status acc) flag_Cold"

definition account_wf :: "warm_addresses \<Rightarrow> address \<Rightarrow> account \<Rightarrow> bool" where
  "account_wf w a acc \<longleftrightarrow> ac_transaction_id acc = 0
     \<and> (is_selfdestructed_locally acc \<longrightarrow> is_selfdestructed acc)
     \<and> (flagged_cold acc \<longrightarrow> \<not> is_selfdestructed_locally acc \<and> is_cold w a)"

definition journal_wf :: "journal_inner \<Rightarrow> bool" where
  "journal_wf j \<longleftrightarrow> j_transaction_id j = 0
     \<and> (\<forall>a acc. j_state j a = Some acc \<longrightarrow> account_wf (j_warm_addresses j) a acc)"

definition same_shape :: "account \<Rightarrow> account \<Rightarrow> bool" where
  "same_shape acc acc0 \<longleftrightarrow> ac_transaction_id acc = ac_transaction_id acc0
     \<and> is_selfdestructed_locally acc = is_selfdestructed_locally acc0
     \<and> is_selfdestructed acc = is_selfdestructed acc0
     \<and> flagged_cold acc = flagged_cold acc0
     \<and> dom (ac_storage acc0) \<subseteq> dom (ac_storage acc)"

abbreviation state_shape :: "warm_addresses \<Rightarrow> evm_state \<Rightarrow> evm_state \<Rightarrow> bool" where
  "state_shape w \<equiv> state_rel (\<lambda>a. same_shape) (account_wf w)"

abbreviation evolves :: "journal_inner \<Rightarrow> journal_inner \<Rightarrow> bool" where
  "evolves \<equiv> grows (\<lambda>a. same_shape) account_wf (\<lambda>ts us. True) journal_wf"

lemmas status_defs = is_selfdestructed_locally_def is_selfdestructed_def mark_cold_def unmark_touch_def
  mark_touch_def unmark_selfdestructed_locally_def unmark_selfdestruct_def unmark_created_locally_def
  unmark_created_def mark_created_locally_def mark_selfdestructed_locally_def Let_def

lemma same_shape_refl [simp]: "same_shape acc acc"
  by (simp add: same_shape_def)

lemma same_shape_trans: "same_shape x y \<Longrightarrow> same_shape y z \<Longrightarrow> same_shape x z"
  unfolding same_shape_def by (elim conjE, intro conjI) (erule (1) trans | erule (1) subset_trans)+

lemma same_shape_dom: "same_shape x y \<Longrightarrow> k \<in> dom (ac_storage y) \<Longrightarrow> k \<in> dom (ac_storage x)"
  unfolding same_shape_def by blast

lemma same_shape_wf: "same_shape x y \<Longrightarrow> account_wf w a y \<Longrightarrow> account_wf w a x"
  by (auto simp: same_shape_def account_wf_def)

lemma same_shape_update: "f \<in> revert_updates \<Longrightarrow> same_shape x y \<Longrightarrow> same_shape (f x) (f y)"
  unfolding revert_updates_def
  by (elim UnE insertE emptyE rangeE;
      simp add: same_shape_def status_defs upd_info_def add_balance_def sub_balance_def)

lemma same_shape_slot:
  "same_shape x y \<Longrightarrow> ac_storage y k = Some t
     \<Longrightarrow> \<exists>s. ac_storage x k = Some s \<and> same_shape (set_slot k (g s) x) (set_slot k (g t) y)"
  by (auto simp: same_shape_def set_slot_def status_defs subset_iff domIff)

interpretation shape: revert_relation "\<lambda>a. same_shape" account_wf "\<lambda>ts us. True"
  by unfold_locales
    (auto intro: same_shape_trans same_shape_wf same_shape_update dest: same_shape_slot)

text \<open>Entries that neither warm nor destroy an account, and whose accounts and slots are loaded.\<close>

fun neutral :: "evm_state \<Rightarrow> journal_entry \<Rightarrow> bool" where
  "neutral st (AccountWarmed a) \<longleftrightarrow> False"
| "neutral st (AccountDestroyed b a t d) \<longleftrightarrow> False"
| "neutral st (AccountTouched a) \<longleftrightarrow> a \<in> dom st"
| "neutral st (BalanceChange b a) \<longleftrightarrow> a \<in> dom st"
| "neutral st (BalanceTransfer b f t) \<longleftrightarrow> f \<in> dom st \<and> t \<in> dom st"
| "neutral st (NonceChange a) \<longleftrightarrow> a \<in> dom st"
| "neutral st (AccountCreated a g) \<longleftrightarrow> a \<in> dom st"
| "neutral st (StorageChanged k v a) \<longleftrightarrow> (\<exists>acc. st a = Some acc \<and> k \<in> dom (ac_storage acc))"
| "neutral st (StorageWarmed k a) \<longleftrightarrow> (\<exists>acc. st a = Some acc \<and> k \<in> dom (ac_storage acc))"
| "neutral st (TransientStorageChange k v a) \<longleftrightarrow> True"
| "neutral st (CodeChange a) \<longleftrightarrow> a \<in> dom st"

lemma state_shape_update:
  "st a = Some acc \<Longrightarrow> same_shape acc' acc \<Longrightarrow> state_shape w (st(a \<mapsto> acc')) st"
  by (auto simp: state_rel_def)

lemma upd_account_neutral:
  assumes "a \<in> dom st" "\<And>acc. same_shape (f acc) acc"
  shows "\<exists>st'. upd_account a f st = Some st' \<and> state_shape w st' st"
  using assms(1) by (auto simp: upd_account_def intro: state_shape_update [OF _ assms(2)])

lemma upd_slot_neutral:
  assumes "st a = Some acc" "k \<in> dom (ac_storage acc)"
  shows "\<exists>acc'. upd_slot k f acc = Some acc' \<and> state_shape w (st(a \<mapsto> acc')) st"
proof -
  obtain sl where sl: "ac_storage acc k = Some sl" using assms(2) by auto
  then have "same_shape (acc\<lparr>ac_storage := (ac_storage acc)(k \<mapsto> f sl)\<rparr>) acc"
    by (auto simp: same_shape_def status_defs)
  with sl show ?thesis using state_shape_update [of st a acc] assms(1) by (auto simp: upd_slot_def)
qed

lemma same_shape_neutral:
  "same_shape (unmark_touch x) x" "same_shape (mark_touch x) x" "same_shape (upd_info f x) x"
  "same_shape (add_balance b x) x" "same_shape (sub_balance b x) x"
  "same_shape (unmark_created_locally x) x" "same_shape (unmark_created x) x"
  "same_shape (snd (mark_created_locally x)) x"
  by (simp_all add: same_shape_def status_defs upd_info_def add_balance_def sub_balance_def)

lemma neutral_revert:
  assumes "neutral st e"
  shows "\<exists>st' ts'. entry_revert isd e (st, Some ts) = Some (st', Some ts') \<and> state_shape w st' st"
proof -
  have i: "\<exists>st'. upd_account a (upd_info f) st = Some st' \<and> state_shape w st' st" if "a \<in> dom st" for a f
    using upd_account_neutral [OF that] same_shape_neutral(3) by blast
  show ?thesis
  proof (cases e)
    case (AccountTouched a)
    then show ?thesis
      using assms upd_account_neutral [OF _ same_shape_neutral(1), of a st w]
      by (cases "isd \<and> a = PRECOMPILE3") (auto simp: shape.rel_refl)
  next
    case (BalanceTransfer b f t)
    then have d: "f \<in> dom st" "t \<in> dom st" using assms by auto
    obtain st1 where st1: "upd_account f (add_balance b) st = Some st1" "state_shape w st1 st"
      using upd_account_neutral [OF d(1), of "add_balance b" w] same_shape_neutral(4) by blast
    have "t \<in> dom st1" using d(2) st1(2) by (auto elim: state_relD)
    then obtain st2 where "upd_account t (sub_balance b) st1 = Some st2" "state_shape w st2 st1"
      using upd_account_neutral [of t st1 "sub_balance b" w] same_shape_neutral(5) by blast
    then show ?thesis using BalanceTransfer st1 by (auto intro: shape.rel_trans [of w])
  next
    case (AccountCreated a g)
    let ?f = "\<lambda>acc. let acc = unmark_created_locally acc; acc = (if g then unmark_created acc else acc)
      in upd_info (\<lambda>i. i\<lparr>ai_nonce := 0\<rparr>) acc"
    have "same_shape (?f x) x" for x
      by (simp add: Let_def) (intro conjI impI same_shape_trans [OF same_shape_neutral(3)]
        same_shape_trans [OF same_shape_neutral(7)] same_shape_neutral)
    then show ?thesis
      using assms AccountCreated upd_account_neutral [of a st ?f w] by auto
  next
    case (StorageChanged k v a)
    then show ?thesis
      using assms upd_slot_neutral [of st a _ k "\<lambda>s. s\<lparr>ss_present_value := v\<rparr>" w] by fastforce
  next
    case (StorageWarmed k a)
    then show ?thesis using assms upd_slot_neutral [of st a _ k slot_mark_cold w] by fastforce
  next
    case (TransientStorageChange k v a)
    then show ?thesis by (auto simp: shape.rel_refl split: option.split)
  qed (use assms i in auto)
qed

lemma neutral_shape:
  assumes "state_shape w st' st" "neutral st e"
  shows "neutral st' e"
proof -
  have d: "a \<in> dom st'" if "a \<in> dom st" for a using that assms(1) by (auto elim: state_relD)
  have k: "\<exists>acc. st' a = Some acc \<and> k \<in> dom (ac_storage acc)" if "st a = Some acc" "k \<in> dom (ac_storage acc)"
    for a acc k
  proof -
    note p = that
    obtain acc' where "st' a = Some acc'" "same_shape acc' acc" using state_relD [OF assms(1) p(1)] .
    then show ?thesis using same_shape_dom that(2) by blast
  qed
  show ?thesis using assms(2) d by (cases e) (auto dest: k)
qed

lemma neutrals_revert:
  assumes "list_all (neutral st) es"
  shows "\<exists>st' ts'. entries_revert isd es (st, Some ts) = Some (st', Some ts') \<and> state_shape w st' st"
  using assms
proof (induction es)
  case Nil
  then show ?case by (simp add: shape.rel_refl)
next
  case (Cons e es)
  then obtain st1 ts1 where 1: "entries_revert isd es (st, Some ts) = Some (st1, Some ts1)" "state_shape w st1 st" by auto
  then have "neutral st1 e" using Cons.prems neutral_shape by auto
  then obtain st2 ts2 where 2: "entry_revert isd e (st1, Some ts1) = Some (st2, Some ts2)" "state_shape w st2 st1"
    using neutral_revert [of st1 e isd ts1 w] by auto
  then show ?case using 1 shape.rel_trans [OF 2(2) 1(2)] by simp
qed

text \<open>A step that keeps the loaded accounts, their shape, and appends neutral entries.\<close>

definition neutral_step :: "journal_inner \<Rightarrow> journal_inner \<Rightarrow> bool" where
  "neutral_step j j' \<longleftrightarrow> dom (j_state j') = dom (j_state j)
     \<and> (\<forall>a acc acc'. j_state j a = Some acc \<longrightarrow> j_state j' a = Some acc' \<longrightarrow> same_shape acc' acc)
     \<and> (\<exists>es. j_journal j' = j_journal j @ es \<and> list_all (neutral (j_state j')) es)
     \<and> (\<exists>ls. j_logs j' = j_logs j @ ls)
     \<and> j_transaction_id j' = j_transaction_id j \<and> j_spec j' = j_spec j
     \<and> j_warm_addresses j' = j_warm_addresses j"

lemma neutral_step_shape: "neutral_step j j' \<Longrightarrow> state_shape w (j_state j') (j_state j)"
  unfolding neutral_step_def state_rel_def by (metis domD domI domIff option.distinct(1))

lemma evolves_neutral:
  assumes "neutral_step j j'"
  shows "evolves j j'"
proof -
  note sh = neutral_step_shape [OF assms]
  obtain es ls where e: "j_journal j' = j_journal j @ es" "list_all (neutral (j_state j')) es"
      "j_logs j' = j_logs j @ ls" and f: "j_transaction_id j' = j_transaction_id j" "j_spec j' = j_spec j"
      "j_warm_addresses j' = j_warm_addresses j"
    using assms by (auto simp: neutral_step_def)
  obtain st ts where r: "entries_revert (is_enabled_in (j_spec j) SPURIOUS_DRAGON) es
      (j_state j', Some (j_transient_storage j')) = Some (st, Some ts)" "state_shape (j_warm_addresses j) st (j_state j')"
    using neutrals_revert [OF e(2)] by blast
  have u: "undone (\<lambda>a. same_shape) account_wf (\<lambda>ts us. True) j es j'"
    using r shape.rel_trans [OF r(2) sh] by (simp add: undone_def)
  have d: "dom (j_state j') = dom (j_state j)" using assms by (simp add: neutral_step_def)
  have wf: "journal_wf j'" if "journal_wf j"
    unfolding journal_wf_def
  proof (intro conjI allI impI)
    fix a acc' assume a: "j_state j' a = Some acc'"
    then obtain acc where acc: "j_state j a = Some acc"
      using domI [of "j_state j'", OF a] unfolding d by blast
    obtain acc'' where "j_state j' a = Some acc''" "same_shape acc'' acc" using state_relD [OF sh acc] .
    then have "same_shape acc' acc" using a by simp
    then show "account_wf (j_warm_addresses j') a acc'"
      using that acc f(3) by (simp add: journal_wf_def same_shape_wf)
  qed (use that f in \<open>simp add: journal_wf_def\<close>)
  have "warm_in j' a" if w: "warm_in j a" for a
  proof -
    obtain acc where "j_state j a = Some acc" "\<not> flagged_cold acc" using w by (auto simp: warm_in_def)
    then show ?thesis using state_relD [OF sh] by (force simp: warm_in_def same_shape_def)
  qed
  then show ?thesis using e f u wf by (auto simp: grows_def)
qed

lemma neutral_put:
  assumes "j_state j a = Some acc" "same_shape acc' acc" "list_all (neutral ((j_state j)(a \<mapsto> acc'))) es"
  shows "neutral_step j (put_account a (acc', j_journal j @ es) j)"
  unfolding neutral_step_def using assms by (auto simp: put_account_def)

lemma evolves_depth: "evolves j (j\<lparr>j_depth := d\<rparr>)"
  by (rule evolves_neutral) (simp add: neutral_step_def)

lemma evolves_log: "evolves j (journal_log l j)"
  by (rule evolves_neutral) (simp add: neutral_step_def journal_log_def)

lemma evolves_tstore: "evolves j (tstore a k v j)"
  by (rule evolves_neutral) (auto simp: neutral_step_def tstore_def Let_def split: option.split)

text \<open>The operations on one account with its journal entries.\<close>

fun own_entry :: "address \<Rightarrow> journal_entry \<Rightarrow> bool" where
  "own_entry a (AccountTouched b) \<longleftrightarrow> b = a"
| "own_entry a (BalanceChange v b) \<longleftrightarrow> b = a"
| "own_entry a (NonceChange b) \<longleftrightarrow> b = a"
| "own_entry a (CodeChange b) \<longleftrightarrow> b = a"
| "own_entry a (AccountCreated b g) \<longleftrightarrow> b = a"
| "own_entry a e \<longleftrightarrow> False"

definition own_step :: "address \<Rightarrow> journaled_account \<Rightarrow> journaled_account \<Rightarrow> bool" where
  "own_step a ja ja' \<longleftrightarrow> same_shape (fst ja') (fst ja) \<and> (\<exists>fs. snd ja' = snd ja @ fs \<and> list_all (own_entry a) fs)"

lemma own_entry_neutral: "own_entry a e \<Longrightarrow> a \<in> dom st \<Longrightarrow> neutral st e"
  by (cases e) auto

lemma own_step_refl: "own_step a ja ja"
  by (simp add: own_step_def)

lemma own_step_trans: "own_step a x y \<Longrightarrow> own_step a y z \<Longrightarrow> own_step a x z"
  unfolding own_step_def by (elim conjE exE) (auto intro: same_shape_trans)

lemma own_stepI: "same_shape acc' acc \<Longrightarrow> list_all (own_entry a) fs \<Longrightarrow> own_step a (acc, es) (acc', es @ fs)"
  by (auto simp: own_step_def)

lemma own_step_info: "own_step a ja (acc, es) \<Longrightarrow> own_step a ja (upd_info f acc, es)"
  by (erule own_step_trans) (auto simp: own_step_def same_shape_neutral)

lemma own_step_entry: "own_step a ja (acc, es) \<Longrightarrow> own_entry a e \<Longrightarrow> own_step a ja (acc, es @ [e])"
  by (erule own_step_trans) (auto simp: own_step_def)

lemma own_step_touch: "own_step a (acc, es) (touch_account a acc es)"
  by (auto simp: touch_account_def own_step_def same_shape_neutral)

lemma own_ja_touch: "own_step a ja (ja_touch a ja)"
  by (cases ja) (auto simp: ja_touch_def own_step_def same_shape_neutral)

lemma own_ja_set_balance: "own_step a ja (ja_set_balance a b ja)"
  using own_ja_touch [of a ja]
  by (auto simp: ja_set_balance_def intro!: own_step_info own_step_entry split: prod.split)

lemma own_ja_balance:
  "own_step a ja (snd (ja_incr_balance a b ja))" "own_step a ja (snd (ja_decr_balance a b ja))"
  unfolding ja_incr_balance_def ja_decr_balance_def Let_def
  by (auto split: option.split intro: own_ja_touch own_step_trans [OF own_ja_touch own_ja_set_balance])

lemma own_ja_bump_nonce: "own_step a ja (snd (ja_bump_nonce a ja))"
  using own_ja_touch [of a ja]
  by (auto simp: ja_bump_nonce_def intro!: own_step_info own_step_entry split: prod.split option.split)

lemma own_ja_set_code: "own_step a ja (ja_set_code kec a h c ja)"
  using own_ja_touch [of a ja]
  by (auto simp: ja_set_code_def intro!: own_step_info own_step_entry split: prod.split)

lemma own_ja_delegate: "own_step a ja (ja_delegate kec a d ja)"
  unfolding ja_delegate_def Let_def
  by (auto split: prod.split intro!: own_step_trans [OF own_ja_touch own_step_trans [OF own_ja_set_code own_ja_bump_nonce]])

lemma neutral_own:
  assumes "j_state j a = Some acc" "own_step a (acc, j_journal j) ja"
  shows "neutral_step j (put_account a ja j)"
proof -
  obtain fs where fs: "ja = (fst ja, j_journal j @ fs)" "list_all (own_entry a) fs" "same_shape (fst ja) acc"
    using assms(2) by (cases ja) (auto simp: own_step_def)
  have "list_all (neutral ((j_state j)(a \<mapsto> fst ja))) fs"
    using fs(2) by (rule list.pred_mono_strong) (auto intro: own_entry_neutral)
  then show ?thesis by (subst fs(1)) (rule neutral_put [OF assms(1) fs(3)])
qed

lemmas evolves_own = evolves_neutral [OF neutral_own]

lemma put_account_same [simp]: "j_state (put_account a ja j) a = Some (fst ja)"
  by (cases ja) (simp add: put_account_def)

lemma evolves_touch: "evolves j (touch a j)"
  by (auto simp: touch_def shape.grows_refl intro: evolves_own own_step_touch split: option.split)

lemma evolves_set_code_with_hash: "set_code_with_hash a c h j = Some j' \<Longrightarrow> evolves j j'"
  using own_step_touch [of a]
  by (auto simp: set_code_with_hash_def Let_def case_prod_beta intro!: evolves_own own_step_info own_step_entry)

lemma evolves_set_code: "set_code kec a c j = Some j' \<Longrightarrow> evolves j j'"
  by (auto simp: set_code_def evolves_set_code_with_hash split: bytecode.splits if_splits)

section \<open>Every operation evolves the journal\<close>

lemma neutral_own_entry:
  assumes "j_state j a = Some acc" "own_step a (acc, j_journal j) (acc', es)" "neutral (j_state j) e"
    and "\<And>k v b. e \<noteq> StorageChanged k v b" "\<And>k b. e \<noteq> StorageWarmed k b"
  shows "neutral_step j (put_account a (acc', es @ [e]) j)"
proof -
  obtain fs where fs: "es = j_journal j @ fs" "list_all (own_entry a) fs" "same_shape acc' acc"
    using assms(2) by (auto simp: own_step_def)
  have "list_all (neutral ((j_state j)(a \<mapsto> acc'))) fs"
    using fs(2) by (rule list.pred_mono_strong) (auto intro: own_entry_neutral)
  moreover have "neutral ((j_state j)(a \<mapsto> acc')) e"
    using assms(3-5) by (cases e) auto
  ultimately show ?thesis
    using neutral_put [OF assms(1) fs(3), of "fs @ [e]"] fs(1) by simp
qed

lemma transfer_loaded_evolves:
  assumes "frm \<in> dom (j_state j)" "to \<in> dom (j_state j)"
  shows "\<exists>e j'. transfer_loaded frm to v j = Some (e, j') \<and> evolves j j'"
proof -
  obtain facc tacc where acc: "j_state j frm = Some facc" "j_state j to = Some tacc" using assms by auto
  obtain facc' es where t: "touch_account frm facc (j_journal j) = (facc', es)" by fastforce
  have o: "own_step frm (facc, j_journal j) (facc', es)" using own_step_touch t by metis
  show ?thesis
  proof (cases "frm = to \<or> v = 0 \<or> checked_sub (ai_balance (ac_info facc')) v = None")
    case True
    then show ?thesis
      using acc t evolves_own [OF acc(1) o] evolves_own [OF acc(2) own_step_touch]
      by (auto simp: transfer_loaded_def shape.grows_refl)
  next
    case False
    then obtain d where d: "checked_sub (ai_balance (ac_info facc')) v = Some d" by auto
    let ?f = "upd_info (\<lambda>i. i\<lparr>ai_balance := d\<rparr>) facc'"
    let ?j = "put_account frm (?f, es) j"
    have 1: "evolves j ?j" using acc(1) o by (intro evolves_own own_step_info)
    have s: "j_state ?j to = Some tacc" "j_state ?j frm = Some ?f" using False acc(2) by (auto simp: put_account_def)
    obtain tacc' es' where t': "touch_account to tacc (j_journal ?j) = (tacc', es')" by fastforce
    have o': "own_step to (tacc, j_journal ?j) (tacc', es')" using own_step_touch t' by metis
    have 2: "evolves ?j (put_account to (tacc', es') ?j)" using s(1) o' by (rule evolves_own)
    have 3: "evolves ?j (put_account to (upd_info f tacc', es' @ [BalanceTransfer v frm to]) ?j)" for f
      using s o' by (intro evolves_neutral neutral_own_entry) (auto intro: own_step_info)
    show ?thesis
      using False acc t d s t' shape.grows_trans [OF 1 2] shape.grows_trans [OF 1 3]
      by (auto simp: transfer_loaded_def Let_def split: option.split)
  qed
qed

lemma evolves_revert:
  assumes "evolves j j'" "journal_wf j" "jc_journal_i c = length (j_journal j)" "jc_log_i c = length (j_logs j)"
  shows "\<exists>j1. checkpoint_revert c j' = Some j1 \<and> evolves j j1"
proof -
  obtain st ts where r: "checkpoint_revert c j' = Some (j'\<lparr>j_depth := saturating_sub (j_depth j') 1, j_logs := j_logs j,
      j_state := st, j_transient_storage := ts, j_journal := j_journal j\<rparr>)"
      "state_shape (j_warm_addresses j) st (j_state j)"
    using shape.revert_grown [OF assms] by auto
  have f: "j_spec j' = j_spec j" "j_warm_addresses j' = j_warm_addresses j" "j_transaction_id j' = j_transaction_id j"
    using assms(1,2) by (auto simp: grows_def)
  have w: "account_wf (j_warm_addresses j) a acc" if "st a = Some acc" for a acc
  proof (cases "j_state j a")
    case (Some acc0)
    then have "same_shape acc acc0" using that r(2) by (auto elim: state_relD)
    then show ?thesis using Some assms(2) by (auto simp: journal_wf_def intro: same_shape_wf)
  qed (use r(2) that in \<open>simp add: state_rel_def\<close>)
  have "\<exists>acc. st a = Some acc \<and> \<not> flagged_cold acc" if w: "warm_in j a" for a
  proof -
    obtain acc where "j_state j a = Some acc" "\<not> flagged_cold acc" using w by (auto simp: warm_in_def)
    then show ?thesis using state_relD [OF r(2)] by (force simp: same_shape_def)
  qed
  then show ?thesis
    using r f w assms(2) by (auto simp: grows_def journal_wf_def undone_def warm_in_def)
qed

lemma created_shape: "same_shape (snd (mark_created_locally acc)) acc"
  by (rule same_shape_neutral(8))

lemma sub_balance_evolves:
  assumes "caller \<in> dom (j_state j)" "target \<in> dom (j_state j)"
  shows "\<exists>st. upd_account caller (sub_balance v) (j_state j) = Some st
    \<and> evolves j (j\<lparr>j_state := st, j_journal := j_journal j @ [BalanceTransfer v caller target]\<rparr>)"
proof -
  obtain acc where acc: "j_state j caller = Some acc" using assms(1) by auto
  have "evolves j (put_account caller (sub_balance v acc, j_journal j @ [BalanceTransfer v caller target]) j)"
    by (rule evolves_neutral, rule neutral_put [OF acc same_shape_neutral(5)]) (use assms in auto)
  then show ?thesis using acc by (simp add: upd_account_def put_account_def)
qed

lemma create_account_checkpoint_evolves:
  assumes "caller \<in> dom (j_state j)" "target \<in> dom (j_state j)" "journal_wf j"
  shows "\<exists>r j'. create_account_checkpoint caller target v sp j = Some (r, j') \<and> evolves j j'
    \<and> (\<forall>c. r = Inr c \<longrightarrow> c = fst (checkpoint j))"
proof -
  let ?c = "fst (checkpoint j)" and ?j = "snd (checkpoint j)"
  obtain tacc where tacc: "j_state ?j target = Some tacc" using assms(2) by (auto simp: checkpoint_def)
  have c: "jc_journal_i ?c = length (j_journal j)" "jc_log_i ?c = length (j_logs j)"
    by (simp_all add: checkpoint_def)
  have 0: "evolves j ?j" by (simp add: checkpoint_def evolves_depth)
  obtain g t1 where t1: "mark_created_locally tacc = (g, t1)" by fastforce
  let ?t2 = "upd_info (\<lambda>i. i\<lparr>ai_code := None\<rparr>) t1"
  let ?t3 = "if is_enabled_in sp SPURIOUS_DRAGON then upd_info (\<lambda>i. i\<lparr>ai_nonce := 1\<rparr>) ?t2 else ?t2"
  obtain t4 es where t4: "touch_account target ?t3 (j_journal ?j @ [AccountCreated target g]) = (t4, es)" by fastforce
  have s3: "same_shape ?t3 tacc"
    using created_shape [of tacc] t1 same_shape_trans [OF same_shape_neutral(3)] by auto
  have o: "own_step target (tacc, j_journal ?j) (t4, es)"
    unfolding t4 [symmetric] by (rule own_step_trans [OF own_stepI own_step_touch]) (use s3 in auto)
  have p: "evolves ?j (put_account target (t4, es) ?j)" using evolves_own [OF tacc o] .
  obtain j1 j2 where r: "checkpoint_revert ?c ?j = Some j1" "evolves j j1"
      "checkpoint_revert ?c (put_account target (t4, es) ?j) = Some j2" "evolves j j2"
    using evolves_revert [OF 0 assms(3) c] evolves_revert [OF shape.grows_trans [OF 0 p] assms(3) c] by blast
  let ?k = "\<lambda>n. put_account target (upd_info (\<lambda>i. i\<lparr>ai_balance := n\<rparr>) t4, es) ?j"
  have k: "evolves ?j (?k n)" for n using tacc own_step_info [OF o] by (rule evolves_own)
  have d: "caller \<in> dom (j_state (?k n))" "target \<in> dom (j_state (?k n))" "j_journal (?k n) = es" for n
    using assms(1) by (auto simp: put_account_def checkpoint_def)
  have z: "\<exists>z. upd_account caller (sub_balance v) (j_state (?k n)) = Some z
      \<and> evolves j ((?k n)\<lparr>j_state := z, j_journal := es @ [BalanceTransfer v caller target]\<rparr>)" for n
    using sub_balance_evolves [OF d(1,2), of v n] shape.grows_trans [OF 0 shape.grows_trans [OF k [of n]]]
    unfolding d(3) by blast
  note def = create_account_checkpoint_def Let_def case_prod_beta tacc t1 t4
  show ?thesis
  proof (cases "ai_code_hash (ac_info tacc) \<noteq> KECCAK_EMPTY \<or> ai_nonce (ac_info tacc) \<noteq> 0")
    case False
    show ?thesis
    proof (cases "checked_add (ai_balance (ac_info t4)) v")
      case (Some n)
      obtain w where "upd_account caller (sub_balance v) (j_state (?k n)) = Some w"
          "evolves j ((?k n)\<lparr>j_state := w, j_journal := es @ [BalanceTransfer v caller target]\<rparr>)"
        using z by blast
      then show ?thesis using False Some by (simp add: def)
    qed (use False r in \<open>simp add: def\<close>)
  qed (use r in \<open>auto simp: def\<close>)
qed

text \<open>Loading an account warms it, with an entry when the access was cold.\<close>

definition warmed :: "address \<Rightarrow> bool \<Rightarrow> account \<Rightarrow> journal_inner \<Rightarrow> journal_inner" where
  "warmed a c acc j = j\<lparr>j_state := (j_state j)(a \<mapsto> acc),
     j_journal := (if c then j_journal j @ [AccountWarmed a] else j_journal j)\<rparr>"

lemma evolves_warmed:
  assumes "\<not> flagged_cold acc" "account_wf (j_warm_addresses j) a acc"
    and "case j_state j a of None \<Rightarrow> c \<longrightarrow> is_cold (j_warm_addresses j) a \<and> \<not> is_selfdestructed_locally acc
      | Some acc0 \<Rightarrow> same_shape (if c then mark_cold acc else acc) acc0"
  shows "evolves j (warmed a c acc j)"
proof -
  let ?u = "if c then mark_cold acc else acc"
  have cold: "account_wf (j_warm_addresses j) a ?u" if "j_state j a = None"
    using that assms by (auto simp: account_wf_def status_defs)
  have "entries_revert isd (if c then [AccountWarmed a] else []) ((j_state j)(a \<mapsto> acc), ts)
      = Some ((j_state j)(a \<mapsto> ?u), ts)" for isd ts
    by (simp add: upd_account_def)
  moreover have "state_shape (j_warm_addresses j) ((j_state j)(a \<mapsto> ?u)) (j_state j)"
    using assms(3) cold by (auto simp: state_rel_def)
  ultimately have "undone (\<lambda>a. same_shape) account_wf (\<lambda>ts us. True) j
      (if c then [AccountWarmed a] else []) (warmed a c acc j)"
    by (auto simp: undone_def warmed_def)
  then show ?thesis
    using assms(1,2) by (auto simp: grows_def warmed_def journal_wf_def warm_in_def)
qed

lemma finish_load_warmed:
  assumes "finish_load D a lc c acc j db = (r, j', db')"
  shows "\<exists>x. j' = warmed a c (upd_info (\<lambda>i. i\<lparr>ai_code := x\<rparr>) acc) j
    \<and> (\<forall>b. r = Inr b \<longrightarrow> b = c \<and> (lc \<longrightarrow> x \<noteq> None)) \<and> r \<noteq> Inl ColdLoadSkipped"
proof -
  have i: "upd_info (\<lambda>i. i\<lparr>ai_code := ai_code (ac_info acc)\<rparr>) acc = acc" by (simp add: upd_info_def)
  show ?thesis
  proof (cases "lc \<and> ai_code (ac_info acc) = None")
    case True
    obtain x db1 where x: "(if ai_code_hash (ac_info acc) = KECCAK_EMPTY then (Inr bytecode_new, db)
        else db_code_by_hash D db (ai_code_hash (ac_info acc))) = (x, db1)" by fastforce
    show ?thesis
    proof (cases x)
      case (Inl e)
      then show ?thesis
        using assms True x i unfolding finish_load_def
        by (intro exI [of _ "ai_code (ac_info acc)"]) (auto simp: warmed_def)
    next
      case (Inr code)
      then show ?thesis
        using assms True x unfolding finish_load_def by (intro exI [of _ "Some code"]) (auto simp: warmed_def)
    qed
  qed (use assms i in \<open>intro exI [of _ "ai_code (ac_info acc)"], auto simp: finish_load_def warmed_def\<close>)
qed

lemma same_shape_upd_info [simp]:
  "same_shape (upd_info f x) y = same_shape x y" "same_shape x (upd_info f y) = same_shape x y"
  "flagged_cold (upd_info f x) = flagged_cold x" "account_wf w a (upd_info f x) = account_wf w a x"
  "is_selfdestructed_locally (upd_info f x) = is_selfdestructed_locally x"
  "mark_cold (upd_info f x) = upd_info f (mark_cold x)"
  by (simp_all add: same_shape_def account_wf_def upd_info_def status_defs)

lemma refresh_shape:
  assumes "account_wf w a acc" "flagged_cold acc"
  shows "same_shape (mark_cold (refresh_account 0 acc)) acc" "\<not> flagged_cold (refresh_account 0 acc)"
    "account_wf w a (refresh_account 0 acc)"
  using assms
  by (simp_all add: refresh_account_def account_wf_def same_shape_def status_defs mark_warm_with_transaction_id_def)

lemma new_account_wf:
  "account_wf w a (account_from_info i)" "account_wf w a (new_not_existing 0)"
  "\<not> flagged_cold (account_from_info i)" "\<not> flagged_cold (new_not_existing 0)"
  "\<not> is_selfdestructed_locally (account_from_info i)" "\<not> is_selfdestructed_locally (new_not_existing 0)"
  by (simp_all add: account_wf_def account_from_info_def new_not_existing_def status_defs flag_contains_def flag_defs)

definition loads :: "address \<Rightarrow> bool \<Rightarrow> bool \<Rightarrow> journal_inner \<Rightarrow> 'e journal_load_error + bool \<Rightarrow> journal_inner \<Rightarrow> bool" where
  "loads a lc skip j r j' \<longleftrightarrow> evolves j j'
     \<and> (\<forall>b. r = Inr b \<longrightarrow> (\<exists>acc. j_state j' a = Some acc \<and> \<not> flagged_cold acc \<and> (lc \<longrightarrow> ai_code (ac_info acc) \<noteq> None)))
     \<and> (r = Inl ColdLoadSkipped \<longrightarrow> skip)"

lemma loads_error [simp]: "loads a lc skip j (Inl (DBError e)) j" "loads a lc True j (Inl ColdLoadSkipped) j"
  by (simp_all add: loads_def shape.grows_refl)

lemma finish_load_loads:
  assumes "finish_load D a lc c acc j db = (r, j', db')" "\<not> flagged_cold acc" "account_wf (j_warm_addresses j) a acc"
    and "case j_state j a of None \<Rightarrow> c \<longrightarrow> is_cold (j_warm_addresses j) a \<and> \<not> is_selfdestructed_locally acc
      | Some acc0 \<Rightarrow> same_shape (if c then mark_cold acc else acc) acc0"
  shows "loads a lc skip j r j'"
proof -
  obtain x where f: "j' = warmed a c (upd_info (\<lambda>i. i\<lparr>ai_code := x\<rparr>) acc) j" "r \<noteq> Inl ColdLoadSkipped"
      "\<forall>b. r = Inr b \<longrightarrow> b = c \<and> (lc \<longrightarrow> x \<noteq> None)"
    using finish_load_warmed [OF assms(1)] by auto
  have "evolves j j'"
    unfolding f(1) by (rule evolves_warmed) (use assms(2-4) in \<open>auto split: option.splits\<close>)
  then show ?thesis
    using f assms(2) by (auto simp: loads_def warmed_def upd_info_def)
qed

lemma load_loads:
  assumes "load_account_mut_optional_code D a lc skip j db = (r, j', db')" "journal_wf j"
  shows "loads a lc skip j r j'"
proof -
  have t: "j_transaction_id j = 0" using assms(2) by (simp add: journal_wf_def)
  note d = load_account_mut_optional_code_def t
  show ?thesis
  proof (cases "j_state j a")
    case None
    show ?thesis
    proof (cases "is_cold (j_warm_addresses j) a \<and> skip")
      case False
      obtain x db1 where x: "db_basic D db a = (x, db1)" by fastforce
      show ?thesis
      proof (cases x)
        case (Inl e)
        then show ?thesis using assms(1) None False x by (auto simp: d)
      next
        case (Inr i)
        then show ?thesis using assms(1) None False x new_account_wf
          by (auto simp: d elim!: finish_load_loads split: option.splits)
      qed
    qed (use assms(1) None in \<open>auto simp: d\<close>)
  next
    case (Some acc)
    then have wf: "account_wf (j_warm_addresses j) a acc" using assms(2) by (simp add: journal_wf_def)
    then have c: "is_cold_transaction_id 0 acc \<longleftrightarrow> flagged_cold acc"
      by (simp add: is_cold_transaction_id_def account_wf_def)
    show ?thesis
    proof (cases "flagged_cold acc")
      case True
      then have "is_cold (j_warm_addresses j) a" using wf by (simp add: account_wf_def)
      then show ?thesis using assms(1) Some True c refresh_shape [OF wf True]
        by (auto simp: d elim!: finish_load_loads split: if_splits)
    next
      case False
      then show ?thesis using assms(1) Some c wf by (auto simp: d elim!: finish_load_loads)
    qed
  qed
qed

lemma unwrap_load_evolves:
  assumes "journal_wf j"
  shows "\<exists>r j' db'. unwrap_db_error (load_account_mut_optional_code D a lc False j db) = Some (r, j', db')
    \<and> evolves j j' \<and> (\<forall>b. r = Inr b \<longrightarrow> warm_in j' a)"
proof -
  obtain r j' db' where l: "load_account_mut_optional_code D a lc False j db = (r, j', db')" using prod_cases3 by blast
  then show ?thesis using load_loads [OF l assms]
    by (auto simp: unwrap_db_error_def loads_def warm_in_def split: sum.split journal_load_error.split)
qed

lemma load_account_evolves:
  assumes "journal_wf j"
  shows "\<exists>r j' db'. load_account D a j db = Some (r, j', db') \<and> evolves j j' \<and> (\<forall>b. r = Inr b \<longrightarrow> warm_in j' a)"
    and "\<exists>r j' db'. load_code D a j db = Some (r, j', db') \<and> evolves j j' \<and> (\<forall>b. r = Inr b \<longrightarrow> warm_in j' a)"
  unfolding load_account_def load_code_def by (rule unwrap_load_evolves [OF assms])+

lemma evolves_slot:
  assumes "j_state j a = Some acc" "list_all (\<lambda>e. e = StorageWarmed k a \<or> (\<exists>v. e = StorageChanged k v a)) es"
  shows "evolves j (j\<lparr>j_state := (j_state j)(a \<mapsto> acc\<lparr>ac_storage := (ac_storage acc)(k \<mapsto> s)\<rparr>), j_journal := j_journal j @ es\<rparr>)"
proof -
  let ?acc = "acc\<lparr>ac_storage := (ac_storage acc)(k \<mapsto> s)\<rparr>"
  have "same_shape ?acc acc" by (auto simp: same_shape_def status_defs)
  moreover have "list_all (neutral ((j_state j)(a \<mapsto> ?acc))) es"
    using assms(2) by (rule list.pred_mono_strong) auto
  ultimately show ?thesis
    using evolves_neutral [OF neutral_put [OF assms(1)]] by (simp add: put_account_def)
qed

lemma sload_evolves:
  assumes "sload D a k skip j db = Some (r, j', db')"
  shows "evolves j j' \<and> (\<forall>l. r = Inr l \<longrightarrow> (\<exists>acc s. j_state j' a = Some acc \<and> ac_storage acc k = Some s
    \<and> ss_present_value s = sl_data l \<and> \<not> ss_is_cold s)) \<and> (r = Inl ColdLoadSkipped \<longrightarrow> skip)"
proof -
  have m: "\<not> ss_is_cold (snd (slot_mark_warm t s))" for t s by (simp add: slot_mark_warm_def Let_def)
  obtain acc where acc: "j_state j a = Some acc" using assms by (auto simp: sload_def)
  have st: "evolves j (j\<lparr>j_state := (j_state j)(a \<mapsto> acc\<lparr>ac_storage := (ac_storage acc)(k \<mapsto> s)\<rparr>),
        j_journal := j_journal j @ [StorageWarmed k a]\<rparr>)"
      "evolves j (j\<lparr>j_state := (j_state j)(a \<mapsto> acc\<lparr>ac_storage := (ac_storage acc)(k \<mapsto> s)\<rparr>)\<rparr>)" for s
    using evolves_slot [OF acc, of k "[StorageWarmed k a]" s] evolves_slot [OF acc, of k "[]" s] by simp_all
  show ?thesis
    using assms acc st m
    by (auto simp: sload_def Let_def shape.grows_refl state_load_new_def slot_new_def split: option.splits if_splits sum.splits prod.splits)
qed

lemma sload_some: "a \<in> dom (j_state j) \<Longrightarrow> \<exists>r j' db'. sload D a k skip j db = Some (r, j', db')"
proof -
  assume "a \<in> dom (j_state j)"
  then have "sload D a k skip j db \<noteq> None" by (auto simp: sload_def)
  then show ?thesis by (cases "sload D a k skip j db") auto
qed

lemma sstore_evolves:
  assumes "a \<in> dom (j_state j)"
  shows "\<exists>r j' db'. sstore D a k v skip j db = Some (r, j', db') \<and> evolves j j' \<and> (r = Inl ColdLoadSkipped \<longrightarrow> skip)"
proof -
  obtain r j1 db1 where l: "sload D a k skip j db = Some (r, j1, db1)" using sload_some [OF assms, of D k skip db] by blast
  note e = sload_evolves [OF l]
  show ?thesis
  proof (cases r)
    case (Inl x)
    then show ?thesis using l e by (auto simp: sstore_def)
  next
    case (Inr p)
    then obtain acc s where s: "j_state j1 a = Some acc" "ac_storage acc k = Some s" using e by auto
    have "evolves j1 (j1\<lparr>j_state := (j_state j1)(a \<mapsto> acc\<lparr>ac_storage := (ac_storage acc)(k \<mapsto> t)\<rparr>),
        j_journal := j_journal j1 @ [StorageChanged k (sl_data p) a]\<rparr>)" for t
      using evolves_slot [OF s(1), of k "[StorageChanged k (sl_data p) a]" t] by simp
    moreover have "j1\<lparr>j_journal := x, j_state := y\<rparr> = j1\<lparr>j_state := y, j_journal := x\<rparr>" for x y by simp
    ultimately have "evolves j (j1\<lparr>j_journal := j_journal j1 @ [StorageChanged k (sl_data p) a],
        j_state := (j_state j1)(a \<mapsto> acc\<lparr>ac_storage := (ac_storage acc)(k \<mapsto> t)\<rparr>)\<rparr>)" for t
      using e shape.grows_trans by metis
    then show ?thesis using l e s Inr by (auto simp: sstore_def Let_def)
  qed
qed

lemma destroy_evolves:
  assumes "j_state j a = Some acc" "\<not> flagged_cold acc" "t \<in> dom (j_state j)"
    and "d = (if \<not> is_selfdestructed acc then GloballySelfdestroyed
      else if \<not> is_selfdestructed_locally acc then LocallySelfdestroyed else RepeatedSelfdestruction)"
  shows "evolves j (put_account a (upd_info f (snd (mark_selfdestructed_locally acc)),
    j_journal j @ [AccountDestroyed b a t d]) j)"
proof -
  let ?acc = "upd_info f (snd (mark_selfdestructed_locally acc))"
  let ?j = "put_account a (?acc, j_journal j @ [AccountDestroyed b a t d]) j"
  let ?u = "add_balance b (case d of
      GloballySelfdestroyed \<Rightarrow> unmark_selfdestructed_locally (unmark_selfdestruct ?acc)
      | LocallySelfdestroyed \<Rightarrow> unmark_selfdestructed_locally ?acc | RepeatedSelfdestruction \<Rightarrow> ?acc)"
  have wf: "account_wf (j_warm_addresses j) a ?acc" if "account_wf (j_warm_addresses j) a acc"
    using that assms(2) by (auto simp: account_wf_def upd_info_def status_defs)
  have u: "same_shape ?u acc" if "account_wf (j_warm_addresses j) a acc"
    using that unfolding assms(4) add_balance_def account_wf_def
    by (auto simp: same_shape_def status_defs upd_info_def)
  let ?st = "(j_state j)(a \<mapsto> ?u)"
  have r: "entries_revert isd [AccountDestroyed b a t d] (j_state ?j, ts)
      = Some (if a = t then ?st else ?st(t \<mapsto> sub_balance b (the (?st t))), ts)" for isd ts
    using assms(3) by (auto simp: put_account_def upd_account_def)
  have s1: "state_shape w ?st (j_state j)" if "account_wf (j_warm_addresses j) a acc" for w
    using assms(1) u [OF that] by (auto simp: state_rel_def)
  have s2: "state_shape w (?st(t \<mapsto> sub_balance b (the (?st t)))) ?st" for w
    using assms(3) by (auto simp: state_rel_def same_shape_neutral)
  have "undone (\<lambda>a. same_shape) account_wf (\<lambda>ts us. True) j [AccountDestroyed b a t d] ?j" if "journal_wf j"
    unfolding undone_def r using s1 shape.rel_trans [OF s2 s1] that assms(1)
    by (auto simp: journal_wf_def put_account_def)
  moreover have "warm_in ?j x" if "warm_in j x" for x
    using that assms(2) by (auto simp: warm_in_def put_account_def upd_info_def status_defs)
  ultimately show ?thesis
    using wf assms(1) by (auto simp: grows_def journal_wf_def put_account_def)
qed

lemma warm_in_dom: "warm_in j a \<Longrightarrow> a \<in> dom (j_state j)"
  by (auto simp: warm_in_def)

lemma evolvesD: "evolves j j' \<Longrightarrow> journal_wf j \<Longrightarrow> journal_wf j'"
  "evolves j j' \<Longrightarrow> journal_wf j \<Longrightarrow> warm_in j a \<Longrightarrow> warm_in j' a"
  "evolves j j' \<Longrightarrow> journal_wf j \<Longrightarrow> j_spec j' = j_spec j"
  by (auto simp: grows_def)

lemma selfdestruct_evolves:
  assumes "journal_wf j" "warm_in j a"
  shows "\<exists>r j' db'. journal_selfdestruct D a t j db = Some (r, j', db') \<and> evolves j j'"
proof -
  obtain r j1 db1 where l: "load_account D t j db = Some (r, j1, db1)" "evolves j j1" "\<And>b. r = Inr b \<Longrightarrow> warm_in j1 t"
    using load_account_evolves(1) [OF assms(1), of D t db] by auto
  show ?thesis
  proof (cases r)
    case (Inl x)
    then show ?thesis using l by (simp add: journal_selfdestruct_def Let_def)
  next
    case (Inr cold)
    note wf1 = evolvesD(1) [OF l(2) assms(1)] and w1 = evolvesD(2) [OF l(2) assms(1) assms(2)]
    obtain tacc acc where acc: "j_state j1 t = Some tacc" "j_state j1 a = Some acc"
      using w1 l(3) [OF Inr] by (auto simp: warm_in_def)
    obtain j2 where j2: "(if a \<noteq> t then map_option (\<lambda>acc. case touch_account t tacc (j_journal j1) of (tacc, es) \<Rightarrow>
        put_account t (add_balance (ai_balance (ac_info acc)) tacc, es) j1) (j_state j1 a) else Some j1) = Some j2"
      and 2: "evolves j1 j2"
      using own_step_touch [of t tacc "j_journal j1"] acc shape.grows_refl evolves_own [OF acc(1) own_step_info]
      by (cases "a = t"; cases "touch_account t tacc (j_journal j1)") (auto simp: add_balance_def)
    obtain acc2 where acc2: "j_state j2 a = Some acc2" "\<not> flagged_cold acc2"
      using evolvesD(2) [OF 2 wf1 w1] by (auto simp: warm_in_def)
    have t2: "t \<in> dom (j_state j2)"
      using evolvesD(2) [OF 2 wf1 l(3) [OF Inr]] by (rule warm_in_dom)
    note e = shape.grows_trans [OF l(2) shape.grows_trans [OF 2]]
    let ?d = "if \<not> is_selfdestructed acc2 then GloballySelfdestroyed
      else if \<not> is_selfdestructed_locally acc2 then LocallySelfdestroyed else RepeatedSelfdestruction"
    have 3: "evolves j (put_account a (upd_info f (snd (mark_selfdestructed_locally acc2)),
        j_journal j2 @ [AccountDestroyed b a t ?d]) j2)" for f b
      using acc2 t2 by (intro e destroy_evolves refl)
    have 4: "evolves j (put_account a (upd_info f acc2, j_journal j2 @ [BalanceTransfer b a t]) j2)" for f b
      by (rule e, rule evolves_neutral, rule neutral_own_entry [OF acc2(1)])
        (use acc2(1) t2 in \<open>auto intro: own_step_info own_step_refl\<close>)
    show ?thesis
      using 3 4 shape.grows_trans [OF l(2) 2]
      unfolding journal_selfdestruct_def Let_def l(1) Inr Option.bind.simps prod.case sum.case acc(1) j2 acc2(1)
      by auto
  qed
qed

lemma load_account_delegated_evolves:
  assumes "journal_wf j"
  shows "\<exists>r j' db'. load_account_delegated D a j db = Some (r, j', db') \<and> evolves j j' \<and> (\<forall>l. r = Inr l \<longrightarrow> warm_in j' a)"
proof -
  obtain r j1 db1 where l: "unwrap_db_error (load_account_mut_optional_code D a (is_enabled_in (j_spec j) PRAGUE) False j db)
      = Some (r, j1, db1)" "evolves j j1" "\<And>b. r = Inr b \<Longrightarrow> warm_in j1 a"
    using unwrap_load_evolves [OF assms, of D a "is_enabled_in (j_spec j) PRAGUE" db] by blast
  note wf1 = evolvesD(1) [OF l(2) assms]
  show ?thesis
  proof (cases r)
    case (Inr b)
    then obtain acc where acc: "j_state j1 a = Some acc" using l(3) by (auto simp: warm_in_def)
    show ?thesis
    proof (cases "\<exists>c. ai_code (ac_info acc) = Some (Eip7702 c)")
      case True
      then obtain c where c: "ai_code (ac_info acc) = Some (Eip7702 c)" ..
      obtain r2 j2 db2 where l2: "unwrap_db_error (load_account_mut_optional_code D (delegated_address c) True False j1 db1)
          = Some (r2, j2, db2)" "evolves j1 j2"
        using unwrap_load_evolves [OF wf1, of D "delegated_address c" True db1] by blast
      show ?thesis
        using l Inr acc c l2 shape.grows_trans [OF l(2) l2(2)] evolvesD(2) [OF l2(2) wf1]
        by (cases r2) (simp_all add: load_account_delegated_def Let_def)
    qed (use l Inr acc in \<open>auto simp: load_account_delegated_def Let_def split: option.split bytecode.split\<close>)
  qed (use l in \<open>simp add: load_account_delegated_def Let_def\<close>)
qed

lemma balance_incr_evolves:
  assumes "journal_wf j"
  shows "\<exists>r j' db'. balance_incr D a v j db = Some (r, j', db') \<and> evolves j j'"
proof -
  obtain r j1 db1 where l: "load_account D a j db = Some (r, j1, db1)" "evolves j j1" "\<And>b. r = Inr b \<Longrightarrow> warm_in j1 a"
    using load_account_evolves(1) [OF assms, of D a db] by auto
  show ?thesis
  proof (cases r)
    case (Inr b)
    then obtain acc where acc: "j_state j1 a = Some acc" using l(3) by (auto simp: warm_in_def)
    show ?thesis
      using l Inr acc shape.grows_trans [OF l(2) evolves_own [OF acc own_ja_balance(1)]]
      by (auto simp: balance_incr_def)
  qed (use l in \<open>auto simp: balance_incr_def\<close>)
qed

end
