(* ===== verification/Database.thy ===== *)
theory Database
  imports Journal
begin

text \<open>
  The databases of \<open>crates/database\<close>: the interfaces \<open>Database\<close> and \<open>DatabaseRef\<close>, the empty
  database (\<open>interface/src/empty_db.rs\<close>), \<open>WrapDatabaseRef\<close> (\<open>interface/src/lib.rs\<close>), and the
  in-memory \<open>CacheDB\<close> and \<open>BenchmarkDB\<close> (\<open>src/in_memory_db.rs\<close>). A \<open>DatabaseRef\<close> is a record of
  its methods on the type \<open>'x\<close> of the database; \<open>Database\<close> is the record of the journal theory.
  The changes of a commit are listed in the order the hash map yields them.
\<close>

record ('x, 'e) database_ref =
  dr_basic :: "'x \<Rightarrow> address \<Rightarrow> 'e + account_info option"
  dr_code_by_hash :: "'x \<Rightarrow> b256 \<Rightarrow> 'e + bytecode"
  dr_storage :: "'x \<Rightarrow> address \<Rightarrow> u256 \<Rightarrow> 'e + u256"
  dr_block_hash :: "'x \<Rightarrow> u64 \<Rightarrow> 'e + b256"

definition wrap_database_ref :: "('x, 'e) database_ref \<Rightarrow> ('x, 'e) database" where
  "wrap_database_ref X =
     \<lparr>db_basic = \<lambda>x a. (dr_basic X x a, x), db_code_by_hash = \<lambda>x h. (dr_code_by_hash X x h, x),
      db_storage = \<lambda>x a k. (dr_storage X x a k, x), db_block_hash = \<lambda>x n. (dr_block_hash X x n, x)\<rparr>"

section \<open>The empty database\<close>

text \<open>\<open>u64::to_string\<close> as bytes: the decimal digits.\<close>

fun decimal :: "nat \<Rightarrow> bytes" where
  "decimal n = (if n < 10 then [of_nat (48 + n)] else decimal (n div 10) @ [of_nat (48 + n mod 10)])"

declare decimal.simps [simp del]

definition empty_db_ref :: "(bytes \<Rightarrow> b256) \<Rightarrow> (unit, 'e) database_ref" where
  "empty_db_ref keccak256 =
     \<lparr>dr_basic = \<lambda>_ _. Inr None, dr_code_by_hash = \<lambda>_ _. Inr bytecode_new,
      dr_storage = \<lambda>_ _ _. Inr 0, dr_block_hash = \<lambda>_ number. Inr (keccak256 (decimal (unat number)))\<rparr>"

definition empty_db :: "(bytes \<Rightarrow> b256) \<Rightarrow> (unit, 'e) database" where
  "empty_db keccak256 =
     (let X = empty_db_ref keccak256 in
      \<lparr>db_basic = \<lambda>x a. (dr_basic X x a, x), db_code_by_hash = \<lambda>x h. (dr_code_by_hash X x h, x),
       db_storage = \<lambda>x a k. (dr_storage X x a k, x), db_block_hash = \<lambda>x n. (dr_block_hash X x n, x)\<rparr>)"

section \<open>The benchmark database\<close>

definition BENCH_TARGET :: address where
  "BENCH_TARGET = 0xffffffffffffffffffffffffffffffffffffffff"

definition BENCH_CALLER :: address where
  "BENCH_CALLER = 0xeeeeeeeeeeeeeeeeeeeeeeeeeeeeeeeeeeeeeeee"

definition TEST_BALANCE :: u256 where
  "TEST_BALANCE = 10000000000000000"

definition new_bytecode :: "(bytes \<Rightarrow> b256) \<Rightarrow> bytecode \<Rightarrow> bytecode \<times> b256" where
  "new_bytecode keccak256 b = (b, hash_slow keccak256 b)"

definition benchmark_db :: "(bytecode \<times> b256, 'e) database" where
  "benchmark_db =
     \<lparr>db_basic = \<lambda>db address.
        (Inr (if address = BENCH_TARGET then
                Some \<lparr>ai_balance = TEST_BALANCE, ai_nonce = 1, ai_code_hash = snd db, ai_storage_id = None,
                      ai_code = Some (fst db)\<rparr>
              else if address = BENCH_CALLER then
                Some \<lparr>ai_balance = TEST_BALANCE, ai_nonce = 0, ai_code_hash = KECCAK_EMPTY, ai_storage_id = None,
                      ai_code = None\<rparr>
              else None), db),
      db_code_by_hash = \<lambda>db _. (Inr bytecode_new, db),
      db_storage = \<lambda>db _ _. (Inr 0, db),
      db_block_hash = \<lambda>db _. (Inr 0, db)\<rparr>"

section \<open>The cache\<close>

datatype account_state = NotExisting | Touched | StorageCleared | StateNone

definition is_storage_cleared :: "account_state \<Rightarrow> bool" where
  "is_storage_cleared s \<longleftrightarrow> s = StorageCleared"

record db_account =
  da_info :: account_info
  da_account_state :: account_state
  da_storage :: "u256 \<rightharpoonup> u256"

definition db_account_default :: db_account where
  "db_account_default = \<lparr>da_info = account_info_default, da_account_state = StateNone, da_storage = Map.empty\<rparr>"

definition db_account_new_not_existing :: db_account where
  "db_account_new_not_existing = db_account_default\<lparr>da_account_state := NotExisting\<rparr>"

definition db_account_info :: "db_account \<Rightarrow> account_info option" where
  "db_account_info acc = (if da_account_state acc = NotExisting then None else Some (da_info acc))"

definition db_account_from :: "account_info \<Rightarrow> db_account" where
  "db_account_from info = db_account_default\<lparr>da_info := info, da_account_state := StateNone\<rparr>"

definition db_account_from_option :: "account_info option \<Rightarrow> db_account" where
  "db_account_from_option r =
     (case r of Some info \<Rightarrow> db_account_from info | None \<Rightarrow> db_account_new_not_existing)"

record cache =
  ca_accounts :: "address \<rightharpoonup> db_account"
  ca_contracts :: "b256 \<rightharpoonup> bytecode"
  ca_logs :: "log list"
  ca_block_hashes :: "u256 \<rightharpoonup> b256"

definition cache_default :: cache where
  "cache_default =
     \<lparr>ca_accounts = Map.empty, ca_contracts = [KECCAK_EMPTY \<mapsto> bytecode_new, 0 \<mapsto> bytecode_new],
      ca_logs = [], ca_block_hashes = Map.empty\<rparr>"

record 'x cache_db =
  cd_cache :: cache
  cd_db :: 'x

definition cache_db_new :: "'x \<Rightarrow> 'x cache_db" where
  "cache_db_new db = \<lparr>cd_cache = cache_default, cd_db = db\<rparr>"

definition flatten :: "'x cache_db cache_db \<Rightarrow> 'x cache_db" where
  "flatten self =
     (let c = cd_cache self; inner = cd_db self; i = cd_cache inner
      in inner\<lparr>cd_cache := i\<lparr>ca_accounts := ca_accounts i ++ ca_accounts c,
           ca_contracts := ca_contracts i ++ ca_contracts c, ca_logs := ca_logs i @ ca_logs c,
           ca_block_hashes := ca_block_hashes i ++ ca_block_hashes c\<rparr>\<rparr>)"

definition discard_outer :: "'x cache_db cache_db \<Rightarrow> 'x cache_db" where
  "discard_outer self = cd_db self"

definition nest :: "'x cache_db \<Rightarrow> 'x cache_db cache_db" where
  "nest self = cache_db_new self"

definition put_db_account :: "address \<Rightarrow> db_account \<Rightarrow> 'x cache_db \<Rightarrow> 'x cache_db" where
  "put_db_account address acc self =
     self\<lparr>cd_cache := (cd_cache self)\<lparr>ca_accounts := (ca_accounts (cd_cache self))(address \<mapsto> acc)\<rparr>\<rparr>"

text \<open>\<open>accounts.entry(address).or_default()\<close>.\<close>

definition account_or_default :: "address \<Rightarrow> 'x cache_db \<Rightarrow> db_account" where
  "account_or_default address self =
     (case ca_accounts (cd_cache self) address of None \<Rightarrow> db_account_default | Some acc \<Rightarrow> acc)"

definition insert_contract ::
    "(bytes \<Rightarrow> b256) \<Rightarrow> account_info \<Rightarrow> 'x cache_db \<Rightarrow> account_info \<times> 'x cache_db" where
  "insert_contract keccak256 account self =
     (let (account, self) =
            (case ai_code account of
               Some code \<Rightarrow>
                 if \<not> bytecode_is_empty code then
                   (let account = (if ai_code_hash account = KECCAK_EMPTY
                                   then account\<lparr>ai_code_hash := hash_slow keccak256 code\<rparr> else account);
                        cs = ca_contracts (cd_cache self)
                    in (account,
                        if cs (ai_code_hash account) = None
                        then self\<lparr>cd_cache := (cd_cache self)\<lparr>ca_contracts := cs(ai_code_hash account \<mapsto> code)\<rparr>\<rparr>
                        else self))
                 else (account, self)
             | None \<Rightarrow> (account, self))
      in (if ai_code_hash account = 0 then account\<lparr>ai_code_hash := KECCAK_EMPTY\<rparr> else account, self))"

definition insert_account_info ::
    "(bytes \<Rightarrow> b256) \<Rightarrow> address \<Rightarrow> account_info \<Rightarrow> 'x cache_db \<Rightarrow> 'x cache_db" where
  "insert_account_info keccak256 address info self =
     (let (info, self) = insert_contract keccak256 info self;
          account_entry = (account_or_default address self)\<lparr>da_info := info\<rparr>;
          account_entry = (if da_account_state account_entry = NotExisting
                           then account_entry\<lparr>da_account_state := StateNone\<rparr> else account_entry)
      in put_db_account address account_entry self)"

section \<open>Reading through the cache\<close>

definition cdb_load_account ::
    "('x, 'e) database_ref \<Rightarrow> address \<Rightarrow> 'x cache_db \<Rightarrow> ('e + db_account) \<times> 'x cache_db" where
  "cdb_load_account X address self =
     (case ca_accounts (cd_cache self) address of
        Some acc \<Rightarrow> (Inr acc, self)
      | None \<Rightarrow>
          (case dr_basic X (cd_db self) address of
             Inl e \<Rightarrow> (Inl e, self)
           | Inr r \<Rightarrow>
               (let acc = (case r of Some info \<Rightarrow> db_account_default\<lparr>da_info := info\<rparr>
                                   | None \<Rightarrow> db_account_new_not_existing)
                in (Inr acc, put_db_account address acc self))))"

definition insert_account_storage ::
    "('x, 'e) database_ref \<Rightarrow> address \<Rightarrow> u256 \<Rightarrow> u256 \<Rightarrow> 'x cache_db \<Rightarrow> ('e + unit) \<times> 'x cache_db" where
  "insert_account_storage X address slot value self =
     (case cdb_load_account X address self of
        (Inl e, self) \<Rightarrow> (Inl e, self)
      | (Inr acc, self) \<Rightarrow>
          (Inr (), put_db_account address (acc\<lparr>da_storage := (da_storage acc)(slot \<mapsto> value)\<rparr>) self))"

definition replace_account_storage ::
    "('x, 'e) database_ref \<Rightarrow> address \<Rightarrow> (u256 \<rightharpoonup> u256) \<Rightarrow> 'x cache_db \<Rightarrow> ('e + unit) \<times> 'x cache_db" where
  "replace_account_storage X address storage self =
     (case cdb_load_account X address self of
        (Inl e, self) \<Rightarrow> (Inl e, self)
      | (Inr acc, self) \<Rightarrow>
          (Inr (), put_db_account address (acc\<lparr>da_account_state := StorageCleared, da_storage := storage\<rparr>) self))"

definition cdb_basic ::
    "('x, 'e) database_ref \<Rightarrow> 'x cache_db \<Rightarrow> address \<Rightarrow> ('e + account_info option) \<times> 'x cache_db" where
  "cdb_basic X self address =
     (case ca_accounts (cd_cache self) address of
        Some basic \<Rightarrow> (Inr (db_account_info basic), self)
      | None \<Rightarrow>
          (case dr_basic X (cd_db self) address of
             Inl e \<Rightarrow> (Inl e, self)
           | Inr r \<Rightarrow>
               (let basic = (case r of Some info \<Rightarrow> db_account_default\<lparr>da_info := info\<rparr>
                                     | None \<Rightarrow> db_account_new_not_existing)
                in (Inr (db_account_info basic), put_db_account address basic self))))"

definition cdb_code_by_hash ::
    "('x, 'e) database_ref \<Rightarrow> 'x cache_db \<Rightarrow> b256 \<Rightarrow> ('e + bytecode) \<times> 'x cache_db" where
  "cdb_code_by_hash X self code_hash =
     (case ca_contracts (cd_cache self) code_hash of
        Some code \<Rightarrow> (Inr code, self)
      | None \<Rightarrow>
          (case dr_code_by_hash X (cd_db self) code_hash of
             Inl e \<Rightarrow> (Inl e, self)
           | Inr code \<Rightarrow>
               (Inr code, self\<lparr>cd_cache := (cd_cache self)
                  \<lparr>ca_contracts := (ca_contracts (cd_cache self))(code_hash \<mapsto> code)\<rparr>\<rparr>)))"

definition cdb_storage ::
    "('x, 'e) database_ref \<Rightarrow> 'x cache_db \<Rightarrow> address \<Rightarrow> u256 \<Rightarrow> ('e + u256) \<times> 'x cache_db" where
  "cdb_storage X self address index =
     (case ca_accounts (cd_cache self) address of
        Some acc_entry \<Rightarrow>
          (case da_storage acc_entry index of
             Some v \<Rightarrow> (Inr v, self)
           | None \<Rightarrow>
               if da_account_state acc_entry \<in> {StorageCleared, NotExisting} then (Inr 0, self)
               else
                 (case dr_storage X (cd_db self) address index of
                    Inl e \<Rightarrow> (Inl e, self)
                  | Inr slot \<Rightarrow>
                      (Inr slot, put_db_account address
                         (acc_entry\<lparr>da_storage := (da_storage acc_entry)(index \<mapsto> slot)\<rparr>) self)))
      | None \<Rightarrow>
          (case dr_basic X (cd_db self) address of
             Inl e \<Rightarrow> (Inl e, self)
           | Inr info \<Rightarrow>
               if info \<noteq> None then
                 (case dr_storage X (cd_db self) address index of
                    Inl e \<Rightarrow> (Inl e, self)
                  | Inr value \<Rightarrow>
                      (let account = db_account_from_option info
                       in (Inr value, put_db_account address
                            (account\<lparr>da_storage := (da_storage account)(index \<mapsto> value)\<rparr>) self)))
               else (Inr 0, put_db_account address (db_account_from_option info) self)))"

definition cdb_block_hash ::
    "('x, 'e) database_ref \<Rightarrow> 'x cache_db \<Rightarrow> u64 \<Rightarrow> ('e + b256) \<times> 'x cache_db" where
  "cdb_block_hash X self number =
     (case ca_block_hashes (cd_cache self) (ucast number) of
        Some h \<Rightarrow> (Inr h, self)
      | None \<Rightarrow>
          (case dr_block_hash X (cd_db self) number of
             Inl e \<Rightarrow> (Inl e, self)
           | Inr hash \<Rightarrow>
               (Inr hash, self\<lparr>cd_cache := (cd_cache self)
                  \<lparr>ca_block_hashes := (ca_block_hashes (cd_cache self))(ucast number \<mapsto> hash)\<rparr>\<rparr>)))"

definition cache_database :: "('x, 'e) database_ref \<Rightarrow> ('x cache_db, 'e) database" where
  "cache_database X =
     \<lparr>db_basic = cdb_basic X, db_code_by_hash = cdb_code_by_hash X, db_storage = cdb_storage X,
      db_block_hash = cdb_block_hash X\<rparr>"

definition cdb_basic_ref ::
    "('x, 'e) database_ref \<Rightarrow> 'x cache_db \<Rightarrow> address \<Rightarrow> 'e + account_info option" where
  "cdb_basic_ref X self address =
     (case ca_accounts (cd_cache self) address of
        Some acc \<Rightarrow> Inr (db_account_info acc)
      | None \<Rightarrow> dr_basic X (cd_db self) address)"

definition cdb_code_by_hash_ref :: "('x, 'e) database_ref \<Rightarrow> 'x cache_db \<Rightarrow> b256 \<Rightarrow> 'e + bytecode" where
  "cdb_code_by_hash_ref X self code_hash =
     (case ca_contracts (cd_cache self) code_hash of
        Some code \<Rightarrow> Inr code
      | None \<Rightarrow> dr_code_by_hash X (cd_db self) code_hash)"

definition cdb_storage_ref ::
    "('x, 'e) database_ref \<Rightarrow> 'x cache_db \<Rightarrow> address \<Rightarrow> u256 \<Rightarrow> 'e + u256" where
  "cdb_storage_ref X self address index =
     (case ca_accounts (cd_cache self) address of
        Some acc_entry \<Rightarrow>
          (case da_storage acc_entry index of
             Some v \<Rightarrow> Inr v
           | None \<Rightarrow>
               if da_account_state acc_entry \<in> {StorageCleared, NotExisting} then Inr 0
               else dr_storage X (cd_db self) address index)
      | None \<Rightarrow> dr_storage X (cd_db self) address index)"

definition cdb_block_hash_ref :: "('x, 'e) database_ref \<Rightarrow> 'x cache_db \<Rightarrow> u64 \<Rightarrow> 'e + b256" where
  "cdb_block_hash_ref X self number =
     (case ca_block_hashes (cd_cache self) (ucast number) of
        Some h \<Rightarrow> Inr h
      | None \<Rightarrow> dr_block_hash X (cd_db self) number)"

definition cache_database_ref :: "('x, 'e) database_ref \<Rightarrow> ('x cache_db, 'e) database_ref" where
  "cache_database_ref X =
     \<lparr>dr_basic = cdb_basic_ref X, dr_code_by_hash = cdb_code_by_hash_ref X, dr_storage = cdb_storage_ref X,
      dr_block_hash = cdb_block_hash_ref X\<rparr>"

section \<open>Committing changes\<close>

definition commit_account ::
    "(bytes \<Rightarrow> b256) \<Rightarrow> address \<times> account \<Rightarrow> 'x cache_db \<Rightarrow> 'x cache_db" where
  "commit_account keccak256 = (\<lambda>(address, account) self.
     if \<not> is_touched account then self
     else if is_selfdestructed account then
       put_db_account address
         ((account_or_default address self)\<lparr>da_storage := Map.empty, da_account_state := NotExisting,
            da_info := account_info_default\<rparr>) self
     else
       (let is_newly_created = is_created account;
            (info, self) = insert_contract keccak256 (ac_info account) self;
            db_account = (account_or_default address self)\<lparr>da_info := info\<rparr>;
            db_account =
              (if is_newly_created then db_account\<lparr>da_storage := Map.empty, da_account_state := StorageCleared\<rparr>
               else if is_storage_cleared (da_account_state db_account)
               then db_account\<lparr>da_account_state := StorageCleared\<rparr>
               else db_account\<lparr>da_account_state := Touched\<rparr>);
            db_account = db_account\<lparr>da_storage := da_storage db_account
              ++ (map_option ss_present_value \<circ> ac_storage account)\<rparr>
        in put_db_account address db_account self))"

definition cdb_commit ::
    "(bytes \<Rightarrow> b256) \<Rightarrow> (address \<times> account) list \<Rightarrow> 'x cache_db \<Rightarrow> 'x cache_db" where
  "cdb_commit keccak256 changes self = fold (commit_account keccak256) changes self"

section \<open>The cache is transparent\<close>

text \<open>What the mutable \<open>storage\<close> returns, as a function of the cache and the underlying database. It asks for
  the account before it asks for the slot: an account that is not cached and cannot be read gives its
  error, and one that does not exist has only zero slots.\<close>

definition stored_value :: "('x, 'e) database_ref \<Rightarrow> 'x cache_db \<Rightarrow> address \<Rightarrow> u256 \<Rightarrow> 'e + u256" where
  "stored_value X c a k =
     (case ca_accounts (cd_cache c) a of
        Some _ \<Rightarrow> cdb_storage_ref X c a k
      | None \<Rightarrow>
          (case dr_basic X (cd_db c) a of
             Inl e \<Rightarrow> Inl e
           | Inr None \<Rightarrow> Inr 0
           | Inr (Some _) \<Rightarrow> cdb_storage_ref X c a k))"

definition same_reads :: "('x, 'e) database_ref \<Rightarrow> 'x cache_db \<Rightarrow> 'x cache_db \<Rightarrow> bool" where
  "same_reads X c c' \<longleftrightarrow> (\<forall>a. cdb_basic_ref X c' a = cdb_basic_ref X c a)
     \<and> (\<forall>h. cdb_code_by_hash_ref X c' h = cdb_code_by_hash_ref X c h)
     \<and> (\<forall>a k. stored_value X c' a k = stored_value X c a k)
     \<and> (\<forall>n. cdb_block_hash_ref X c' n = cdb_block_hash_ref X c n)"

text \<open>The reads of the \<open>Database\<close> trait and the cache that one of them leaves.\<close>

datatype db_read = ReadBasic address | ReadCode b256 | ReadStorage address u256 | ReadBlockHash u64

fun after_read :: "('x, 'e) database_ref \<Rightarrow> db_read \<Rightarrow> 'x cache_db \<Rightarrow> 'x cache_db" where
  "after_read X (ReadBasic a) c = snd (cdb_basic X c a)"
| "after_read X (ReadCode h) c = snd (cdb_code_by_hash X c h)"
| "after_read X (ReadStorage a k) c = snd (cdb_storage X c a k)"
| "after_read X (ReadBlockHash n) c = snd (cdb_block_hash X c n)"

lemmas cdb_ref_defs = cdb_basic_ref_def cdb_code_by_hash_ref_def cdb_storage_ref_def cdb_block_hash_ref_def

lemma same_reads_refl [simp]: "same_reads X c c"
  by (simp add: same_reads_def)

lemma same_reads_trans: "same_reads X c c' \<Longrightarrow> same_reads X c' c'' \<Longrightarrow> same_reads X c c''"
  by (simp add: same_reads_def)

lemma put_db_account_simps [simp]:
  "ca_accounts (cd_cache (put_db_account a acc c)) = (ca_accounts (cd_cache c))(a \<mapsto> acc)"
  "ca_contracts (cd_cache (put_db_account a acc c)) = ca_contracts (cd_cache c)"
  "ca_block_hashes (cd_cache (put_db_account a acc c)) = ca_block_hashes (cd_cache c)"
  "cd_db (put_db_account a acc c) = cd_db c"
  by (simp_all add: put_db_account_def)

lemma same_reads_put:
  assumes "Inr (db_account_info acc) = cdb_basic_ref X c a"
    and "\<And>k. (case da_storage acc k of Some v \<Rightarrow> Inr v | None \<Rightarrow>
        if da_account_state acc \<in> {StorageCleared, NotExisting} then Inr 0 else dr_storage X (cd_db c) a k)
      = stored_value X c a k"
  shows "same_reads X c (put_db_account a acc c)"
proof -
  have "stored_value X (put_db_account a acc c) a k = stored_value X c a k" for k
    unfolding assms(2) [symmetric] by (simp add: stored_value_def cdb_storage_ref_def split: option.split)
  moreover have "stored_value X (put_db_account a acc c) b k = stored_value X c b k" if "b \<noteq> a" for b k
    using that by (simp add: stored_value_def cdb_storage_ref_def cong: option.case_cong if_cong sum.case_cong)
  ultimately have "stored_value X (put_db_account a acc c) b k = stored_value X c b k" for b k
    by (cases "b = a") simp_all
  then show ?thesis
    using assms(1) by (simp add: same_reads_def cdb_ref_defs cong: option.case_cong)
qed

lemmas db_account_defs = db_account_info_def db_account_default_def db_account_new_not_existing_def
  db_account_from_option_def db_account_from_def

lemma cdb_basic_transparent:
  "fst (cdb_basic X c a) = cdb_basic_ref X c a \<and> same_reads X c (snd (cdb_basic X c a))"
proof (cases "ca_accounts (cd_cache c) a")
  case None
  show ?thesis
  proof (cases "dr_basic X (cd_db c) a")
    case (Inr r)
    have "same_reads X c (put_db_account a (case r of Some info \<Rightarrow> db_account_default\<lparr>da_info := info\<rparr>
        | None \<Rightarrow> db_account_new_not_existing) c)"
      by (rule same_reads_put; cases r)
        (use None Inr in \<open>simp_all add: cdb_ref_defs stored_value_def db_account_defs\<close>)
    then show ?thesis using None Inr by (cases r) (auto simp: cdb_basic_def cdb_basic_ref_def db_account_defs)
  qed (use None in \<open>simp add: cdb_basic_def cdb_basic_ref_def\<close>)
qed (simp add: cdb_basic_def cdb_basic_ref_def)

lemma cdb_storage_transparent:
  "fst (cdb_storage X c a k) = stored_value X c a k \<and> same_reads X c (snd (cdb_storage X c a k))"
proof (cases "ca_accounts (cd_cache c) a")
  case None
  show ?thesis
  proof (cases "dr_basic X (cd_db c) a")
    case (Inr r)
    have "same_reads X c (put_db_account a (db_account_from_option r) c)" if "r = None"
      by (rule same_reads_put)
        (use that None Inr in \<open>simp_all add: cdb_ref_defs stored_value_def db_account_defs\<close>)
    moreover have "same_reads X c (put_db_account a ((db_account_from_option r)\<lparr>da_storage :=
        (da_storage (db_account_from_option r))(k \<mapsto> v)\<rparr>) c)" if "r = Some i" "dr_storage X (cd_db c) a k = Inr v" for v i
      by (rule same_reads_put)
        (use that None Inr in \<open>simp_all add: cdb_ref_defs stored_value_def db_account_defs\<close>)
    ultimately show ?thesis using None Inr
      by (cases r) (auto simp: cdb_storage_def stored_value_def cdb_storage_ref_def Let_def split: sum.split)
  qed (use None in \<open>simp add: cdb_storage_def stored_value_def\<close>)
next
  case (Some acc)
  have "same_reads X c (put_db_account a (acc\<lparr>da_storage := (da_storage acc)(k \<mapsto> v)\<rparr>) c)"
    if "da_storage acc k = None" "da_account_state acc \<notin> {StorageCleared, NotExisting}" "dr_storage X (cd_db c) a k = Inr v" for v
    by (rule same_reads_put)
      (use that Some in \<open>auto simp: cdb_ref_defs stored_value_def db_account_info_def\<close>)
  then show ?thesis
    using Some by (auto simp: cdb_storage_def stored_value_def cdb_storage_ref_def split: option.split sum.split)
qed

lemma cdb_code_transparent:
  "fst (cdb_code_by_hash X c h) = cdb_code_by_hash_ref X c h \<and> same_reads X c (snd (cdb_code_by_hash X c h))"
  by (auto simp: cdb_code_by_hash_def cdb_ref_defs stored_value_def same_reads_def split: option.split sum.split)

lemma ucast_ucast_id_u64: "(ucast (ucast m :: u256) :: u64) = m" for m :: u64
  by (rule bit_word_eqI) (simp add: bit_simps)

lemma cdb_block_hash_transparent:
  "fst (cdb_block_hash X c n) = cdb_block_hash_ref X c n \<and> same_reads X c (snd (cdb_block_hash X c n))"
proof -
  have "(ucast m :: u256) = ucast n \<longleftrightarrow> m = n" for m :: u64
    by (metis ucast_ucast_id_u64)
  then show ?thesis
    by (auto simp: cdb_block_hash_def cdb_ref_defs stored_value_def same_reads_def split: option.split sum.split)
qed

lemma same_reads_after: "same_reads X c (fold (after_read X) rs c)"
proof (induction rs arbitrary: c)
  case (Cons r rs)
  have "same_reads X c (after_read X r c)"
    by (cases r) (simp_all add: cdb_basic_transparent cdb_code_transparent cdb_storage_transparent cdb_block_hash_transparent)
  then show ?case using same_reads_trans [OF _ Cons.IH] by simp
qed simp

section \<open>What a commit makes readable\<close>

lemma insert_contract_accounts [simp]:
  "ca_accounts (cd_cache (snd (insert_contract kec i c))) = ca_accounts (cd_cache c)"
  "cd_db (snd (insert_contract kec i c)) = cd_db c"
  "fst (insert_contract kec i c) = fst (insert_contract kec i d)"
  by (auto simp: insert_contract_def Let_def split: option.split)

lemma commit_account_other:
  "a \<noteq> fst ch \<Longrightarrow> ca_accounts (cd_cache (commit_account kec ch c)) a = ca_accounts (cd_cache c) a"
  "cd_db (commit_account kec ch c) = cd_db c"
  by (cases ch; simp add: commit_account_def Let_def case_prod_beta)+

lemma commit_account_local:
  "ca_accounts (cd_cache c) a = ca_accounts (cd_cache d) a \<Longrightarrow>
     ca_accounts (cd_cache (commit_account kec (a, acc) c)) a = ca_accounts (cd_cache (commit_account kec (a, acc) d)) a"
  using insert_contract_accounts(3) [of kec "ac_info acc" c d]
  by (simp add: commit_account_def Let_def case_prod_beta account_or_default_def)

lemma cdb_commit_accounts:
  assumes "distinct (map fst ch)"
  shows "ca_accounts (cd_cache (cdb_commit kec ch c)) a =
    (case map_of ch a of None \<Rightarrow> ca_accounts (cd_cache c) a
     | Some acc \<Rightarrow> ca_accounts (cd_cache (commit_account kec (a, acc) c)) a)"
  using assms
proof (induction ch arbitrary: c)
  case (Cons x ch)
  obtain b acc where x: "x = (b, acc)" by fastforce
  have "ca_accounts (cd_cache (cdb_commit kec (x # ch) c)) a
      = ca_accounts (cd_cache (cdb_commit kec ch (commit_account kec x c))) a" by (simp add: cdb_commit_def)
  also have "\<dots> = (case map_of ch a of None \<Rightarrow> ca_accounts (cd_cache (commit_account kec x c)) a
     | Some acc \<Rightarrow> ca_accounts (cd_cache (commit_account kec (a, acc) (commit_account kec x c))) a)"
    using Cons by simp
  also have "\<dots> = (case map_of (x # ch) a of None \<Rightarrow> ca_accounts (cd_cache c) a
     | Some acc \<Rightarrow> ca_accounts (cd_cache (commit_account kec (a, acc) c)) a)"
  proof (cases "a = b")
    case True
    then have "map_of ch a = None" using Cons.prems x by (simp add: map_of_eq_None_iff)
    then show ?thesis using True x by simp
  next
    case False
    then have o: "ca_accounts (cd_cache (commit_account kec x c)) a = ca_accounts (cd_cache c) a"
      using commit_account_other(1) [of a x kec c] x by simp
    show ?thesis using False x o commit_account_local [OF o] by (auto split: option.split)
  qed
  finally show ?case .
qed (simp add: cdb_commit_def)

lemma cdb_commit_db: "cd_db (cdb_commit kec ch c) = cd_db c"
  unfolding cdb_commit_def by (induction ch arbitrary: c) (simp_all add: commit_account_other)

section \<open>Properties\<close>

text \<open>C17. The cache of a \<open>CacheDB\<close> is invisible: after any sequence of reads, in any order and with any
  repetitions and failures, \<open>basic\<close>, \<open>code_by_hash\<close> and \<open>block_hash\<close> return what their \<open>_ref\<close> methods return on the
  database as it was before these reads. So does \<open>storage\<close> for an account that was cached or that the
  underlying database has. For an account that is not cached, \<open>storage\<close> returns the error of \<open>basic_ref\<close> when that
  fails, and zero when there is no such account, where \<open>storage_ref\<close> would ask the underlying database for the
  slot. Nothing is assumed of the underlying database.\<close>
theorem cache_db_transparent:
  "let c' = fold (after_read X) rs c in
     fst (cdb_basic X c' a) = cdb_basic_ref X c a
     \<and> fst (cdb_code_by_hash X c' h) = cdb_code_by_hash_ref X c h
     \<and> fst (cdb_block_hash X c' n) = cdb_block_hash_ref X c n
     \<and> fst (cdb_storage X c' a k) =
         (case (ca_accounts (cd_cache c) a, dr_basic X (cd_db c) a) of
            (None, Inl e) \<Rightarrow> Inl e
          | (None, Inr None) \<Rightarrow> Inr 0
          | _ \<Rightarrow> cdb_storage_ref X c a k)"
  using same_reads_after [of X c rs]
  by (simp add: Let_def cdb_basic_transparent cdb_code_transparent cdb_block_hash_transparent cdb_storage_transparent
      same_reads_def stored_value_def split: option.split sum.split)

text \<open>C18. After a commit, an account that was touched reads as the execution left it: a destroyed
  account does not exist and has zero storage, any other account has the committed balance and nonce,
  its committed slots, and zero in every other slot when it was created in the transaction; accounts
  that were not touched read as before.\<close>
theorem cache_db_commit_reads:
  assumes "distinct (map fst changes)" "map_of changes a = Some acc" "c' = cdb_commit keccak256 changes c"
  shows "(is_touched acc \<and> is_selfdestructed acc \<longrightarrow>
      cdb_basic_ref X c' a = Inr None \<and> cdb_storage_ref X c' a k = Inr 0)
    \<and> (is_touched acc \<and> \<not> is_selfdestructed acc \<longrightarrow>
      (\<exists>i. cdb_basic_ref X c' a = Inr (Some i) \<and> ai_balance i = ai_balance (ac_info acc) \<and> ai_nonce i = ai_nonce (ac_info acc)
        \<and> (case ac_storage acc k of Some s \<Rightarrow> cdb_storage_ref X c' a k = Inr (ss_present_value s)
           | None \<Rightarrow> is_created acc \<longrightarrow> cdb_storage_ref X c' a k = Inr 0)))
    \<and> (\<not> is_touched acc \<longrightarrow> cdb_basic_ref X c' a = cdb_basic_ref X c a \<and> cdb_storage_ref X c' a k = cdb_storage_ref X c a k)"
proof -
  have e: "ca_accounts (cd_cache c') a = ca_accounts (cd_cache (commit_account keccak256 (a, acc) c)) a" "cd_db c' = cd_db c"
    using cdb_commit_accounts [OF assms(1), of keccak256 c a] assms(2,3) cdb_commit_db by simp_all
  obtain i d where i: "insert_contract keccak256 (ac_info acc) c = (i, d)" by fastforce
  then have "ai_balance i = ai_balance (ac_info acc)" "ai_nonce i = ai_nonce (ac_info acc)"
    by (auto simp: insert_contract_def Let_def split: option.splits if_splits)
  then have "\<exists>i. cdb_basic_ref X c' a = Inr (Some i) \<and> ai_balance i = ai_balance (ac_info acc) \<and> ai_nonce i = ai_nonce (ac_info acc)
        \<and> (case ac_storage acc k of Some s \<Rightarrow> cdb_storage_ref X c' a k = Inr (ss_present_value s)
           | None \<Rightarrow> is_created acc \<longrightarrow> cdb_storage_ref X c' a k = Inr 0)" if "is_touched acc" "\<not> is_selfdestructed acc"
    using e that i
    by (auto simp: commit_account_def Let_def cdb_ref_defs db_account_info_def map_add_def split: option.split)
  then show ?thesis using e by (auto simp: commit_account_def cdb_ref_defs db_account_info_def cong: option.case_cong if_cong)
qed

theorem cache_db_commit_reads_witness:
  "cdb_basic_ref (empty_db_ref (\<lambda>_. 0) :: (unit, nat) database_ref)
     (cdb_commit (\<lambda>_. 0) [(7, mark_selfdestruct (mark_touch (new_not_existing 0)))] (cache_db_new ())) 7 = Inr None
   \<and> cdb_storage_ref (empty_db_ref (\<lambda>_. 0) :: (unit, nat) database_ref)
     (cdb_commit (\<lambda>_. 0) [(7, mark_touch ((new_not_existing 0)\<lparr>ac_storage := [1 \<mapsto> slot_new 5 0]\<rparr>))]
       (cache_db_new ())) 7 1 = Inr 5"
proof -
  let ?X = "empty_db_ref (\<lambda>_. 0) :: (unit, nat) database_ref"
  let ?d = "mark_selfdestruct (mark_touch (new_not_existing 0))"
  let ?t = "mark_touch ((new_not_existing 0)\<lparr>ac_storage := [1 \<mapsto> slot_new 5 0]\<rparr>)"
  have f: "is_touched ?d" "is_selfdestructed ?d" "is_touched ?t" "\<not> is_selfdestructed ?t"
    by (simp_all add: is_touched_def mark_touch_def mark_selfdestruct_def is_selfdestructed_def new_not_existing_def)
      (simp add: flag_contains_def flag_defs)
  have s: "ac_storage ?t 1 = Some (slot_new 5 0)" by (simp add: mark_touch_def)
  show ?thesis
    using cache_db_commit_reads [where X = ?X and k = 1, OF _ _ refl, of "[(7, ?d)]" 7 ?d "\<lambda>_. 0" "cache_db_new ()"]
      cache_db_commit_reads [where X = ?X and k = 1, OF _ _ refl, of "[(7, ?t)]" 7 ?t "\<lambda>_. 0" "cache_db_new ()"] f s
    by (auto simp: slot_new_def)
qed

text \<open>The storage of an account destroyed in one commit becomes readable again when a later commit
  touches the account without creating it: its state is \<open>NotExisting\<close>, which is not preserved as
  \<open>StorageCleared\<close> is.\<close>

theorem destroyed_storage_reappears:
  assumes "is_touched acc1" "is_selfdestructed acc1"
    and "is_touched acc2" "\<not> is_selfdestructed acc2" "\<not> is_created acc2" "ac_storage acc2 k = None"
  shows "cdb_storage_ref X (cdb_commit kec [(a, acc2)] (cdb_commit kec [(a, acc1)] c)) a k = dr_storage X (cd_db c) a k"
proof -
  obtain i d where i: "insert_contract kec (ac_info acc2) (cdb_commit kec [(a, acc1)] c) = (i, d)" by fastforce
  then have "ca_accounts (cd_cache d) = ca_accounts (cd_cache (cdb_commit kec [(a, acc1)] c))" "cd_db d = cd_db c"
    using insert_contract_accounts [of kec "ac_info acc2" "cdb_commit kec [(a, acc1)] c"] cdb_commit_db by auto
  then show ?thesis
    using assms i by (simp add: cdb_commit_def commit_account_def Let_def cdb_storage_ref_def account_or_default_def
        is_storage_cleared_def map_add_def)
qed

text \<open>Flattening a nested cache drops the slots of the inner cache for every account the outer cache
  has merely loaded.\<close>

theorem flatten_drops_inner_storage:
  assumes "ca_accounts (cd_cache c) a = Some outer" "da_account_state outer \<in> {StateNone, Touched}" "da_storage outer k = None"
    and "ca_accounts (cd_cache (cd_db c)) a = Some inner" "da_storage inner k = Some v"
  shows "cdb_storage_ref (cache_database_ref X) c a k = Inr v"
    "cdb_storage_ref X (flatten c) a k = dr_storage X (cd_db (cd_db c)) a k"
  using assms by (auto simp: cdb_storage_ref_def cache_database_ref_def flatten_def Let_def)

end
