(* ===== verification/Restore.thy ===== *)
theory Restore
  imports Rollback Database
begin

text \<open>
  Reverting to a checkpoint restores what is observable of the state. \<open>same_account\<close> compares balances, nonces,
  code hashes, status flags and every loaded slot; the two things it leaves out are the cached code
  and, for the third precompile, the touched flag, which the journal keeps on purpose. \<open>journal_run\<close>
  lists the operations of a frame, nested checkpoints and failed creations included. It leaves out the
  changes that the journal does not undo; the last section shows the two that a caller can observe: the
  debit of a transfer that overflows, and code that replaces other code.
\<close>

section \<open>What is observable of an account\<close>

definition same_info :: "account_info \<Rightarrow> account_info \<Rightarrow> bool" where
  "same_info i k \<longleftrightarrow> ai_balance i = ai_balance k \<and> ai_nonce i = ai_nonce k \<and> ai_code_hash i = ai_code_hash k"

definition same_status :: "address \<Rightarrow> account_status \<Rightarrow> account_status \<Rightarrow> bool" where
  "same_status a s t \<longleftrightarrow> (\<forall>f\<in>account_flags. f = flag_Touched \<and> a = PRECOMPILE3 \<or> flag_contains s f = flag_contains t f)"

definition fresh_slot :: "evm_storage_slot \<Rightarrow> bool" where
  "fresh_slot s \<longleftrightarrow> ss_transaction_id s = 0 \<and> ss_present_value s = ss_original_value s"

definition same_storage :: "evm_storage \<Rightarrow> evm_storage \<Rightarrow> bool" where
  "same_storage x y \<longleftrightarrow> (\<forall>k s. y k = Some s \<longrightarrow> x k = Some s)
     \<and> (\<forall>k s. y k = None \<longrightarrow> x k = Some s \<longrightarrow> fresh_slot s)"

definition same_account :: "address \<Rightarrow> account \<Rightarrow> account \<Rightarrow> bool" where
  "same_account a x y \<longleftrightarrow> ac_transaction_id x = ac_transaction_id y
     \<and> same_info (ac_info x) (ac_info y) \<and> same_info (ac_original_info x) (ac_original_info y)
     \<and> same_status a (ac_status x) (ac_status y) \<and> same_storage (ac_storage x) (ac_storage y)"

text \<open>An account that was only loaded.\<close>

definition fresh_account :: "warm_addresses \<Rightarrow> address \<Rightarrow> account \<Rightarrow> bool" where
  "fresh_account w a acc \<longleftrightarrow> ac_transaction_id acc = 0 \<and> (flagged_cold acc \<longrightarrow> is_cold w a)
     \<and> (\<forall>f\<in>account_flags. flag_contains (ac_status acc) f \<longrightarrow>
          f = flag_Cold \<or> f = flag_LoadedAsNotExisting \<or> f = flag_Touched \<and> a = PRECOMPILE3)
     \<and> same_info (ac_info acc) (ac_original_info acc)
     \<and> (\<forall>k s. ac_storage acc k = Some s \<longrightarrow> fresh_slot s)"

definition same_transient :: "transient_storage \<Rightarrow> transient_storage \<Rightarrow> bool" where
  "same_transient x y \<longleftrightarrow> (\<forall>k. (case x k of None \<Rightarrow> 0 | Some v \<Rightarrow> v) = (case y k of None \<Rightarrow> 0 | Some v \<Rightarrow> v))"

text \<open>From Spurious Dragon on, an account that was created in the transaction has a nonce.\<close>

definition account_tidy :: "spec_id \<Rightarrow> account \<Rightarrow> bool" where
  "account_tidy sp acc \<longleftrightarrow>
     (is_enabled_in sp SPURIOUS_DRAGON \<longrightarrow> is_created_locally acc \<longrightarrow> ai_nonce (ac_info acc) \<noteq> 0)
     \<and> (flagged_cold acc \<longrightarrow> \<not> is_created_locally acc \<and> same_info (ac_info acc) (ac_original_info acc))
     \<and> (\<forall>k s. ac_storage acc k = Some s \<longrightarrow>
          ss_transaction_id s = 0 \<and> (ss_is_cold s \<longrightarrow> ss_present_value s = ss_original_value s))"

definition journal_tidy :: "journal_inner \<Rightarrow> bool" where
  "journal_tidy j \<longleftrightarrow> journal_wf j \<and> (\<forall>a acc. j_state j a = Some acc \<longrightarrow> account_tidy (j_spec j) acc)"

abbreviation restores :: "journal_inner \<Rightarrow> journal_inner \<Rightarrow> bool" where
  "restores \<equiv> grows same_account fresh_account same_transient journal_tidy"

lemma same_info_refl [simp]: "same_info i i"
  by (simp add: same_info_def)

lemma same_status_refl [simp]: "same_status a s s"
  by (simp add: same_status_def)

lemma same_storage_refl [simp]: "same_storage x x"
  by (simp add: same_storage_def)

lemma same_account_refl [simp]: "same_account a x x"
  by (simp add: same_account_def)

lemma same_status_trans: "same_status a x y \<Longrightarrow> same_status a y z \<Longrightarrow> same_status a x z"
  unfolding same_status_def by blast

lemma same_storage_trans:
  assumes "same_storage x y" "same_storage y z"
  shows "same_storage x z"
  unfolding same_storage_def
proof (intro conjI allI impI)
  fix k s assume "z k = None" "x k = Some s"
  then show "fresh_slot s" using assms by (cases "y k") (auto simp: same_storage_def)
qed (use assms in \<open>auto simp: same_storage_def\<close>)

lemma same_account_trans: "same_account a x y \<Longrightarrow> same_account a y z \<Longrightarrow> same_account a x z"
  unfolding same_account_def same_info_def
  by (elim conjE, intro conjI) (erule (1) trans same_status_trans same_storage_trans)+

lemma same_status_flag:
  "same_status a s t \<Longrightarrow> f \<in> account_flags \<Longrightarrow> f \<noteq> flag_Touched \<or> a \<noteq> PRECOMPILE3 \<Longrightarrow> flag_contains s f = flag_contains t f"
  unfolding same_status_def by blast

lemma same_status_ops:
  assumes "same_status a s t" "f \<in> account_flags"
  shows "same_status a (flag_insert s f) (flag_insert t f)" "same_status a (flag_remove s f) (flag_remove t f)"
  using assms by (auto simp: same_status_def)

lemma same_account_update:
  "f \<in> revert_updates \<Longrightarrow> same_account a x y \<Longrightarrow> same_account a (f x) (f y)"
  unfolding revert_updates_def
  by (elim UnE insertE emptyE rangeE;
      simp add: same_account_def same_info_def same_status_ops status_defs upd_info_def add_balance_def sub_balance_def)

lemma same_storage_upd: "same_storage x y \<Longrightarrow> same_storage (x(k \<mapsto> s)) (y(k \<mapsto> s))"
  by (auto simp: same_storage_def)

lemma same_account_slot:
  "same_account a x y \<Longrightarrow> ac_storage y k = Some t
     \<Longrightarrow> \<exists>s. ac_storage x k = Some s \<and> same_account a (set_slot k (g s) x) (set_slot k (g t) y)"
  by (auto simp: same_account_def set_slot_def same_storage_upd) (simp add: same_storage_def)

lemma same_account_flags:
  assumes "same_account a x y"
  shows "flagged_cold x = flagged_cold y" "is_selfdestructed_locally x = is_selfdestructed_locally y"
    "is_selfdestructed x = is_selfdestructed y" "is_created_locally x = is_created_locally y"
proof -
  have "same_status a (ac_status x) (ac_status y)" using assms by (simp add: same_account_def)
  from same_status_flag [OF this]
  show "flagged_cold x = flagged_cold y" "is_selfdestructed_locally x = is_selfdestructed_locally y"
    "is_selfdestructed x = is_selfdestructed y" "is_created_locally x = is_created_locally y"
    by (simp_all add: is_selfdestructed_locally_def is_selfdestructed_def is_created_locally_def)
qed

lemma fresh_account_keep:
  assumes "same_account a x y" "fresh_account w a y"
  shows "fresh_account w a x"
  unfolding fresh_account_def
proof (intro conjI ballI impI allI)
  fix f assume f: "f \<in> account_flags" "flag_contains (ac_status x) f"
  then show "f = flag_Cold \<or> f = flag_LoadedAsNotExisting \<or> f = flag_Touched \<and> a = PRECOMPILE3"
    using assms same_status_flag [of a "ac_status x" "ac_status y" f]
    unfolding fresh_account_def same_account_def by blast
next
  fix k s assume "ac_storage x k = Some s"
  then show "fresh_slot s"
    using assms by (cases "ac_storage y k") (auto simp: fresh_account_def same_account_def same_storage_def)
qed (use assms same_account_flags [OF assms(1)] in \<open>auto simp: fresh_account_def same_account_def same_info_def\<close>)

lemma same_transient_upd: "same_transient x y \<Longrightarrow> same_transient (x(k := v)) (y(k := v))"
  by (simp add: same_transient_def)

interpretation obs: revert_relation same_account fresh_account same_transient
  by unfold_locales
    (auto intro: same_account_trans fresh_account_keep same_account_update same_transient_upd
      dest: same_account_slot simp: same_transient_def)

lemma fresh_account_wf: "fresh_account w a acc \<Longrightarrow> account_wf w a acc \<and> account_tidy sp acc"
  unfolding fresh_account_def account_wf_def account_tidy_def
  by (auto simp: is_selfdestructed_locally_def is_created_locally_def fresh_slot_def)

lemma same_account_wf:
  assumes "same_account a x y" "account_wf w a y" "account_tidy sp y"
  shows "account_wf w a x" "account_tidy sp x"
proof -
  show "account_wf w a x"
    using assms same_account_flags [OF assms(1)] by (auto simp: account_wf_def same_account_def)
  have "ss_transaction_id s = 0 \<and> (ss_is_cold s \<longrightarrow> ss_present_value s = ss_original_value s)"
    if "ac_storage x k = Some s" for k s
    using that assms(1,3)
    by (cases "ac_storage y k") (auto simp: account_tidy_def same_account_def same_storage_def fresh_slot_def)
  then show "account_tidy sp x"
    using assms(1,3) same_account_flags [OF assms(1)]
    by (auto simp: account_tidy_def same_account_def same_info_def)
qed

lemma rel_tidy:
  assumes "state_rel same_account (fresh_account (j_warm_addresses j)) st (j_state j)" "journal_tidy j"
    and "st a = Some acc"
  shows "account_wf (j_warm_addresses j) a acc \<and> account_tidy (j_spec j) acc"
proof (cases "j_state j a")
  case (Some acc0)
  then have "same_account a acc acc0" using assms(1,3) by (auto elim: state_relD)
  then show ?thesis
    using Some assms(2) same_account_wf [of a acc acc0 "j_warm_addresses j" "j_spec j"] by (auto simp: journal_tidy_def journal_wf_def)
qed (use assms(1,3) fresh_account_wf [of "j_warm_addresses j" a acc] in \<open>auto simp: state_rel_def\<close>)

lemma restores_revert:
  assumes "restores j j'" "journal_tidy j" "jc_journal_i c = length (j_journal j)" "jc_log_i c = length (j_logs j)"
  shows "\<exists>j1. checkpoint_revert c j' = Some j1 \<and> restores j j1
    \<and> state_rel same_account (fresh_account (j_warm_addresses j)) (j_state j1) (j_state j)
    \<and> same_transient (j_transient_storage j1) (j_transient_storage j)
    \<and> j_logs j1 = j_logs j \<and> j_journal j1 = j_journal j \<and> j_depth j1 = saturating_sub (j_depth j') 1"
proof -
  let ?R = "state_rel same_account (fresh_account (j_warm_addresses j))"
  obtain st ts where r: "checkpoint_revert c j' = Some (j'\<lparr>j_depth := saturating_sub (j_depth j') 1, j_logs := j_logs j,
      j_state := st, j_transient_storage := ts, j_journal := j_journal j\<rparr>)"
      "?R st (j_state j)" "same_transient ts (j_transient_storage j)"
    using obs.revert_grown [OF assms] by auto
  have f: "j_spec j' = j_spec j" "j_warm_addresses j' = j_warm_addresses j" "j_transaction_id j' = j_transaction_id j"
    using assms(1,2) by (auto simp: grows_def)
  have "\<exists>acc. st a = Some acc \<and> \<not> flagged_cold acc" if w: "warm_in j a" for a
  proof -
    obtain acc where "j_state j a = Some acc" "\<not> flagged_cold acc" using w by (auto simp: warm_in_def)
    then show ?thesis using state_relD [OF r(2)] same_account_flags(1) by metis
  qed
  then show ?thesis
    using r f assms(2) rel_tidy [OF r(2) assms(2)]
    by (auto simp: grows_def journal_tidy_def journal_wf_def undone_def warm_in_def)
qed

section \<open>Operations that journal all they change\<close>

lemma restores_put:
  assumes "j_state j a = Some acc"
    and "journal_tidy j \<Longrightarrow> account_wf (j_warm_addresses j) a acc' \<and> account_tidy (j_spec j) acc' \<and> (flagged_cold acc' \<longrightarrow> flagged_cold acc)"
    and "\<And>isd ts. journal_tidy j \<Longrightarrow> \<exists>acc''. entries_revert isd es ((j_state j)(a \<mapsto> acc'), ts) = Some ((j_state j)(a \<mapsto> acc''), ts)
      \<and> same_account a acc'' acc"
  shows "restores j (put_account a (acc', j_journal j @ es) j)"
  unfolding grows_def
proof
  assume t: "journal_tidy j"
  let ?j = "put_account a (acc', j_journal j @ es) j"
  have "undone same_account fresh_account same_transient j es ?j"
    using assms(3) [OF t, of "is_enabled_in (j_spec j) SPURIOUS_DRAGON" "Some (j_transient_storage j)"] assms(1)
    by (auto simp: undone_def put_account_def state_rel_def same_transient_def)
  moreover have "journal_tidy ?j" using t assms(2) [OF t] by (auto simp: journal_tidy_def journal_wf_def put_account_def)
  moreover have "warm_in ?j x" if "warm_in j x" for x
    using that assms(1) assms(2) [OF t] by (auto simp: warm_in_def put_account_def)
  ultimately show "journal_tidy ?j \<and> j_spec ?j = j_spec j \<and> j_warm_addresses ?j = j_warm_addresses j
     \<and> j_transaction_id ?j = j_transaction_id j \<and> (\<forall>a. warm_in j a \<longrightarrow> warm_in ?j a)
     \<and> (\<exists>es. j_journal ?j = j_journal j @ es \<and> undone same_account fresh_account same_transient j es ?j)
     \<and> (\<exists>ls. j_logs ?j = j_logs j @ ls)"
    by (auto simp: put_account_def)
qed

lemma tidyD: "journal_tidy j \<Longrightarrow> j_state j a = Some acc \<Longrightarrow> account_wf (j_warm_addresses j) a acc \<and> account_tidy (j_spec j) acc"
  by (auto simp: journal_tidy_def journal_wf_def)

lemma tidy_upd_info:
  "\<not> flagged_cold acc \<Longrightarrow> ai_nonce (f (ac_info acc)) = ai_nonce (ac_info acc)
     \<Longrightarrow> account_tidy sp (upd_info f acc) = account_tidy sp acc"
  by (simp add: account_tidy_def upd_info_def is_created_locally_def)

lemma tidy_upd_nonce:
  "\<not> flagged_cold acc \<Longrightarrow> ai_nonce (f (ac_info acc)) \<noteq> 0 \<or> ai_nonce (f (ac_info acc)) = ai_nonce (ac_info acc)
     \<Longrightarrow> account_tidy sp acc \<Longrightarrow> account_tidy sp (upd_info f acc)"
  by (auto simp: account_tidy_def upd_info_def is_created_locally_def)

lemma put_put [simp]: "put_account a x (put_account a y j) = put_account a x j"
  by (cases x; cases y) (simp add: put_account_def)

lemma put_state_journal [simp]: "j_state (put_account a x j) = (j_state j)(a \<mapsto> fst x)" "j_journal (put_account a x j) = snd x"
  by (cases x; simp add: put_account_def)+

lemma put_same: "j_state j a = Some acc \<Longrightarrow> put_account a (acc, j_journal j) j = j"
  by (simp add: put_account_def fun_upd_idem)

lemma touch_same: "\<not> is_touched acc \<Longrightarrow> same_account a (unmark_touch (mark_touch acc)) acc"
  "same_account PRECOMPILE3 (mark_touch acc) acc"
  by (auto simp: same_account_def same_status_def is_touched_def unmark_touch_def mark_touch_def)

lemma restores_touch:
  assumes "j_state j a = Some acc"
  shows "restores j (put_account a (touch_account a acc (j_journal j)) j)"
proof (cases "is_touched acc")
  case True
  then show ?thesis using assms by (simp add: touch_account_def put_same obs.grows_refl)
next
  case False
  have "restores j (put_account a (mark_touch acc, j_journal j @ [AccountTouched a]) j)"
  proof (rule restores_put [OF assms])
    assume "journal_tidy j"
    from tidyD [OF this assms]
    show "account_wf (j_warm_addresses j) a (mark_touch acc) \<and> account_tidy (j_spec j) (mark_touch acc)
        \<and> (flagged_cold (mark_touch acc) \<longrightarrow> flagged_cold acc)"
      by (auto simp: account_wf_def account_tidy_def status_defs is_created_locally_def)
  qed (use False touch_same in \<open>auto simp: upd_account_def\<close>)
  then show ?thesis using False by (simp add: touch_account_def)
qed

text \<open>A change of the info of a warm account, with an entry that undoes it.\<close>

lemma restores_info:
  assumes "j_state j a = Some acc" "\<not> flagged_cold acc"
    and "\<And>isd st ts. st a = Some (upd_info f acc) \<Longrightarrow> entry_revert isd e (st, ts) = Some (st(a \<mapsto> upd_info g acc), ts)"
    and "same_info (g (ac_info acc)) (ac_info acc)"
    and "ai_nonce (f (ac_info acc)) \<noteq> 0 \<or> ai_nonce (f (ac_info acc)) = ai_nonce (ac_info acc)"
  shows "restores j (put_account a (upd_info f acc, j_journal j @ [e]) j)"
proof (rule restores_put [OF assms(1)])
  assume "journal_tidy j"
  from tidyD [OF this assms(1)] assms(2,5)
  show "account_wf (j_warm_addresses j) a (upd_info f acc) \<and> account_tidy (j_spec j) (upd_info f acc)
      \<and> (flagged_cold (upd_info f acc) \<longrightarrow> flagged_cold acc)"
    by (simp add: tidy_upd_nonce)
qed (use assms(3,4) in \<open>auto simp: same_account_def upd_info_def\<close>)

lemma restores_balance_change:
  "j_state j a = Some acc \<Longrightarrow> \<not> flagged_cold acc
     \<Longrightarrow> restores j (put_account a (upd_info (\<lambda>i. i\<lparr>ai_balance := b\<rparr>) acc,
           j_journal j @ [BalanceChange (ai_balance (ac_info acc)) a]) j)"
  by (rule restores_info [where g = "\<lambda>i. i\<lparr>ai_balance := ai_balance (ac_info acc)\<rparr>"])
    (simp_all add: upd_account_def upd_info_def same_info_def)

lemma restores_nonce_change:
  "j_state j a = Some acc \<Longrightarrow> \<not> flagged_cold acc \<Longrightarrow> ai_nonce (ac_info acc) + 1 \<noteq> 0
     \<Longrightarrow> restores j (put_account a (upd_info (\<lambda>i. i\<lparr>ai_nonce := ai_nonce i + 1\<rparr>) acc, j_journal j @ [NonceChange a]) j)"
  by (rule restores_info [where g = "\<lambda>i. i"]) (simp_all add: upd_account_def upd_info_def same_info_def)

lemma restores_code_change:
  "j_state j a = Some acc \<Longrightarrow> \<not> flagged_cold acc \<Longrightarrow> ai_code_hash (ac_info acc) = KECCAK_EMPTY
     \<Longrightarrow> restores j (put_account a (upd_info (\<lambda>i. i\<lparr>ai_code_hash := h, ai_code := c\<rparr>) acc, j_journal j @ [CodeChange a]) j)"
  by (rule restores_info [where g = "\<lambda>i. i\<lparr>ai_code_hash := KECCAK_EMPTY, ai_code := None\<rparr>"])
    (simp_all add: upd_account_def upd_info_def same_info_def)

text \<open>A transfer between two warm accounts, in one entry.\<close>

lemma restores_transfer:
  assumes "j_state j f = Some facc" "j_state j t = Some tacc" "f \<noteq> t" "\<not> flagged_cold facc" "\<not> flagged_cold tacc"
  shows "restores j (j\<lparr>j_state := (j_state j)(f \<mapsto> sub_balance v facc, t \<mapsto> add_balance v tacc),
    j_journal := j_journal j @ [BalanceTransfer v f t]\<rparr>)" (is "restores j ?j")
  unfolding grows_def
proof
  assume td: "journal_tidy j"
  have s: "same_info (ac_info (add_balance v (sub_balance v x))) (ac_info x)"
      "same_info (ac_info (sub_balance v (add_balance v x))) (ac_info x)" for x
    by (simp_all add: same_info_def add_balance_def sub_balance_def upd_info_def)
  then have a: "same_account a (add_balance v (sub_balance v x)) x" "same_account a (sub_balance v (add_balance v x)) x" for a x
    by (auto simp: same_account_def add_balance_def sub_balance_def upd_info_def)
  have "undone same_account fresh_account same_transient j [BalanceTransfer v f t] ?j"
    using assms(1-3) a by (auto simp: undone_def upd_account_def state_rel_def same_transient_def)
  moreover have "journal_tidy ?j"
    using td tidyD [OF td assms(1)] tidyD [OF td assms(2)] assms(4,5)
    by (auto simp: journal_tidy_def journal_wf_def sub_balance_def add_balance_def tidy_upd_info)
  moreover have "warm_in ?j x" if "warm_in j x" for x
    using that assms by (auto simp: warm_in_def sub_balance_def add_balance_def)
  ultimately show "journal_tidy ?j \<and> j_spec ?j = j_spec j \<and> j_warm_addresses ?j = j_warm_addresses j
     \<and> j_transaction_id ?j = j_transaction_id j \<and> (\<forall>a. warm_in j a \<longrightarrow> warm_in ?j a)
     \<and> (\<exists>es. j_journal ?j = j_journal j @ es \<and> undone same_account fresh_account same_transient j es ?j)
     \<and> (\<exists>ls. j_logs ?j = j_logs j @ ls)" by auto
qed

lemma touch_account_info:
  assumes "touch_account a acc es = (acc', es')"
  shows "ac_info acc' = ac_info acc" "flagged_cold acc' = flagged_cold acc"
  using assms by (auto simp: touch_account_def mark_touch_def split: if_splits)

lemma checked_add_Some: "checked_add x y = Some z \<Longrightarrow> z = x + y"
  and checked_sub_Some: "checked_sub x y = Some z \<Longrightarrow> z = x - y"
  by (auto simp: checked_add_def checked_sub_def split: if_splits)

lemma transfer_loaded_restores:
  assumes "transfer_loaded f t v j = Some (r, j')" "r \<noteq> Some OverflowPayment" "warm_in j f" "warm_in j t"
  shows "restores j j'"
proof -
  obtain facc tacc where acc: "j_state j f = Some facc" "\<not> flagged_cold facc"
      "j_state j t = Some tacc" "\<not> flagged_cold tacc" using assms(3,4) by (auto simp: warm_in_def)
  obtain f1 es where t1: "touch_account f facc (j_journal j) = (f1, es)" by fastforce
  show ?thesis
  proof (cases "f = t \<or> v = 0 \<or> checked_sub (ai_balance (ac_info f1)) v = None")
    case True
    then show ?thesis
      using assms(1) acc t1 restores_touch [OF acc(1)] restores_touch [OF acc(3)]
      by (auto simp: transfer_loaded_def obs.grows_refl split: if_splits)
  next
    case False
    let ?j1 = "put_account f (f1, es) j"
    obtain t2 es2 where t2: "touch_account t tacc es = (t2, es2)" by fastforce
    let ?j2 = "put_account t (t2, es2) ?j1"
    have 1: "restores j ?j1" using restores_touch [OF acc(1)] t1 by simp
    have 2: "restores ?j1 ?j2" using restores_touch [of ?j1 t tacc] False acc(3) t2 by (auto split: if_splits)
    have s2: "j_state ?j2 f = Some f1" "j_state ?j2 t = Some t2" using False by auto
    have 3: "restores ?j2 (?j2\<lparr>j_state := (j_state ?j2)(f \<mapsto> sub_balance v f1, t \<mapsto> add_balance v t2),
        j_journal := j_journal ?j2 @ [BalanceTransfer v f t]\<rparr>)"
      using False touch_account_info [OF t1] touch_account_info [OF t2] acc
      by (intro restores_transfer s2) auto
    have e: "(j_state ?j2)(f \<mapsto> x, t \<mapsto> y) = (j_state j)(f \<mapsto> x, t \<mapsto> y)" for x y
      by (auto simp: fun_eq_iff)
    from False obtain d where d: "checked_sub (ai_balance (ac_info f1)) v = Some d" by auto
    from d have du: "upd_info (\<lambda>i. i\<lparr>ai_balance := d\<rparr>) f1 = sub_balance v f1"
      by (auto simp: sub_balance_def upd_info_def dest!: checked_sub_Some)
    show ?thesis
    proof (cases "checked_add (ai_balance (ac_info t2)) v")
      case (Some n)
      then have "upd_info (\<lambda>i. i\<lparr>ai_balance := n\<rparr>) t2 = add_balance v t2"
        by (auto simp: add_balance_def upd_info_def dest!: checked_add_Some)
      then show ?thesis
        using obs.grows_trans [OF 1 obs.grows_trans [OF 2 3]] False acc t1 d Some assms(1) t2 du e
        by (auto simp: transfer_loaded_def put_account_def)
    qed (use False acc t1 d assms(1,2) t2 in \<open>auto simp: transfer_loaded_def put_account_def\<close>)
  qed
qed

lemma restores_depth: "restores j (j\<lparr>j_depth := d\<rparr>)"
  and restores_log: "restores j (journal_log l j)"
  by (auto simp: grows_def undone_def obs.rel_refl obs.T_refl journal_tidy_def journal_wf_def warm_in_def journal_log_def)

lemma restores_tstore: "restores j (tstore a k v j)"
proof -
  let ?t = "j_transient_storage j" and ?x = "j_transient_storage j (a, k)"
  let ?old = "case ?x of None \<Rightarrow> 0 | Some v \<Rightarrow> v"
  obtain ts es where t: "tstore a k v j = j\<lparr>j_transient_storage := ts, j_journal := j_journal j @ es\<rparr>"
      "entries_revert isd es (st, Some ts) = Some (st, Some (if es = [] then ts else if ?old = 0 then ts((a, k) := None) else ts((a, k) \<mapsto> ?old)))"
      "ts = ?t((a, k) := if v = 0 then None else Some v)" "es = [] \<Longrightarrow> ?old = v" for isd st
  proof (cases "v = 0")
    case True
    show ?thesis
    proof (cases ?x)
      case None
      then show ?thesis using True by (intro that [where es = "[]"]) (auto simp: tstore_def Let_def)
    next
      case (Some x)
      then show ?thesis using True by (intro that [where es = "[TransientStorageChange k x a]"]) (auto simp: tstore_def Let_def)
    qed
  next
    case False
    then show ?thesis
      by (intro that [where es = "if ?old \<noteq> v then [TransientStorageChange k ?old a] else []"])
        (auto simp: tstore_def Let_def split: if_splits)
  qed
  have "same_transient (if es = [] then ts else if ?old = 0 then ts((a, k) := None) else ts((a, k) \<mapsto> ?old)) ?t"
    using t(4) by (auto simp: same_transient_def t(3))
  then have "undone same_account fresh_account same_transient j es (tstore a k v j)"
    by (auto simp: undone_def t(1,2) obs.rel_refl)
  then show ?thesis
    by (auto simp: grows_def t(1) journal_tidy_def journal_wf_def warm_in_def)
qed

section \<open>Slots\<close>

lemma restores_slot:
  assumes "j_state j a = Some acc"
    and "journal_tidy j \<Longrightarrow> ss_transaction_id s = 0 \<and> (ss_is_cold s \<longrightarrow> ss_present_value s = ss_original_value s)"
    and "\<And>isd st ts. journal_tidy j \<Longrightarrow> st a = Some (set_slot k s acc) \<Longrightarrow>
      \<exists>t. entries_revert isd es (st, ts) = Some (st(a \<mapsto> set_slot k t acc), ts)
        \<and> (case ac_storage acc k of None \<Rightarrow> fresh_slot t | Some s0 \<Rightarrow> t = s0)"
  shows "restores j (j\<lparr>j_state := (j_state j)(a \<mapsto> acc\<lparr>ac_storage := (ac_storage acc)(k \<mapsto> s)\<rparr>), j_journal := j_journal j @ es\<rparr>)"
proof -
  have s: "same_account a (set_slot k t acc) acc" if "case ac_storage acc k of None \<Rightarrow> fresh_slot t | Some s0 \<Rightarrow> t = s0" for t
    using that by (auto simp: same_account_def set_slot_def same_storage_def split: option.splits)
  have "restores j (put_account a (set_slot k s acc, j_journal j @ es) j)"
  proof (rule restores_put [OF assms(1)])
    assume t: "journal_tidy j"
    show "account_wf (j_warm_addresses j) a (set_slot k s acc) \<and> account_tidy (j_spec j) (set_slot k s acc)
        \<and> (flagged_cold (set_slot k s acc) \<longrightarrow> flagged_cold acc)"
      using tidyD [OF t assms(1)] assms(2) [OF t]
      by (auto simp: account_wf_def account_tidy_def set_slot_def is_selfdestructed_locally_def is_selfdestructed_def
          is_created_locally_def)
    fix isd ts
    show "\<exists>acc''. entries_revert isd es ((j_state j)(a \<mapsto> set_slot k s acc), ts) = Some ((j_state j)(a \<mapsto> acc''), ts)
        \<and> same_account a acc'' acc"
      using assms(3) [OF t, of "(j_state j)(a \<mapsto> set_slot k s acc)" isd ts] s by auto
  qed
  then show ?thesis by (simp add: put_account_def set_slot_def)
qed

lemma sload_restores:
  assumes "sload D a k skip j db = Some (r, j', db')"
  shows "restores j j'"
proof (cases "journal_tidy j")
  case t: True
  have tid: "j_transaction_id j = 0" using t by (simp add: journal_tidy_def journal_wf_def)
  obtain acc where acc: "j_state j a = Some acc" using assms by (auto simp: sload_def)
  show ?thesis
  proof (cases "ac_storage acc k")
    case None
    have r: "\<exists>t. entries_revert isd es (st, ts) = Some (st(a \<mapsto> set_slot k t acc), ts) \<and> fresh_slot t"
      if "st a = Some (set_slot k (slot_new v 0) acc)" "es = [] \<or> es = [StorageWarmed k a]" for isd es st ts v
      using that
      by (auto simp: set_slot_def fresh_slot_def slot_new_def upd_slot_def slot_mark_cold_def fun_upd_idem
          intro: exI [of _ "slot_new v 0"])
    have n: "restores j (j\<lparr>j_state := (j_state j)(a \<mapsto> acc\<lparr>ac_storage := (ac_storage acc)(k \<mapsto> slot_new v 0)\<rparr>),
        j_journal := j_journal j @ es\<rparr>)" if "es = [] \<or> es = [StorageWarmed k a]" for v es
      using that r None by (intro restores_slot acc) (auto simp: slot_new_def)
    show ?thesis
      using assms acc None n [of "[]"] n [of "[StorageWarmed k a]"]
      by (auto simp: sload_def Let_def tid obs.grows_refl split: if_splits sum.splits prod.splits)
  next
    case (Some s)
    then have s: "ss_transaction_id s = 0" "ss_is_cold s \<Longrightarrow> ss_original_value s = ss_present_value s"
      using tidyD [OF t acc] by (auto simp: account_tidy_def)
    show ?thesis
    proof (cases "ss_is_cold s")
      case True
      let ?s = "s\<lparr>ss_is_cold := False\<rparr>"
      have m: "snd (slot_mark_warm 0 s) = ?s" using s True by (simp add: slot_mark_warm_def slot_is_cold_transaction_id_def)
      have e: "?s\<lparr>ss_is_cold := True\<rparr> = s" using True by simp
      have "restores j (j\<lparr>j_state := (j_state j)(a \<mapsto> acc\<lparr>ac_storage := (ac_storage acc)(k \<mapsto> ?s)\<rparr>),
        j_journal := j_journal j @ [StorageWarmed k a]\<rparr>)"
        by (rule restores_slot [OF acc])
          (use s Some e in \<open>auto simp: set_slot_def upd_slot_def slot_mark_cold_def intro!: exI [of _ s]\<close>)
      then show ?thesis
        using assms acc Some True m
        by (auto simp: sload_def Let_def tid obs.grows_refl slot_is_cold_transaction_id_def split: if_splits)
    next
      case False
      then have "snd (slot_mark_warm 0 s) = s" using s by (simp add: slot_mark_warm_def slot_is_cold_transaction_id_def)
      then have "j' = j"
        using assms acc Some False s
        by (auto simp: sload_def Let_def tid slot_is_cold_transaction_id_def fun_upd_idem split: if_splits)
      then show ?thesis by (simp add: obs.grows_refl)
    qed
  qed
qed (simp add: grows_def)

lemma sstore_restores:
  assumes "sstore D a k v skip j db = Some (r, j', db')" "journal_tidy j"
  shows "restores j j'"
proof -
  obtain r1 j1 db1 where l: "sload D a k skip j db = Some (r1, j1, db1)"
    using assms by (auto simp: sstore_def bind_eq_Some_conv)
  note 1 = sload_restores [OF l] and e = sload_evolves [OF l]
  show ?thesis
  proof (cases r1)
    case (Inr p)
    then obtain acc s where s: "j_state j1 a = Some acc" "ac_storage acc k = Some s" "ss_present_value s = sl_data p"
        and w: "\<not> ss_is_cold s"
      using e by auto
    have t1: "journal_tidy j1" using 1 assms(2) by (simp add: grows_def)
    have e2: "s\<lparr>ss_present_value := sl_data p\<rparr> = s" using s(3) by simp
    have swap: "j1\<lparr>j_journal := x, j_state := y\<rparr> = j1\<lparr>j_state := y, j_journal := x\<rparr>" for x y by simp
    have "restores j1 (j1\<lparr>j_journal := j_journal j1 @ [StorageChanged k (sl_data p) a],
        j_state := (j_state j1)(a \<mapsto> acc\<lparr>ac_storage := (ac_storage acc)(k \<mapsto> s\<lparr>ss_present_value := v\<rparr>)\<rparr>)\<rparr>)"
      unfolding swap
      by (rule restores_slot [OF s(1)])
        (use s w tidyD [OF t1 s(1)] in \<open>auto simp: e2 set_slot_def upd_slot_def account_tidy_def intro!: exI [of _ s]\<close>)
    note obs.grows_trans [OF 1 this]
    then show ?thesis using assms(1) l 1 s Inr by (auto simp: sstore_def Let_def split: if_splits)
  qed (use assms(1) l 1 in \<open>auto simp: sstore_def\<close>)
qed

section \<open>Loading, creating and destroying accounts\<close>

lemma restores_warmed:
  assumes "\<not> flagged_cold acc" "journal_tidy j \<Longrightarrow> account_wf (j_warm_addresses j) a acc \<and> account_tidy (j_spec j) acc"
    and "journal_tidy j \<Longrightarrow> case j_state j a of None \<Rightarrow> fresh_account (j_warm_addresses j) a (if c then mark_cold acc else acc)
      | Some acc0 \<Rightarrow> same_account a (if c then mark_cold acc else acc) acc0"
  shows "restores j (warmed a c acc j)"
proof -
  let ?u = "if c then mark_cold acc else acc"
  have "entries_revert isd (if c then [AccountWarmed a] else []) ((j_state j)(a \<mapsto> acc), ts)
      = Some ((j_state j)(a \<mapsto> ?u), ts)" for isd ts
    by (simp add: upd_account_def)
  moreover have "state_rel same_account (fresh_account (j_warm_addresses j)) ((j_state j)(a \<mapsto> ?u)) (j_state j)"
    if "journal_tidy j" using assms(3) [OF that] by (auto simp: state_rel_def)
  ultimately have "undone same_account fresh_account same_transient j
      (if c then [AccountWarmed a] else []) (warmed a c acc j)" if "journal_tidy j"
    using that by (auto simp: undone_def warmed_def same_transient_def)
  then show ?thesis
    using assms(1,2) by (auto simp: grows_def warmed_def journal_tidy_def journal_wf_def warm_in_def)
qed

lemma finish_load_restores:
  assumes "finish_load D a lc c acc j db = (r, j', db')" "\<not> flagged_cold acc"
    and "journal_tidy j \<Longrightarrow> account_wf (j_warm_addresses j) a acc \<and> account_tidy (j_spec j) acc"
    and "journal_tidy j \<Longrightarrow> case j_state j a of None \<Rightarrow> fresh_account (j_warm_addresses j) a (if c then mark_cold acc else acc)
      | Some acc0 \<Rightarrow> same_account a (if c then mark_cold acc else acc) acc0"
  shows "restores j j'"
proof -
  obtain x where x: "j' = warmed a c (upd_info (\<lambda>i. i\<lparr>ai_code := x\<rparr>) acc) j"
    using finish_load_warmed [OF assms(1)] by blast
  let ?f = "\<lambda>i. i\<lparr>ai_code := x\<rparr>"
  have i: "same_account a (upd_info ?f u) v = same_account a u v"
      "fresh_account w a (upd_info ?f u) = fresh_account w a u" for u v w
    by (simp_all add: same_account_def fresh_account_def upd_info_def same_info_def)
  show ?thesis
    unfolding x by (rule restores_warmed) (use assms(2-4) in \<open>auto simp: i tidy_upd_info split: option.splits if_splits\<close>)
qed

lemma load_restores:
  assumes "load_account_mut_optional_code D a lc skip j db = (r, j', db')"
  shows "restores j j'"
proof (cases "journal_tidy j")
  case t: True
  have tid: "j_transaction_id j = 0" using t by (simp add: journal_tidy_def journal_wf_def)
  note d = load_account_mut_optional_code_def tid
  show ?thesis
  proof (cases "j_state j a")
    case None
    have n: "restores j j1" if "finish_load D a lc (is_cold (j_warm_addresses j) a) acc j db1 = (r1, j1, db2)"
      "acc \<in> insert (new_not_existing 0) (range account_from_info)" for j1 acc db1 db2 r1
    proof (rule finish_load_restores [OF that(1)])
      show "\<not> flagged_cold acc" using that(2) new_account_wf by auto
      show "account_wf (j_warm_addresses j) a acc \<and> account_tidy (j_spec j) acc" using that(2) new_account_wf
        by (auto simp: account_tidy_def account_from_info_def new_not_existing_def is_created_locally_def flag_contains_def flag_defs)
      have "fresh_account (j_warm_addresses j) a (if is_cold (j_warm_addresses j) a then mark_cold acc else acc)"
        using that(2) unfolding fresh_account_def account_flags_def
        by (auto simp: mark_cold_def account_from_info_def new_not_existing_def flag_contains_def flag_insert_def flag_defs)
      then show "case j_state j a of
          None \<Rightarrow> fresh_account (j_warm_addresses j) a (if is_cold (j_warm_addresses j) a then mark_cold acc else acc)
        | Some acc0 \<Rightarrow> same_account a (if is_cold (j_warm_addresses j) a then mark_cold acc else acc) acc0"
        using None by simp
    qed
    show ?thesis
      using assms None n
      by (auto simp: d Let_def obs.grows_refl split: if_splits prod.splits sum.splits option.splits)
  next
    case (Some acc)
    note wf = tidyD [OF t Some]
    then have c: "is_cold_transaction_id 0 acc \<longleftrightarrow> flagged_cold acc"
      by (simp add: is_cold_transaction_id_def account_wf_def)
    show ?thesis
    proof (cases "flagged_cold acc")
      case True
      then have ic: "is_cold (j_warm_addresses j) a" using wf by (simp add: account_wf_def)
      have s: "same_account a (mark_cold (refresh_account 0 acc)) acc"
        using wf True
        by (auto simp: same_account_def same_status_def refresh_account_def mark_warm_with_transaction_id_def
            account_wf_def account_tidy_def status_defs is_created_locally_def same_info_def)
      have ty: "account_tidy (j_spec j) (refresh_account 0 acc)"
        using wf True refresh_shape(2) [of _ a acc]
        by (auto simp: account_tidy_def refresh_account_def mark_warm_with_transaction_id_def account_wf_def status_defs
            is_created_locally_def)
      show ?thesis
        using assms Some True c ic s ty refresh_shape [of "j_warm_addresses j" a acc] wf
        by (auto simp: d obs.grows_refl elim!: finish_load_restores split: if_splits)
    next
      case False
      then show ?thesis using assms Some c wf by (auto simp: d elim!: finish_load_restores)
    qed
  qed
qed (simp add: grows_def)

lemma restores_general:
  assumes "j_spec j' = j_spec j" "j_warm_addresses j' = j_warm_addresses j" "j_transaction_id j' = j_transaction_id j"
    "j_transient_storage j' = j_transient_storage j" "j_logs j' = j_logs j" "j_journal j' = j_journal j @ es"
    and "\<And>a acc. journal_tidy j \<Longrightarrow> j_state j' a = Some acc \<Longrightarrow> account_wf (j_warm_addresses j) a acc \<and> account_tidy (j_spec j) acc"
    and "\<And>a. journal_tidy j \<Longrightarrow> warm_in j a \<Longrightarrow> warm_in j' a"
    and "\<And>isd ts. journal_tidy j \<Longrightarrow> \<exists>st. entries_revert isd es (j_state j', ts) = Some (st, ts)
      \<and> state_rel same_account (fresh_account (j_warm_addresses j)) st (j_state j)"
  shows "restores j j'"
  unfolding grows_def
proof
  assume t: "journal_tidy j"
  have "undone same_account fresh_account same_transient j es j'"
    using assms(9) [OF t, of "is_enabled_in (j_spec j) SPURIOUS_DRAGON" "Some (j_transient_storage j)"] assms(4)
    by (auto simp: undone_def same_transient_def)
  moreover have "journal_tidy j'"
    using t assms(1-3) assms(7) [OF t] by (auto simp: journal_tidy_def journal_wf_def)
  ultimately show "journal_tidy j' \<and> j_spec j' = j_spec j \<and> j_warm_addresses j' = j_warm_addresses j
     \<and> j_transaction_id j' = j_transaction_id j \<and> (\<forall>a. warm_in j a \<longrightarrow> warm_in j' a)
     \<and> (\<exists>es. j_journal j' = j_journal j @ es \<and> undone same_account fresh_account same_transient j es j')
     \<and> (\<exists>ls. j_logs j' = j_logs j @ ls)"
    using assms(1-6) assms(8) [OF t] by auto
qed

lemma created_same:
  assumes "\<not> is_created_locally acc" "ai_nonce (ac_info acc) = 0" "mark_created_locally acc = (g, acc')"
    and "ai_balance (f (ac_info acc)) = ai_balance (ac_info acc)" "ai_code_hash (f (ac_info acc)) = ai_code_hash (ac_info acc)"
  shows "same_account a (upd_info (\<lambda>i. i\<lparr>ai_nonce := 0\<rparr>)
    (if g then unmark_created (unmark_created_locally (upd_info f acc')) else unmark_created_locally (upd_info f acc'))) acc"
  using assms
  by (auto simp: same_account_def same_info_def same_status_def mark_created_locally_def upd_info_def
      unmark_created_def unmark_created_locally_def is_created_locally_def Let_def)

lemma restores_created:
  assumes "j_state j a = Some acc" "\<not> flagged_cold acc" "ai_nonce (ac_info acc) = 0"
    and "is_enabled_in (j_spec j) SPURIOUS_DRAGON \<or> \<not> is_created_locally acc"
    and "mark_created_locally acc = (g, acc')"
    and "ai_balance (f (ac_info acc)) = ai_balance (ac_info acc)" "ai_code_hash (f (ac_info acc)) = ai_code_hash (ac_info acc)"
    and "is_enabled_in (j_spec j) SPURIOUS_DRAGON \<Longrightarrow> ai_nonce (f (ac_info acc)) \<noteq> 0"
  shows "restores j (put_account a (upd_info f acc', j_journal j @ [AccountCreated a g]) j)"
proof (rule restores_put [OF assms(1)])
  assume t: "journal_tidy j"
  show "account_wf (j_warm_addresses j) a (upd_info f acc') \<and> account_tidy (j_spec j) (upd_info f acc')
      \<and> (flagged_cold (upd_info f acc') \<longrightarrow> flagged_cold acc)"
    using tidyD [OF t assms(1)] assms(2,5,8)
    by (auto simp: account_wf_def account_tidy_def mark_created_locally_def upd_info_def Let_def
        is_selfdestructed_locally_def is_selfdestructed_def)
next
  fix isd ts assume t: "journal_tidy j"
  have n: "\<not> is_created_locally acc"
    using tidyD [OF t assms(1)] assms(3,4) by (auto simp: account_tidy_def)
  show "\<exists>acc''. entries_revert isd [AccountCreated a g] ((j_state j)(a \<mapsto> upd_info f acc'), ts)
      = Some ((j_state j)(a \<mapsto> acc''), ts) \<and> same_account a acc'' acc"
    using created_same [OF n assms(3,5), of f a] assms(6,7) by (auto simp: upd_account_def Let_def)
qed

text \<open>Moving an amount within one account changes nothing.\<close>

lemma restores_self_transfer:
  assumes "j_state j a = Some acc"
  shows "restores j (j\<lparr>j_journal := j_journal j @ [BalanceTransfer v a a]\<rparr>)"
proof (rule restores_general [where es = "[BalanceTransfer v a a]"])
  fix isd ts assume "journal_tidy j"
  have "same_account a (sub_balance v (add_balance v acc)) acc"
    by (simp add: same_account_def same_info_def add_balance_def sub_balance_def upd_info_def)
  then show "\<exists>st. entries_revert isd [BalanceTransfer v a a] (j_state (j\<lparr>j_journal := j_journal j @ [BalanceTransfer v a a]\<rparr>), ts) = Some (st, ts)
      \<and> state_rel same_account (fresh_account (j_warm_addresses j)) st (j_state j)"
    using assms by (auto simp: upd_account_def state_rel_def)
qed (use assms tidyD in \<open>auto simp: warm_in_def\<close>)

text \<open>The new account before it is paid.\<close>

definition new_target :: "address \<Rightarrow> account \<Rightarrow> journal_inner \<Rightarrow> account \<times> journal_entry list" where
  "new_target t tacc j =
     (let (g, acc) = mark_created_locally tacc;
          acc = upd_info (\<lambda>i. i\<lparr>ai_code := None\<rparr>) acc;
          acc = (if is_enabled_in (j_spec j) SPURIOUS_DRAGON then upd_info (\<lambda>i. i\<lparr>ai_nonce := 1\<rparr>) acc else acc)
      in touch_account t acc (j_journal j @ [AccountCreated t g]))"

lemma new_target_restores:
  assumes "j_state j t = Some tacc" "\<not> flagged_cold tacc" "ai_nonce (ac_info tacc) = 0"
    and "is_enabled_in (j_spec j) SPURIOUS_DRAGON \<or> \<not> is_created_locally tacc"
  shows "restores j (put_account t (new_target t tacc j) j)" "\<not> flagged_cold (fst (new_target t tacc j))"
proof -
  obtain g t1 where t1: "mark_created_locally tacc = (g, t1)" by fastforce
  let ?f = "\<lambda>i. if is_enabled_in (j_spec j) SPURIOUS_DRAGON then i\<lparr>ai_code := None, ai_nonce := 1\<rparr> else i\<lparr>ai_code := None\<rparr>"
  have f: "(if is_enabled_in (j_spec j) SPURIOUS_DRAGON then upd_info (\<lambda>i. i\<lparr>ai_nonce := 1\<rparr>) (upd_info (\<lambda>i. i\<lparr>ai_code := None\<rparr>) t1)
      else upd_info (\<lambda>i. i\<lparr>ai_code := None\<rparr>) t1) = upd_info ?f t1"
    by (simp add: upd_info_def)
  let ?j1 = "put_account t (upd_info ?f t1, j_journal j @ [AccountCreated t g]) j"
  have n: "new_target t tacc j = touch_account t (upd_info ?f t1) (j_journal ?j1)"
    by (simp add: new_target_def t1 f Let_def)
  have 1: "restores j ?j1" using assms t1 by (rule restores_created) auto
  have 2: "restores ?j1 (put_account t (new_target t tacc j) ?j1)" unfolding n by (rule restores_touch) simp
  show "restores j (put_account t (new_target t tacc j) j)" using obs.grows_trans [OF 1 2] by simp
  obtain t2 es where t2: "touch_account t (upd_info ?f t1) (j_journal ?j1) = (t2, es)" by fastforce
  show "\<not> flagged_cold (fst (new_target t tacc j))"
    unfolding n t2 using touch_account_info(2) [OF t2] t1 assms(2) by (auto simp: mark_created_locally_def Let_def)
qed

lemma create_paid_restores:
  assumes "j_state j t = Some t4" "\<not> flagged_cold t4" "warm_in j caller"
    and "upd_account caller (sub_balance v) ((j_state j)(t \<mapsto> add_balance v t4)) = Some st"
  shows "restores j (j\<lparr>j_state := st, j_journal := j_journal j @ [BalanceTransfer v caller t]\<rparr>)"
proof (cases "caller = t")
  case True
  have "sub_balance v (add_balance v t4) = t4" by (simp add: add_balance_def sub_balance_def upd_info_def)
  then have "st = j_state j" using True assms(1,4) by (auto simp: upd_account_def fun_upd_idem)
  then show ?thesis using restores_self_transfer [OF assms(1), of v] True by simp
next
  case False
  obtain cacc where cacc: "j_state j caller = Some cacc" "\<not> flagged_cold cacc" using assms(3) by (auto simp: warm_in_def)
  then have "st = (j_state j)(caller \<mapsto> sub_balance v cacc, t \<mapsto> add_balance v t4)"
    using False assms(4) by (auto simp: upd_account_def fun_upd_twist)
  then show ?thesis using restores_transfer [OF cacc(1) assms(1) False cacc(2) assms(2)] by simp
qed

lemma create_restores:
  assumes "create_account_checkpoint caller t v (j_spec j) j = Some (r, j')"
    and "warm_in j caller" "j_state j t = Some tacc" "\<not> flagged_cold tacc"
    and "is_enabled_in (j_spec j) SPURIOUS_DRAGON \<or> \<not> is_created_locally tacc"
  shows "restores j j'"
proof (cases "journal_tidy j")
  case tidy: True
  let ?j = "snd (checkpoint j)" and ?c = "fst (checkpoint j)"
  have j: "j_state ?j = j_state j" "j_journal ?j = j_journal j" "j_spec ?j = j_spec j" "warm_in ?j = warm_in j"
    by (simp_all add: checkpoint_def warm_in_def [abs_def])
  have 0: "restores j ?j" by (simp add: checkpoint_def restores_depth)
  have undo: "restores j j1" if "restores j k" "checkpoint_revert ?c k = Some j1" for k j1
    using restores_revert [OF that(1) tidy, of ?c] that(2) by (auto simp: checkpoint_def)
  show ?thesis
  proof (cases "ai_code_hash (ac_info tacc) \<noteq> KECCAK_EMPTY \<or> ai_nonce (ac_info tacc) \<noteq> 0")
    case True
    then show ?thesis using assms(1,3) undo [OF 0] by (auto simp: create_account_checkpoint_def case_prod_beta j)
  next
    case False
    obtain t4 es where n: "new_target t tacc ?j = (t4, es)" by fastforce
    let ?k = "put_account t (t4, es) ?j"
    have 1: "restores ?j ?k" "\<not> flagged_cold t4"
      using new_target_restores [of ?j t tacc] assms(3-5) False n by (simp_all add: j)
    note 2 = obs.grows_trans [OF 0 1(1)]
    have w: "warm_in ?k caller" using 2 tidy assms(2) by (simp add: grows_def)
    show ?thesis
    proof (cases "checked_add (ai_balance (ac_info t4)) v")
      case None
      then show ?thesis
        using assms(1,3) False n undo [OF 2]
        by (auto simp: create_account_checkpoint_def new_target_def case_prod_beta j Let_def)
    next
      case (Some b)
      then have b: "upd_info (\<lambda>i. i\<lparr>ai_balance := b\<rparr>) t4 = add_balance v t4"
        using checked_add_Some [OF Some] by (simp add: add_balance_def upd_info_def)
      obtain st where st: "upd_account caller (sub_balance v) ((j_state ?k)(t \<mapsto> add_balance v t4)) = Some st"
          "j' = ?k\<lparr>j_state := st, j_journal := j_journal ?k @ [BalanceTransfer v caller t]\<rparr>"
        using assms(1,3) False n Some b
        by (auto simp: create_account_checkpoint_def new_target_def case_prod_beta j Let_def put_account_def)
      show ?thesis
        using obs.grows_trans [OF 2 create_paid_restores [OF _ 1(2) w st(1)]] st(2) by simp
    qed
  qed
qed (simp add: grows_def)

abbreviation zero_balance :: "account \<Rightarrow> account" where
  "zero_balance \<equiv> upd_info (\<lambda>i. i\<lparr>ai_balance := 0\<rparr>)"

definition destroyed_status :: "account \<Rightarrow> selfdestruction_revert_status" where
  "destroyed_status acc = (if \<not> is_selfdestructed acc then GloballySelfdestroyed
     else if \<not> is_selfdestructed_locally acc then LocallySelfdestroyed else RepeatedSelfdestruction)"

lemma destroyed_same:
  assumes "is_selfdestructed_locally acc \<longrightarrow> is_selfdestructed acc"
  shows "same_account a (add_balance (ai_balance (ac_info acc)) (case destroyed_status acc of
      GloballySelfdestroyed \<Rightarrow> unmark_selfdestructed_locally (unmark_selfdestruct (zero_balance (snd (mark_selfdestructed_locally acc))))
      | LocallySelfdestroyed \<Rightarrow> unmark_selfdestructed_locally (zero_balance (snd (mark_selfdestructed_locally acc)))
      | RepeatedSelfdestruction \<Rightarrow> zero_balance (snd (mark_selfdestructed_locally acc)))) acc"
  using assms
  by (auto simp: destroyed_status_def same_account_def same_info_def same_status_def status_defs upd_info_def add_balance_def)

lemma add_sub_same: "same_account a (sub_balance v (add_balance v x)) x"
  by (simp add: same_account_def same_info_def add_balance_def sub_balance_def upd_info_def)

lemma restores_destroy:
  assumes "j_state j a = Some acc" "\<not> flagged_cold acc" "j_state j t = Some tacc" "\<not> flagged_cold tacc"
    and "v = ai_balance (ac_info acc)"
  shows "restores j (j\<lparr>j_state := (if a = t then j_state j else (j_state j)(t \<mapsto> add_balance v tacc))
      (a \<mapsto> zero_balance (snd (mark_selfdestructed_locally acc))),
    j_journal := j_journal j @ [AccountDestroyed v a t (destroyed_status acc)]\<rparr>)" (is "restores j ?j")
proof (rule restores_general [where es = "[AccountDestroyed v a t (destroyed_status acc)]"])
  fix x y assume t: "journal_tidy j" and xy: "j_state ?j x = Some y"
  have "account_wf (j_warm_addresses j) a (zero_balance (snd (mark_selfdestructed_locally acc)))
      \<and> account_tidy (j_spec j) (zero_balance (snd (mark_selfdestructed_locally acc)))"
    using tidyD [OF t assms(1)] assms(2)
    by (auto simp: account_wf_def account_tidy_def status_defs upd_info_def is_created_locally_def)
  then show "account_wf (j_warm_addresses j) x y \<and> account_tidy (j_spec j) y"
    using xy tidyD [OF t] tidyD [OF t assms(3)] assms(4) by (auto simp: add_balance_def tidy_upd_info split: if_splits)
next
  fix isd ts assume tj: "journal_tidy j"
  then have sd: "is_selfdestructed_locally acc \<longrightarrow> is_selfdestructed acc"
    using tidyD [OF tj assms(1)] by (auto simp: account_wf_def)
  show "\<exists>st. entries_revert isd [AccountDestroyed v a t (destroyed_status acc)] (j_state ?j, ts) = Some (st, ts)
      \<and> state_rel same_account (fresh_account (j_warm_addresses j)) st (j_state j)"
    using assms(1,3) destroyed_same [OF sd] add_sub_same
    by (auto simp: upd_account_def state_rel_def assms(5))
qed (use assms in \<open>auto simp: warm_in_def status_defs add_balance_def\<close>)

lemma selfdestruct_restores:
  assumes "journal_selfdestruct D a t j db = Some (r, j', db')" "journal_tidy j" "warm_in j a"
  shows "restores j j'"
proof -
  have wf: "journal_wf j" using assms(2) by (simp add: journal_tidy_def)
  obtain r1 j1 db1 where l: "load_account D t j db = Some (r1, j1, db1)" and ev: "evolves j j1"
      and w: "\<And>b. r1 = Inr b \<Longrightarrow> warm_in j1 t"
    using load_account_evolves(1) [OF wf, of D t db] by auto
  have 1: "restores j j1"
    using l load_restores [of D t False False j db]
    by (auto simp: load_account_def unwrap_db_error_def split: prod.splits sum.splits journal_load_error.splits)
  show ?thesis
  proof (cases r1)
    case (Inr cold)
    have wa: "warm_in j1 a" using evolvesD(2) [OF ev wf assms(3)] .
    obtain tacc acc where acc: "j_state j1 t = Some tacc" "\<not> flagged_cold tacc" "j_state j1 a = Some acc" "\<not> flagged_cold acc"
      using wa w [OF Inr] by (auto simp: warm_in_def)
    note def = journal_selfdestruct_def Let_def destroyed_status_def
    show ?thesis
    proof (cases "a = t")
      case True
      have "restores j1 (put_account a (zero_balance (snd (mark_selfdestructed_locally acc)),
          j_journal j1 @ [AccountDestroyed (ai_balance (ac_info acc)) a t (destroyed_status acc)]) j1)"
        using restores_destroy [OF acc(3,4,1,2) refl] True by (simp add: put_account_def)
      note obs.grows_trans [OF 1 this]
      then show ?thesis using assms(1) l Inr acc 1 True by (auto simp: def split: if_splits)
    next
      case False
      obtain t1 es where t1: "touch_account t tacc (j_journal j1) = (t1, es)" by fastforce
      let ?j2 = "put_account t (t1, es) j1" and ?v = "ai_balance (ac_info acc)"
      have 2: "restores j1 ?j2" using restores_touch [OF acc(1)] t1 by simp
      have s2: "j_state ?j2 a = Some acc" "j_state ?j2 t = Some t1" "\<not> flagged_cold t1"
        using False acc touch_account_info [OF t1] by auto
      let ?j3 = "put_account t (add_balance ?v t1, es) j1"
      have 3: "restores ?j2 (put_account a (zero_balance (snd (mark_selfdestructed_locally acc)),
          es @ [AccountDestroyed ?v a t (destroyed_status acc)]) ?j3)"
        using restores_destroy [OF s2(1) acc(4) s2(2,3) refl] False by (simp add: put_account_def)
      have 4: "restores ?j2 (put_account a (zero_balance acc, es @ [BalanceTransfer ?v a t]) ?j3)"
        using restores_transfer [OF s2(1,2) False acc(4) s2(3), of ?v] False
        by (simp add: put_account_def sub_balance_def upd_info_def fun_upd_twist)
      show ?thesis
        using assms(1) l Inr acc t1 False obs.grows_trans [OF 1 obs.grows_trans [OF 2 3]] obs.grows_trans [OF 1 obs.grows_trans [OF 2 4]]
        by (auto simp: def split: if_splits)
    qed
  qed (use assms(1) l 1 in \<open>auto simp: journal_selfdestruct_def Let_def\<close>)
qed

lemma set_code_restores:
  assumes "set_code_with_hash a code h j = Some j'" "warm_in j a"
    and "\<And>acc. j_state j a = Some acc \<Longrightarrow> ai_code_hash (ac_info acc) = KECCAK_EMPTY"
  shows "restores j j'"
proof -
  obtain acc where acc: "j_state j a = Some acc" "\<not> flagged_cold acc" using assms(2) by (auto simp: warm_in_def)
  obtain acc1 es where t: "touch_account a acc (j_journal j) = (acc1, es)" by fastforce
  let ?j = "put_account a (acc1, es) j"
  have 1: "restores j ?j" using restores_touch [OF acc(1)] t by simp
  have 2: "restores ?j (put_account a (upd_info (\<lambda>i. i\<lparr>ai_code_hash := h, ai_code := Some code\<rparr>) acc1,
      j_journal ?j @ [CodeChange a]) ?j)"
    by (rule restores_code_change) (use touch_account_info [OF t] acc assms(3) in auto)
  show ?thesis
    using obs.grows_trans [OF 1 2] assms(1) acc t by (auto simp: set_code_with_hash_def)
qed

lemma bump_nonce_restores:
  assumes "ja_bump_nonce a (acc, j_journal j) = (r, ja)" "j_state j a = Some acc" "\<not> flagged_cold acc"
  shows "restores j (put_account a ja j)"
proof -
  obtain acc1 es where t: "touch_account a acc (j_journal j) = (acc1, es)" by fastforce
  then have t': "ja_touch a (acc, j_journal j) = (acc1, es)" by (simp add: ja_touch_def touch_account_def)
  let ?j = "put_account a (acc1, es) j"
  have 1: "restores j ?j" using restores_touch [OF assms(2)] t by simp
  have 2: "restores ?j (put_account a (upd_info (\<lambda>i. i\<lparr>ai_nonce := ai_nonce i + 1\<rparr>) acc1, j_journal ?j @ [NonceChange a]) ?j)"
    if "ai_nonce (ac_info acc1) + 1 \<noteq> 0"
    by (rule restores_nonce_change) (use that touch_account_info [OF t] assms in auto)
  show ?thesis
  proof (cases "checked_add (ai_nonce (ac_info acc1)) 1")
    case (Some n)
    then have "upd_info (\<lambda>i. i\<lparr>ai_nonce := n\<rparr>) acc1 = upd_info (\<lambda>i. i\<lparr>ai_nonce := ai_nonce i + 1\<rparr>) acc1"
      using checked_add_Some [OF Some] by (simp add: upd_info_def)
    moreover have "ai_nonce (ac_info acc1) + 1 \<noteq> 0" 
    proof
      assume "ai_nonce (ac_info acc1) + 1 = 0"
      then have "ai_nonce (ac_info acc1) = - 1" by (simp add: eq_neg_iff_add_eq_0)
      then show False using Some by (simp add: checked_add_def unsigned_minus_1_eq_mask mask_eq_exp_minus_1)
    qed
    ultimately show ?thesis using obs.grows_trans [OF 1 2] assms(1) t' Some by (auto simp: ja_bump_nonce_def)
  qed (use 1 assms(1) t' in \<open>auto simp: ja_bump_nonce_def\<close>)
qed

section \<open>Runs of a frame\<close>

text \<open>The operations of a frame, each with what its callers establish: the accounts it works on are loaded
  and warm, and creations use the hardfork of the journal. A run has no transfer that ends in
  \<open>OverflowPayment\<close>, sets code only where there is none, and before Spurious Dragon does not create twice at
  one address.\<close>

inductive journal_run :: "('db, 'e) database \<Rightarrow> journal_inner \<times> 'db \<Rightarrow> journal_inner \<times> 'db \<Rightarrow> bool" for D where
  run_refl: "journal_run D s s"
| run_load: "journal_run D s (j, db) \<Longrightarrow> load_account_mut_optional_code D a lc skip j db = (r, j', db')
    \<Longrightarrow> journal_run D s (j', db')"
| run_sload: "journal_run D s (j, db) \<Longrightarrow> sload D a k skip j db = Some (r, j', db') \<Longrightarrow> journal_run D s (j', db')"
| run_sstore: "journal_run D s (j, db) \<Longrightarrow> sstore D a k v skip j db = Some (r, j', db') \<Longrightarrow> journal_run D s (j', db')"
| run_tstore: "journal_run D s (j, db) \<Longrightarrow> journal_run D s (tstore a k v j, db)"
| run_log: "journal_run D s (j, db) \<Longrightarrow> journal_run D s (journal_log l j, db)"
| run_selfdestruct: "journal_run D s (j, db) \<Longrightarrow> warm_in j a
    \<Longrightarrow> journal_selfdestruct D a t j db = Some (r, j', db') \<Longrightarrow> journal_run D s (j', db')"
| run_transfer: "journal_run D s (j, db) \<Longrightarrow> warm_in j f \<Longrightarrow> warm_in j t
    \<Longrightarrow> transfer_loaded f t v j = Some (r, j') \<Longrightarrow> r \<noteq> Some OverflowPayment \<Longrightarrow> journal_run D s (j', db)"
| run_bump_nonce: "journal_run D s (j, db) \<Longrightarrow> j_state j a = Some acc \<Longrightarrow> \<not> flagged_cold acc
    \<Longrightarrow> ja_bump_nonce a (acc, j_journal j) = (r, ja) \<Longrightarrow> journal_run D s (put_account a ja j, db)"
| run_create: "journal_run D s (j, db) \<Longrightarrow> warm_in j caller \<Longrightarrow> j_state j t = Some acc \<Longrightarrow> \<not> flagged_cold acc
    \<Longrightarrow> is_enabled_in (j_spec j) SPURIOUS_DRAGON \<or> \<not> is_created_locally acc
    \<Longrightarrow> create_account_checkpoint caller t v (j_spec j) j = Some (r, j') \<Longrightarrow> journal_run D s (j', db)"
| run_set_code: "journal_run D s (j, db) \<Longrightarrow> j_state j a = Some acc \<Longrightarrow> \<not> flagged_cold acc
    \<Longrightarrow> ai_code_hash (ac_info acc) = KECCAK_EMPTY \<Longrightarrow> set_code_with_hash a code h j = Some j'
    \<Longrightarrow> journal_run D s (j', db)"
| run_checkpoint: "journal_run D s (j, db) \<Longrightarrow> journal_run D s (snd (checkpoint j), db)"
| run_commit: "journal_run D s (j, db) \<Longrightarrow> journal_run D s (checkpoint_commit j, db)"
| run_revert: "journal_run D s (j, db) \<Longrightarrow> journal_run D (j, db) (j', db')
    \<Longrightarrow> checkpoint_revert (fst (checkpoint j)) j' = Some j1 \<Longrightarrow> journal_run D s (j1, db')"

lemma checkpoint_indices [simp]:
  "jc_journal_i (fst (checkpoint j)) = length (j_journal j)" "jc_log_i (fst (checkpoint j)) = length (j_logs j)"
  by (simp_all add: checkpoint_def)

lemma run_restores: "journal_run D s s' \<Longrightarrow> restores (fst s) (fst s')"
proof (induction rule: journal_run.induct)
  case (run_revert s j db j' db' j1)
  have "restores j j1" if "journal_tidy j"
    using restores_revert [OF _ that, of j' "fst (checkpoint j)"] run_revert by auto
  then show ?case using run_revert(4) obs.grows_trans [of journal_tidy "fst s" j j1] by (auto simp: grows_def)
next
  case (run_sstore s j db a k v skip r j' db')
  then show ?case
    using sstore_restores [OF run_sstore(2)] obs.grows_trans [of journal_tidy "fst s" j j'] by (auto simp: grows_def)
next
  case (run_selfdestruct s j db a t r j' db')
  then show ?case
    using selfdestruct_restores [OF run_selfdestruct(3)] obs.grows_trans [of journal_tidy "fst s" j j'] by (auto simp: grows_def)
next
  case (run_set_code s j db a acc code h j')
  then show ?case
    using set_code_restores [OF run_set_code(5)] obs.grows_trans [of journal_tidy "fst s" j j'] by (auto simp: warm_in_def)
qed (auto simp: obs.grows_refl checkpoint_def checkpoint_commit_def
    intro: obs.grows_trans load_restores sload_restores restores_tstore restores_log transfer_loaded_restores
      bump_nonce_restores restores_depth dest: create_restores)

section \<open>Properties\<close>

text \<open>C6. Reverting to a checkpoint never panics and undoes what a frame did since, in the first transaction of
  a journal. The frame may load accounts and slots, write storage and transient storage, emit logs, transfer,
  create (also when the creation fails), self-destruct, bump nonces, set code, and open, commit and revert
  nested checkpoints, in any order, on accounts it has loaded. Then every account loaded at the checkpoint
  has the balance, nonce, code hash, status flags and slots it had, accounts loaded since are as loaded,
  transient storage reads the same, and logs and journal are those of the checkpoint. Three changes are
  excluded by \<open>journal_run\<close>, since the journal does not record what they overwrite: a transfer that fails with
  \<open>OverflowPayment\<close>, which leaves the sender debited; new code for an account that already has code; and,
  before Spurious Dragon, a second creation at an address that was created in the same transaction. Not
  compared are the cached code of an account and, for the address 3, the touched flag.\<close>
theorem checkpoint_revert_restores:
  assumes "journal_tidy j" "journal_run D (j, db) (j', db')"
  shows "\<exists>j1. checkpoint_revert (fst (checkpoint j)) j' = Some j1
    \<and> (\<forall>a acc. j_state j a = Some acc \<longrightarrow> (\<exists>acc1. j_state j1 a = Some acc1 \<and> same_account a acc1 acc))
    \<and> (\<forall>a acc1. j_state j a = None \<longrightarrow> j_state j1 a = Some acc1 \<longrightarrow> fresh_account (j_warm_addresses j) a acc1)
    \<and> (\<forall>a k. tload a k j1 = tload a k j) \<and> j_logs j1 = j_logs j \<and> j_journal j1 = j_journal j"
proof -
  have "restores j j'" using run_restores [OF assms(2)] by simp
  from restores_revert [OF this assms(1), of "fst (checkpoint j)"]
  obtain j1 where "checkpoint_revert (fst (checkpoint j)) j' = Some j1"
      "state_rel same_account (fresh_account (j_warm_addresses j)) (j_state j1) (j_state j)"
      "same_transient (j_transient_storage j1) (j_transient_storage j)" "j_logs j1 = j_logs j" "j_journal j1 = j_journal j"
    by auto
  then show ?thesis by (auto simp: state_rel_def same_transient_def tload_def)
qed

theorem checkpoint_revert_restores_witness:
  "\<exists>j1. checkpoint_revert (fst (checkpoint journal_inner_new))
      (journal_log \<lparr>log_address = 5, log_topics = [], log_data = []\<rparr> (tstore 5 1 9
        (fst (snd (load_account_mut_optional_code (empty_db (\<lambda>_. 0) :: (unit, nat) database) 5 True False journal_inner_new ()))))) = Some j1
    \<and> tload 5 1 j1 = 0 \<and> j_logs j1 = [] \<and> j_journal j1 = []"
proof -
  let ?D = "empty_db (\<lambda>_. 0) :: (unit, nat) database"
  let ?l = "load_account_mut_optional_code ?D 5 True False journal_inner_new ()"
  have t: "journal_tidy journal_inner_new" by (simp add: journal_tidy_def journal_wf_def journal_inner_new_def)
  have "journal_run ?D (journal_inner_new, ()) (fst (snd ?l), ())"
    by (rule run_load [OF run_refl, where a = 5 and lc = True and skip = False and r = "fst ?l"]) (simp add: prod_eq_iff)
  then have "journal_run ?D (journal_inner_new, ()) (journal_log \<lparr>log_address = 5, log_topics = [], log_data = []\<rparr>
      (tstore 5 1 9 (fst (snd ?l))), ())"
    by (intro run_log run_tstore)
  from checkpoint_revert_restores [OF t this]
  show ?thesis by (auto simp: tload_def journal_inner_new_def)
qed

section \<open>Changes that are not undone\<close>

text \<open>A transfer that fails with \<open>OverflowPayment\<close> has already debited the sender and journals no
  entry for it: reverting the frame does not give the balance back.\<close>

theorem overflow_payment_not_reverted:
  assumes "f \<noteq> t" "v \<noteq> 0" "j_state j f = Some facc" "j_state j t = Some tacc"
    and "is_touched facc" "is_touched tacc"
    and "v \<le> ai_balance (ac_info facc)" "checked_add (ai_balance (ac_info tacc)) v = None"
  shows "\<exists>j' j1 acc. transfer_loaded f t v j = Some (Some OverflowPayment, j')
    \<and> checkpoint_revert (fst (checkpoint j)) j' = Some j1
    \<and> j_state j1 f = Some acc \<and> ai_balance (ac_info acc) = ai_balance (ac_info facc) - v"
proof -
  have "checked_sub (ai_balance (ac_info facc)) v = Some (ai_balance (ac_info facc) - v)"
    using assms(7) by (simp add: checked_sub_def)
  then show ?thesis
    using assms by (auto simp: transfer_loaded_def touch_account_def checkpoint_revert_def put_account_def
        upd_info_def Let_def)
qed

text \<open>Reverting a change of code resets the code hash to that of the empty code, whatever the code
  was before: discarding a transaction that replaced a delegation leaves the account without one.\<close>

theorem code_change_reverts_to_empty:
  assumes "j_state j a = Some acc" "j_journal j = []" "is_touched acc" "set_code_with_hash a code h j = Some j'"
  shows "\<exists>j1 acc1. discard_tx j' = Some j1 \<and> j_state j1 a = Some acc1 \<and> ai_code_hash (ac_info acc1) = KECCAK_EMPTY
    \<and> ai_code (ac_info acc1) = None"
  using assms
  by (auto simp: set_code_with_hash_def touch_account_def discard_tx_def put_account_def upd_account_def upd_info_def)

end
