(* ===== verification/Ctx_Host.thy ===== *)
theory Ctx_Host
  imports Run Restore
begin

text \<open>
  The execution context meets the contract of the interpreter's host. What the context needs of its
  database is the locale \<open>evm_database\<close>; every host method then keeps the journal revertible
  (\<open>evolves\<close>), keeps the loaded code well-formed, and, for the methods a static frame may call, is
  read-only on everything but the warming of accounts and slots and the touching of accounts.
\<close>

section \<open>Well-formed code in the state\<close>

definition code_ok :: "account \<Rightarrow> bool" where
  "code_ok acc \<longleftrightarrow> (\<forall>b. ai_code (ac_info acc) = Some b \<longrightarrow> bytecode_ok b)"

definition codes_ok :: "evm_state \<Rightarrow> bool" where
  "codes_ok st \<longleftrightarrow> (\<forall>a acc. st a = Some acc \<longrightarrow> code_ok acc)"

lemma codes_ok_upd [intro!]: "codes_ok st \<Longrightarrow> code_ok acc \<Longrightarrow> codes_ok (st(a \<mapsto> acc))"
  by (simp add: codes_ok_def)

lemma codes_okD: "codes_ok st \<Longrightarrow> st a = Some acc \<Longrightarrow> code_ok acc"
  by (simp add: codes_ok_def)

lemma code_ok_simps [simp]:
  "code_ok (mark_touch acc) = code_ok acc" "code_ok (mark_cold acc) = code_ok acc"
  "code_ok (unmark_touch acc) = code_ok acc" "code_ok (unmark_created_locally acc) = code_ok acc"
  "code_ok (unmark_created acc) = code_ok acc" "code_ok (unmark_selfdestruct acc) = code_ok acc"
  "code_ok (unmark_selfdestructed_locally acc) = code_ok acc"
  "code_ok (snd (mark_created_locally acc)) = code_ok acc"
  "code_ok (snd (mark_selfdestructed_locally acc)) = code_ok acc"
  "code_ok (acc\<lparr>ac_storage := s\<rparr>) = code_ok acc"
  "code_ok (add_balance b acc) = code_ok acc" "code_ok (sub_balance b acc) = code_ok acc"
  "code_ok (upd_info (\<lambda>i. i\<lparr>ai_balance := x\<rparr>) acc) = code_ok acc"
  "code_ok (upd_info (\<lambda>i. i\<lparr>ai_nonce := n\<rparr>) acc) = code_ok acc"
  "code_ok (upd_info (\<lambda>i. i\<lparr>ai_nonce := ai_nonce i - 1\<rparr>) acc) = code_ok acc"
  "code_ok (upd_info (\<lambda>i. i\<lparr>ai_code := None\<rparr>) acc)"
  "code_ok (upd_info (\<lambda>i. i\<lparr>ai_code_hash := h, ai_code := None\<rparr>) acc)"
  "code_ok (upd_info (\<lambda>i. i\<lparr>ai_code := Some c\<rparr>) acc) = bytecode_ok c"
  "code_ok (upd_info (\<lambda>i. i\<lparr>ai_code_hash := h, ai_code := Some c\<rparr>) acc) = bytecode_ok c"
  by (simp_all add: code_ok_def status_defs upd_info_def add_balance_def sub_balance_def)

lemma touch_account_code [simp]: "code_ok (fst (touch_account a acc es)) = code_ok acc"
  by (simp add: touch_account_def)

lemma upd_account_codes: "upd_account a f st = Some st' \<Longrightarrow> codes_ok st \<Longrightarrow> (\<And>x. code_ok x \<Longrightarrow> code_ok (f x)) \<Longrightarrow> codes_ok st'"
  by (auto simp: upd_account_def codes_ok_def split: option.splits if_splits)

lemma entry_revert_codes:
  assumes "entry_revert isd e s = Some s'" "codes_ok (fst s)"
  shows "codes_ok (fst s')"
proof (cases s)
  case (Pair st ts)
  show ?thesis
  proof (cases e)
    case (StorageChanged k v a)
    then show ?thesis using assms Pair codes_okD [of st a] by (auto simp: bind_eq_Some_conv upd_slot_def split: option.splits)
  next
    case (StorageWarmed k a)
    then show ?thesis using assms Pair codes_okD [of st a] by (auto simp: bind_eq_Some_conv upd_slot_def split: option.splits)
  qed (use assms Pair in \<open>auto simp: bind_eq_Some_conv Let_def split: option.splits if_splits selfdestruction_revert_status.splits
        elim!: upd_account_codes\<close>)
qed

lemma entries_revert_codes: "entries_revert isd es s = Some s' \<Longrightarrow> codes_ok (fst s) \<Longrightarrow> codes_ok (fst s')"
  by (induction es arbitrary: s') (auto simp: bind_eq_Some_conv dest: entry_revert_codes)

lemma checkpoint_revert_codes: "checkpoint_revert c j = Some j' \<Longrightarrow> codes_ok (j_state j) \<Longrightarrow> codes_ok (j_state j')"
  by (auto simp: checkpoint_revert_def Let_def split: if_splits dest!: entries_revert_codes)

lemma put_codes: "codes_ok (j_state j) \<Longrightarrow> code_ok (fst ja) \<Longrightarrow> codes_ok (j_state (put_account a ja j))"
  by (cases ja) (auto simp: put_account_def)

lemma touch_codes: "codes_ok (j_state j) \<Longrightarrow> codes_ok (j_state (touch a j))"
  by (auto simp: touch_def split: option.split intro!: put_codes intro: codes_okD)

lemma transfer_codes: "transfer_loaded f t v j = Some (r, j') \<Longrightarrow> codes_ok (j_state j) \<Longrightarrow> codes_ok (j_state j')"
  using codes_okD [of "j_state j" f] codes_okD [of "j_state j" t]
  by (auto simp: transfer_loaded_def Let_def case_prod_beta bind_eq_Some_conv split: if_splits option.splits)

lemma create_codes:
  assumes "create_account_checkpoint caller t v sp j = Some (r, j')" "codes_ok (j_state j)"
  shows "codes_ok (j_state j')"
proof -
  have d: "j_state (snd (checkpoint j)) = j_state j" by (simp add: checkpoint_def)
  obtain acc where acc: "j_state j t = Some acc" using assms(1)
    by (auto simp: create_account_checkpoint_def Let_def case_prod_beta d bind_eq_Some_conv)
  have c: "code_ok (fst (touch_account t (if b then upd_info (\<lambda>i. i\<lparr>ai_nonce := 1\<rparr>) (upd_info (\<lambda>i. i\<lparr>ai_code := None\<rparr>) x)
      else upd_info (\<lambda>i. i\<lparr>ai_code := None\<rparr>) x) es))" for b x es by simp
  show ?thesis
    using assms acc c
    by (auto simp: create_account_checkpoint_def Let_def case_prod_beta d split: if_splits option.splits
      dest!: checkpoint_revert_codes elim!: upd_account_codes)
qed

lemma set_code_codes: "set_code_with_hash a b h j = Some j' \<Longrightarrow> codes_ok (j_state j) \<Longrightarrow> bytecode_ok b \<Longrightarrow> codes_ok (j_state j')"
  by (auto simp: set_code_with_hash_def Let_def case_prod_beta)

section \<open>Reads that only warm or touch\<close>

definition same_values :: "account \<Rightarrow> account \<Rightarrow> bool" where
  "same_values acc' acc \<longleftrightarrow> same_info (ac_info acc') (ac_info acc)
     \<and> (\<forall>k s. ac_storage acc k = Some s \<longrightarrow> (\<exists>s'. ac_storage acc' k = Some s' \<and> ss_present_value s' = ss_present_value s))"

fun warming :: "journal_entry \<Rightarrow> bool" where
  "warming (AccountWarmed a) \<longleftrightarrow> True"
| "warming (AccountTouched a) \<longleftrightarrow> True"
| "warming (StorageWarmed k a) \<longleftrightarrow> True"
| "warming e \<longleftrightarrow> False"

definition read_only :: "journal_inner \<Rightarrow> journal_inner \<Rightarrow> bool" where
  "read_only j j' \<longleftrightarrow> j_logs j' = j_logs j \<and> j_transient_storage j' = j_transient_storage j
     \<and> (\<exists>es. j_journal j' = j_journal j @ es \<and> list_all warming es)
     \<and> (\<forall>a acc. j_state j a = Some acc \<longrightarrow> (\<exists>acc'. j_state j' a = Some acc' \<and> same_values acc' acc))"

lemma same_values_refl: "same_values acc acc"
  by (simp add: same_values_def)

lemma same_values_trans: "same_values x y \<Longrightarrow> same_values y z \<Longrightarrow> same_values x z"
  unfolding same_values_def same_info_def by (elim conjE, intro conjI) (fastforce)+

lemma read_only_refl: "read_only j j"
  by (simp add: read_only_def same_values_refl)

lemma read_only_trans:
  assumes "read_only j j'" "read_only j' j''"
  shows "read_only j j''"
proof -
  have "\<exists>acc''. j_state j'' a = Some acc'' \<and> same_values acc'' acc" if "j_state j a = Some acc" for a acc
    using that assms unfolding read_only_def by (meson same_values_trans)
  then show ?thesis using assms by (auto simp: read_only_def)
qed

lemma read_only_warmed:
  assumes "\<And>acc0. j_state j a = Some acc0 \<Longrightarrow> same_values acc acc0"
  shows "read_only j (warmed a c acc j)"
  using assms by (auto simp: read_only_def warmed_def same_values_refl)

lemma load_read_only:
  assumes "load_account_mut_optional_code D a lc skip j db = (r, j', db')" "journal_wf j"
  shows "read_only j j'"
proof -
  have v: "same_values (upd_info (\<lambda>i. i\<lparr>ai_code := x\<rparr>) acc) acc0 = same_values acc acc0" for x acc acc0
    by (simp add: same_values_def same_info_def upd_info_def)
  have f: "read_only j j'" if "finish_load D a lc c acc j db1 = (r1, j', db2)" "\<And>acc0. j_state j a = Some acc0 \<Longrightarrow> same_values acc acc0"
    for c acc db1 r1 db2
    using finish_load_warmed [OF that(1)] that(2) v by (auto intro!: read_only_warmed)
  show ?thesis
  proof (cases "j_state j a")
    case None
    then show ?thesis using assms(1) f
      by (auto simp: load_account_mut_optional_code_def Let_def read_only_refl split: if_splits prod.splits sum.splits)
  next
    case (Some acc)
    then have wf: "account_wf (j_warm_addresses j) a acc" "j_transaction_id j = 0" using assms(2) by (simp_all add: journal_wf_def)
    have "same_values (refresh_account 0 acc) acc" if "is_cold_transaction_id 0 acc"
      using that wf(1) by (auto simp: refresh_account_def account_wf_def is_cold_transaction_id_def same_values_def
          mark_warm_with_transaction_id_def unmark_created_locally_def is_selfdestructed_locally_def Let_def)
    then show ?thesis using assms(1) f Some same_values_refl wf(2)
      by (auto simp: load_account_mut_optional_code_def Let_def read_only_refl split: if_splits)
  qed
qed

lemma sload_read_only:
  assumes "sload D a k skip j db = Some (r, j', db')"
  shows "read_only j j'"
proof -
  obtain acc where acc: "j_state j a = Some acc" using assms by (auto simp: sload_def)
  have "read_only j (j\<lparr>j_state := (j_state j)(a \<mapsto> acc\<lparr>ac_storage := (ac_storage acc)(k \<mapsto> s)\<rparr>), j_journal := j_journal j @ es\<rparr>)"
    if "list_all warming es" "\<And>t. ac_storage acc k = Some t \<Longrightarrow> ss_present_value s = ss_present_value t" for s es
    using that acc by (auto simp: read_only_def same_values_def same_info_def)
  from this [of "[]"] this [of "[StorageWarmed k a]"] show ?thesis
    using assms acc
    by (auto simp: sload_def Let_def read_only_refl slot_mark_warm_def split: option.splits if_splits sum.splits prod.splits)
qed

section \<open>The contract of the database\<close>

locale evm_database =
  fixes D :: "('db, 'e) database" and I :: "'db \<Rightarrow> bool"
  assumes basic_law: "I db \<Longrightarrow> db_basic D db a = (r, db') \<Longrightarrow>
      I db' \<and> (\<forall>i b. r = Inr (Some i) \<longrightarrow> ai_code i = Some b \<longrightarrow> bytecode_ok b)"
    and code_law: "I db \<Longrightarrow> db_code_by_hash D db h = (c, db') \<Longrightarrow> I db' \<and> (\<forall>b. c = Inr b \<longrightarrow> bytecode_ok b)"
    and storage_law: "I db \<Longrightarrow> db_storage D db a k = (v, db') \<Longrightarrow> I db'"
    and block_law: "I db \<Longrightarrow> db_block_hash D db n = (bh, db') \<Longrightarrow> I db'"

definition ctx_ok :: "('db \<Rightarrow> bool) \<Rightarrow> spec_id \<Rightarrow> ('db, 'e) ctx \<Rightarrow> bool" where
  "ctx_ok I sp c \<longleftrightarrow> journal_wf (cx_journal c) \<and> codes_ok (j_state (cx_journal c)) \<and> I (cx_db c)
     \<and> (is_enabled_in sp MERGE \<longrightarrow> be_prevrandao (cx_block c) \<noteq> None)"

definition ctx_inv :: "('db \<Rightarrow> bool) \<Rightarrow> spec_id \<Rightarrow> address \<Rightarrow> ('db, 'e) ctx \<Rightarrow> bool" where
  "ctx_inv I sp a c \<longleftrightarrow> ctx_ok I sp c \<and> warm_in (cx_journal c) a"

definition ctx_ev :: "('db \<Rightarrow> bool) \<Rightarrow> spec_id \<Rightarrow> bool \<Rightarrow> ('db, 'e) ctx \<Rightarrow> ('db, 'e) ctx \<Rightarrow> bool" where
  "ctx_ev I sp st c c' \<longleftrightarrow> (ctx_ok I sp c \<longrightarrow> ctx_ok I sp c' \<and> evolves (cx_journal c) (cx_journal c')
     \<and> cx_block c' = cx_block c \<and> cx_tx c' = cx_tx c \<and> cx_cfg c' = cx_cfg c
     \<and> cx_local c' = cx_local c \<and> cx_par_7702 c' = cx_par_7702 c
     \<and> (st \<longrightarrow> read_only (cx_journal c) (cx_journal c')))"

abbreviation ctx_err :: "('db, 'e) ctx \<Rightarrow> bool" where
  "ctx_err c \<equiv> cx_error c \<noteq> None"

lemma ctx_evI:
  assumes "ctx_ok I sp c \<Longrightarrow> evolves (cx_journal c) j \<and> codes_ok (j_state j) \<and> I db \<and> (st \<longrightarrow> read_only (cx_journal c) j)"
  shows "ctx_ev I sp st c (c\<lparr>cx_journal := j, cx_db := db\<rparr>)" "ctx_ev I sp st c (c\<lparr>cx_journal := j, cx_db := db, cx_error := e\<rparr>)"
  using assms evolvesD(1) by (auto simp: ctx_ev_def ctx_ok_def)

lemma ctx_map_err_ev:
  assumes "ctx_map_err (r, j, db) c = (x, c')"
    and "ctx_ok I sp c \<Longrightarrow> evolves (cx_journal c) j \<and> codes_ok (j_state j) \<and> I db \<and> (st \<longrightarrow> read_only (cx_journal c) j)"
  shows "ctx_ev I sp st c c' \<and> (\<forall>y. x = Inr y \<longrightarrow> r = Inr y) \<and> cx_journal c' = j
    \<and> ((\<not> skip \<longrightarrow> r \<noteq> Inl ColdLoadSkipped) \<longrightarrow> load_failed (ctx_err c') skip x)"
proof (cases r)
  case (Inl e)
  then show ?thesis using assms ctx_evI [of I sp c j db st]
    by (cases e) (auto simp: ctx_map_err_def ctx_store_def)
next
  case (Inr y)
  then show ?thesis using assms ctx_evI [of I sp c j db st] by (auto simp: ctx_map_err_def ctx_store_def)
qed

context evm_database
begin

lemma finish_load_codes:
  assumes "finish_load D a lc c acc j db = (r, j', db')" "I db" "code_ok acc" "codes_ok (j_state j)"
  shows "I db' \<and> codes_ok (j_state j')"
proof -
  obtain x db1 where x: "(if ai_code_hash (ac_info acc) = KECCAK_EMPTY then (Inr bytecode_new, db)
      else db_code_by_hash D db (ai_code_hash (ac_info acc))) = (x, db1)" by fastforce
  have "I db1 \<and> (\<forall>b. x = Inr b \<longrightarrow> bytecode_ok b)"
    using x assms(2) code_law by (auto split: if_splits)
  then show ?thesis
    using assms x by (auto simp: finish_load_def Let_def split: if_splits sum.splits)
qed

lemma load_codes:
  assumes "load_account_mut_optional_code D a lc skip j db = (r, j', db')" "I db" "codes_ok (j_state j)" "journal_wf j"
  shows "I db' \<and> codes_ok (j_state j')"
proof (cases "j_state j a")
  case None
  obtain x db1 where x: "db_basic D db a = (x, db1)" by fastforce
  have n: "code_ok (new_not_existing t)" for t by (simp add: code_ok_def new_not_existing_def account_info_default_def)
  have "I db1 \<and> (\<forall>i. x = Inr (Some i) \<longrightarrow> code_ok (account_from_info i))"
    using basic_law [OF assms(2) x] by (auto simp: code_ok_def account_from_info_def)
  then show ?thesis
    using assms None x n finish_load_codes
    by (auto simp: load_account_mut_optional_code_def Let_def split: if_splits sum.splits option.splits)
next
  case (Some acc)
  then have c: "code_ok acc" using assms(3) by (rule codes_okD [rotated])
  have "code_ok (refresh_account t acc)" for t
    using c by (auto simp: refresh_account_def code_ok_def account_selfdestruct_def account_info_default_def
        unmark_created_locally_def unmark_selfdestructed_locally_def mark_warm_with_transaction_id_def Let_def)
  then show ?thesis
    using assms Some c finish_load_codes
    by (auto simp: load_account_mut_optional_code_def Let_def split: if_splits)
qed

lemma sload_codes:
  assumes "sload D a k skip j db = Some (r, j', db')" "I db" "codes_ok (j_state j)"
  shows "I db' \<and> codes_ok (j_state j')"
proof -
  obtain acc where acc: "j_state j a = Some acc" "code_ok acc"
    using assms(1,3) codes_okD by (auto simp: sload_def)
  show ?thesis
    using assms acc storage_law
    by (auto simp: sload_def Let_def split: option.splits if_splits sum.splits prod.splits)
qed

lemma sstore_codes:
  assumes "sstore D a k v skip j db = Some (r, j', db')" "I db" "codes_ok (j_state j)"
  shows "I db' \<and> codes_ok (j_state j')"
proof -
  obtain r1 j1 db1 where l: "sload D a k skip j db = Some (r1, j1, db1)"
    using assms(1) by (auto simp: sstore_def bind_eq_Some_conv)
  show ?thesis
    using assms(1) l sload_codes [OF l assms(2,3)] codes_okD [of "j_state j1" a]
    by (auto simp: sstore_def Let_def bind_eq_Some_conv split: sum.splits if_splits)
qed

lemma unwrap_codes:
  assumes "unwrap_db_error (load_account_mut_optional_code D a lc skip j db) = Some (r, j', db')"
    and "I db" "codes_ok (j_state j)" "journal_wf j"
  shows "I db' \<and> codes_ok (j_state j')"
proof -
  obtain r0 j0 db0 where l: "load_account_mut_optional_code D a lc skip j db = (r0, j0, db0)" using prod_cases3 by blast
  have "j' = j0 \<and> db' = db0"
    using assms(1) unfolding l unwrap_db_error_def
    by (cases r0) (auto split: journal_load_error.splits)
  then show ?thesis using load_codes [OF l assms(2-4)] by simp
qed

lemma load_account_codes:
  "load_account D a j db = Some (r, j', db') \<Longrightarrow> I db \<Longrightarrow> codes_ok (j_state j) \<Longrightarrow> journal_wf j \<Longrightarrow> I db' \<and> codes_ok (j_state j')"
  "load_code D a j db = Some (r, j', db') \<Longrightarrow> I db \<Longrightarrow> codes_ok (j_state j) \<Longrightarrow> journal_wf j \<Longrightarrow> I db' \<and> codes_ok (j_state j')"
  unfolding load_account_def load_code_def by (rule unwrap_codes; assumption)+

lemma selfdestruct_codes:
  assumes "journal_selfdestruct D a t j db = Some (r, j', db')" "I db" "codes_ok (j_state j)" "journal_wf j"
  shows "I db' \<and> codes_ok (j_state j')"
proof -
  obtain r1 j1 db1 where l: "load_account D t j db = Some (r1, j1, db1)"
    using assms(1) by (auto simp: journal_selfdestruct_def Let_def bind_eq_Some_conv)
  have c: "I db1" "codes_ok (j_state j1)" using load_account_codes(1) [OF l assms(2-4)] by auto
  show ?thesis
  proof (cases r1)
    case (Inr cold)
    let ?J2 = "\<lambda>tacc. if a \<noteq> t then map_option (\<lambda>acc. case touch_account t tacc (j_journal j1) of (tacc, es) \<Rightarrow>
        put_account t (add_balance (ai_balance (ac_info acc)) tacc, es) j1) (j_state j1 a) else Some j1"
    obtain tacc j2 acc where j2: "j_state j1 t = Some tacc" "?J2 tacc = Some j2" "j_state j2 a = Some acc"
      using assms(1) unfolding journal_selfdestruct_def Let_def l Inr Option.bind.simps prod.case sum.case bind_eq_Some_conv
      by blast
    have c2: "codes_ok (j_state j2)"
      using j2(2) c(2) codes_okD [OF c(2) j2(1)] by (auto simp: case_prod_beta split: if_splits)
    have a2: "code_ok acc" using codes_okD [OF c2 j2(3)] .
    show ?thesis
      using assms(1) c(1) c2 a2
      unfolding journal_selfdestruct_def Let_def l Inr Option.bind.simps prod.case sum.case j2
      by (auto intro!: put_codes split: if_splits)
  qed (use assms(1) l c in \<open>auto simp: journal_selfdestruct_def Let_def\<close>)
qed

end

text \<open>Only a load that may skip reports a skip.\<close>

lemma sload_not_skipped: "sload D a k False j db = Some (r, j', db') \<Longrightarrow> r \<noteq> Inl ColdLoadSkipped"
  by (auto simp: sload_def Let_def split: option.splits sum.splits prod.splits if_splits)

lemma sstore_not_skipped:
  assumes "sstore D a k v False j db = Some (r, j', db')"
  shows "r \<noteq> Inl ColdLoadSkipped"
proof -
  obtain x j1 db1 where x: "sload D a k False j db = Some (x, j1, db1)"
    using assms by (auto simp: sstore_def bind_eq_Some_conv)
  show ?thesis
    using assms sload_not_skipped [OF x]
    by (cases x) (auto simp: sstore_def x Let_def bind_eq_Some_conv split: if_splits)
qed

section \<open>The context is a host\<close>

lemma ctx_ev_refl: "ctx_ev I sp st c c"
  by (simp add: ctx_ev_def shape.grows_refl read_only_refl)

lemma ctx_ev_trans: "ctx_ev I sp st c c' \<Longrightarrow> ctx_ev I sp st c' c'' \<Longrightarrow> ctx_ev I sp st c c''"
  unfolding ctx_ev_def using shape.grows_trans read_only_trans by (metis (no_types, lifting))

lemma ctx_ev_inv: "ctx_ev I sp st c c' \<Longrightarrow> ctx_inv I sp b c \<Longrightarrow> ctx_inv I sp b c'"
  unfolding ctx_ev_def ctx_inv_def using evolvesD(2) by (auto simp: ctx_ok_def)

lemma ctx_journal_ev:
  "evolves (cx_journal c) j \<Longrightarrow> j_state j = j_state (cx_journal c) \<Longrightarrow> ctx_ev I sp False c (c\<lparr>cx_journal := j\<rparr>)"
  using evolvesD(1) by (auto simp: ctx_ev_def ctx_ok_def)

context evm_database
begin

lemma ctx_load_ok:
  assumes "ctx_inv I sp a c"
  shows "ok (\<lambda>(r, c'). ctx_ev I sp True c c' \<and> (\<forall>l. r = Inr l \<longrightarrow> load_ok with_code l \<and> ctx_inv I sp x c')
      \<and> load_failed (ctx_err c') skip r)
    (ctx_load_account_info D c x with_code skip)"
proof -
  obtain r j db where l: "load_account_mut_optional_code D x with_code skip (cx_journal c) (cx_db c) = (r, j, db)"
    using prod_cases3 by blast
  have c: "ctx_ok I sp c" "journal_wf (cx_journal c)" "codes_ok (j_state (cx_journal c))" "I (cx_db c)"
    using assms by (auto simp: ctx_inv_def ctx_ok_def)
  have e: "evolves (cx_journal c) j \<and> codes_ok (j_state j) \<and> I db \<and> (True \<longrightarrow> read_only (cx_journal c) j)"
    using load_loads [OF l c(2)] load_codes [OF l c(4,3,2)] load_read_only [OF l c(2)] by (simp add: loads_def)
  have sk: "\<not> skip \<longrightarrow> r \<noteq> Inl ColdLoadSkipped" using load_loads [OF l c(2)] by (auto simp: loads_def)
  have ce: "ctx_ev I sp True c c' \<and> (\<forall>y. z = Inr y \<longrightarrow> r' = Inr y) \<and> cx_journal c' = j
      \<and> ((\<not> skip \<longrightarrow> r' \<noteq> Inl ColdLoadSkipped) \<longrightarrow> load_failed (ctx_err c') skip z)"
    if "ctx_map_err (r', j, db) c = (z, c')" for r' :: "'e journal_load_error + account_info_load" and z c'
    using ctx_map_err_ev [OF that, where skip = skip] e by blast
  show ?thesis
  proof (cases r)
    case (Inl e)
    obtain z c' where z: "ctx_map_err (Inl e :: 'e journal_load_error + account_info_load, j, db) c = (z, c')" by fastforce
    then show ?thesis using l Inl ce [OF z] sk by (auto simp: ctx_load_account_info_def)
  next
    case (Inr cold)
    then obtain acc where acc: "j_state j x = Some acc" "\<not> flagged_cold acc" "with_code \<longrightarrow> ai_code (ac_info acc) \<noteq> None"
      using load_loads [OF l c(2)] by (auto simp: loads_def)
    have "code_ok acc" using e acc(1) codes_okD by blast
    then have lo: "load_ok with_code \<lparr>ail_account = ac_info acc, ail_is_cold = cold, ail_is_empty = em\<rparr>" for em
      using acc(3) by (simp add: load_ok_def code_ok_def)
    obtain z c' where z: "ctx_map_err (Inr \<lparr>ail_account = ac_info acc, ail_is_cold = cold,
        ail_is_empty = state_clear_aware_is_empty (j_spec (cx_journal c)) acc\<rparr>, j, db) c = (z, c')" by fastforce
    have "ctx_inv I sp x c'"
      using ce [OF z] c(1) acc by (auto simp: ctx_ev_def ctx_inv_def warm_in_def)
    then show ?thesis using l Inr acc(1) ce [OF z] lo z by (auto simp: ctx_load_account_info_def)
  qed
qed

lemma ctx_sload_ok:
  assumes "ctx_inv I sp a c"
  shows "ok (\<lambda>(r, c'). ctx_ev I sp True c c' \<and> load_failed (ctx_err c') skip r) (map_option (\<lambda>r. ctx_map_err r c) (sload D a k skip (cx_journal c) (cx_db c)))"
proof -
  have c: "a \<in> dom (j_state (cx_journal c))" "codes_ok (j_state (cx_journal c))" "I (cx_db c)"
    using assms warm_in_dom by (auto simp: ctx_inv_def ctx_ok_def)
  obtain r j db where l: "sload D a k skip (cx_journal c) (cx_db c) = Some (r, j, db)" using sload_some [OF c(1), of D k skip "cx_db c"] by auto
  obtain z c' where z: "ctx_map_err (r, j, db) c = (z, c')" by fastforce
  then show ?thesis
    using l ctx_map_err_ev [OF z, of I sp True skip] sload_not_skipped [of D a k "cx_journal c" "cx_db c" r j db]
      sload_evolves [OF l] sload_codes [OF l c(3,2)] sload_read_only [OF l] by auto
qed

lemma ctx_sstore_ok:
  assumes "ctx_inv I sp a c"
  shows "ok (\<lambda>(r, c'). ctx_ev I sp False c c' \<and> load_failed (ctx_err c') skip r) (map_option (\<lambda>r. ctx_map_err r c) (sstore D a k v skip (cx_journal c) (cx_db c)))"
proof -
  have c: "a \<in> dom (j_state (cx_journal c))" "codes_ok (j_state (cx_journal c))" "I (cx_db c)"
    using assms warm_in_dom by (auto simp: ctx_inv_def ctx_ok_def)
  obtain r j db where l: "sstore D a k v skip (cx_journal c) (cx_db c) = Some (r, j, db)" "evolves (cx_journal c) j"
    using sstore_evolves [OF c(1), of D k v skip "cx_db c"] by auto
  obtain z c' where z: "ctx_map_err (r, j, db) c = (z, c')" by fastforce
  then show ?thesis
    using l ctx_map_err_ev [OF z, of I sp False skip] sstore_not_skipped [of D a k v "cx_journal c" "cx_db c" r j db]
      sstore_codes [OF l(1) c(3,2)] by auto
qed

lemma ctx_selfdestruct_ok:
  assumes "ctx_inv I sp a c"
  shows "ok (\<lambda>(r, c'). ctx_ev I sp False c c' \<and> (r = None \<longrightarrow> ctx_err c')) (ctx_selfdestruct D c a x)"
proof -
  have c: "warm_in (cx_journal c) a" "journal_wf (cx_journal c)" "codes_ok (j_state (cx_journal c))" "I (cx_db c)"
    using assms by (auto simp: ctx_inv_def ctx_ok_def)
  obtain r j db where l: "journal_selfdestruct D a x (cx_journal c) (cx_db c) = Some (r, j, db)" "evolves (cx_journal c) j"
    using selfdestruct_evolves [OF c(2,1), of D x "cx_db c"] by auto
  show ?thesis
    using l selfdestruct_codes [OF l(1) c(4,3,2)] ctx_evI [of I sp c j db False]
    by (cases r) (auto simp: ctx_selfdestruct_def ctx_store_def)
qed

lemma ctx_block_hash_ev:
  assumes "ctx_block_hash D c n = (bh, c')"
  shows "ctx_ev I sp True c c' \<and> (bh = None \<longrightarrow> ctx_err c')"
proof -
  obtain r db where r: "db_block_hash D (cx_db c) n = (r, db)" by fastforce
  then have "I (cx_db c) \<Longrightarrow> I db" using block_law by blast
  then show ?thesis using assms r
    by (cases r) (auto simp: ctx_block_hash_def ctx_ev_def ctx_ok_def shape.grows_refl read_only_refl)
qed

end

sublocale evm_database \<subseteq> cx: evm_host "context_host D" "ctx_inv I" "ctx_ev I" ctx_err
proof (unfold_locales, goal_cases)
  case (5 sp a h x with_code skip)
  then show ?case using ctx_load_ok by (simp add: context_host_def)
next
  case (6 sp a h k skip)
  then show ?case using ctx_sload_ok by (simp add: context_host_def)
next
  case (7 sp a h k v skip)
  then show ?case using ctx_sstore_ok by (simp add: context_host_def)
next
  case (8 sp a h x)
  then show ?case using ctx_selfdestruct_ok by (simp add: context_host_def)
next
  case (10 sp a h k v)
  have "j_state (tstore a k v j) = j_state j" for j by (auto simp: tstore_def Let_def split: option.split)
  then show ?case by (simp add: context_host_def ctx_journal_ev evolves_tstore)
next
  case (11 sp a h l)
  have "j_state (journal_log l j) = j_state j" for j by (simp add: journal_log_def)
  then show ?case by (simp add: context_host_def ctx_journal_ev evolves_log)
next
  case (12 sp a h n bh h')
  then show ?case using ctx_block_hash_ev by (simp add: context_host_def)
next
  case (13 sp a h)
  then show ?case by (simp add: context_host_def ctx_inv_def ctx_ok_def)
qed (auto simp: context_host_def ctx_ev_refl ctx_ev_inv intro: ctx_ev_trans, simp add: ctx_ev_def)

section \<open>Databases that meet the contract\<close>

text \<open>A read-only database whose codes are well-formed, and what it gives.\<close>

locale evm_database_ref =
  fixes X :: "('x, 'e) database_ref" and J :: "'x \<Rightarrow> bool"
  assumes basic_ref_law: "J x \<Longrightarrow> dr_basic X x a = Inr (Some i) \<Longrightarrow> ai_code i = Some b \<Longrightarrow> bytecode_ok b"
    and code_ref_law: "J x \<Longrightarrow> dr_code_by_hash X x h = Inr c \<Longrightarrow> bytecode_ok c"

definition cache_inv :: "('x \<Rightarrow> bool) \<Rightarrow> 'x cache_db \<Rightarrow> bool" where
  "cache_inv J c \<longleftrightarrow> J (cd_db c)
     \<and> (\<forall>a acc b. ca_accounts (cd_cache c) a = Some acc \<longrightarrow> ai_code (da_info acc) = Some b \<longrightarrow> bytecode_ok b)
     \<and> (\<forall>h b. ca_contracts (cd_cache c) h = Some b \<longrightarrow> bytecode_ok b)"

lemma cache_inv_put:
  "cache_inv J c \<Longrightarrow> (\<And>b. ai_code (da_info acc) = Some b \<Longrightarrow> bytecode_ok b) \<Longrightarrow> cache_inv J (put_db_account a acc c)"
  by (simp add: cache_inv_def)

sublocale evm_database_ref \<subseteq> wrapped: evm_database "wrap_database_ref X" J
  by unfold_locales (auto simp: wrap_database_ref_def dest: basic_ref_law code_ref_law)

sublocale evm_database_ref \<subseteq> cached: evm_database "cache_database X" "cache_inv J"
proof (unfold_locales, goal_cases)
  case (1 db a r db')
  have J: "J (cd_db db)" using 1(1) by (simp add: cache_inv_def)
  show ?case
  proof (cases "ca_accounts (cd_cache db) a")
    case None
    show ?thesis
    proof (cases "dr_basic X (cd_db db) a")
      case (Inr i)
      then have "\<And>k b. i = Some k \<Longrightarrow> ai_code k = Some b \<Longrightarrow> bytecode_ok b" using basic_ref_law [OF J] by simp
      then show ?thesis using 1 None Inr
        by (cases i) (auto simp: cache_database_def cdb_basic_def db_account_defs account_info_default_def intro!: cache_inv_put)
    qed (use 1 None in \<open>auto simp: cache_database_def cdb_basic_def\<close>)
  qed (use 1 in \<open>auto simp: cache_database_def cdb_basic_def cache_inv_def db_account_info_def split: if_splits\<close>)
next
  case (2 db h c db')
  have J: "J (cd_db db)" using 2(1) by (simp add: cache_inv_def)
  have "\<And>b. Inr b = dr_code_by_hash X (cd_db db) h \<Longrightarrow> bytecode_ok b" using code_ref_law [OF J] by metis
  then show ?case using 2
    by (auto simp: cache_database_def cdb_code_by_hash_def cache_inv_def split: option.splits sum.splits if_splits)
next
  case (3 db a k v db')
  have J: "J (cd_db db)" using 3(1) by (simp add: cache_inv_def)
  show ?case
  proof (cases "ca_accounts (cd_cache db) a")
    case None
    show ?thesis
    proof (cases "dr_basic X (cd_db db) a")
      case (Inr i)
      then have "\<And>k b. i = Some k \<Longrightarrow> ai_code k = Some b \<Longrightarrow> bytecode_ok b" using basic_ref_law [OF J] by simp
      then show ?thesis using 3 None Inr
        by (cases i) (auto simp: cache_database_def cdb_storage_def db_account_defs account_info_default_def Let_def
            intro!: cache_inv_put split: sum.splits)
    qed (use 3 None in \<open>auto simp: cache_database_def cdb_storage_def\<close>)
  next
    case (Some acc)
    then have "\<And>b. ai_code (da_info acc) = Some b \<Longrightarrow> bytecode_ok b" using 3(1) by (simp add: cache_inv_def)
    then show ?thesis using 3 Some
      by (auto simp: cache_database_def cdb_storage_def intro!: cache_inv_put split: option.splits sum.splits if_splits)
  qed
next
  case (4 db n bh db')
  then show ?case
    by (auto simp: cache_database_def cdb_block_hash_def cache_inv_def split: option.splits sum.splits)
qed

interpretation empty_ref: evm_database_ref "empty_db_ref kec" "\<lambda>x. True"
  by unfold_locales (auto simp: empty_db_ref_def)

interpretation empty: evm_database "empty_db kec" "\<lambda>x. True"
  by unfold_locales (auto simp: empty_db_def empty_db_ref_def Let_def)

interpretation bench: evm_database benchmark_db "\<lambda>db. bytecode_ok (fst db)"
  by unfold_locales (auto simp: benchmark_db_def split: if_splits)

text \<open>The dummy host serves any account before the merge; after it, it has no \<open>prevrandao\<close>.\<close>

interpretation dummy: evm_host dummy_host "\<lambda>sp a h. \<not> is_enabled_in sp MERGE" "\<lambda>sp st h h'. True" "\<lambda>h. True"
  by unfold_locales (auto simp: dummy_host_def)

end
