(* ===== verification/Precompile.thy ===== *)
theory Precompile
  imports Warm Hardfork
begin

text \<open>
  The precompiled contracts of a hardfork (\<open>crates/precompile/src/lib.rs\<close>,
  \<open>crates/precompile/src/interface.rs\<close>, \<open>crates/precompile/src/id.rs\<close>): a precompile is an address
  with a function of input and gas limit, and a set of precompiles keeps them in a hash map, with a
  vector beside it for the short addresses. A function that panics has the value \<open>None\<close>.
\<close>

section \<open>Results and errors\<close>

record precompile_output =
  po_gas_used :: u64
  po_bytes :: bytes
  po_reverted :: bool

definition precompile_output_new :: "u64 \<Rightarrow> bytes \<Rightarrow> precompile_output" where
  "precompile_output_new gas_used bs = \<lparr>po_gas_used = gas_used, po_bytes = bs, po_reverted = False\<rparr>"

datatype precompile_error =
    PeOutOfGas | Blake2WrongLength | Blake2WrongFinalIndicatorFlag | ModexpExpOverflow
  | ModexpBaseOverflow | ModexpModOverflow | ModexpEip7823LimitSize | Bn254FieldPointNotAMember
  | Bn254AffineGFailedToCreate | Bn254PairLength | BlobInvalidInputLength | BlobMismatchedVersion
  | BlobVerifyKzgProofFailed | NonCanonicalFp | Bls12381G1NotOnCurve | Bls12381G1NotInSubgroup
  | Bls12381G2NotOnCurve | Bls12381G2NotInSubgroup | Bls12381ScalarInputLength
  | Bls12381G1AddInputLength | Bls12381G1MsmInputLength | Bls12381G2AddInputLength
  | Bls12381G2MsmInputLength | Bls12381PairingInputLength | Bls12381MapFpToG1InputLength
  | Bls12381MapFp2ToG2InputLength | Bls12381FpPaddingInvalid | Bls12381FpPaddingLength
  | Bls12381G1PaddingLength | Bls12381G2PaddingLength | KzgInvalidG1Point | KzgG1PointNotOnCurve
  | KzgG1PointNotInSubgroup | KzgInvalidInputLength | Secp256k1RecoverFailed
  | PeFatal string | PeOther string

definition is_oog :: "precompile_error \<Rightarrow> bool" where
  "is_oog e = (e = PeOutOfGas)"

fun precompile_error_display :: "precompile_error \<Rightarrow> string" where
  "precompile_error_display PeOutOfGas = ''out of gas''"
| "precompile_error_display Blake2WrongLength = ''wrong input length for blake2''"
| "precompile_error_display Blake2WrongFinalIndicatorFlag = ''wrong final indicator flag for blake2''"
| "precompile_error_display ModexpExpOverflow = ''modexp exp overflow''"
| "precompile_error_display ModexpBaseOverflow = ''modexp base overflow''"
| "precompile_error_display ModexpModOverflow = ''modexp mod overflow''"
| "precompile_error_display ModexpEip7823LimitSize = ''Modexp limit all input sizes.''"
| "precompile_error_display Bn254FieldPointNotAMember = ''field point not a member of bn254 curve''"
| "precompile_error_display Bn254AffineGFailedToCreate = ''failed to create affine g point for bn254 curve''"
| "precompile_error_display Bn254PairLength = ''bn254 invalid pair length''"
| "precompile_error_display BlobInvalidInputLength = ''invalid blob input length''"
| "precompile_error_display BlobMismatchedVersion = ''mismatched blob version''"
| "precompile_error_display BlobVerifyKzgProofFailed = ''verifying blob kzg proof failed''"
| "precompile_error_display NonCanonicalFp = ''non-canonical field element''"
| "precompile_error_display Bls12381G1NotOnCurve = ''bls12-381 g1 point not on curve''"
| "precompile_error_display Bls12381G1NotInSubgroup = ''bls12-381 g1 point not in correct subgroup''"
| "precompile_error_display Bls12381G2NotOnCurve = ''bls12-381 g2 point not on curve''"
| "precompile_error_display Bls12381G2NotInSubgroup = ''bls12-381 g2 point not in correct subgroup''"
| "precompile_error_display Bls12381ScalarInputLength = ''bls12-381 scalar input length error''"
| "precompile_error_display Bls12381G1AddInputLength = ''bls12-381 g1 add input length error''"
| "precompile_error_display Bls12381G1MsmInputLength = ''bls12-381 g1 msm input length error''"
| "precompile_error_display Bls12381G2AddInputLength = ''bls12-381 g2 add input length error''"
| "precompile_error_display Bls12381G2MsmInputLength = ''bls12-381 g2 msm input length error''"
| "precompile_error_display Bls12381PairingInputLength = ''bls12-381 pairing input length error''"
| "precompile_error_display Bls12381MapFpToG1InputLength = ''bls12-381 map fp to g1 input length error''"
| "precompile_error_display Bls12381MapFp2ToG2InputLength = ''bls12-381 map fp2 to g2 input length error''"
| "precompile_error_display Bls12381FpPaddingInvalid = ''bls12-381 fp 64 top bytes of input are not zero''"
| "precompile_error_display Bls12381FpPaddingLength = ''bls12-381 fp padding length error''"
| "precompile_error_display Bls12381G1PaddingLength = ''bls12-381 g1 padding length error''"
| "precompile_error_display Bls12381G2PaddingLength = ''bls12-381 g2 padding length error''"
| "precompile_error_display KzgInvalidG1Point = ''kzg invalid g1 point''"
| "precompile_error_display KzgG1PointNotOnCurve = ''kzg g1 point not on curve''"
| "precompile_error_display KzgG1PointNotInSubgroup = ''kzg g1 point not in correct subgroup''"
| "precompile_error_display KzgInvalidInputLength = ''kzg invalid input length''"
| "precompile_error_display Secp256k1RecoverFailed = ''secp256k1 signature recovery failed''"
| "precompile_error_display (PeFatal s) = s"
| "precompile_error_display (PeOther s) = s"

type_synonym precompile_result = "precompile_error + precompile_output"
type_synonym precompile_fn = "bytes \<Rightarrow> u64 \<Rightarrow> precompile_result option"

section \<open>Precompiles and sets of them\<close>

datatype precompile_id =
    EcRec | Sha256 | Ripemd160 | Identity | ModExp | Bn254Add | Bn254Mul | Bn254Pairing | Blake2F
  | KzgPointEvaluation | Bls12G1Add | Bls12G1Msm | Bls12G2Add | Bls12G2Msm | Bls12Pairing
  | Bls12MapFpToGp1 | Bls12MapFp2ToGp2 | P256Verify | CustomId string

fun precompile_id_name :: "precompile_id \<Rightarrow> string" where
  "precompile_id_name EcRec = ''ECREC''"
| "precompile_id_name Sha256 = ''SHA256''"
| "precompile_id_name Ripemd160 = ''RIPEMD160''"
| "precompile_id_name Identity = ''ID''"
| "precompile_id_name ModExp = ''MODEXP''"
| "precompile_id_name Bn254Add = ''BN254_ADD''"
| "precompile_id_name Bn254Mul = ''BN254_MUL''"
| "precompile_id_name Bn254Pairing = ''BN254_PAIRING''"
| "precompile_id_name Blake2F = ''BLAKE2F''"
| "precompile_id_name KzgPointEvaluation = ''KZG_POINT_EVALUATION''"
| "precompile_id_name Bls12G1Add = ''BLS12_G1ADD''"
| "precompile_id_name Bls12G1Msm = ''BLS12_G1MSM''"
| "precompile_id_name Bls12G2Add = ''BLS12_G2ADD''"
| "precompile_id_name Bls12G2Msm = ''BLS12_G2MSM''"
| "precompile_id_name Bls12Pairing = ''BLS12_PAIRING_CHECK''"
| "precompile_id_name Bls12MapFpToGp1 = ''BLS12_MAP_FP_TO_G1''"
| "precompile_id_name Bls12MapFp2ToGp2 = ''BLS12_MAP_FP2_TO_G2''"
| "precompile_id_name P256Verify = ''P256VERIFY''"
| "precompile_id_name (CustomId a) = a"

record precompile =
  pc_id :: precompile_id
  pc_address :: address
  pc_fn :: precompile_fn

definition u64_to_address :: "u64 \<Rightarrow> address" where
  "u64_to_address x = from_be_bytes (replicate 12 0 @ to_be_bytes 8 x)"

record precompiles =
  pcs_inner :: "address \<rightharpoonup> precompile"
  pcs_addresses :: "address set"
  pcs_optimized_access :: "precompile option list"
  pcs_all_short_addresses :: bool

definition precompiles_default :: precompiles where
  "precompiles_default =
     \<lparr>pcs_inner = Map.empty, pcs_addresses = {},
      pcs_optimized_access = replicate (unat SHORT_ADDRESS_CAP) None, pcs_all_short_addresses = True\<rparr>"

definition precompiles_contains :: "address \<Rightarrow> precompiles \<Rightarrow> bool" where
  "precompiles_contains a p = (pcs_inner p a \<noteq> None)"

definition precompiles_get :: "address \<Rightarrow> precompiles \<Rightarrow> precompile option" where
  "precompiles_get a p =
     (case short_address a of
        Some s \<Rightarrow> pcs_optimized_access p ! unat s
      | None \<Rightarrow> pcs_inner p a)"

text \<open>Assigning through the reference that \<open>get_mut\<close> returns.\<close>

definition precompiles_set_mut :: "address \<Rightarrow> precompile \<Rightarrow> precompiles \<Rightarrow> precompiles" where
  "precompiles_set_mut a x p =
     (if pcs_inner p a = None then p else p\<lparr>pcs_inner := (pcs_inner p)(a \<mapsto> x)\<rparr>)"

fun extend_access :: "precompile list \<Rightarrow> precompile option list \<Rightarrow> bool \<Rightarrow> precompile option list \<times> bool" where
  "extend_access [] access all_short = (access, all_short)"
| "extend_access (item # items) access all_short =
     (case short_address (pc_address item) of
        Some s \<Rightarrow> extend_access items (access[unat s := Some item]) all_short
      | None \<Rightarrow> extend_access items access False)"

definition precompiles_extend :: "precompile list \<Rightarrow> precompiles \<Rightarrow> precompiles" where
  "precompiles_extend items p =
     (let (access, all_short) = extend_access items (pcs_optimized_access p) (pcs_all_short_addresses p)
      in p\<lparr>pcs_optimized_access := access, pcs_all_short_addresses := all_short,
           pcs_addresses := pcs_addresses p \<union> set (map pc_address items),
           pcs_inner := fold (\<lambda>x m. m(pc_address x \<mapsto> x)) items (pcs_inner p)\<rparr>)"

section \<open>Hardforks\<close>

datatype precompile_spec_id =
    PsHomestead | PsByzantium | PsIstanbul | PsBerlin | PsCancun | PsPrague | PsOsaka

fun from_spec_id :: "spec_id \<Rightarrow> precompile_spec_id" where
  "from_spec_id FRONTIER = PsHomestead"
| "from_spec_id FRONTIER_THAWING = PsHomestead"
| "from_spec_id HOMESTEAD = PsHomestead"
| "from_spec_id DAO_FORK = PsHomestead"
| "from_spec_id TANGERINE = PsHomestead"
| "from_spec_id SPURIOUS_DRAGON = PsHomestead"
| "from_spec_id BYZANTIUM = PsByzantium"
| "from_spec_id CONSTANTINOPLE = PsByzantium"
| "from_spec_id PETERSBURG = PsByzantium"
| "from_spec_id ISTANBUL = PsIstanbul"
| "from_spec_id MUIR_GLACIER = PsIstanbul"
| "from_spec_id BERLIN = PsBerlin"
| "from_spec_id LONDON = PsBerlin"
| "from_spec_id ARROW_GLACIER = PsBerlin"
| "from_spec_id GRAY_GLACIER = PsBerlin"
| "from_spec_id MERGE = PsBerlin"
| "from_spec_id SHANGHAI = PsBerlin"
| "from_spec_id CANCUN = PsCancun"
| "from_spec_id PRAGUE = PsPrague"
| "from_spec_id OSAKA = PsOsaka"
| "from_spec_id AMSTERDAM = PsOsaka"

section \<open>The vector agrees with the map\<close>

definition precompiles_inv :: "precompiles \<Rightarrow> bool" where
  "precompiles_inv p \<longleftrightarrow> length (pcs_optimized_access p) = unat SHORT_ADDRESS_CAP
     \<and> pcs_addresses p = dom (pcs_inner p)
     \<and> (\<forall>a x. pcs_inner p a = Some x \<longrightarrow> pc_address x = a)
     \<and> (\<forall>a s. short_address a = Some s \<longrightarrow> pcs_optimized_access p ! unat s = pcs_inner p a)
     \<and> (pcs_all_short_addresses p \<longleftrightarrow> (\<forall>a \<in> dom (pcs_inner p). short_address a \<noteq> None))"

lemma precompiles_inv_default: "precompiles_inv precompiles_default"
  by (auto simp: precompiles_inv_def precompiles_default_def short_address_eq SHORT_ADDRESS_CAP_def unat_ucast_small)

lemma short_inj: "short_address a = Some s \<Longrightarrow> short_address b = Some t \<Longrightarrow> unat s = unat t \<longleftrightarrow> a = b"
  by (auto simp: short_address_eq unat_ucast_small word_unat_eq_iff split: if_splits)

lemma extend_access_step:
  "precompiles_extend (x # xs) p = precompiles_extend xs (precompiles_extend [x] p)"
  by (simp add: precompiles_extend_def Un_assoc split: option.split prod.split)

lemma extend_one_inv:
  assumes "precompiles_inv p"
  shows "precompiles_inv (precompiles_extend [x] p)"
proof (cases "short_address (pc_address x)")
  case (Some s)
  then have s: "unat s < length (pcs_optimized_access p)"
    using assms by (auto simp: precompiles_inv_def short_address_eq SHORT_ADDRESS_CAP_def unat_ucast_small split: if_splits)
  have "(pcs_optimized_access p)[unat s := Some x] ! unat t = ((pcs_inner p)(pc_address x \<mapsto> x)) a"
    if t: "short_address a = Some t" for a t
  proof (cases "a = pc_address x")
    case True
    then show ?thesis using s t Some by simp
  next
    case False
    then have "unat s \<noteq> unat t" using short_inj [OF t Some] by auto
    then show ?thesis using False assms t by (simp add: precompiles_inv_def)
  qed
  then show ?thesis using assms Some by (auto simp: precompiles_inv_def precompiles_extend_def)
next
  case None
  then show ?thesis using assms by (auto simp: precompiles_inv_def precompiles_extend_def)
qed

lemma extend_inv: "precompiles_inv p \<Longrightarrow> precompiles_inv (precompiles_extend xs p)"
proof (induction xs arbitrary: p)
  case (Cons x xs)
  then show ?case by (subst extend_access_step) (simp add: extend_one_inv)
qed (simp add: precompiles_extend_def)

lemma precompiles_get_inner: "precompiles_inv p \<Longrightarrow> precompiles_get a p = pcs_inner p a"
  by (simp add: precompiles_inv_def precompiles_get_def split: option.split)

lemma extend_inner:
  "pcs_inner (precompiles_extend xs p) a = (case find (\<lambda>x. pc_address x = a) (rev xs) of
     Some x \<Rightarrow> Some x | None \<Rightarrow> pcs_inner p a)"
proof -
  have "fold (\<lambda>x m. m(pc_address x \<mapsto> x)) xs m a = (case find (\<lambda>x. pc_address x = a) (rev xs) of
      Some x \<Rightarrow> Some x | None \<Rightarrow> m a)" for m
    by (induction xs rule: rev_induct) (auto split: option.split)
  then show ?thesis by (simp add: precompiles_extend_def split: prod.split)
qed

text \<open>C20. The vector of short addresses is exact: whatever precompiles a set was built from, \<open>get\<close>
  returns the precompile that was added last at the address, \<open>contains\<close> agrees with it, and so does
  the set of addresses that is made warm.\<close>
theorem precompiles_get_correct:
  "precompiles_get a (precompiles_extend xs precompiles_default) = find (\<lambda>x. pc_address x = a) (rev xs)
   \<and> (precompiles_contains a (precompiles_extend xs precompiles_default) \<longleftrightarrow> a \<in> pc_address ` set xs)
   \<and> pcs_addresses (precompiles_extend xs precompiles_default) = pc_address ` set xs"
proof -
  let ?p = "precompiles_extend xs precompiles_default"
  have i: "precompiles_inv ?p" by (rule extend_inv [OF precompiles_inv_default])
  have f: "pcs_inner ?p b = find (\<lambda>x. pc_address x = b) (rev xs)" for b
    by (simp add: extend_inner precompiles_default_def split: option.split)
  have n: "find (\<lambda>x. pc_address x = b) (rev xs) = None \<longleftrightarrow> b \<notin> pc_address ` set xs" for b
    by (auto simp: find_None_iff)
  have d: "b \<in> dom (pcs_inner ?p) \<longleftrightarrow> b \<in> pc_address ` set xs" for b
    unfolding domIff f n by simp
  have "pcs_addresses ?p = dom (pcs_inner ?p)" using i by (simp add: precompiles_inv_def)
  also have "\<dots> = pc_address ` set xs" using d by (rule set_eqI)
  finally show ?thesis
    using precompiles_get_inner [OF i] f d [unfolded domIff] by (simp add: precompiles_contains_def)
qed

text \<open>Replacing a precompile through \<open>get_mut\<close> has no effect on what \<open>get\<close> returns at a short address.\<close>

theorem get_mut_not_seen_by_get:
  "short_address a \<noteq> None \<Longrightarrow> precompiles_get a (precompiles_set_mut a x p) = precompiles_get a p"
  by (auto simp: precompiles_get_def precompiles_set_mut_def split: option.split)

end
