(* ===== verification/Frame_Stack.thy ===== *)
theory Frame_Stack
  imports Prelude
begin

text \<open>
  The item-pooling stack of frames (\<open>FrameStack\<close>, \<open>OutFrame\<close> and \<open>FrameToken\<close> in
  \<open>crates/context/interface/src/local.rs\<close>). The vector is its allocated slots, of which the first
  \<open>fs_len\<close> count as elements; a slot is \<open>None\<close> until it has been written. Popping only moves the
  index, so that the frames above it stay initialised and are reused. Reading a slot that was never
  written or lies outside the allocation, a failing assertion and an \<open>unwrap\<close> of \<open>None\<close> have the
  value \<open>None\<close>. Lengths and indices are \<open>nat\<close>: a vector that does not fit in memory is not modelled.
\<close>

section \<open>The stack\<close>

record 'a frame_stack =
  fs_slots :: "'a option list"
  fs_len :: nat
  fs_index :: "nat option"

record out_frame =
  of_idx :: nat
  of_init :: bool

definition new_prealloc :: "nat \<Rightarrow> 'a \<Rightarrow> 'a frame_stack" where
  "new_prealloc len item = \<lparr>fs_slots = replicate len (Some item), fs_len = len, fs_index = None\<rparr>"

definition frame_stack_new :: "'a frame_stack" where
  "frame_stack_new = \<lparr>fs_slots = replicate 8 None, fs_len = 0, fs_index = None\<rparr>"

text \<open>\<open>Vec::reserve\<close>: room for \<open>additional\<close> more elements; only the elements are kept.\<close>

definition fs_reserve :: "nat \<Rightarrow> 'a frame_stack \<Rightarrow> 'a frame_stack" where
  "fs_reserve additional s =
     (if length (fs_slots s) - fs_len s < additional
      then s\<lparr>fs_slots := take (fs_len s) (fs_slots s) @ replicate additional None\<rparr> else s)"

definition out_frame_at :: "nat \<Rightarrow> 'a frame_stack \<Rightarrow> out_frame" where
  "out_frame_at idx s = \<lparr>of_idx = idx, of_init = idx < fs_len s\<rparr>"

definition start_init :: "'a frame_stack \<Rightarrow> out_frame \<times> 'a frame_stack" where
  "start_init s =
     (let s = s\<lparr>fs_index := None\<rparr>;
          s = (if fs_len s = 0 then fs_reserve 8 s else s)
      in (out_frame_at 0 s, s))"

text \<open>A token is the flag of the \<open>OutFrame\<close> it was consumed from.\<close>

definition out_frame_consume :: "out_frame \<Rightarrow> bool" where
  "out_frame_consume out = of_init out"

definition end_init :: "bool \<Rightarrow> 'a frame_stack \<Rightarrow> 'a frame_stack option" where
  "end_init token s =
     (if token then Some (s\<lparr>fs_len := (if fs_len s = 0 then 1 else fs_len s), fs_index := Some 0\<rparr>)
      else None)"

definition fs_push :: "bool \<Rightarrow> 'a frame_stack \<Rightarrow> 'a frame_stack option" where
  "fs_push token s =
     (if \<not> token then None
      else case fs_index s of
        None \<Rightarrow> None
      | Some i \<Rightarrow>
          (let i = i + 1
           in Some (s\<lparr>fs_index := Some i, fs_len := (if i = fs_len s then fs_len s + 1 else fs_len s)\<rparr>)))"

definition fs_clear :: "'a frame_stack \<Rightarrow> 'a frame_stack" where
  "fs_clear s = s\<lparr>fs_index := None\<rparr>"

definition fs_pop :: "'a frame_stack \<Rightarrow> 'a frame_stack" where
  "fs_pop s =
     (let i = (case fs_index s of None \<Rightarrow> 0 | Some i \<Rightarrow> i)
      in s\<lparr>fs_index := (if i = 0 then None else Some (i - 1))\<rparr>)"

definition read_slot :: "nat \<Rightarrow> 'a frame_stack \<Rightarrow> 'a option" where
  "read_slot i s = (if i < length (fs_slots s) then fs_slots s ! i else None)"

definition write_slot :: "nat \<Rightarrow> 'a \<Rightarrow> 'a frame_stack \<Rightarrow> 'a frame_stack option" where
  "write_slot i x s =
     (if i < length (fs_slots s) then Some (s\<lparr>fs_slots := (fs_slots s)[i := Some x]\<rparr>) else None)"

definition fs_get :: "'a frame_stack \<Rightarrow> 'a option" where
  "fs_get s = Option.bind (fs_index s) (\<lambda>i. read_slot i s)"

text \<open>Assigning through the reference that \<open>get\<close> returns.\<close>

definition fs_set :: "'a \<Rightarrow> 'a frame_stack \<Rightarrow> 'a frame_stack option" where
  "fs_set x s = Option.bind (fs_index s) (\<lambda>i. write_slot i x s)"

definition get_next :: "'a frame_stack \<Rightarrow> (out_frame \<times> 'a frame_stack) option" where
  "get_next s =
     map_option
       (\<lambda>i. let s = (if i + 1 = length (fs_slots s) then fs_reserve 8 s else s)
            in (out_frame_at (i + 1) s, s))
       (fs_index s)"

text \<open>\<open>OutFrame::get\<close>: the frame in the slot, which is first written when it was not initialised.\<close>

definition out_frame_get :: "'a \<Rightarrow> out_frame \<Rightarrow> 'a frame_stack \<Rightarrow> ('a \<times> out_frame \<times> 'a frame_stack) option" where
  "out_frame_get fresh out s =
     (if of_init out then map_option (\<lambda>x. (x, out, s)) (read_slot (of_idx out) s)
      else map_option (\<lambda>s. (fresh, out\<lparr>of_init := True\<rparr>, s)) (write_slot (of_idx out) fresh s))"

section \<open>Frames in use\<close>

definition fs_inv :: "'a frame_stack \<Rightarrow> bool" where
  "fs_inv s \<longleftrightarrow> fs_len s \<le> length (fs_slots s) \<and> (\<forall>i < fs_len s. fs_slots s ! i \<noteq> None)
     \<and> (case fs_index s of None \<Rightarrow> True | Some i \<Rightarrow> i < fs_len s)"

definition fs_frames :: "'a frame_stack \<Rightarrow> 'a list" where
  "fs_frames s = (case fs_index s of None \<Rightarrow> [] | Some i \<Rightarrow> map the (take (i + 1) (fs_slots s)))"

text \<open>Placing a frame: the slot is fetched, the frame in it is replaced and the token is used.\<close>

definition place :: "'a \<Rightarrow> 'a \<Rightarrow> out_frame \<times> 'a frame_stack \<Rightarrow> (out_frame \<times> 'a frame_stack) option" where
  "place fresh x = (\<lambda>(out, s).
     Option.bind (out_frame_get fresh out s) (\<lambda>(old, out, s).
       map_option (\<lambda>s. (out, s)) (write_slot (of_idx out) x s)))"

definition place_first :: "'a \<Rightarrow> 'a \<Rightarrow> 'a frame_stack \<Rightarrow> 'a frame_stack option" where
  "place_first fresh x s =
     Option.bind (place fresh x (start_init s)) (\<lambda>(out, s). end_init (out_frame_consume out) s)"

definition place_next :: "'a \<Rightarrow> 'a \<Rightarrow> 'a frame_stack \<Rightarrow> 'a frame_stack option" where
  "place_next fresh x s =
     Option.bind (get_next s) (\<lambda>p.
     Option.bind (place fresh x p) (\<lambda>(out, s). fs_push (out_frame_consume out) s))"

section \<open>A last-in first-out interface\<close>

datatype 'a stack_op = OpFirst 'a | OpNext 'a | OpReplace 'a | OpPop | OpClear

fun lifo_step :: "'a stack_op \<Rightarrow> 'a list \<Rightarrow> 'a list option" where
  "lifo_step (OpFirst x) xs = (if xs = [] then Some [x] else None)"
| "lifo_step (OpNext x) xs = (if xs = [] then None else Some (xs @ [x]))"
| "lifo_step (OpReplace x) xs = (if xs = [] then None else Some (butlast xs @ [x]))"
| "lifo_step OpPop xs = Some (butlast xs)"
| "lifo_step OpClear xs = Some []"

fun fs_step :: "'a \<Rightarrow> 'a stack_op \<Rightarrow> 'a frame_stack \<Rightarrow> 'a frame_stack option" where
  "fs_step fresh (OpFirst x) s = place_first fresh x s"
| "fs_step fresh (OpNext x) s = place_next fresh x s"
| "fs_step fresh (OpReplace x) s = fs_set x s"
| "fs_step fresh OpPop s = Some (fs_pop s)"
| "fs_step fresh OpClear s = Some (fs_clear s)"

fun run_ops :: "('o \<Rightarrow> 's \<Rightarrow> 's option) \<Rightarrow> 'o list \<Rightarrow> 's \<Rightarrow> 's option" where
  "run_ops f [] s = Some s"
| "run_ops f (op # ops) s = Option.bind (f op s) (run_ops f ops)"

locale lifo =
  fixes inv :: "'s \<Rightarrow> bool" and abst :: "'s \<Rightarrow> 'a list"
    and stp :: "'a stack_op \<Rightarrow> 's \<Rightarrow> 's option" and top :: "'s \<Rightarrow> 'a option"
  assumes step_law: "inv s \<Longrightarrow> lifo_step op (abst s) = Some xs \<Longrightarrow>
      \<exists>s'. stp op s = Some s' \<and> inv s' \<and> abst s' = xs"
    and top_law: "inv s \<Longrightarrow> top s = (if abst s = [] then None else Some (last (abst s)))"
begin

lemma run_refines:
  "inv s \<Longrightarrow> run_ops lifo_step ops (abst s) = Some xs \<Longrightarrow>
     \<exists>s'. run_ops stp ops s = Some s' \<and> inv s' \<and> abst s' = xs \<and> top s' = (if xs = [] then None else Some (last xs))"
proof (induction ops arbitrary: s)
  case (Cons op ops)
  then obtain ys where ys: "lifo_step op (abst s) = Some ys" "run_ops lifo_step ops ys = Some xs"
    by (auto simp: bind_eq_Some_conv)
  obtain s' where s': "stp op s = Some s'" "inv s'" "abst s' = ys"
    using step_law [OF Cons.prems(1) ys(1)] by blast
  then show ?case using Cons.IH [of s'] ys(2) by simp
qed (simp add: top_law)

end

section \<open>The stack of frames is last-in first-out\<close>

lemma fs_frames_snoc:
  assumes "fs_index s = Some i" "i < length (fs_slots s)"
  shows "fs_frames s = map the (take i (fs_slots s)) @ [the (fs_slots s ! i)]"
  using assms by (simp add: fs_frames_def take_Suc_conv_app_nth)

lemma fs_frames_Nil [simp]: "fs_inv s \<Longrightarrow> fs_frames s = [] \<longleftrightarrow> fs_index s = None"
  by (auto simp: fs_frames_def fs_inv_def split: option.splits)

lemma fs_get_last:
  assumes "fs_inv s"
  shows "fs_get s = (if fs_frames s = [] then None else Some (last (fs_frames s)))"
proof (cases "fs_index s")
  case (Some i)
  then have "i < fs_len s" "i < length (fs_slots s)" using assms by (auto simp: fs_inv_def)
  then show ?thesis using assms Some fs_frames_snoc [OF Some] by (auto simp: fs_get_def read_slot_def fs_inv_def)
qed (simp add: fs_get_def fs_frames_def)

lemma fs_inv_reserve: "fs_inv s \<Longrightarrow> fs_inv (fs_reserve n s)"
  by (auto simp: fs_inv_def fs_reserve_def nth_append split: option.splits)

lemma fs_frames_reserve: "fs_inv s \<Longrightarrow> fs_frames (fs_reserve n s) = fs_frames s"
  by (auto simp: fs_inv_def fs_reserve_def fs_frames_def split: option.splits)

lemma fs_reserve_fields:
  "fs_len (fs_reserve n s) = fs_len s" "fs_index (fs_reserve n s) = fs_index s"
  "fs_len s \<le> length (fs_slots s) \<Longrightarrow> fs_len s + n \<le> length (fs_slots (fs_reserve n s))"
  by (auto simp: fs_reserve_def)

text \<open>Placing a frame at an index that is an element or the slot after the last one.\<close>

lemma place_at:
  assumes "fs_inv s" "i \<le> fs_len s" "i < length (fs_slots s)"
  shows "place fresh x (out_frame_at i s, s) = Some (\<lparr>of_idx = i, of_init = True\<rparr>, s\<lparr>fs_slots := (fs_slots s)[i := Some x]\<rparr>)"
  using assms
  by (auto simp: place_def out_frame_at_def out_frame_get_def read_slot_def write_slot_def fs_inv_def)

lemma place_first_frames:
  assumes "fs_inv s"
  shows "\<exists>s'. place_first fresh x s = Some s' \<and> fs_inv s' \<and> fs_frames s' = [x]"
proof -
  let ?s = "snd (start_init s)"
  have s: "fs_inv ?s" "fst (start_init s) = out_frame_at 0 ?s" "0 < length (fs_slots ?s)"
    using assms fs_inv_reserve [of "s\<lparr>fs_index := None\<rparr>" 8]
    by (auto simp: start_init_def Let_def fs_inv_def fs_reserve_def split: option.splits)
  have "Suc 0 \<le> length (fs_slots ?s)" using s(3) by (rule Suc_leI)
  then show ?thesis
    using place_at [OF s(1) le0 s(3), of fresh x] s
    by (cases "start_init s")
      (auto simp: place_first_def end_init_def out_frame_consume_def fs_inv_def fs_frames_def nth_list_update
        take_Suc_conv_app_nth)
qed

lemma place_next_frames:
  assumes "fs_inv s" "fs_index s = Some i"
  shows "\<exists>s'. place_next fresh x s = Some s' \<and> fs_inv s' \<and> fs_frames s' = fs_frames s @ [x]"
proof -
  define t where "t = (if i + 1 = length (fs_slots s) then fs_reserve 8 s else s)"
  have i: "i < fs_len s" "fs_len s \<le> length (fs_slots s)" using assms by (auto simp: fs_inv_def)
  have t: "fs_inv t" "fs_frames t = fs_frames s" "fs_len t = fs_len s" "fs_index t = Some i"
      "i + 1 < length (fs_slots t)"
    using assms i fs_reserve_fields(3) [OF i(2), of 8]
    by (auto simp: t_def fs_inv_reserve fs_frames_reserve fs_reserve_fields(1,2))
  let ?t = "t\<lparr>fs_slots := (fs_slots t)[i + 1 := Some x], fs_index := Some (i + 1),
    fs_len := (if i + 1 = fs_len t then fs_len t + 1 else fs_len t)\<rparr>"
  have "get_next s = Some (out_frame_at (i + 1) t, t)"
    using assms(2) by (simp add: get_next_def t_def Let_def)
  then have "place_next fresh x s = Some ?t"
    using place_at [OF t(1) _ t(5), of fresh x] i t(3,4)
    by (simp add: place_next_def Let_def fs_push_def out_frame_consume_def)
  moreover have "fs_inv ?t" using t i by (auto simp: fs_inv_def nth_list_update)
  moreover have "fs_frames ?t = map the (take (i + 1) (fs_slots t)) @ [x]"
    using fs_frames_snoc [of ?t "i + 1"] t(5) by simp
  moreover have "fs_frames t = map the (take (i + 1) (fs_slots t))" using t(4) by (simp add: fs_frames_def)
  ultimately show ?thesis using t(2) by simp
qed

lemma fs_set_frames:
  assumes "fs_inv s" "fs_index s = Some i"
  shows "\<exists>s'. fs_set x s = Some s' \<and> fs_inv s' \<and> fs_frames s' = butlast (fs_frames s) @ [x]"
proof -
  have i: "i < fs_len s" "i < length (fs_slots s)" using assms by (auto simp: fs_inv_def)
  then have "fs_set x s = Some (s\<lparr>fs_slots := (fs_slots s)[i := Some x]\<rparr>)"
    using assms(2) by (simp add: fs_set_def write_slot_def)
  moreover have "fs_inv (s\<lparr>fs_slots := (fs_slots s)[i := Some x]\<rparr>)"
    using assms by (auto simp: fs_inv_def nth_list_update)
  ultimately show ?thesis
    using fs_frames_snoc [OF assms(2) i(2)] fs_frames_snoc [of "s\<lparr>fs_slots := (fs_slots s)[i := Some x]\<rparr>" i] assms(2) i
    by simp
qed

lemma fs_pop_frames:
  assumes "fs_inv s"
  shows "fs_inv (fs_pop s)" "fs_frames (fs_pop s) = butlast (fs_frames s)"
proof -
  show "fs_inv (fs_pop s)" using assms by (auto simp: fs_inv_def fs_pop_def Let_def split: option.splits)
  show "fs_frames (fs_pop s) = butlast (fs_frames s)"
  proof (cases "fs_index s")
    case (Some i)
    then have "i < length (fs_slots s)" using assms by (auto simp: fs_inv_def)
    then show ?thesis using Some fs_frames_snoc [OF Some] by (cases i) (simp_all add: fs_pop_def fs_frames_def)
  qed (simp add: fs_pop_def fs_frames_def)
qed

interpretation frame_pool: lifo fs_inv fs_frames "fs_step fresh" fs_get
proof (unfold_locales, goal_cases)
  case (1 s op xs)
  then show ?case
    using place_first_frames [OF 1(1)] place_next_frames [OF 1(1)] fs_set_frames [OF 1(1)] fs_pop_frames [OF 1(1)]
  proof (cases op)
    case OpClear
    then show ?thesis using 1 by (simp add: fs_clear_def fs_inv_def fs_frames_def)
  qed (auto split: if_splits)
next
  case (2 s)
  then show ?case by (rule fs_get_last)
qed

lemma fs_inv_new: "fs_inv frame_stack_new" "fs_inv (new_prealloc n x)"
  by (simp_all add: fs_inv_def frame_stack_new_def new_prealloc_def)

text \<open>C12. The pooling stack of frames is a last-in first-out stack: every sequence of operations that
  is legal on a list (a first frame only on an empty stack, a further one only on top of another) runs
  on a new or preallocated \<open>FrameStack\<close> without panic and without reading or writing a slot that is not
  allocated and initialised, leaves exactly the list's elements in use, and \<open>get\<close> returns the last
  of them.\<close>
theorem frame_stack_refines:
  assumes "run_ops lifo_step ops [] = Some xs" "s0 = frame_stack_new \<or> s0 = new_prealloc n item"
  shows "\<exists>s. run_ops (fs_step fresh) ops s0 = Some s \<and> fs_frames s = xs
    \<and> fs_get s = (if xs = [] then None else Some (last xs))"
proof -
  have s0: "fs_inv s0" "fs_frames s0 = []"
    using assms(2) fs_inv_new by (auto simp: fs_frames_def frame_stack_new_def new_prealloc_def)
  show ?thesis using frame_pool.run_refines [OF s0(1), unfolded s0(2), OF assms(1), of fresh] by blast
qed

theorem frame_stack_refines_witness:
  "\<exists>s. run_ops (fs_step 0) [OpFirst (1 :: nat), OpNext 2, OpPop, OpNext 3, OpReplace 4] frame_stack_new = Some s
     \<and> fs_frames s = [1, 4] \<and> fs_get s = Some 4"
  using frame_stack_refines [of "[OpFirst (1 :: nat), OpNext 2, OpPop, OpNext 3, OpReplace 4]" "[1, 4]" frame_stack_new 0 0 0]
  by simp

end
