(* ===== verification/Frame.thy ===== *)
theory Frame
  imports Exec Precompile Frame_Stack
begin

text \<open>
  Call frames: \<open>crates/handler/src/frame.rs\<close> and \<open>crates/handler/src/frame_data.rs\<close>, the frame
  operations of \<open>crates/handler/src/evm.rs\<close>, the provider of the precompiled contracts
  (\<open>crates/handler/src/precompile_provider.rs\<close>) and the loop that runs the frames
  (\<open>Handler::run_exec_loop\<close> in \<open>crates/handler/src/handler.rs\<close>). Hashing and the derivation of
  contract addresses are done by other libraries: the record \<open>externals\<close> holds their functions. The
  buffer behind the shared memory is one mutable cell; the frame at the top of the stack has its
  content, and a frame that is returned to takes it over. A panic has the value \<open>None\<close>; an error
  of the context is \<open>Inl\<close>.
\<close>

section \<open>Data\<close>

record externals =
  ex_keccak256 :: "bytes \<Rightarrow> b256"
  ex_create :: "address \<Rightarrow> u64 \<Rightarrow> address"
  ex_create2 :: "address \<Rightarrow> bytes \<Rightarrow> b256 \<Rightarrow> address"

definition CALL_STACK_LIMIT :: u64 where
  "CALL_STACK_LIMIT = 1024"

datatype ('i, 'r) item_or_result = Item 'i | Result 'r

record call_outcome =
  co_result :: interpreter_result
  co_memory_offset :: "usize \<times> usize"

definition memory_start :: "call_outcome \<Rightarrow> usize" where
  "memory_start o' = fst (co_memory_offset o')"

definition memory_length :: "call_outcome \<Rightarrow> usize" where
  "memory_length o' = range_len (fst (co_memory_offset o')) (snd (co_memory_offset o'))"

record create_outcome =
  cro_result :: interpreter_result
  cro_address :: "address option"

datatype frame_result = ResCall call_outcome | ResCreate create_outcome

fun frame_interpreter_result :: "frame_result \<Rightarrow> interpreter_result" where
  "frame_interpreter_result (ResCall o') = co_result o'"
| "frame_interpreter_result (ResCreate o') = cro_result o'"

definition frame_result_gas :: "frame_result \<Rightarrow> gas" where
  "frame_result_gas r = ir_gas (frame_interpreter_result r)"

definition frame_instruction_result :: "frame_result \<Rightarrow> instruction_result" where
  "frame_instruction_result r = ir_result (frame_interpreter_result r)"

text \<open>Assigning through \<open>gas_mut\<close>.\<close>

fun set_frame_gas :: "gas \<Rightarrow> frame_result \<Rightarrow> frame_result" where
  "set_frame_gas g (ResCall o') = ResCall (o'\<lparr>co_result := (co_result o')\<lparr>ir_gas := g\<rparr>\<rparr>)"
| "set_frame_gas g (ResCreate o') = ResCreate (o'\<lparr>cro_result := (cro_result o')\<lparr>ir_gas := g\<rparr>\<rparr>)"

datatype frame_data =
    CallFrame (return_memory_range: "usize \<times> usize")
  | CreateFrame (created_address: address)

record eth_frame =
  ef_data :: frame_data
  ef_input :: frame_input
  ef_depth :: usize
  ef_checkpoint :: journal_checkpoint
  ef_interpreter :: interpreter
  ef_is_finished :: bool

record frame_init =
  fi_depth :: usize
  fi_memory :: shared_memory
  fi_frame_input :: frame_input

definition interpreter_invalid :: interpreter where
  "interpreter_invalid =
     \<lparr>i_bytecode = ext_bytecode_new bytecode_new, i_gas = gas_new (- 1), i_stack = [],
      i_return_data = [], i_memory = mem_invalid,
      i_input = \<lparr>in_target_address = 0, in_bytecode_address = None, in_caller_address = 0,
        in_input = SharedBuffer 0 0, in_call_value = 0\<rparr>,
      i_runtime_flag = \<lparr>rf_is_static = False, rf_spec_id = PRAGUE\<rparr>\<rparr>"

definition eth_frame_invalid :: eth_frame where
  "eth_frame_invalid =
     \<lparr>ef_data = CallFrame (0, 0), ef_input = FrameEmpty, ef_depth = 0,
      ef_checkpoint = \<lparr>jc_log_i = 0, jc_journal_i = 0\<rparr>, ef_interpreter = interpreter_invalid,
      ef_is_finished = False\<rparr>"

definition eth_frame_clear ::
    "frame_data \<Rightarrow> frame_input \<Rightarrow> usize \<Rightarrow> shared_memory \<Rightarrow> ext_bytecode \<Rightarrow> inputs_impl \<Rightarrow> bool
       \<Rightarrow> spec_id \<Rightarrow> u64 \<Rightarrow> journal_checkpoint \<Rightarrow> eth_frame \<Rightarrow> eth_frame" where
  "eth_frame_clear data input depth memory bytecode inputs is_static spec_id gas_limit chk f =
     f\<lparr>ef_data := data, ef_input := input, ef_depth := depth, ef_is_finished := False,
       ef_interpreter := interpreter_clear memory bytecode inputs is_static spec_id gas_limit (ef_interpreter f),
       ef_checkpoint := chk\<rparr>"

section \<open>Precompiles\<close>

record eth_precompiles =
  ep_precompiles :: precompiles
  ep_spec :: spec_id

text \<open>\<open>shared_memory_buffer_slice\<close>: the range of the shared buffer, if it is within it.\<close>

definition shared_memory_buffer_slice :: "usize \<Rightarrow> usize \<Rightarrow> bytes \<Rightarrow> bytes option" where
  "shared_memory_buffer_slice s e buffer = range_get s e buffer"

definition precompile_input :: "call_input \<Rightarrow> bytes \<Rightarrow> bytes" where
  "precompile_input input buffer =
     (case input of
        SharedBuffer s e \<Rightarrow> (case shared_memory_buffer_slice s e buffer of Some b \<Rightarrow> b | None \<Rightarrow> [])
      | CallBytes bs \<Rightarrow> bs)"

definition set_precompile_error_context :: "string \<Rightarrow> ('db, 'e) ctx \<Rightarrow> ('db, 'e) ctx" where
  "set_precompile_error_context output c =
     c\<lparr>cx_local := (cx_local c)\<lparr>lc_precompile_error_message := Some output\<rparr>\<rparr>"

definition precompiles_run ::
    "eth_precompiles \<Rightarrow> bytes \<Rightarrow> call_inputs \<Rightarrow> ('db, 'e) ctx
       \<Rightarrow> ((string + interpreter_result option) \<times> ('db, 'e) ctx) option" where
  "precompiles_run P buffer inputs c =
     (case precompiles_get (ci_bytecode_address inputs) (ep_precompiles P) of
        None \<Rightarrow> Some (Inr None, c)
      | Some p \<Rightarrow>
          (let g = gas_new (ci_gas_limit inputs)
           in Option.bind (pc_fn p (precompile_input (ci_input inputs) buffer) (ci_gas_limit inputs))
                (\<lambda>exec_result. case exec_result of
                   Inr output \<Rightarrow>
                     (let (underflow, g) = record_cost (po_gas_used output) g
                      in if \<not> underflow then None
                         else Some (Inr (Some \<lparr>ir_result = (if po_reverted output then Revert else Return),
                                               ir_output = po_bytes output, ir_gas = g\<rparr>), c))
                 | Inl e \<Rightarrow>
                     (case e of
                        PeFatal s \<Rightarrow> Some (Inl s, c)
                      | _ \<Rightarrow>
                          Some (Inr (Some \<lparr>ir_result = (if is_oog e then PrecompileOOG else PrecompileError),
                                           ir_output = [], ir_gas = g\<rparr>),
                                if \<not> is_oog e \<and> j_depth (cx_journal c) = 1
                                then set_precompile_error_context (precompile_error_display e) c else c)))))"

section \<open>Starting a frame\<close>

type_synonym ('db, 'e) init_result =
  "(('e context_error + (bool, frame_result) item_or_result) \<times> eth_frame frame_stack \<times> ('db, 'e) ctx) option"

text \<open>\<open>this.get(EthFrame::invalid).clear(..)\<close> followed by \<open>this.consume()\<close>.\<close>

definition start_frame ::
    "(eth_frame \<Rightarrow> eth_frame) \<Rightarrow> out_frame \<Rightarrow> eth_frame frame_stack \<Rightarrow> ('db, 'e) ctx \<Rightarrow> ('db, 'e) init_result" where
  "start_frame clear this fs c =
     Option.bind (out_frame_get eth_frame_invalid this fs) (\<lambda>(old, this, fs).
     Option.bind (write_slot (of_idx this) (clear old) fs) (\<lambda>fs.
       Some (Inr (Item (out_frame_consume this)), fs, c)))"

definition call_result :: "instruction_result \<Rightarrow> call_inputs \<Rightarrow> frame_result" where
  "call_result r inputs =
     ResCall \<lparr>co_result = \<lparr>ir_result = r, ir_output = [], ir_gas = gas_new (ci_gas_limit inputs)\<rparr>,
              co_memory_offset = ci_return_memory_offset inputs\<rparr>"

text \<open>The code of a call: what the caller knows, or the code of the account.\<close>

definition call_bytecode ::
    "('db, 'e) database \<Rightarrow> call_inputs \<Rightarrow> ('db, 'e) ctx
       \<Rightarrow> (('e context_error + bytecode \<times> b256) \<times> ('db, 'e) ctx) option" where
  "call_bytecode D inputs c =
     (case ci_known_bytecode inputs of
        Some (hash, code) \<Rightarrow> Some (Inr (code, hash), c)
      | None \<Rightarrow>
          Option.bind (load_code D (ci_bytecode_address inputs) (cx_journal c) (cx_db c)) (\<lambda>(r, j, db).
            let c = ctx_store j db c
            in case r of
                 Inl e \<Rightarrow> Some (Inl (CtxDb e), c)
               | Inr _ \<Rightarrow>
                   map_option
                     (\<lambda>acc. (Inr (case ai_code (ac_info acc) of Some b \<Rightarrow> b | None \<Rightarrow> bytecode_new,
                                   ai_code_hash (ac_info acc)), c))
                     (j_state j (ci_bytecode_address inputs))))"

definition run_call ::
    "('db, 'e) database \<Rightarrow> eth_precompiles \<Rightarrow> usize \<Rightarrow> shared_memory \<Rightarrow> call_inputs \<Rightarrow> journal_checkpoint
       \<Rightarrow> out_frame \<Rightarrow> eth_frame frame_stack \<Rightarrow> ('db, 'e) ctx \<Rightarrow> ('db, 'e) init_result" where
  "run_call D P depth memory inputs chk this fs c =
     (let interpreter_input =
            \<lparr>in_target_address = ci_target_address inputs,
             in_bytecode_address = Some (ci_bytecode_address inputs),
             in_caller_address = ci_caller inputs, in_input = ci_input inputs,
             in_call_value = call_value_get (ci_value inputs)\<rparr>
      in Option.bind (sm_buffer memory) (\<lambda>buffer.
         Option.bind (precompiles_run P buffer inputs c) (\<lambda>(res, c).
           case res of
             Inl s \<Rightarrow> Some (Inl (CtxCustom s), fs, c)
           | Inr (Some result) \<Rightarrow>
               map_option
                 (\<lambda>j. (Inr (Result (ResCall \<lparr>co_result = result,
                          co_memory_offset = ci_return_memory_offset inputs\<rparr>)), fs, c\<lparr>cx_journal := j\<rparr>))
                 (if result_is_ok (ir_result result) then Some (checkpoint_commit (cx_journal c))
                  else checkpoint_revert chk (cx_journal c))
           | Inr None \<Rightarrow>
               Option.bind (call_bytecode D inputs c) (\<lambda>(r, c).
                 case r of
                   Inl e \<Rightarrow> Some (Inl e, fs, c)
                 | Inr (code, hash) \<Rightarrow>
                     if bytecode_is_empty code then
                       Some (Inr (Result (call_result Stop inputs)), fs,
                         c\<lparr>cx_journal := checkpoint_commit (cx_journal c)\<rparr>)
                     else
                       start_frame
                         (eth_frame_clear (CallFrame (ci_return_memory_offset inputs)) (FrameCall inputs)
                            depth memory (ext_bytecode_new_with_hash code hash) interpreter_input
                            (ci_is_static inputs) (ce_spec (cx_cfg c)) (ci_gas_limit inputs) chk)
                         this fs c))))"

definition make_call_frame ::
    "('db, 'e) database \<Rightarrow> eth_precompiles \<Rightarrow> usize \<Rightarrow> shared_memory \<Rightarrow> call_inputs
       \<Rightarrow> out_frame \<Rightarrow> eth_frame frame_stack \<Rightarrow> ('db, 'e) ctx \<Rightarrow> ('db, 'e) init_result" where
  "make_call_frame D P depth memory inputs this fs c =
     (if depth > CALL_STACK_LIMIT then Some (Inr (Result (call_result CallTooDeep inputs)), fs, c)
      else
        (let (chk, j) = checkpoint (cx_journal c);
             c = c\<lparr>cx_journal := j\<rparr>
         in case ci_value inputs of
              Transfer v \<Rightarrow>
                Option.bind (transfer_loaded (ci_caller inputs) (ci_target_address inputs) v j) (\<lambda>(e, j).
                  let c = c\<lparr>cx_journal := j\<rparr>
                  in case e of
                       Some i \<Rightarrow>
                         map_option
                           (\<lambda>j. (Inr (Result (call_result (result_of_transfer_error i) inputs)), fs,
                                 c\<lparr>cx_journal := j\<rparr>))
                           (checkpoint_revert chk j)
                     | None \<Rightarrow> run_call D P depth memory inputs chk this fs c)
            | Apparent _ \<Rightarrow> run_call D P depth memory inputs chk this fs c))"

definition create_error :: "instruction_result \<Rightarrow> create_inputs \<Rightarrow> frame_result" where
  "create_error e inputs =
     ResCreate \<lparr>cro_result = \<lparr>ir_result = e, ir_output = [], ir_gas = gas_new (cr_gas_limit inputs)\<rparr>,
                cro_address = None\<rparr>"

text \<open>The hash of the init code, when it had to be computed, and the address of the contract.\<close>

definition create_address :: "externals \<Rightarrow> create_inputs \<Rightarrow> u64 \<Rightarrow> b256 option \<times> address" where
  "create_address X inputs old_nonce =
     (case cr_scheme inputs of
        Create \<Rightarrow> (None, ex_create X (cr_caller inputs) old_nonce)
      | Create2 salt \<Rightarrow>
          (let init_code_hash = ex_keccak256 X (cr_init_code inputs)
           in (Some init_code_hash, ex_create2 X (cr_caller inputs) (to_be_bytes 32 salt) init_code_hash))
      | CreateCustom a \<Rightarrow> (None, a))"

text \<open>From the load of the new account on.\<close>

definition run_create ::
    "('db, 'e) database \<Rightarrow> usize \<Rightarrow> shared_memory \<Rightarrow> create_inputs \<Rightarrow> b256 option \<Rightarrow> address
       \<Rightarrow> out_frame \<Rightarrow> eth_frame frame_stack \<Rightarrow> ('db, 'e) ctx \<Rightarrow> ('db, 'e) init_result" where
  "run_create D depth memory inputs init_code_hash created this fs c =
     (let spec = ce_spec (cx_cfg c)
      in Option.bind (load_account D created (cx_journal c) (cx_db c)) (\<lambda>(r, j, db).
           let c = ctx_store j db c
           in case r of
                Inl e \<Rightarrow> Some (Inl (CtxDb e), fs, c)
              | Inr _ \<Rightarrow>
                  Option.bind (create_account_checkpoint (cr_caller inputs) created (cr_value inputs) spec j)
                    (\<lambda>(r, j). let c = c\<lparr>cx_journal := j\<rparr> in
                       case r of
                         Inl e \<Rightarrow> Some (Inr (Result (create_error (result_of_transfer_error e) inputs)), fs, c)
                       | Inr chk \<Rightarrow>
                           Option.bind (new_legacy (cr_init_code inputs)) (\<lambda>code.
                             start_frame
                               (eth_frame_clear (CreateFrame created) (FrameCreate inputs) depth memory
                                  (new_with_optional_hash code init_code_hash)
                                  \<lparr>in_target_address = created, in_bytecode_address = None,
                                   in_caller_address = cr_caller inputs, in_input = CallBytes [],
                                   in_call_value = cr_value inputs\<rparr>
                                  False spec (cr_gas_limit inputs) chk)
                               this fs c))))"

definition make_create_frame ::
    "externals \<Rightarrow> ('db, 'e) database \<Rightarrow> usize \<Rightarrow> shared_memory \<Rightarrow> create_inputs
       \<Rightarrow> out_frame \<Rightarrow> eth_frame frame_stack \<Rightarrow> ('db, 'e) ctx \<Rightarrow> ('db, 'e) init_result" where
  "make_create_frame X D depth memory inputs this fs c =
     (if depth > CALL_STACK_LIMIT then Some (Inr (Result (create_error CallTooDeep inputs)), fs, c)
      else
        Option.bind (load_account D (cr_caller inputs) (cx_journal c) (cx_db c)) (\<lambda>(r, j, db).
          let c = ctx_store j db c
          in case r of
               Inl e \<Rightarrow> Some (Inl (CtxDb e), fs, c)
             | Inr _ \<Rightarrow>
                 Option.bind (j_state j (cr_caller inputs)) (\<lambda>caller_info.
                   if ai_balance (ac_info caller_info) < cr_value inputs then
                     Some (Inr (Result (create_error OutOfFunds inputs)), fs, c)
                   else
                     (let old_nonce = ai_nonce (ac_info caller_info);
                          (bumped, ja) = ja_bump_nonce (cr_caller inputs) (caller_info, j_journal j);
                          c = c\<lparr>cx_journal := put_account (cr_caller inputs) ja j\<rparr>
                      in if \<not> bumped then Some (Inr (Result (create_error Return inputs)), fs, c)
                         else
                           (let (init_code_hash, created) = create_address X inputs old_nonce
                            in run_create D depth memory inputs init_code_hash created this fs c)))))"

definition init_with_context ::
    "externals \<Rightarrow> ('db, 'e) database \<Rightarrow> eth_precompiles \<Rightarrow> frame_init
       \<Rightarrow> out_frame \<Rightarrow> eth_frame frame_stack \<Rightarrow> ('db, 'e) ctx \<Rightarrow> ('db, 'e) init_result" where
  "init_with_context X D P fi this fs c =
     (case fi_frame_input fi of
        FrameCall inputs \<Rightarrow> make_call_frame D P (fi_depth fi) (fi_memory fi) inputs this fs c
      | FrameCreate inputs \<Rightarrow> make_create_frame X D (fi_depth fi) (fi_memory fi) inputs this fs c
      | FrameEmpty \<Rightarrow> None)"

section \<open>Ending a frame\<close>

definition return_create ::
    "(bytes \<Rightarrow> b256) \<Rightarrow> journal_checkpoint \<Rightarrow> interpreter_result \<Rightarrow> address \<Rightarrow> usize \<Rightarrow> bool \<Rightarrow> spec_id
       \<Rightarrow> journal_inner \<Rightarrow> (interpreter_result \<times> journal_inner) option" where
  "return_create keccak256 chk r address max_size is_eip3541_disabled spec_id j =
     (let revert_with = (\<lambda>res. map_option (\<lambda>j. (r\<lparr>ir_result := res\<rparr>, j)) (checkpoint_revert chk j))
      in if \<not> result_is_ok (ir_result r) then map_option (\<lambda>j. (r, j)) (checkpoint_revert chk j)
         else if \<not> is_eip3541_disabled \<and> is_enabled_in spec_id LONDON
             \<and> (case ir_output r of b # _ \<Rightarrow> b = 0xEF | [] \<Rightarrow> False)
         then revert_with CreateContractStartingWithEF
         else if is_enabled_in spec_id SPURIOUS_DRAGON \<and> vec_len (ir_output r) > max_size
         then revert_with CreateContractSizeLimit
         else
           (let gas_for_code = vec_len (ir_output r) * gas_CODEDEPOSIT;
                (paid, g) = record_cost gas_for_code (ir_gas r)
            in if \<not> paid \<and> is_enabled_in spec_id HOMESTEAD then revert_with OutOfGas
               else
                 (let r = (if paid then r\<lparr>ir_gas := g\<rparr> else r\<lparr>ir_output := []\<rparr>);
                      j = checkpoint_commit j
                  in Option.bind (new_legacy (ir_output r)) (\<lambda>code.
                     map_option (\<lambda>j. (r\<lparr>ir_result := Return\<rparr>, j)) (set_code keccak256 address code j)))))"

definition process_next_action ::
    "externals \<Rightarrow> interpreter_action \<Rightarrow> eth_frame \<Rightarrow> ('db, 'e) ctx
       \<Rightarrow> ((frame_init, frame_result) item_or_result \<times> eth_frame \<times> ('db, 'e) ctx) option" where
  "process_next_action X next_action f c =
     (case next_action of
        NewFrame frame_input \<Rightarrow>
          map_option
            (\<lambda>(child, m). (Item \<lparr>fi_depth = ef_depth f + 1, fi_memory = child, fi_frame_input = frame_input\<rparr>,
               f\<lparr>ef_interpreter := (ef_interpreter f)\<lparr>i_memory := m\<rparr>\<rparr>, c))
            (new_child_context (i_memory (ef_interpreter f)))
      | ReturnAction r \<Rightarrow>
          (case ef_data f of
             CallFrame rng \<Rightarrow>
               map_option
                 (\<lambda>j. (Result (ResCall \<lparr>co_result = r, co_memory_offset = rng\<rparr>), f, c\<lparr>cx_journal := j\<rparr>))
                 (if result_is_ok (ir_result r) then Some (checkpoint_commit (cx_journal c))
                  else checkpoint_revert (ef_checkpoint f) (cx_journal c))
           | CreateFrame created \<Rightarrow>
               map_option
                 (\<lambda>(r, j). (Result (ResCreate \<lparr>cro_result = r, cro_address = Some created\<rparr>), f,
                            c\<lparr>cx_journal := j\<rparr>))
                 (return_create (ex_keccak256 X) (ef_checkpoint f) r created (max_code_size (cx_cfg c))
                    (ce_disable_eip3541 (cx_cfg c)) (ce_spec (cx_cfg c)) (cx_journal c))))"

text \<open>Taking the error of the context.\<close>

definition take_error :: "('db, 'e) ctx \<Rightarrow> 'e context_error option \<times> ('db, 'e) ctx" where
  "take_error c = (cx_error c, c\<lparr>cx_error := None\<rparr>)"

definition insert_call_outcome :: "call_outcome \<Rightarrow> interpreter \<Rightarrow> interpreter option" where
  "insert_call_outcome outcome i =
     (let out_gas = ir_gas (co_result outcome);
          ins_result = ir_result (co_result outcome);
          i = i\<lparr>i_return_data := ir_output (co_result outcome)\<rparr>;
          target_len = min (memory_length outcome) (vec_len (ir_output (co_result outcome)))
      in if ins_result = FatalExternalError then None
         else
           (let item = (if result_is_ok ins_result then 1 else 0);
                i = i\<lparr>i_stack := snd (stack_push item (i_stack i))\<rparr>
            in Option.bind
                 (if result_is_ok_or_revert ins_result then
                    (let i = i\<lparr>i_gas := erase_cost (g_remaining out_gas) (i_gas i)\<rparr>
                     in map_option (\<lambda>m. i\<lparr>i_memory := m\<rparr>)
                          (mem_set (memory_start outcome) (take (unat target_len) (i_return_data i)) (i_memory i)))
                  else Some i)
                 (\<lambda>i. Some (if result_is_ok ins_result
                            then i\<lparr>i_gas := record_refund (g_refunded out_gas) (i_gas i)\<rparr> else i))))"

definition insert_create_outcome :: "create_outcome \<Rightarrow> interpreter \<Rightarrow> interpreter option" where
  "insert_create_outcome outcome i =
     (let res = ir_result (cro_result outcome);
          out_gas = ir_gas (cro_result outcome);
          i = i\<lparr>i_return_data := (if res = Revert then ir_output (cro_result outcome) else [])\<rparr>
      in if res = FatalExternalError then None
         else
           (let i = (if result_is_ok_or_revert res
                     then i\<lparr>i_gas := erase_cost (g_remaining out_gas) (i_gas i)\<rparr> else i);
                i = (if result_is_ok res then i\<lparr>i_gas := record_refund (g_refunded out_gas) (i_gas i)\<rparr> else i);
                stack_item = (if result_is_ok res
                  then into_u256 (case cro_address outcome of Some a \<Rightarrow> a | None \<Rightarrow> 0) else 0)
            in Some (i\<lparr>i_stack := snd (stack_push stack_item (i_stack i))\<rparr>)))"

definition return_result ::
    "frame_result \<Rightarrow> eth_frame \<Rightarrow> ('db, 'e) ctx \<Rightarrow> (('e context_error + unit) \<times> eth_frame \<times> ('db, 'e) ctx) option" where
  "return_result result f c =
     Option.bind (free_child_context (i_memory (ef_interpreter f))) (\<lambda>m.
       let i = (ef_interpreter f)\<lparr>i_memory := m\<rparr>;
           f = f\<lparr>ef_interpreter := i\<rparr>;
           (err, c) = take_error c
       in case err of
            Some e \<Rightarrow> Some (Inl e, f, c)
          | None \<Rightarrow>
              map_option (\<lambda>i. (Inr (), f\<lparr>ef_interpreter := i\<rparr>, c))
                (case result of
                   ResCall outcome \<Rightarrow> insert_call_outcome outcome i
                 | ResCreate outcome \<Rightarrow> insert_create_outcome outcome i))"

section \<open>The frames of a transaction\<close>

record ('db, 'e) evm =
  ev_ctx :: "('db, 'e) ctx"
  ev_precompiles :: eth_precompiles
  ev_frame_stack :: "eth_frame frame_stack"

text \<open>Whether a frame was pushed (\<open>Item\<close>) or the result is there at once.\<close>

definition frame_init_evm ::
    "externals \<Rightarrow> ('db, 'e) database \<Rightarrow> frame_init \<Rightarrow> ('db, 'e) evm
       \<Rightarrow> (('e context_error + (unit, frame_result) item_or_result) \<times> ('db, 'e) evm) option" where
  "frame_init_evm X D fi e =
     (let is_first_init = (fs_index (ev_frame_stack e) = None)
      in Option.bind (if is_first_init then Some (start_init (ev_frame_stack e)) else get_next (ev_frame_stack e))
           (\<lambda>(new_frame, fs).
              Option.bind (init_with_context X D (ev_precompiles e) fi new_frame fs (ev_ctx e)) (\<lambda>(res, fs, c).
                let e = e\<lparr>ev_ctx := c, ev_frame_stack := fs\<rparr>
                in case res of
                     Inl err \<Rightarrow> Some (Inl err, e)
                   | Inr (Result r) \<Rightarrow> Some (Inr (Result r), e)
                   | Inr (Item token) \<Rightarrow>
                       map_option (\<lambda>fs. (Inr (Item ()), e\<lparr>ev_frame_stack := fs\<rparr>))
                         (if is_first_init then end_init token fs else fs_push token fs))))"

text \<open>The interpreter with its host, and without it.\<close>

definition with_host :: "interpreter \<Rightarrow> 'h \<Rightarrow> 'h instruction_context" where
  "with_host i h =
     \<lparr>i_bytecode = i_bytecode i, i_gas = i_gas i, i_stack = i_stack i, i_return_data = i_return_data i,
      i_memory = i_memory i, i_input = i_input i, i_runtime_flag = i_runtime_flag i, i_host = h\<rparr>"

definition without_host :: "'h instruction_context \<Rightarrow> interpreter" where
  "without_host c =
     \<lparr>i_bytecode = i_bytecode c, i_gas = i_gas c, i_stack = i_stack c, i_return_data = i_return_data c,
      i_memory = i_memory c, i_input = i_input c, i_runtime_flag = i_runtime_flag c\<rparr>"

definition frame_run ::
    "externals \<Rightarrow> ('db, 'e) database \<Rightarrow> ('db, 'e) evm
       \<Rightarrow> ((frame_init, frame_result) item_or_result \<times> ('db, 'e) evm) option" where
  "frame_run X D e =
     Option.bind (fs_get (ev_frame_stack e)) (\<lambda>f.
     Option.bind (run_plain (context_host D) (ex_keccak256 X) (with_host (ef_interpreter f) (ev_ctx e))) (\<lambda>(action, c).
     Option.bind (process_next_action X action (f\<lparr>ef_interpreter := without_host c\<rparr>) (i_host c)) (\<lambda>(i, f, ctx).
       let f = (case i of Result _ \<Rightarrow> f\<lparr>ef_is_finished := True\<rparr> | Item _ \<Rightarrow> f)
       in map_option (\<lambda>fs. (i, e\<lparr>ev_ctx := ctx, ev_frame_stack := fs\<rparr>)) (fs_set f (ev_frame_stack e)))))"

definition frame_return_result ::
    "frame_result \<Rightarrow> ('db, 'e) evm \<Rightarrow> (('e context_error + frame_result option) \<times> ('db, 'e) evm) option" where
  "frame_return_result result e =
     Option.bind (fs_get (ev_frame_stack e)) (\<lambda>last_frame.
       let fs = (if ef_is_finished last_frame then fs_pop (ev_frame_stack e) else ev_frame_stack e);
           e = e\<lparr>ev_frame_stack := fs\<rparr>
       in if fs_index fs = None then Some (Inr (Some result), e)
          else
            Option.bind (fs_get fs) (\<lambda>f.
              let f = f\<lparr>ef_interpreter := (ef_interpreter f)\<lparr>i_memory :=
                    mem_share (i_memory (ef_interpreter last_frame)) (i_memory (ef_interpreter f))\<rparr>\<rparr>
              in Option.bind (return_result result f (ev_ctx e)) (\<lambda>(r, f, c).
                 map_option
                   (\<lambda>fs. (case r of Inl err \<Rightarrow> Inl err | Inr _ \<Rightarrow> Inr None,
                          e\<lparr>ev_ctx := c, ev_frame_stack := fs\<rparr>))
                   (fs_set f fs))))"

text \<open>One turn of the loop: the value it ends with, or \<open>None\<close> to go on.\<close>

definition exec_turn ::
    "externals \<Rightarrow> ('db, 'e) database \<Rightarrow> ('db, 'e) evm
       \<Rightarrow> (('e context_error + frame_result option) \<times> ('db, 'e) evm) option" where
  "exec_turn X D e =
     Option.bind (frame_run X D e) (\<lambda>(call_or_result, e).
       case call_or_result of
         Item init \<Rightarrow>
           Option.bind (frame_init_evm X D init e) (\<lambda>(r, e).
             case r of
               Inl err \<Rightarrow> Some (Inl err, e)
             | Inr (Item _) \<Rightarrow> Some (Inr None, e)
             | Inr (Result result) \<Rightarrow> frame_return_result result e)
       | Result result \<Rightarrow> frame_return_result result e)"

partial_function (option) exec_loop ::
    "externals \<Rightarrow> ('db, 'e) database \<Rightarrow> ('db, 'e) evm
       \<Rightarrow> (('e context_error + frame_result) \<times> ('db, 'e) evm) option" where
  [code]: "exec_loop X D e =
     Option.bind (exec_turn X D e) (\<lambda>(r, e).
       case r of
         Inl err \<Rightarrow> Some (Inl err, e)
       | Inr (Some result) \<Rightarrow> Some (Inr result, e)
       | Inr None \<Rightarrow> exec_loop X D e)"

definition run_exec_loop ::
    "externals \<Rightarrow> ('db, 'e) database \<Rightarrow> frame_init \<Rightarrow> ('db, 'e) evm
       \<Rightarrow> (('e context_error + frame_result) \<times> ('db, 'e) evm) option" where
  "run_exec_loop X D first_frame_input e =
     Option.bind (frame_init_evm X D first_frame_input e) (\<lambda>(res, e).
       case res of
         Inl err \<Rightarrow> Some (Inl err, e)
       | Inr (Result frame_result) \<Rightarrow> Some (Inr frame_result, e)
       | Inr (Item _) \<Rightarrow> exec_loop X D e)"

end
