(* ===== verification/Frame_Safety.thy ===== *)
theory Frame_Safety
  imports Ctx_Host Frame
begin

text \<open>
  Frames under the execution loop. The stack of frames keeps an invariant that is stated from the
  top down: the frame at the top can be run, every caller below it can be returned to, its memory is
  the part of the shared buffer below the checkpoint of its callee, the journal of its callee's
  checkpoint has grown from the journal of its own, and the gas of all frames together stays below
  the bound under which the price of memory is exact. From the invariant follows that the loop
  ends without panic, for every database and every set of precompiles that meet their contracts.
\<close>

section \<open>Steps of the context\<close>

definition moves :: "('db \<Rightarrow> bool) \<Rightarrow> spec_id \<Rightarrow> bool \<Rightarrow> ('db, 'e) ctx \<Rightarrow> ('db, 'e) ctx \<Rightarrow> bool" where
  "moves I sp st c c' \<longleftrightarrow> (ctx_ok I sp c \<longrightarrow> ctx_ok I sp c' \<and> evolves (cx_journal c) (cx_journal c')
     \<and> cx_block c' = cx_block c \<and> cx_tx c' = cx_tx c \<and> cx_cfg c' = cx_cfg c \<and> cx_par_7702 c' = cx_par_7702 c
     \<and> (st \<longrightarrow> read_only (cx_journal c) (cx_journal c')))"

lemma moves_refl: "moves I sp st c c"
  by (simp add: moves_def shape.grows_refl read_only_refl)

lemma moves_trans: "moves I sp st c c' \<Longrightarrow> moves I sp st c' c'' \<Longrightarrow> moves I sp st c c''"
  unfolding moves_def using shape.grows_trans read_only_trans by (metis (no_types, lifting))

lemma ctx_ev_moves: "ctx_ev I sp s c c' \<Longrightarrow> (st \<longrightarrow> s) \<Longrightarrow> moves I sp st c c'"
  by (auto simp: ctx_ev_def moves_def)

lemma moves_journal:
  assumes "evolves (cx_journal c) j" "codes_ok (j_state (cx_journal c)) \<Longrightarrow> codes_ok (j_state j)"
    "st \<longrightarrow> read_only (cx_journal c) j"
  shows "moves I sp st c (c\<lparr>cx_journal := j\<rparr>)"
  using assms evolvesD(1) by (auto simp: moves_def ctx_ok_def)

lemma moves_store:
  assumes "ctx_ok I sp c \<Longrightarrow> evolves (cx_journal c) j \<and> codes_ok (j_state j) \<and> I db \<and> (st \<longrightarrow> read_only (cx_journal c) j)"
  shows "moves I sp st c (ctx_store j db c)"
  using assms evolvesD(1) by (auto simp: moves_def ctx_ok_def ctx_store_def)

lemma moves_local: "moves I sp st c (set_precompile_error_context s c)"
  by (auto simp: moves_def ctx_ok_def set_precompile_error_context_def shape.grows_refl read_only_refl)

lemma movesD:
  assumes "moves I sp st c c'" "ctx_ok I sp c"
  shows "ctx_ok I sp c'" "evolves (cx_journal c) (cx_journal c')" "cx_cfg c' = cx_cfg c" "st \<Longrightarrow> read_only (cx_journal c) (cx_journal c')"
    "warm_in (cx_journal c) a \<Longrightarrow> warm_in (cx_journal c') a"
  using assms evolvesD(2) by (auto simp: moves_def ctx_ok_def)

section \<open>Journal operations of the frames\<close>

lemma revert_warming:
  assumes "entry_revert isd e (st, ts) = Some (st', ts')" "warming e"
  shows "ts' = ts \<and> (\<forall>a acc. st a = Some acc \<longrightarrow> (\<exists>acc'. st' a = Some acc' \<and> same_values acc' acc))"
proof -
  have v: "same_values (mark_cold acc) acc" "same_values (unmark_touch acc) acc" for acc
    by (simp_all add: same_values_def same_info_def mark_cold_def unmark_touch_def)
  have s: "same_values (acc\<lparr>ac_storage := (ac_storage acc)(k \<mapsto> slot_mark_cold s)\<rparr>) acc" if "ac_storage acc k = Some s" for acc k s
    using that by (simp add: same_values_def same_info_def slot_mark_cold_def)
  show ?thesis
    using assms v s same_values_refl
    by (cases e) (auto simp: bind_eq_Some_conv upd_account_def upd_slot_def split: if_splits option.splits)
qed

lemma reverts_warming:
  assumes "entries_revert isd es (st, ts) = Some (st', ts')" "list_all warming es"
  shows "ts' = ts \<and> (\<forall>a acc. st a = Some acc \<longrightarrow> (\<exists>acc'. st' a = Some acc' \<and> same_values acc' acc))"
  using assms
proof (induction es arbitrary: st' ts')
  case (Cons e es)
  obtain st1 ts1 where r: "entries_revert isd es (st, ts) = Some (st1, ts1)" "entry_revert isd e (st1, ts1) = Some (st', ts')"
    using Cons.prems(1) by (auto simp: bind_eq_Some_conv)
  then show ?case using Cons.IH [OF r(1)] revert_warming [OF r(2)] Cons.prems(2) same_values_trans
    by (simp, meson)
qed (auto intro: same_values_refl)

lemma revert_read_only:
  assumes "read_only jb j" "checkpoint_revert chk j = Some j1"
    "jc_journal_i chk = length (j_journal jb)" "jc_log_i chk = length (j_logs jb)"
  shows "read_only jb j1"
proof -
  obtain es where es: "j_journal j = j_journal jb @ es" "list_all warming es" using assms(1) by (auto simp: read_only_def)
  have r: "j_logs j1 = j_logs jb \<and> j_journal j1 = j_journal jb \<and> j_transient_storage j1 = j_transient_storage j
      \<and> (\<forall>a acc. j_state j a = Some acc \<longrightarrow> (\<exists>acc'. j_state j1 a = Some acc' \<and> same_values acc' acc))"
  proof (cases "es = []")
    case True
    then show ?thesis using assms es by (auto simp: checkpoint_revert_def read_only_def same_values_refl)
  next
    case False
    then obtain st ts where st: "entries_revert (is_enabled_in (j_spec j) SPURIOUS_DRAGON) es (j_state j, Some (j_transient_storage j)) = Some (st, ts)"
      "j_logs j1 = j_logs jb" "j_state j1 = st" "j_journal j1 = j_journal jb"
      "j_transient_storage j1 = (case ts of None \<Rightarrow> j_transient_storage j | Some t \<Rightarrow> t)"
      using assms es by (auto simp: checkpoint_revert_def Let_def read_only_def cong: option.case_cong)
    then show ?thesis using reverts_warming [OF st(1) es(2)] by simp
  qed
  have "\<exists>acc'. j_state j1 a = Some acc' \<and> same_values acc' acc" if "j_state jb a = Some acc" for a acc
    using that assms(1) r unfolding read_only_def by (meson same_values_trans)
  then show ?thesis using r assms(1) by (simp add: read_only_def)
qed

lemma touch_account_read_only:
  assumes "j_state j a = Some acc"
  shows "read_only j (put_account a (touch_account a acc (j_journal j)) j)"
proof -
  have "same_values (mark_touch acc) acc" by (simp add: same_values_def same_info_def mark_touch_def)
  then show ?thesis using assms
    by (auto simp: read_only_def touch_account_def put_account_def same_values_refl)
qed

lemma transfer_read_only:
  assumes "transfer_loaded frm to v j = Some (e, j')" "v = 0 \<or> frm = to"
  shows "read_only j j'"
  using assms
  by (auto simp: transfer_loaded_def bind_eq_Some_conv Let_def case_prod_beta read_only_refl
      intro!: touch_account_read_only split: if_splits option.splits)

section \<open>The invariant of the stack\<close>

abbreviation ef_mem :: "eth_frame \<Rightarrow> shared_memory" where
  "ef_mem f \<equiv> i_memory (ef_interpreter f)"

definition frames_total :: "eth_frame list \<Rightarrow> nat" where
  "frames_total fs = sum_list (map (\<lambda>f. gas_total (ef_interpreter f)) fs)"

text \<open>A frame by itself: a well-formed interpreter of the hardfork \<open>sp\<close>, static if \<open>st\<close>.\<close>

definition core_ok :: "spec_id \<Rightarrow> bool \<Rightarrow> eth_frame \<Rightarrow> bool" where
  "core_ok sp st f \<longleftrightarrow> interp_ok (\<lambda>_ _ _. True) (with_host (ef_interpreter f) ())
     \<and> i_spec (ef_interpreter f) = sp \<and> (st \<longrightarrow> rf_is_static (i_runtime_flag (ef_interpreter f)))
     \<and> \<not> ef_is_finished f"

text \<open>A range of memory for the output is within the memory of the caller.\<close>

definition ret_ok :: "usize \<times> usize \<Rightarrow> eth_frame list \<Rightarrow> bool" where
  "ret_ok rng fs \<longleftrightarrow> (case fs of [] \<Rightarrow> True | f # _ \<Rightarrow> range_ok rng (length (mem_bytes (ef_mem f))))"

definition data_ok :: "bool \<Rightarrow> eth_frame list \<Rightarrow> eth_frame \<Rightarrow> bool" where
  "data_ok st fs f \<longleftrightarrow>
     (case ef_data f of
        CallFrame rng \<Rightarrow> ret_ok rng fs
      | CreateFrame a \<Rightarrow> a = i_target (ef_interpreter f) \<and> \<not> st)"

definition frame_at :: "spec_id \<Rightarrow> bool \<Rightarrow> eth_frame list \<Rightarrow> eth_frame \<Rightarrow> bool" where
  "frame_at sp st fs f \<longleftrightarrow> core_ok sp st f \<and> data_ok st fs f
     \<and> unat (sm_my_checkpoint (ef_mem f)) \<le> 32 * frames_total fs
     \<and> unat (ef_depth f) = length fs \<and> length fs \<le> 1024"

text \<open>The journal \<open>jb\<close> at the checkpoint of the frame has grown to \<open>j\<close>.\<close>

definition base_ok :: "bool \<Rightarrow> journal_inner \<Rightarrow> journal_inner \<Rightarrow> eth_frame \<Rightarrow> journal_inner \<Rightarrow> bool" where
  "base_ok st j0 jb f j \<longleftrightarrow> journal_wf jb \<and> evolves jb j
     \<and> jc_journal_i (ef_checkpoint f) = length (j_journal jb) \<and> jc_log_i (ef_checkpoint f) = length (j_logs jb)
     \<and> warm_in j (i_target (ef_interpreter f)) \<and> evolves j0 jb \<and> (st \<longrightarrow> read_only j0 jb \<and> read_only jb j)"

text \<open>The callers, the innermost first, of a frame whose checkpoint is at journal \<open>j\<close> and whose memory
  starts behind the buffer \<open>b\<close>.\<close>

fun callers_ok :: "spec_id \<Rightarrow> bool \<Rightarrow> journal_inner \<Rightarrow> journal_inner \<Rightarrow> bytes \<Rightarrow> eth_frame list \<Rightarrow> bool" where
  "callers_ok sp st j0 j b [] \<longleftrightarrow> True"
| "callers_ok sp st j0 j b (f # fs) \<longleftrightarrow> frame_at sp st fs f
     \<and> length (i_stack (ef_interpreter f)) < STACK_LIMIT
     \<and> sm_buffer (ef_mem f) = Some b \<and> sm_child_checkpoint (ef_mem f) = Some (vec_len b)
     \<and> (\<exists>jb. base_ok st j0 jb f j
          \<and> callers_ok sp st j0 jb (take (unat (sm_my_checkpoint (ef_mem f))) b) fs)"

abbreviation gas_bound :: nat where
  "gas_bound \<equiv> 2 ^ 55 - 1"

text \<open>The parts of the context that no frame changes.\<close>

definition same_env :: "('db, 'e) ctx \<Rightarrow> ('db, 'e) ctx \<Rightarrow> bool" where
  "same_env c c' \<longleftrightarrow> cx_block c' = cx_block c \<and> cx_tx c' = cx_tx c \<and> cx_cfg c' = cx_cfg c \<and> cx_par_7702 c' = cx_par_7702 c"

text \<open>A frame \<open>f\<close> that can be run, of a loop that started in the context \<open>c0\<close>.\<close>

definition running ::
    "('db \<Rightarrow> bool) \<Rightarrow> spec_id \<Rightarrow> bool \<Rightarrow> ('db, 'e) ctx \<Rightarrow> ('db, 'e) ctx \<Rightarrow> eth_frame \<Rightarrow> eth_frame list \<Rightarrow> bool" where
  "running I sp st c0 c f fs \<longleftrightarrow> ctx_ok I sp c \<and> ce_spec (cx_cfg c) = sp \<and> same_env c0 c \<and> frame_at sp st fs f
     \<and> sm_child_checkpoint (ef_mem f) = None \<and> frames_total (f # fs) < gas_bound
     \<and> (\<exists>jb b. sm_buffer (ef_mem f) = Some b \<and> base_ok st (cx_journal c0) jb f (cx_journal c)
          \<and> callers_ok sp st (cx_journal c0) jb (take (unat (sm_my_checkpoint (ef_mem f))) b) fs)"

text \<open>A request for a frame on top of the callers \<open>fs\<close>.\<close>

fun request_ok :: "bool \<Rightarrow> journal_inner \<Rightarrow> bytes \<Rightarrow> eth_frame list \<Rightarrow> frame_input \<Rightarrow> bool" where
  "request_ok st j b fs FrameEmpty \<longleftrightarrow> False"
| "request_ok st j b fs (FrameCall i) \<longleftrightarrow>
     (st \<longrightarrow> ci_is_static i \<and> (\<forall>v. ci_value i = Transfer v \<longrightarrow> v = 0 \<or> ci_caller i = ci_target_address i))
     \<and> (case ci_input i of SharedBuffer s e \<Rightarrow> s < e \<longrightarrow> unat e \<le> length b | CallBytes bs \<Rightarrow> length bs < 2 ^ 63)
     \<and> ret_ok (ci_return_memory_offset i) fs
     \<and> (\<forall>h code. ci_known_bytecode i = Some (h, code) \<longrightarrow> bytecode_ok code)
     \<and> warm_in j (ci_target_address i) \<and> (\<forall>v. ci_value i = Transfer v \<longrightarrow> warm_in j (ci_caller i))"
| "request_ok st j b fs (FrameCreate i) \<longleftrightarrow> \<not> st \<and> length (cr_init_code i) < 2 ^ 62"

fun request_gas :: "frame_input \<Rightarrow> nat" where
  "request_gas FrameEmpty = 0"
| "request_gas (FrameCall i) = unat (ci_gas_limit i)"
| "request_gas (FrameCreate i) = unat (cr_gas_limit i)"

definition pending ::
    "('db \<Rightarrow> bool) \<Rightarrow> spec_id \<Rightarrow> bool \<Rightarrow> ('db, 'e) ctx \<Rightarrow> ('db, 'e) ctx \<Rightarrow> frame_init \<Rightarrow> eth_frame list \<Rightarrow> bool" where
  "pending I sp st c0 c fi fs \<longleftrightarrow> ctx_ok I sp c \<and> ce_spec (cx_cfg c) = sp \<and> same_env c0 c
     \<and> (\<exists>b. fi_memory fi = \<lparr>sm_buffer = Some b, sm_my_checkpoint = vec_len b, sm_child_checkpoint = None\<rparr>
          \<and> length b \<le> 32 * frames_total fs \<and> callers_ok sp st (cx_journal c0) (cx_journal c) b fs
          \<and> request_ok st (cx_journal c) b fs (fi_frame_input fi))
     \<and> request_gas (fi_frame_input fi) + frames_total fs < gas_bound
     \<and> unat (fi_depth fi) = length fs \<and> length fs \<le> 1025
     \<and> evolves (cx_journal c0) (cx_journal c) \<and> (st \<longrightarrow> read_only (cx_journal c0) (cx_journal c))"

text \<open>A result with at most \<open>n\<close> gas for the callers \<open>fs\<close>.\<close>

definition fits :: "nat \<Rightarrow> eth_frame list \<Rightarrow> ('db, 'e) ctx \<Rightarrow> frame_result \<Rightarrow> bool" where
  "fits n fs c r \<longleftrightarrow> unat (g_remaining (frame_result_gas r)) \<le> n
     \<and> length (ir_output (frame_interpreter_result r)) < 2 ^ 63
     \<and> (frame_instruction_result r = FatalExternalError \<longrightarrow> ctx_err c)
     \<and> frame_instruction_result r \<noteq> InvalidExtDelegateCallTarget
     \<and> (\<forall>o'. r = ResCall o' \<longrightarrow> ret_ok (co_memory_offset o') fs)"

section \<open>Frames\<close>

lemma same_env_moves: "ctx_ok I sp c \<Longrightarrow> moves I sp st c c' \<Longrightarrow> same_env c0 c \<Longrightarrow> same_env c0 c'"
  by (simp add: moves_def same_env_def)

lemma interp_ok_with_host:
  "interp_ok hinv (with_host i c) \<longleftrightarrow>
     interp_ok (\<lambda>_ _ _. True) (with_host i ()) \<and> hinv (i_spec i) (i_target i) c"
  by (simp add: interp_ok_def with_host_def)

lemma gas_total_with_host [simp]: "gas_total (with_host i c) = gas_total i"
  by (simp add: gas_total_def with_host_def)

lemma callers_mono:
  assumes "callers_ok sp st j0 j b fs" "evolves j j'" "journal_wf j" "st \<longrightarrow> read_only j j'"
  shows "callers_ok sp st j0 j' b fs"
proof (cases fs)
  case (Cons f gs)
  then obtain jb where jb: "base_ok st j0 jb f j" "callers_ok sp st j0 jb (take (unat (sm_my_checkpoint (ef_mem f))) b) gs"
    using assms(1) by auto
  have "base_ok st j0 jb f j'"
    using jb(1) assms(2-4) shape.grows_trans [OF _ assms(2)] read_only_trans evolvesD(2) [OF assms(2,3)]
    by (auto simp: base_ok_def)
  then show ?thesis using jb(2) assms(1) Cons by auto
qed simp

lemma code_closed_nonempty: "bytecode_ok c \<Longrightarrow> 0 < length (bytes_ref c)"
  by (cases c) (auto simp: code_closed_def)

text \<open>A new frame.\<close>

lemma new_frame_running:
  assumes p: "pending I sp st c0 c fi fs" and m: "moves I sp st c c'"
    and f: "f = \<lparr>ef_data = data, ef_input = input, ef_depth = fi_depth fi, ef_checkpoint = fst (checkpoint (cx_journal c)),
      ef_interpreter = interpreter_new (fi_memory fi) (new_with_optional_hash code h) inputs static sp limit, ef_is_finished = False\<rparr>"
    and "fi_depth fi \<le> CALL_STACK_LIMIT" "unat limit = request_gas (fi_frame_input fi)" "bytecode_ok code"
    and "st \<longrightarrow> static" "warm_in (cx_journal c') (in_target_address inputs)"
    and "case data of CallFrame rng \<Rightarrow> ret_ok rng fs | CreateFrame a \<Rightarrow> a = in_target_address inputs \<and> \<not> st"
    and "input_ok (fi_memory fi) inputs"
  shows "running I sp st c0 c' f fs"
proof -
  obtain b where b: "fi_memory fi = \<lparr>sm_buffer = Some b, sm_my_checkpoint = vec_len b, sm_child_checkpoint = None\<rparr>"
      "length b \<le> 32 * frames_total fs" "callers_ok sp st (cx_journal c0) (cx_journal c) b fs"
    using p by (auto simp: pending_def)
  have c: "ctx_ok I sp c" "journal_wf (cx_journal c)" "ce_spec (cx_cfg c) = sp" "st \<longrightarrow> read_only (cx_journal c0) (cx_journal c)"
      "evolves (cx_journal c0) (cx_journal c)" "same_env c0 c'"
    using p same_env_moves [OF _ m] by (auto simp: pending_def ctx_ok_def)
  have g: "unat limit + frames_total fs < gas_bound" using p assms(5) by (simp add: pending_def)
  have lb: "length b < 2 ^ 62" using b(2) g by simp
  then have v: "unat (vec_len b) = length b" by (simp add: vec_len_def unat_of_nat_small)
  have "mem_gas_inv (gas_new limit) (fi_memory fi)"
    using v lb g by (simp add: b(1) mem_gas_inv_def mem_inv_def mem_bytes_def context_memory_def gas_new_def
        memory_gas_inv_new) (simp add: memory_gas_new_def)
  then have i: "interp_ok (\<lambda>_ _ _. True) (with_host (ef_interpreter f) ())"
    using assms(6,10) code_closed_nonempty [OF assms(6)]
    by (auto simp: interp_ok_def with_host_def f interpreter_new_def new_with_optional_hash_def pc_ok_def stack_new_def boundary_start)
  have d: "unat (fi_depth fi) = length fs" "length fs \<le> 1024"
    using p assms(4) by (auto simp: pending_def CALL_STACK_LIMIT_def word_le_nat_alt)
  have base: "base_ok st (cx_journal c0) (cx_journal c) f (cx_journal c')"
    using movesD(2,4) [OF m c(1)] c assms(8) by (simp add: base_ok_def f checkpoint_def interpreter_new_def)
  have at: "frame_at sp st fs f"
    using i d assms(7,9) b v by (auto simp: frame_at_def core_ok_def data_ok_def f interpreter_new_def split: frame_data.splits)
  have "frames_total (f # fs) < gas_bound"
    using g by (simp add: frames_total_def gas_total_def f interpreter_new_def gas_new_def memory_gas_new_def)
  then show ?thesis
    using at base movesD(1,3) [OF m c(1)] c(3,6) b(3) v by (auto simp: running_def f interpreter_new_def b(1))
qed

text \<open>Analysed code is code the interpreter can run.\<close>

lemma boundary_extend:
  assumes "boundary code 0 pc" "pc < length code"
  shows "boundary (code @ pad) 0 pc"
  using assms
proof (induction rule: boundary.induct)
  case (boundary_next pc)
  then have "next_pc (code @ pad) pc = next_pc code pc" by (simp add: next_pc_def nth_append)
  then show ?case using boundary.boundary_next [of "code @ pad" 0 pc] boundary_next by simp
qed (rule boundary_start)

lemma new_legacy_ok:
  assumes "length code < 2 ^ 62"
  obtains b where "new_legacy code = Some b" "bytecode_ok b"
proof -
  have l: "length code < 2 ^ 63 - 33" using assms by simp
  show ?thesis
  proof (rule analyze_legacy_spec [OF l])
    fix t padded k
    assume a: "analyze_legacy code = Some (t, padded)" "padded = code @ replicate k 0" "k \<le> 33" "code_closed padded"
      "unat (jt_len t) = length code"
      "\<And>pc. jump_table_is_valid t pc \<longleftrightarrow> boundary code 0 (unat pc) \<and> unat pc < length code \<and> code ! unat pc = op_JUMPDEST"
    have v: "unat (of_nat (length code) :: usize) = length code" "length padded < 2 ^ 63"
      using a(2,3) assms by (simp_all add: unat_of_nat_small)
    have "padded \<noteq> []" using a(4) by (simp add: code_closed_def)
    then have "legacy_analyze code = Some \<lparr>la_bytecode = padded, la_original_len = of_nat (length code), la_jump_table = t\<rparr>"
      using a v by (simp add: legacy_analyze_def legacy_analyzed_new_def word_le_nat_alt)
    then show thesis
      using that a v boundary_extend [of code _ "replicate k 0"] by (auto simp: new_legacy_def)
  qed
qed

section \<open>Starting a frame\<close>

definition precompiles_ok :: "eth_precompiles \<Rightarrow> bool" where
  "precompiles_ok P \<longleftrightarrow> (\<forall>a p input gl. precompiles_get a (ep_precompiles P) = Some p \<longrightarrow>
     length input < 2 ^ 63 \<longrightarrow> unat gl < gas_bound \<longrightarrow>
     ok (\<lambda>r. \<forall>out. r = Inr out \<longrightarrow> po_gas_used out \<le> gl \<and> length (po_bytes out) < 2 ^ 63) (pc_fn p input gl))"

text \<open>What starting a frame yields: an error of the context, a result for the callers, or a frame that
  can be run.\<close>

definition started ::
    "('db \<Rightarrow> bool) \<Rightarrow> spec_id \<Rightarrow> bool \<Rightarrow> ('db, 'e) ctx \<Rightarrow> eth_frame list \<Rightarrow> nat \<Rightarrow> out_frame \<Rightarrow> eth_frame frame_stack
       \<Rightarrow> ('db, 'e) ctx \<Rightarrow> ('db, 'e) init_result \<Rightarrow> bool" where
  "started I sp st c0 fs n this pool c r \<longleftrightarrow>
     (\<exists>e c'. r = Some (Inl e, pool, c') \<and> moves I sp st c c')
     \<or> (\<exists>x c'. r = Some (Inr (Result x), pool, c') \<and> moves I sp st c c' \<and> fits n fs c' x)
     \<or> (\<exists>f c'. r = start_frame (\<lambda>_. f) this pool c' \<and> moves I sp st c c' \<and> running I sp st c0 c' f fs
          \<and> gas_total (ef_interpreter f) \<le> n)"

lemma started_moves:
  "started I sp st c0 fs n this pool c' r \<Longrightarrow> moves I sp st c c' \<Longrightarrow> started I sp st c0 fs n this pool c r"
  unfolding started_def using moves_trans by blast

lemma request_moves:
  assumes "request_ok st (cx_journal c) b fs i" "moves I sp st c c'" "ctx_ok I sp c"
  shows "request_ok st (cx_journal c') b fs i"
  using assms movesD(5) [OF assms(2,3)] by (cases i) auto

lemma pending_moves:
  assumes "pending I sp st c0 c fi fs" "moves I sp st c c'"
  shows "pending I sp st c0 c' fi fs"
proof -
  have c: "ctx_ok I sp c" using assms(1) by (simp add: pending_def)
  note m = movesD [OF assms(2) c]
  have wf: "journal_wf (cx_journal c)" using c by (simp add: ctx_ok_def)
  note steps = callers_mono [OF _ m(2) wf] request_moves [OF _ assms(2) c] shape.grows_trans [OF _ m(2)] same_env_moves [OF c assms(2)]
  show ?thesis using assms(1) m(1,3,4) steps read_only_trans unfolding pending_def by auto
qed

lemmas frame_result_defs = frame_result_gas_def frame_instruction_result_def

lemma fits_call_result: "request_ok st j b fs (FrameCall i) \<Longrightarrow> exported r \<Longrightarrow> fits (unat (ci_gas_limit i)) fs c (call_result r i)"
  by (simp add: fits_def call_result_def gas_new_def frame_result_defs)

lemma fits_create_error: "exported r \<Longrightarrow> fits (unat (cr_gas_limit i)) fs c (create_error r i)"
  by (simp add: fits_def create_error_def gas_new_def frame_result_defs)

lemma transfer_error_not_fatal: "exported (result_of_transfer_error e)"
  by (cases e) simp_all

text \<open>Steps of the journal that keep the context.\<close>

lemma moves_checkpoint: "moves I sp st c (c\<lparr>cx_journal := snd (checkpoint (cx_journal c))\<rparr>)"
  by (rule moves_journal) (auto simp: checkpoint_def evolves_depth read_only_def same_values_refl)

lemma moves_commit: "moves I sp st c (c\<lparr>cx_journal := checkpoint_commit (cx_journal c)\<rparr>)"
  by (rule moves_journal) (auto simp: checkpoint_commit_def evolves_depth read_only_def same_values_refl)

lemma moves_revert:
  assumes "ctx_ok I sp c" "moves I sp st c c'" "jc_journal_i chk = length (j_journal (cx_journal c))"
    "jc_log_i chk = length (j_logs (cx_journal c))"
  obtains j where "checkpoint_revert chk (cx_journal c') = Some j" "moves I sp st c (c'\<lparr>cx_journal := j\<rparr>)"
proof -
  note m = movesD [OF assms(2,1)]
  have "journal_wf (cx_journal c)" using assms(1) by (simp add: ctx_ok_def)
  then obtain j where j: "checkpoint_revert chk (cx_journal c') = Some j" "evolves (cx_journal c) j"
    using evolves_revert [OF m(2) _ assms(3,4)] by blast
  have "codes_ok (j_state j)" using checkpoint_revert_codes [OF j(1)] m(1) by (simp add: ctx_ok_def)
  moreover have "st \<Longrightarrow> read_only (cx_journal c) j" using revert_read_only [OF m(4) j(1) assms(3,4)] by simp
  ultimately show ?thesis
    using that [OF j(1)] assms(1,2) j(2) evolvesD(1) [OF j(2)] by (auto simp: moves_def ctx_ok_def)
qed

lemma checkpoint_lengths:
  "jc_journal_i (fst (checkpoint j)) = length (j_journal j)" "jc_log_i (fst (checkpoint j)) = length (j_logs j)"
  by (simp_all add: checkpoint_def)

lemma moves_transfer:
  assumes "ctx_ok I sp c" "warm_in (cx_journal c) frm" "warm_in (cx_journal c) to" "st \<longrightarrow> v = 0 \<or> frm = to"
  obtains e j where "transfer_loaded frm to v (cx_journal c) = Some (e, j)" "moves I sp st c (c\<lparr>cx_journal := j\<rparr>)"
proof -
  have "frm \<in> dom (j_state (cx_journal c))" "to \<in> dom (j_state (cx_journal c))" using assms(2,3) warm_in_dom by auto
  then obtain e j where j: "transfer_loaded frm to v (cx_journal c) = Some (e, j)" "evolves (cx_journal c) j"
    using transfer_loaded_evolves by blast
  show ?thesis
    using that [OF j(1)] moves_journal [OF j(2)] transfer_codes [OF j(1)] transfer_read_only [OF j(1)] assms(4) by blast
qed

lemma precompiles_run_ok:
  assumes P: "precompiles_ok P" and g: "unat (ci_gas_limit i) < gas_bound"
    and l: "length (precompile_input (ci_input i) b) < 2 ^ 63"
  shows "(\<exists>s. precompiles_run P b i c = Some (Inl s, c)) \<or> precompiles_run P b i c = Some (Inr None, c)
    \<or> (\<exists>x c'. precompiles_run P b i c = Some (Inr (Some x), c') \<and> moves I sp st c c' \<and> cx_journal c' = cx_journal c
         \<and> unat (g_remaining (ir_gas x)) \<le> unat (ci_gas_limit i) \<and> length (ir_output x) < 2 ^ 63
         \<and> exported (ir_result x))"
proof (cases "precompiles_get (ci_bytecode_address i) (ep_precompiles P)")
  case (Some p)
  let ?in = "precompile_input (ci_input i) b"
  obtain r where r: "pc_fn p ?in (ci_gas_limit i) = Some r"
      "\<And>out. r = Inr out \<Longrightarrow> po_gas_used out \<le> ci_gas_limit i \<and> length (po_bytes out) < 2 ^ 63"
    using P Some l g unfolding precompiles_ok_def ok_iff by blast
  have m: "moves I sp st c (if q then set_precompile_error_context s c else c)"
      "cx_journal (if q then set_precompile_error_context s c else c) = cx_journal c" for q s
    using moves_local moves_refl by (auto simp: set_precompile_error_context_def)
  show ?thesis
  proof (cases r)
    case (Inl e)
    then show ?thesis using Some r(1) m by (cases e) (auto simp: precompiles_run_def gas_new_def Let_def)
  next
    case (Inr out)
    then have "po_gas_used out \<le> ci_gas_limit i" "length (po_bytes out) < 2 ^ 63" using r(2) by auto
    moreover from this(1) have "record_cost (po_gas_used out) (gas_new (ci_gas_limit i))
        = (True, (gas_new (ci_gas_limit i))\<lparr>g_remaining := ci_gas_limit i - po_gas_used out\<rparr>)"
      by (simp add: record_cost_def gas_new_def checked_sub_def)
    ultimately show ?thesis using Some r(1) Inr moves_refl
      by (auto simp: precompiles_run_def Let_def unat_sub word_le_nat_alt)
  qed
qed (simp add: precompiles_run_def)

lemma unwrap_read_only:
  assumes "unwrap_db_error (load_account_mut_optional_code D a lc skip j db) = Some (r, j', db')" "journal_wf j"
  shows "read_only j j'"
proof -
  obtain r0 c0 db0 where l: "load_account_mut_optional_code D a lc skip j db = (r0, c0, db0)" using prod_cases3 by blast
  have "j' = c0" using assms(1) unfolding l unwrap_db_error_def by (cases r0) (auto split: journal_load_error.splits)
  then show ?thesis using load_read_only [OF l assms(2)] by simp
qed

lemma clear_eq:
  "eth_frame_clear data input depth memory bytecode inputs static sp limit chk =
     (\<lambda>_. \<lparr>ef_data = data, ef_input = input, ef_depth = depth, ef_checkpoint = chk,
           ef_interpreter = interpreter_new memory bytecode inputs static sp limit, ef_is_finished = False\<rparr>)"
  by (rule ext) (simp add: eth_frame_clear_def interpreter_clear_def interpreter_new_def stack_new_def)

context evm_database
begin

lemma moves_load:
  assumes "ctx_ok I sp c"
  obtains r j db where "load_account D a (cx_journal c) (cx_db c) = Some (r, j, db)"
    "moves I sp st c (ctx_store j db c)" "\<forall>b. r = Inr b \<longrightarrow> warm_in j a"
proof -
  have wf: "journal_wf (cx_journal c)" using assms by (simp add: ctx_ok_def)
  obtain r j db where l: "load_account D a (cx_journal c) (cx_db c) = Some (r, j, db)" "evolves (cx_journal c) j"
      "\<forall>b. r = Inr b \<longrightarrow> warm_in j a"
    using load_account_evolves(1) [OF wf, of D a "cx_db c"] by blast
  have "read_only (cx_journal c) j" by (rule unwrap_read_only [OF l(1) [unfolded load_account_def] wf])
  then show ?thesis
    using that [OF l(1) _ l(3)] moves_store [of I sp c j db st] l(2) load_account_codes(1) [OF l(1)] by (simp add: ctx_ok_def)
qed

lemma call_bytecode_ok:
  assumes "ctx_ok I sp c" "\<And>h code. ci_known_bytecode i = Some (h, code) \<Longrightarrow> bytecode_ok code"
  obtains r c' where "call_bytecode D i c = Some (r, c')" "moves I sp st c c'" "\<forall>code h. r = Inr (code, h) \<longrightarrow> bytecode_ok code"
proof (cases "ci_known_bytecode i")
  case None
  have wf: "journal_wf (cx_journal c)" using assms by (simp add: ctx_ok_def)
  obtain r j db where l: "load_code D (ci_bytecode_address i) (cx_journal c) (cx_db c) = Some (r, j, db)" "evolves (cx_journal c) j"
      "\<And>b. r = Inr b \<Longrightarrow> warm_in j (ci_bytecode_address i)"
    using load_account_evolves(2) [OF wf, of D "ci_bytecode_address i" "cx_db c"] by blast
  have "read_only (cx_journal c) j" by (rule unwrap_read_only [OF l(1) [unfolded load_code_def] wf])
  moreover have k: "I db" "codes_ok (j_state j)" using load_account_codes(2) [OF l(1)] assms(1) by (auto simp: ctx_ok_def)
  ultimately have m: "moves I sp st c (ctx_store j db c)" using moves_store [of I sp c j db st] l(2) by simp
  show ?thesis
  proof (cases r)
    case (Inl e)
    then have "call_bytecode D i c = Some (Inl (CtxDb e), ctx_store j db c)" using None l(1) by (simp add: call_bytecode_def)
    then show ?thesis by (rule that [OF _ m]) simp
  next
    case (Inr b)
    then obtain acc where acc: "j_state j (ci_bytecode_address i) = Some acc" using warm_in_dom [OF l(3) [OF Inr]] by auto
    let ?r = "(case ai_code (ac_info acc) of Some b \<Rightarrow> b | None \<Rightarrow> bytecode_new, ai_code_hash (ac_info acc))"
    have "call_bytecode D i c = Some (Inr ?r, ctx_store j db c)"
      using None l(1) Inr acc by (simp add: call_bytecode_def)
    moreover have "bytecode_ok (fst ?r)" using codes_okD [OF k(2) acc] by (auto simp: code_ok_def split: option.split)
    ultimately show ?thesis by (rule_tac that [OF _ m]) auto
  qed
next
  case (Some x)
  then have "call_bytecode D i c = Some (Inr (snd x, fst x), c)" by (cases x) (simp add: call_bytecode_def)
  then show ?thesis by (rule that [OF _ moves_refl]) (use assms(2) Some in \<open>cases x; auto\<close>)
qed

lemma started_frame:
  assumes "pending I sp st c0 cb fi fs" "moves I sp st cb c" "fi_depth fi \<le> CALL_STACK_LIMIT"
    and "chk = fst (checkpoint (cx_journal cb))" "unat limit = request_gas (fi_frame_input fi)" "bytecode_ok code"
    and "st \<longrightarrow> static" "warm_in (cx_journal c) (in_target_address inputs)"
    and "case data of CallFrame rng \<Rightarrow> ret_ok rng fs | CreateFrame a \<Rightarrow> a = in_target_address inputs \<and> \<not> st"
    and "input_ok (fi_memory fi) inputs" "bc = new_with_optional_hash code h"
  shows "started I sp st c0 fs (unat limit) this pool cb
    (start_frame (eth_frame_clear data input (fi_depth fi) (fi_memory fi) bc inputs static sp limit chk) this pool c)"
proof -
  have "gas_total (interpreter_new m bc inputs static sp limit) = unat limit" for m
    by (simp add: gas_total_def interpreter_new_def gas_new_def memory_gas_new_def)
  then show ?thesis
    unfolding clear_eq started_def assms(4,11)
    using new_frame_running [OF assms(1,2) refl assms(3,5-10), of input h] assms(2,11) by fastforce
qed

lemma run_call_ok:
  assumes P: "precompiles_ok P" and p: "pending I sp st c0 cb fi fs" and i: "fi_frame_input fi = FrameCall i"
    and d: "fi_depth fi \<le> CALL_STACK_LIMIT" and m: "moves I sp st cb c" and chk: "chk = fst (checkpoint (cx_journal cb))"
  shows "started I sp st c0 fs (unat (ci_gas_limit i)) this pool cb
    (run_call D P (fi_depth fi) (fi_memory fi) i chk this pool c)"
proof -
  have cb: "ctx_ok I sp cb" "ce_spec (cx_cfg cb) = sp" using p by (auto simp: pending_def)
  note c = movesD [OF m cb(1)]
  obtain b where b: "fi_memory fi = \<lparr>sm_buffer = Some b, sm_my_checkpoint = vec_len b, sm_child_checkpoint = None\<rparr>"
      "length b \<le> 32 * frames_total fs" "request_ok st (cx_journal cb) b fs (FrameCall i)" "frames_total fs < gas_bound"
    using p i by (auto simp: pending_def)
  have g: "unat (ci_gas_limit i) < gas_bound" using p i by (simp add: pending_def)
  have l: "length (precompile_input (ci_input i) b) < 2 ^ 63"
    using b by (auto simp: precompile_input_def shared_memory_buffer_slice_def range_get_def slice_get_def split: call_input.split)
  have r: "request_ok st (cx_journal c) b fs (FrameCall i)" by (rule request_moves [OF b(3) m cb(1)])
  have known: "\<And>h code. ci_known_bytecode i = Some (h, code) \<Longrightarrow> bytecode_ok code" using r by auto
  have inp: "input_ok (fi_memory fi) x" if "in_input x = ci_input i" for x
    using b that by (auto simp: input_ok_def vec_len_def word_le_nat_alt unat_of_nat_small split: call_input.splits)
  consider s where "precompiles_run P b i c = Some (Inl s, c)" | "precompiles_run P b i c = Some (Inr None, c)"
    | x c' where "precompiles_run P b i c = Some (Inr (Some x), c')" "moves I sp st c c'" "cx_journal c' = cx_journal c"
       "unat (g_remaining (ir_gas x)) \<le> unat (ci_gas_limit i)" "length (ir_output x) < 2 ^ 63" "exported (ir_result x)"
    using precompiles_run_ok [OF P g l] by metis
  then show ?thesis
  proof cases
    case 1
    then show ?thesis using b(1) m by (auto simp: run_call_def started_def)
  next
    case 2
    obtain x c' where x: "call_bytecode D i c = Some (x, c')" "moves I sp st c c'" "\<forall>code h. x = Inr (code, h) \<longrightarrow> bytecode_ok code"
      by (rule call_bytecode_ok [OF c(1) known])
    have m': "moves I sp st cb c'" using moves_trans [OF m x(2)] .
    show ?thesis
    proof (cases x)
      case (Inl e)
      then show ?thesis using b(1) 2 x(1) m' by (auto simp: run_call_def started_def)
    next
      case (Inr y)
      obtain code h where y: "y = (code, h)" by fastforce
      have f: "started I sp st c0 fs (unat (ci_gas_limit i)) this pool cb
          (start_frame (eth_frame_clear (CallFrame (ci_return_memory_offset i)) (FrameCall i) (fi_depth fi) (fi_memory fi)
             (ext_bytecode_new_with_hash code h)
             \<lparr>in_target_address = ci_target_address i, in_bytecode_address = Some (ci_bytecode_address i),
              in_caller_address = ci_caller i, in_input = ci_input i, in_call_value = call_value_get (ci_value i)\<rparr>
             (ci_is_static i) sp (ci_gas_limit i) chk) this pool c')"
        by (rule started_frame [OF p m' d chk])
          (use r i x(3) Inr y movesD(5) [OF x(2) c(1)] inp in \<open>auto simp: ext_bytecode_new_with_hash_def\<close>)
      have g: "fits (unat (ci_gas_limit i)) fs c'' (call_result Stop i)" for c'' :: "('a, 'b) ctx"
        by (rule fits_call_result [OF r]) simp
      have "ce_spec (cx_cfg c') = sp" using movesD(3) [OF m' cb(1)] cb(2) by simp
      then show ?thesis
        using b(1) 2 x(1) Inr y f g moves_trans [OF m' moves_commit] by (auto simp: run_call_def started_def)
    qed
  next
    case (3 x c')
    have m': "moves I sp st cb c'" using moves_trans [OF m 3(2)] .
    obtain j where j: "checkpoint_revert chk (cx_journal c') = Some j" "moves I sp st cb (c'\<lparr>cx_journal := j\<rparr>)"
      by (rule moves_revert [OF cb(1) m' checkpoint_lengths(1,2), folded chk])
    have "fits (unat (ci_gas_limit i)) fs c'' (ResCall \<lparr>co_result = x, co_memory_offset = ci_return_memory_offset i\<rparr>)" for c'' :: "('a, 'b) ctx"
      using 3(4-6) r by (simp add: fits_def frame_result_defs)
    then show ?thesis
      using b(1) 3(1) j moves_trans [OF m' moves_commit] by (auto simp: run_call_def started_def)
  qed
qed

lemma make_call_frame_ok:
  assumes P: "precompiles_ok P" and p: "pending I sp st c0 c fi fs" and i: "fi_frame_input fi = FrameCall i"
  shows "started I sp st c0 fs (unat (ci_gas_limit i)) this pool c
    (make_call_frame D P (fi_depth fi) (fi_memory fi) i this pool c)"
proof (cases "fi_depth fi > CALL_STACK_LIMIT")
  case True
  obtain b where "request_ok st (cx_journal c) b fs (FrameCall i)" using p i by (auto simp: pending_def)
  then have "fits (unat (ci_gas_limit i)) fs c (call_result CallTooDeep i)" by (rule fits_call_result) simp
  then show ?thesis using True moves_refl by (auto simp: make_call_frame_def started_def)
next
  case False
  let ?k = "checkpoint (cx_journal c)" and ?c = "c\<lparr>cx_journal := snd (checkpoint (cx_journal c))\<rparr>"
  have d: "fi_depth fi \<le> CALL_STACK_LIMIT" using False by simp
  have c: "ctx_ok I sp c" using p by (simp add: pending_def)
  obtain b where r: "request_ok st (cx_journal c) b fs (FrameCall i)" using p i by (auto simp: pending_def)
  note run = run_call_ok [OF P p i d _ refl, where this = this and pool = pool]
  show ?thesis
  proof (cases "ci_value i")
    case (Transfer v)
    have k: "ctx_ok I sp ?c" using movesD(1) [OF moves_checkpoint c] .
    have w: "warm_in (cx_journal ?c) (ci_caller i)" "warm_in (cx_journal ?c) (ci_target_address i)"
      "st \<longrightarrow> v = 0 \<or> ci_caller i = ci_target_address i"
      using movesD(5) [OF moves_checkpoint c] r Transfer by auto
    obtain e j where j: "transfer_loaded (ci_caller i) (ci_target_address i) v (cx_journal ?c) = Some (e, j)"
        "moves I sp st ?c (?c\<lparr>cx_journal := j\<rparr>)"
      by (rule moves_transfer [OF k w])
    then have m: "moves I sp st c (c\<lparr>cx_journal := j\<rparr>)" using moves_trans [OF moves_checkpoint j(2)] by simp
    show ?thesis
    proof (cases e)
      case None
      then show ?thesis using run [OF m] j(1) False Transfer
        by (simp add: make_call_frame_def case_prod_beta Let_def)
    next
      case (Some x)
      obtain j' where j': "checkpoint_revert (fst ?k) j = Some j'" "moves I sp st c (c\<lparr>cx_journal := j'\<rparr>)"
        by (rule moves_revert [OF c m checkpoint_lengths(1,2)]) simp
      have "fits (unat (ci_gas_limit i)) fs (c\<lparr>cx_journal := j'\<rparr>) (call_result (result_of_transfer_error x) i)"
        by (rule fits_call_result [OF r transfer_error_not_fatal])
      then show ?thesis using j' j(1) False Transfer Some
        by (auto simp: make_call_frame_def case_prod_beta Let_def started_def)
    qed
  next
    case (Apparent v)
    then show ?thesis using run [OF moves_checkpoint] False by (simp add: make_call_frame_def case_prod_beta Let_def)
  qed
qed

lemma run_create_ok:
  assumes p: "pending I sp st c0 c fi fs" and i: "fi_frame_input fi = FrameCreate i"
    and d: "fi_depth fi \<le> CALL_STACK_LIMIT" and w: "warm_in (cx_journal c) (cr_caller i)"
  shows "started I sp st c0 fs (unat (cr_gas_limit i)) this pool c
    (run_create D (fi_depth fi) (fi_memory fi) i h a this pool c)"
proof -
  have c: "ctx_ok I sp c" "ce_spec (cx_cfg c) = sp" "\<not> st" "length (cr_init_code i) < 2 ^ 62"
    using p i by (auto simp: pending_def)
  obtain r j db where l: "load_account D a (cx_journal c) (cx_db c) = Some (r, j, db)"
      "moves I sp st c (ctx_store j db c)" "\<forall>b. r = Inr b \<longrightarrow> warm_in j a" by (rule moves_load [OF c(1)])
  define cb where "cb = ctx_store j db c"
  have m: "moves I sp st c cb" using l(2) by (simp add: cb_def)
  have cb: "ctx_ok I sp cb" "cx_journal cb = j" using movesD(1) [OF m c(1)] by (simp_all add: cb_def ctx_store_def)
  show ?thesis
  proof (cases r)
    case (Inl e)
    then show ?thesis using l(1) m by (auto simp: run_create_def started_def cb_def)
  next
    case (Inr b)
    have wf: "journal_wf j" "warm_in j (cr_caller i)" "warm_in j a"
      using cb movesD(5) [OF m c(1) w] l(3) Inr by (auto simp: ctx_ok_def)
    obtain x j' where x: "create_account_checkpoint (cr_caller i) a (cr_value i) sp j = Some (x, j')" "evolves j j'"
        "\<forall>k. x = Inr k \<longrightarrow> k = fst (checkpoint j)"
      using create_account_checkpoint_evolves [OF warm_in_dom [OF wf(2)] warm_in_dom [OF wf(3)] wf(1)] by blast
    have m': "moves I sp st cb (cb\<lparr>cx_journal := j'\<rparr>)"
      by (rule moves_journal) (use x(2) create_codes [OF x(1)] cb(2) c(3) in auto)
    show ?thesis
    proof (cases x)
      case (Inl e)
      have "fits (unat (cr_gas_limit i)) fs (cb\<lparr>cx_journal := j'\<rparr>) (create_error (result_of_transfer_error e) i)"
        by (rule fits_create_error [OF transfer_error_not_fatal])
      then show ?thesis using l(1) Inr x(1) Inl c(2) moves_trans [OF m m']
        by (auto simp: run_create_def started_def cb_def)
    next
      case (Inr k)
      obtain code where code: "new_legacy (cr_init_code i) = Some code" "bytecode_ok code" using new_legacy_ok c(4) by blast
      have "started I sp st c0 fs (unat (cr_gas_limit i)) this pool cb
          (start_frame (eth_frame_clear (CreateFrame a) (FrameCreate i) (fi_depth fi) (fi_memory fi) (new_with_optional_hash code h)
             \<lparr>in_target_address = a, in_bytecode_address = None, in_caller_address = cr_caller i, in_input = CallBytes [],
              in_call_value = cr_value i\<rparr> False sp (cr_gas_limit i) k) this pool (cb\<lparr>cx_journal := j'\<rparr>))"
        by (rule started_frame [OF pending_moves [OF p m] m' d, where code = code and h = h])
          (use x(3) Inr cb(2) i code(2) c(3) movesD(5) [OF m' cb(1)] wf(3) in \<open>auto simp: input_ok_def\<close>)
      from started_moves [OF this m] show ?thesis
        using l(1) \<open>r = Inr b\<close> x(1) Inr c(2) code(1) by (simp add: run_create_def cb_def)
    qed
  qed
qed

lemma make_create_frame_ok:
  assumes p: "pending I sp st c0 c fi fs" and i: "fi_frame_input fi = FrameCreate i"
  shows "started I sp st c0 fs (unat (cr_gas_limit i)) this pool c
    (make_create_frame X D (fi_depth fi) (fi_memory fi) i this pool c)"
proof -
  have c: "ctx_ok I sp c" "\<not> st" using p i by (auto simp: pending_def)
  obtain r j db where l: "load_account D (cr_caller i) (cx_journal c) (cx_db c) = Some (r, j, db)"
      "moves I sp st c (ctx_store j db c)" "\<forall>b. r = Inr b \<longrightarrow> warm_in j (cr_caller i)" by (rule moves_load [OF c(1)])
  define cb where "cb = ctx_store j db c"
  have m: "moves I sp st c cb" using l(2) by (simp add: cb_def)
  have cb: "ctx_ok I sp cb" "cx_journal cb = j" using movesD(1) [OF m c(1)] by (simp_all add: cb_def ctx_store_def)
  show ?thesis
  proof (cases "CALL_STACK_LIMIT < fi_depth fi \<or> (\<exists>e. r = Inl e)")
    case True
    then show ?thesis using l(1) m moves_refl by (auto simp: fits_create_error make_create_frame_def started_def cb_def)
  next
    case False
    then obtain b where b: "r = Inr b" by (cases r) auto
    then obtain acc where acc: "j_state j (cr_caller i) = Some acc" using warm_in_dom [OF l(3) [rule_format, OF b]] by auto
    show ?thesis
    proof (cases "ai_balance (ac_info acc) < cr_value i")
      case True
      then show ?thesis using l(1) m False b acc by (auto simp: fits_create_error make_create_frame_def started_def cb_def)
    next
      case bal: False
      obtain q ja where q: "ja_bump_nonce (cr_caller i) (acc, j_journal j) = (q, ja)" by (rule prod.exhaust)
      let ?j = "put_account (cr_caller i) ja j"
      have o: "own_step (cr_caller i) (acc, j_journal j) ja" using own_ja_bump_nonce [of "cr_caller i" "(acc, j_journal j)"] q by simp
      have e: "evolves j ?j" using acc o by (rule evolves_own)
      have "code_ok acc" using cb codes_okD acc by (auto simp: ctx_ok_def)
      then have k: "codes_ok (j_state j) \<Longrightarrow> codes_ok (j_state ?j)"
        using q by (intro put_codes) (auto simp: ja_bump_nonce_def ja_touch_def split: if_splits option.splits prod.splits)
      have m': "moves I sp st cb (cb\<lparr>cx_journal := ?j\<rparr>)"
        by (rule moves_journal) (use e k cb(2) c(2) in auto)
      have m2: "moves I sp st c (cb\<lparr>cx_journal := ?j\<rparr>)" by (rule moves_trans [OF m m'])
      have w: "warm_in (cx_journal (cb\<lparr>cx_journal := ?j\<rparr>)) (cr_caller i)" using movesD(5) [OF m' cb(1)] l(3) b cb(2) by simp
      have d: "fi_depth fi \<le> CALL_STACK_LIMIT" using False by (simp add: not_less)
      note run = started_moves [OF run_create_ok [OF pending_moves [OF p m2] i d w] m2]
      show ?thesis
        using l(1) b acc bal q m2 run d
        by (auto simp: fits_create_error make_create_frame_def Let_def started_def cb_def case_prod_beta)
    qed
  qed
qed

lemma init_with_context_ok:
  assumes P: "precompiles_ok P" and p: "pending I sp st c0 c fi fs"
  shows "started I sp st c0 fs (request_gas (fi_frame_input fi)) this pool c (init_with_context X D P fi this pool c)"
proof (cases "fi_frame_input fi")
  case FrameEmpty
  then show ?thesis using p by (auto simp: pending_def)
qed (use make_call_frame_ok [OF assms] make_create_frame_ok [OF p] in \<open>auto simp: init_with_context_def\<close>)

end

section \<open>Running a frame\<close>

lemma words_paid:
  assumes "mem_gas_inv g m"
  shows "length (mem_bytes m) \<le> 32 * unat (expansion_cost (g_memory g))"
proof -
  have w: "unat (words_num (g_memory g)) < 2 ^ 32"
    using assms by (intro memory_gas_small) (auto simp: mem_gas_inv_def memory_gas_inv_def)
  then show ?thesis using memory_gas_lower [OF w] assms by (simp add: mem_gas_inv_def memory_gas_inv_def)
qed

lemma mem_bytes_child [simp]: "mem_bytes (m\<lparr>sm_child_checkpoint := k\<rparr>) = mem_bytes m"
  by (simp add: mem_bytes_def context_memory_def cong: if_cong)

lemma mem_gas_inv_child [simp]: "mem_gas_inv g (m\<lparr>sm_child_checkpoint := k\<rparr>) = mem_gas_inv g m"
  by (simp add: mem_gas_inv_def mem_inv_def cong: option.case_cong)

text \<open>What is left of a frame whose interpreter \<open>c1\<close> ended, up to its memory.\<close>

lemma ended_frame:
  assumes r: "running I sp st c0 c f fs"
    and e: "ended (ctx_inv I) (ctx_ev I) ctx_err (with_host (ef_interpreter f) c) c1"
  shows "\<exists>b. sm_buffer (i_memory c1) = Some b \<and> sm_child_checkpoint (i_memory c1) = None
      \<and> sm_my_checkpoint (i_memory c1) = sm_my_checkpoint (ef_mem f) \<and> unat (sm_my_checkpoint (ef_mem f)) \<le> length b
      \<and> length b = unat (sm_my_checkpoint (ef_mem f)) + length (mem_bytes (i_memory c1))
      \<and> (\<exists>jb. base_ok st (cx_journal c0) jb f (cx_journal (i_host c1))
           \<and> callers_ok sp st (cx_journal c0) jb (take (unat (sm_my_checkpoint (ef_mem f))) b) fs)"
    and "ctx_ok I sp (i_host c1)" "moves I sp st c (i_host c1)" "i_target c1 = i_target (ef_interpreter f)"
    and "i_runtime_flag c1 = i_runtime_flag (ef_interpreter f)" "i_spec c1 = sp"
proof -
  let ?m = "ef_mem f" and ?cp = "unat (sm_my_checkpoint (ef_mem f))"
  have s: "same_frame (with_host (ef_interpreter f) c) c1" and sp: "i_spec (ef_interpreter f) = sp"
    and static: "st \<longrightarrow> rf_is_static (i_runtime_flag (ef_interpreter f))"
    using r e by (auto simp: running_def frame_at_def core_ok_def ended_def)
  show t: "i_target c1 = i_target (ef_interpreter f)" "i_runtime_flag c1 = i_runtime_flag (ef_interpreter f)" "i_spec c1 = sp"
    using s sp by (simp_all add: same_frame_def with_host_def)
  have m: "moves I sp st c (i_host c1)"
    using e ctx_ev_moves [of I sp _ c "i_host c1" st] sp static by (auto simp: ended_def with_host_def)
  have c: "ctx_ok I sp c" using r by (simp add: running_def)
  show "moves I sp st c (i_host c1)" by (rule m)
  show "ctx_ok I sp (i_host c1)" by (rule movesD(1) [OF m c])
  obtain jb b where b: "sm_buffer ?m = Some b" "base_ok st (cx_journal c0) jb f (cx_journal c)"
      "callers_ok sp st (cx_journal c0) jb (take ?cp b) fs" "sm_child_checkpoint ?m = None"
    using r by (auto simp: running_def)
  have u: "mem_inv ?m" "i_memory c1 = mem_upd ?m (mem_bytes (i_memory c1))"
    using s by (simp_all add: same_frame_def with_host_def)
  then have cp: "?cp \<le> length b" using b(1) by (simp add: mem_inv_def)
  have j: "base_ok st (cx_journal c0) jb f (cx_journal (i_host c1))"
    using b(2) shape.grows_trans [OF _ movesD(2) [OF m c]] movesD(4,5) [OF m c] read_only_trans by (auto simp: base_ok_def)
  have "sm_buffer (i_memory c1) = Some (take ?cp b @ mem_bytes (i_memory c1)) \<and> sm_child_checkpoint (i_memory c1) = None
      \<and> sm_my_checkpoint (i_memory c1) = sm_my_checkpoint ?m"
    by (subst u(2), subst (2) u(2), subst (3) u(2)) (simp add: mem_upd_def b(1,4))
  then show "\<exists>b. sm_buffer (i_memory c1) = Some b \<and> sm_child_checkpoint (i_memory c1) = None
      \<and> sm_my_checkpoint (i_memory c1) = sm_my_checkpoint ?m \<and> ?cp \<le> length b \<and> length b = ?cp + length (mem_bytes (i_memory c1))
      \<and> (\<exists>jb. base_ok st (cx_journal c0) jb f (cx_journal (i_host c1)) \<and> callers_ok sp st (cx_journal c0) jb (take ?cp b) fs)"
    using cp j b(3) by auto
qed

lemma frame_request:
  assumes r: "running I sp st c0 c f fs"
    and e: "ended (ctx_inv I) (ctx_ev I) ctx_err (with_host (ef_interpreter f) c) c1"
    and a: "eb_action (i_bytecode c1) = Some (NewFrame req)"
  obtains child m where "new_child_context (i_memory c1) = Some (child, m)"
    and "pending I sp st c0 (i_host c1) \<lparr>fi_depth = ef_depth f + 1, fi_memory = child, fi_frame_input = req\<rparr>
      (f\<lparr>ef_interpreter := without_host (resume c1)\<lparr>i_memory := m\<rparr>\<rparr> # fs)"
    and "request_gas req + frames_total (f\<lparr>ef_interpreter := without_host (resume c1)\<lparr>i_memory := m\<rparr>\<rparr> # fs) < frames_total (f # fs)"
proof -
  let ?m = "ef_mem f" and ?cp = "unat (sm_my_checkpoint (ef_mem f))" and ?h = "i_host c1"
  obtain b jb where b: "sm_buffer (i_memory c1) = Some b" "sm_child_checkpoint (i_memory c1) = None"
      "sm_my_checkpoint (i_memory c1) = sm_my_checkpoint ?m" "?cp \<le> length b" "length b = ?cp + length (mem_bytes (i_memory c1))"
      "base_ok st (cx_journal c0) jb f (cx_journal ?h)" "callers_ok sp st (cx_journal c0) jb (take ?cp b) fs"
    using ended_frame(1) [OF r e] by auto
  note env = ended_frame(2-) [OF r e]
  define m where "m = (i_memory c1)\<lparr>sm_child_checkpoint := Some (vec_len b)\<rparr>"
  define i where "i = without_host (resume c1)\<lparr>i_memory := m\<rparr>"
  define f' where "f' = f\<lparr>ef_interpreter := i\<rparr>"
  have ir: "interp_ok (ctx_inv I) (resume c1)" "length (i_stack c1) < STACK_LIMIT"
      "frame_ok (ctx_inv I) (with_host (ef_interpreter f) c) c1 req"
    using e a by (auto simp: ended_def)
  have g: "gas_total i = gas_total c1" by (simp add: i_def without_host_def resume_def gas_total_def)
  have mg: "mem_gas_inv (i_gas c1) (i_memory c1)" using ir(1) by (simp add: interp_ok_def resume_def)
  have core: "core_ok sp st f'"
    using ir(1) env(5) r env(4) by (auto simp: core_ok_def f'_def interp_ok_def i_def m_def with_host_def without_host_def resume_def
        input_ok_def running_def frame_at_def split: call_input.splits)
  have at: "frame_at sp st fs f'"
    using core r env(3) b(3)
    by (auto simp: frame_at_def running_def f'_def i_def m_def data_ok_def without_host_def resume_def split: frame_data.splits)
  have tot: "frames_total (f' # fs) = gas_total c1 + frames_total fs" "frames_total (f # fs) = gas_total (ef_interpreter f) + frames_total fs"
    using g by (simp_all add: frames_total_def f'_def)
  have lt: "request_gas req + gas_total c1 < gas_total (ef_interpreter f)" using ir(3) by (cases req) simp_all
  have len: "length b \<le> 32 * frames_total (f' # fs)"
    using b(5) words_paid [OF mg] r unfolding tot(1) by (simp add: running_def frame_at_def gas_total_def)
  have bound: "frames_total (f # fs) < gas_bound" "same_env c0 c" "ce_spec (cx_cfg c) = sp" "ctx_ok I sp c"
    using r by (simp_all add: running_def)
  have "callers_ok sp st (cx_journal c0) (cx_journal ?h) b (f' # fs)"
    using at ir(2) b by (auto simp: f'_def i_def m_def without_host_def resume_def base_ok_def env(3))
  moreover have "request_ok st (cx_journal ?h) b (f' # fs) req"
    using ir(3) env(4) core b(3,5) r
    by (cases req) (auto simp: ret_ok_def range_ok_def f'_def i_def m_def without_host_def resume_def with_host_def ctx_inv_def
        running_def frame_at_def core_ok_def)
  moreover have "ce_spec (cx_cfg ?h) = sp" "same_env c0 ?h"
    using bound movesD(3) [OF env(2)] same_env_moves [OF _ env(2)] by auto
  moreover have "evolves (cx_journal c0) (cx_journal ?h)" "st \<longrightarrow> read_only (cx_journal c0) (cx_journal ?h)"
    using b(6) shape.grows_trans read_only_trans unfolding base_ok_def by blast+
  moreover have "unat (ef_depth f + 1) = length (f' # fs)" "length (f' # fs) \<le> 1025"
    using at by (auto simp: frame_at_def f'_def unat_word_ariths)
  ultimately have "pending I sp st c0 ?h \<lparr>fi_depth = ef_depth f + 1,
      fi_memory = \<lparr>sm_buffer = Some b, sm_my_checkpoint = vec_len b, sm_child_checkpoint = None\<rparr>, fi_frame_input = req\<rparr> (f' # fs)"
    using env(1) len lt tot bound(1) by (simp add: pending_def)
  then show ?thesis
    using that [of "\<lparr>sm_buffer = Some b, sm_my_checkpoint = vec_len b, sm_child_checkpoint = None\<rparr>" m] b(1,2) lt tot
    by (simp add: new_child_context_def full_len_def m_def f'_def i_def)
qed

end
