(* ===== verification/Frame_Loop.thy ===== *)
theory Frame_Loop
  imports Frame_Safety
begin

text \<open>
  The execution loop: how frames end and return to their callers, one turn of the loop on the stack of
  frames, and the loop itself.
\<close>

section \<open>Ending a frame\<close>

definition returning ::
    "('db \<Rightarrow> bool) \<Rightarrow> spec_id \<Rightarrow> bool \<Rightarrow> ('db, 'e) ctx \<Rightarrow> ('db, 'e) ctx \<Rightarrow> bytes \<Rightarrow> nat \<Rightarrow> frame_result \<Rightarrow> eth_frame list \<Rightarrow> bool" where
  "returning I sp st c0 c b n x fs \<longleftrightarrow> ctx_ok I sp c \<and> ce_spec (cx_cfg c) = sp \<and> same_env c0 c
     \<and> callers_ok sp st (cx_journal c0) (cx_journal c) b fs \<and> fits n fs c x \<and> n + frames_total fs < gas_bound
     \<and> evolves (cx_journal c0) (cx_journal c) \<and> (st \<longrightarrow> read_only (cx_journal c0) (cx_journal c))"

lemma base_settles:
  assumes "base_ok st j0 jb f j" "evolves jb j'" "st \<longrightarrow> read_only jb j'" "callers_ok sp st j0 jb b fs"
  shows "callers_ok sp st j0 j' b fs" "evolves j0 j'" "st \<longrightarrow> read_only j0 j'" "journal_wf j'"
proof -
  have b: "journal_wf jb" "evolves j0 jb" "st \<longrightarrow> read_only j0 jb" using assms(1) by (auto simp: base_ok_def)
  show "callers_ok sp st j0 j' b fs" by (rule callers_mono [OF assms(4,2) b(1) assms(3)])
  show "evolves j0 j'" by (rule shape.grows_trans [OF b(2) assms(2)])
  show "st \<longrightarrow> read_only j0 j'" using b(3) assms(3) read_only_trans by blast
  show "journal_wf j'" by (rule evolvesD(1) [OF assms(2) b(1)])
qed

lemma base_revert:
  assumes "base_ok st j0 jb f j" "codes_ok (j_state j)"
  obtains j' where "checkpoint_revert (ef_checkpoint f) j = Some j'" "evolves jb j'" "codes_ok (j_state j')" "st \<longrightarrow> read_only jb j'"
proof -
  have b: "journal_wf jb" "evolves jb j" "jc_journal_i (ef_checkpoint f) = length (j_journal jb)"
      "jc_log_i (ef_checkpoint f) = length (j_logs jb)" "st \<longrightarrow> read_only jb j"
    using assms(1) by (auto simp: base_ok_def)
  obtain j' where j': "checkpoint_revert (ef_checkpoint f) j = Some j'" "evolves jb j'"
    using evolves_revert [OF b(2,1,3,4)] by blast
  show ?thesis
    using that [OF j'] checkpoint_revert_codes [OF j'(1) assms(2)] revert_read_only [OF _ j'(1) b(3,4)] b(5) by simp
qed

lemma commit_step:
  "evolves j (checkpoint_commit j)" "j_state (checkpoint_commit j) = j_state j" "read_only j (checkpoint_commit j)"
  by (auto simp: checkpoint_commit_def evolves_depth read_only_def same_values_refl)

lemma record_cost_le: "unat (g_remaining (snd (record_cost n g))) \<le> unat (g_remaining g)"
  by (auto simp: record_cost_def checked_sub_def word_le_nat_alt unat_sub)

lemma set_new_code:
  assumes "new_legacy out = Some code" "bytecode_ok code" "warm_in j a" "codes_ok (j_state j)"
  shows "\<exists>j'. set_code kec a code (checkpoint_commit j) = Some j' \<and> evolves j j' \<and> codes_ok (j_state j')"
proof -
  have h: "set_code kec a code (checkpoint_commit j) = set_code_with_hash a code (hash_slow kec code) (checkpoint_commit j)"
    using assms(1) by (auto simp: new_legacy_def set_code_def)
  have "a \<in> dom (j_state (checkpoint_commit j))" using warm_in_dom [OF assms(3)] by (simp add: commit_step)
  then obtain j' where j': "set_code kec a code (checkpoint_commit j) = Some j'"
    unfolding h by (auto simp: set_code_with_hash_def)
  show ?thesis
    using j' shape.grows_trans [OF commit_step(1) evolves_set_code [OF j']] assms(4)
      set_code_codes [OF j' [unfolded h] _ assms(2)] by (auto simp: commit_step)
qed

lemma return_create_ok:
  assumes b: "base_ok False j0 jb f j" and k: "codes_ok (j_state j)" and n: "length (ir_output r) < 2 ^ 62"
    and a: "a = i_target (ef_interpreter f)"
  obtains r' j' where "return_create kec (ef_checkpoint f) r a mx dis sp j = Some (r', j')"
    "evolves jb j'" "codes_ok (j_state j')" "unat (g_remaining (ir_gas r')) \<le> unat (g_remaining (ir_gas r))"
    "length (ir_output r') < 2 ^ 62" "exported (ir_result r') \<or> ir_result r' = ir_result r"
proof -
  obtain jr where jr: "checkpoint_revert (ef_checkpoint f) j = Some jr" "evolves jb jr" "codes_ok (j_state jr)"
    using base_revert [OF b k] by blast
  have jb: "evolves jb j" "warm_in j a" using b a by (auto simp: base_ok_def)
  define paid where "paid = record_cost (vec_len (ir_output r) * gas_CODEDEPOSIT) (ir_gas r)"
  define r1 where "r1 = (if fst paid then r\<lparr>ir_gas := snd paid\<rparr> else r\<lparr>ir_output := []\<rparr>)"
  have r1: "length (ir_output r1) < 2 ^ 62" "unat (g_remaining (ir_gas r1)) \<le> unat (g_remaining (ir_gas r))"
    using n record_cost_le [of _ "ir_gas r"] by (auto simp: r1_def paid_def)
  obtain code where code: "new_legacy (ir_output r1) = Some code" "bytecode_ok code" using new_legacy_ok [OF r1(1)] by blast
  obtain js where js: "set_code kec a code (checkpoint_commit j) = Some js" "evolves jb js" "codes_ok (j_state js)"
    using set_new_code [OF code jb(2) k, of kec] shape.grows_trans [OF jb(1)] by blast
  have "return_create kec (ef_checkpoint f) r a mx dis sp j = Some (r, jr)
      \<or> (\<exists>x. exported x \<and> return_create kec (ef_checkpoint f) r a mx dis sp j = Some (r\<lparr>ir_result := x\<rparr>, jr))
      \<or> return_create kec (ef_checkpoint f) r a mx dis sp j = Some (r1\<lparr>ir_result := Return\<rparr>, js)"
    unfolding return_create_def Let_def case_prod_beta paid_def [symmetric] r1_def [symmetric] code(1)
    using jr(1) js(1) by auto
  then show ?thesis
    using that jr(2,3) js(2,3) n r1 by (elim disjE exE conjE) auto
qed

lemma returningI:
  assumes b: "base_ok st (cx_journal c0) jb f (cx_journal c)" "callers_ok sp st (cx_journal c0) jb b fs"
    and c: "ctx_ok I sp c" "ce_spec (cx_cfg c) = sp" "same_env c0 c"
    and j: "evolves jb j" "codes_ok (j_state j)" "st \<longrightarrow> read_only jb j"
    and x: "fits n fs (c\<lparr>cx_journal := j\<rparr>) x" "n + frames_total fs < gas_bound"
  shows "returning I sp st c0 (c\<lparr>cx_journal := j\<rparr>) b n x fs"
  using base_settles [OF b(1) j(1,3) b(2)] c j(2) x by (simp add: returning_def ctx_ok_def same_env_def)

lemma frame_ended:
  assumes r: "running I sp st c0 c f fs"
    and e: "ended (ctx_inv I) (ctx_ev I) ctx_err (with_host (ef_interpreter f) c) c1"
    and a: "eb_action (i_bytecode c1) = Some (ReturnAction x)"
  obtains y c' b where "\<forall>i. process_next_action X (ReturnAction x) (f\<lparr>ef_interpreter := i\<rparr>) (i_host c1) = Some (Result y, f\<lparr>ef_interpreter := i\<rparr>, c')"
    and "sm_buffer (i_memory c1) = Some b" "unat (sm_my_checkpoint (ef_mem f)) \<le> length b"
    and "returning I sp st c0 c' (take (unat (sm_my_checkpoint (ef_mem f))) b) (gas_total (ef_interpreter f)) y fs"
proof -
  let ?cp = "unat (sm_my_checkpoint (ef_mem f))" and ?h = "i_host c1" and ?n = "gas_total (ef_interpreter f)"
  obtain b jb where b: "sm_buffer (i_memory c1) = Some b" "?cp \<le> length b"
      "base_ok st (cx_journal c0) jb f (cx_journal ?h)" "callers_ok sp st (cx_journal c0) jb (take ?cp b) fs"
    using ended_frame(1) [OF r e] by auto
  note env = ended_frame(2,3) [OF r e]
  have c: "ce_spec (cx_cfg ?h) = sp" "same_env c0 ?h" "?n + frames_total fs < gas_bound" "data_ok st fs f"
    using r movesD(3) [OF env(2)] same_env_moves [OF _ env(2)] by (auto simp: running_def frames_total_def frame_at_def)
  have x: "unat (g_remaining (ir_gas x)) \<le> ?n" "length (ir_output x) < 2 ^ 62" "ir_result x = FatalExternalError \<longrightarrow> ctx_err ?h"
      "ir_result x \<noteq> InvalidExtDelegateCallTarget"
    using e a by (auto simp: ended_def with_host_def gas_total_def)
  have k: "codes_ok (j_state (cx_journal ?h))" using env(1) by (simp add: ctx_ok_def)
  note ret = returningI [OF b(3,4) env(1) c(1,2) _ _ _ _ c(3)]
  show ?thesis
  proof (cases "ef_data f")
    case (CallFrame rng)
    have fit: "fits ?n fs (?h\<lparr>cx_journal := j\<rparr>) (ResCall \<lparr>co_result = x, co_memory_offset = rng\<rparr>)" for j
      using x c(4) CallFrame by (simp add: fits_def frame_result_defs data_ok_def)
    obtain jr where jr: "checkpoint_revert (ef_checkpoint f) (cx_journal ?h) = Some jr" "evolves jb jr" "codes_ok (j_state jr)"
        "st \<longrightarrow> read_only jb jr" by (rule base_revert [OF b(3) k])
    let ?j = "if result_is_ok (ir_result x) then checkpoint_commit (cx_journal ?h) else jr"
    have "evolves jb ?j" "codes_ok (j_state ?j)" "st \<longrightarrow> read_only jb ?j"
      using jr(2-4) b(3) k shape.grows_trans [OF _ commit_step(1)] read_only_trans [OF _ commit_step(3)]
      by (auto simp: commit_step base_ok_def)
    from that [OF _ b(1,2) ret [OF this fit]] show ?thesis using CallFrame jr(1) by (simp add: process_next_action_def)
  next
    case (CreateFrame a)
    then have st: "\<not> st" "a = i_target (ef_interpreter f)" using c(4) by (auto simp: data_ok_def)
    then have b': "base_ok False (cx_journal c0) jb f (cx_journal ?h)" using b(3) by simp
    obtain r' j where r': "return_create (ex_keccak256 X) (ef_checkpoint f) x a (max_code_size (cx_cfg ?h))
          (ce_disable_eip3541 (cx_cfg ?h)) (ce_spec (cx_cfg ?h)) (cx_journal ?h) = Some (r', j)"
        "evolves jb j" "codes_ok (j_state j)" "unat (g_remaining (ir_gas r')) \<le> unat (g_remaining (ir_gas x))"
        "length (ir_output r') < 2 ^ 62" "exported (ir_result r') \<or> ir_result r' = ir_result x"
      by (rule return_create_ok [OF b' k x(2) st(2)])
    have "fits ?n fs (?h\<lparr>cx_journal := j\<rparr>) (ResCreate \<lparr>cro_result = r', cro_address = Some a\<rparr>)"
      using x r'(4-6) by (auto simp: fits_def frame_result_defs)
    from that [OF _ b(1,2) ret [OF r'(2,3) _ this]] show ?thesis using CreateFrame r'(1) st(1) by (simp add: process_next_action_def)
  qed
qed

section \<open>Returning to the caller\<close>

text \<open>The interpreter of a caller that takes the result: it keeps everything that the invariant is about
  and gets at most the gas that the callee left.\<close>

definition resumed :: "nat \<Rightarrow> interpreter \<Rightarrow> interpreter \<Rightarrow> bool" where
  "resumed n i i' \<longleftrightarrow> i_bytecode i' = i_bytecode i \<and> i_input i' = i_input i \<and> i_runtime_flag i' = i_runtime_flag i
     \<and> length (i_return_data i') < 2 ^ 63 \<and> length (i_stack i') \<le> STACK_LIMIT
     \<and> (\<exists>m. length m = length (mem_bytes (i_memory i)) \<and> i_memory i' = mem_upd (i_memory i) m)
     \<and> g_memory (i_gas i') = g_memory (i_gas i) \<and> unat (i_remaining i') \<le> unat (i_remaining i) + n"

lemma erase_cost_le:
  "unat (g_remaining g) + unat r < 2 ^ 64 \<Longrightarrow> unat (g_remaining (erase_cost r g)) = unat (g_remaining g) + unat r"
  by (simp add: erase_cost_def unat_word_ariths)

lemma gas_fields [simp]:
  "g_memory (erase_cost r g) = g_memory g" "g_memory (record_refund x g) = g_memory g"
  "g_remaining (record_refund x g) = g_remaining g"
  by (simp_all add: erase_cost_def record_refund_def)

lemma insert_create_outcome_ok:
  assumes "fits n fs c (ResCreate o')" "cx_error c = None" "length (i_stack i) < STACK_LIMIT" "mem_inv (i_memory i)"
    "unat (i_remaining i) + n < 2 ^ 64"
  obtains i' where "insert_create_outcome o' i = Some i'" "resumed n i i'"
proof -
  have f: "unat (g_remaining (ir_gas (cro_result o'))) \<le> n" "length (ir_output (cro_result o')) < 2 ^ 63"
      "ir_result (cro_result o') \<noteq> FatalExternalError"
    using assms(1,2) by (auto simp: fits_def frame_result_defs)
  then have "unat (g_remaining (erase_cost (g_remaining (ir_gas (cro_result o'))) (i_gas i))) \<le> unat (i_remaining i) + n"
    using assms(5) by (subst erase_cost_le) auto
  moreover have "\<exists>m. length m = length (mem_bytes (i_memory i)) \<and> i_memory i = mem_upd (i_memory i) m"
    using mem_upd_same [OF assms(4)] by metis
  ultimately show ?thesis
    using that f assms(3) by (auto simp: insert_create_outcome_def Let_def resumed_def stack_push_def)
qed

lemma output_copied:
  assumes "range_ok rng (length (mem_bytes m))" "mem_inv m" "length out < 2 ^ 63"
  obtains c where "mem_set (fst rng) (take (unat (min (range_len (fst rng) (snd rng)) (vec_len out))) out) m = Some (mem_upd m c)"
    "length c = length (mem_bytes m)"
proof -
  let ?v = "take (unat (min (range_len (fst rng) (snd rng)) (vec_len out))) out"
  show ?thesis
  proof (cases "fst rng < snd rng")
    case True
    have "length ?v \<le> unat (range_len (fst rng) (snd rng))" by (simp add: min_def word_le_nat_alt)
    also have "\<dots> = unat (snd rng) - unat (fst rng)" using True by (simp add: range_len_def unat_sub order_less_imp_le)
    finally have "unat (fst rng) + length ?v \<le> length (mem_bytes m)"
      using True assms(1) by (auto simp: range_ok_def word_less_nat_alt)
    from that [OF mem_set_eq [OF assms(2) this]] this show ?thesis by simp
  next
    case False
    then show ?thesis using that [of "mem_bytes m"] mem_upd_same [OF assms(2)] by (simp add: range_len_def mem_set_def)
  qed
qed

lemma insert_call_outcome_ok:
  assumes "fits n fs c (ResCall o')" "cx_error c = None" "length (i_stack i) < STACK_LIMIT" "mem_inv (i_memory i)"
    "unat (i_remaining i) + n < 2 ^ 64" "range_ok (co_memory_offset o') (length (mem_bytes (i_memory i)))"
  obtains i' where "insert_call_outcome o' i = Some i'" "resumed n i i'"
proof -
  let ?r = "co_result o'"
  have f: "unat (g_remaining (ir_gas ?r)) \<le> n" "length (ir_output ?r) < 2 ^ 63" "ir_result ?r \<noteq> FatalExternalError"
    using assms(1,2) by (auto simp: fits_def frame_result_defs)
  then have g: "unat (g_remaining (erase_cost (g_remaining (ir_gas ?r)) (i_gas i))) \<le> unat (i_remaining i) + n"
    using assms(5) by (subst erase_cost_le) auto
  obtain m where m: "mem_set (memory_start o') (take (unat (min (memory_length o') (vec_len (ir_output ?r)))) (ir_output ?r)) (i_memory i)
      = Some (mem_upd (i_memory i) m)" "length m = length (mem_bytes (i_memory i))"
    using output_copied [OF assms(6,4) f(2)] unfolding memory_start_def memory_length_def by blast
  have "\<exists>m. length m = length (mem_bytes (i_memory i)) \<and> i_memory i = mem_upd (i_memory i) m"
    using mem_upd_same [OF assms(4)] by metis
  then have "\<exists>i'. insert_call_outcome o' i = Some i' \<and> resumed n i i'"
    using f g m assms(3) by (cases "result_is_ok_or_revert (ir_result ?r)"; cases "result_is_ok (ir_result ?r)")
      (auto simp: insert_call_outcome_def Let_def resumed_def stack_push_def)
  with that show ?thesis by blast
qed

lemma resumed_core:
  assumes "core_ok sp st g" "resumed n (ef_interpreter g) i" "gas_total (ef_interpreter g) + n < gas_bound"
  shows "core_ok sp st (g\<lparr>ef_interpreter := i\<rparr>)" "gas_total i \<le> gas_total (ef_interpreter g) + n"
proof -
  obtain m where m: "length m = length (mem_bytes (ef_mem g))" "i_memory i = mem_upd (ef_mem g) m"
    using assms(2) by (auto simp: resumed_def)
  have mg: "mem_gas_inv (i_gas (ef_interpreter g)) (ef_mem g)" using assms(1) by (simp add: core_ok_def interp_ok_def with_host_def)
  then have mi: "mem_inv (ef_mem g)" "length (mem_bytes (ef_mem g)) < 2 ^ 37" using mem_gas_inv_length by (auto simp: mem_gas_inv_def)
  have "mem_inv (i_memory i)" "mem_bytes (i_memory i) = m" "sm_my_checkpoint (i_memory i) = sm_my_checkpoint (ef_mem g)"
    using mi m by (auto simp: mem_inv_def mem_upd_def mem_bytes_def context_memory_def split: option.splits)
  then have "mem_gas_inv (i_gas i) (i_memory i)"
    using mg assms(2,3) m(1) by (auto simp: mem_gas_inv_def resumed_def gas_total_def)
  then show "core_ok sp st (g\<lparr>ef_interpreter := i\<rparr>)"
    using assms(1,2) m(2) by (auto simp: core_ok_def interp_ok_def with_host_def resumed_def input_ok_def mem_upd_def
        split: call_input.splits option.splits)
  show "gas_total i \<le> gas_total (ef_interpreter g) + n" using assms(2) by (simp add: resumed_def gas_total_def)
qed

definition settled :: "('db \<Rightarrow> bool) \<Rightarrow> spec_id \<Rightarrow> bool \<Rightarrow> ('db, 'e) ctx \<Rightarrow> ('db, 'e) ctx \<Rightarrow> bool" where
  "settled I sp st c0 c \<longleftrightarrow> ctx_ok I sp c \<and> same_env c0 c \<and> evolves (cx_journal c0) (cx_journal c)
     \<and> (st \<longrightarrow> read_only (cx_journal c0) (cx_journal c))"

lemma settled_returning: "returning I sp st c0 c b n x fs \<Longrightarrow> settled I sp st c0 c"
  by (simp add: returning_def settled_def)

lemma settled_take_error: "settled I sp st c0 (c\<lparr>cx_error := e\<rparr>) = settled I sp st c0 c"
  by (simp add: settled_def ctx_ok_def same_env_def)

lemma return_result_ok:
  assumes r: "returning I sp st c0 c b n x (g # gs)" and b1: "take (length b) b1 = b"
  defines "g1 \<equiv> g\<lparr>ef_interpreter := (ef_interpreter g)\<lparr>i_memory := (ef_mem g)\<lparr>sm_buffer := Some b1\<rparr>\<rparr>\<rparr>"
  shows "(\<exists>e g'. return_result x g1 c = Some (Inl e, g', c\<lparr>cx_error := None\<rparr>))
    \<or> (\<exists>g'. return_result x g1 c = Some (Inr (), g', c\<lparr>cx_error := None\<rparr>)
         \<and> running I sp st c0 (c\<lparr>cx_error := None\<rparr>) g' gs \<and> frames_total (g' # gs) \<le> n + frames_total (g # gs))"
proof -
  let ?c = "c\<lparr>cx_error := None\<rparr>"
  define i where "i = (ef_interpreter g)\<lparr>i_memory := (ef_mem g)\<lparr>sm_child_checkpoint := None\<rparr>\<rparr>"
  obtain jb where g: "frame_at sp st gs g" "length (i_stack (ef_interpreter g)) < STACK_LIMIT" "sm_buffer (ef_mem g) = Some b"
      "sm_child_checkpoint (ef_mem g) = Some (vec_len b)" "base_ok st (cx_journal c0) jb g (cx_journal c)"
      "callers_ok sp st (cx_journal c0) jb (take (unat (sm_my_checkpoint (ef_mem g))) b) gs"
    using r by (auto simp: returning_def)
  have core: "core_ok sp st (g\<lparr>ef_interpreter := i\<rparr>)"
    using g(1) by (auto simp: frame_at_def core_ok_def i_def interp_ok_def with_host_def input_ok_def split: call_input.splits)
  have mi: "mem_inv (ef_mem g)" "unat (sm_my_checkpoint (ef_mem g)) \<le> length b" "length b < 2 ^ 63"
    using g(1,3) by (auto simp: frame_at_def core_ok_def interp_ok_def with_host_def mem_gas_inv_def mem_inv_def)
  then have v: "unat (vec_len b) = length b" by (simp add: vec_len_def unat_of_nat_small)
  have lb: "length b \<le> length b1" using arg_cong [OF b1, of length] by simp
  have free: "free_child_context (i_memory (ef_interpreter g1)) = Some (i_memory i)"
    using g(3,4) v b1 lb by (cases "ef_mem g") (simp add: g1_def i_def free_child_context_def)
  have i1: "(ef_interpreter g1)\<lparr>i_memory := i_memory i\<rparr> = i" by (simp add: g1_def i_def)
  have tot: "gas_total i = gas_total (ef_interpreter g)" by (simp add: i_def gas_total_def)
  have bound: "n + gas_total (ef_interpreter g) + frames_total gs < gas_bound" "fits n (g # gs) c x"
    using r by (simp_all add: returning_def frames_total_def)
  then have n: "unat (i_remaining i) + n < 2 ^ 64" "gas_total i + n < gas_bound" using tot by (simp_all add: gas_total_def)
  have s: "mem_inv (i_memory i)" "length (i_stack i) < STACK_LIMIT" "mem_bytes (i_memory i) = mem_bytes (ef_mem g)"
    using mi(1) g(2) by (simp_all add: i_def mem_inv_def cong: option.case_cong)
  show ?thesis
  proof (cases "cx_error c")
    case None
    have "\<exists>i'. (case x of ResCall o' \<Rightarrow> insert_call_outcome o' i | ResCreate o' \<Rightarrow> insert_create_outcome o' i) = Some i' \<and> resumed n i i'"
    proof (cases x)
      case (ResCall o')
      have "range_ok (co_memory_offset o') (length (mem_bytes (i_memory i)))" using bound(2) ResCall s(3) by (simp add: fits_def ret_ok_def)
      from insert_call_outcome_ok [OF bound(2) [unfolded ResCall] None s(2,1) n(1) this] show ?thesis using ResCall by auto
    next
      case (ResCreate o')
      from insert_create_outcome_ok [OF bound(2) [unfolded ResCreate] None s(2,1) n(1)] show ?thesis using ResCreate by auto
    qed
    then obtain i' where i': "(case x of ResCall o' \<Rightarrow> insert_call_outcome o' i | ResCreate o' \<Rightarrow> insert_create_outcome o' i) = Some i'"
      "resumed n i i'" by blast
    have c': "core_ok sp st (g\<lparr>ef_interpreter := i'\<rparr>)" "gas_total i' \<le> gas_total (ef_interpreter g) + n"
      using resumed_core [OF core, of n i'] i'(2) n(2) tot by simp_all
    obtain m where m: "i_memory i' = mem_upd (i_memory i) m" "i_input i' = i_input (ef_interpreter g)"
      using i'(2) by (auto simp: resumed_def i_def)
    have mem: "sm_buffer (i_memory i') = Some (take (unat (sm_my_checkpoint (ef_mem g))) b @ m)" "sm_child_checkpoint (i_memory i') = None"
      "sm_my_checkpoint (i_memory i') = sm_my_checkpoint (ef_mem g)"
      using g(3) by (simp_all add: m(1) i_def mem_upd_def)
    have "frame_at sp st gs (g\<lparr>ef_interpreter := i'\<rparr>)" using c'(1) g(1) mem(3) m(2) by (simp add: frame_at_def data_ok_def cong: frame_data.case_cong)
    moreover have "base_ok st (cx_journal c0) jb (g\<lparr>ef_interpreter := i'\<rparr>) (cx_journal ?c)" using g(5) m(2) by (simp add: base_ok_def)
    moreover have "ctx_ok I sp ?c" "ce_spec (cx_cfg ?c) = sp" "same_env c0 ?c" using r by (auto simp: returning_def ctx_ok_def same_env_def)
    moreover have "frames_total (g\<lparr>ef_interpreter := i'\<rparr> # gs) < gas_bound" using bound(1) c'(2) by (simp add: frames_total_def)
    ultimately have "running I sp st c0 ?c (g\<lparr>ef_interpreter := i'\<rparr>) gs"
      unfolding running_def using mem mi(2) g(6) by auto
    moreover have "return_result x g1 c = Some (Inr (), g\<lparr>ef_interpreter := i'\<rparr>, ?c)"
      using free i1 None i'(1) by (simp add: return_result_def take_error_def g1_def)
    ultimately show ?thesis using c'(2) by (auto simp: frames_total_def)
  next
    case (Some e)
    then show ?thesis using free by (simp add: return_result_def take_error_def Let_def)
  qed
qed

section \<open>The loop\<close>

text \<open>The invariant of the loop: the frame \<open>f\<close> on top of the callers \<open>fs\<close>, with at most \<open>M\<close> gas together.\<close>

definition loop_inv ::
    "('db \<Rightarrow> bool) \<Rightarrow> spec_id \<Rightarrow> bool \<Rightarrow> ('db, 'e) ctx \<Rightarrow> nat \<Rightarrow> ('db, 'e) evm \<Rightarrow> eth_frame \<Rightarrow> eth_frame list \<Rightarrow> bool" where
  "loop_inv I sp st c0 M e f fs \<longleftrightarrow> fs_inv (ev_frame_stack e) \<and> fs_frames (ev_frame_stack e) = rev (f # fs)
     \<and> precompiles_ok (ev_precompiles e) \<and> frames_total (f # fs) \<le> M \<and> running I sp st c0 (ev_ctx e) f fs"

definition final_ok ::
    "('db \<Rightarrow> bool) \<Rightarrow> spec_id \<Rightarrow> bool \<Rightarrow> ('db, 'e) ctx \<Rightarrow> nat \<Rightarrow> frame_result \<Rightarrow> ('db, 'e) evm \<Rightarrow> bool" where
  "final_ok I sp st c0 M x e \<longleftrightarrow> settled I sp st c0 (ev_ctx e) \<and> fits M [] (ev_ctx e) x \<and> fs_inv (ev_frame_stack e)"

fun turn_ok ::
    "('db \<Rightarrow> bool) \<Rightarrow> spec_id \<Rightarrow> bool \<Rightarrow> ('db, 'e) ctx \<Rightarrow> nat \<Rightarrow> nat
       \<Rightarrow> ('e context_error + frame_result option) \<times> ('db, 'e) evm \<Rightarrow> bool" where
  "turn_ok I sp st c0 M N (Inl err, e) \<longleftrightarrow> settled I sp st c0 (ev_ctx e) \<and> fs_inv (ev_frame_stack e)"
| "turn_ok I sp st c0 M N (Inr (Some x), e) \<longleftrightarrow> final_ok I sp st c0 M x e"
| "turn_ok I sp st c0 M N (Inr None, e) \<longleftrightarrow>
     (\<exists>f fs. loop_inv I sp st c0 M e f fs \<and> 2 * frames_total (f # fs) + length (f # fs) < N)"

text \<open>What the loop leaves: an error of the context, or a result within the gas.\<close>

fun loop_ok ::
    "('db \<Rightarrow> bool) \<Rightarrow> spec_id \<Rightarrow> bool \<Rightarrow> ('db, 'e) ctx \<Rightarrow> nat \<Rightarrow> ('e context_error + frame_result) \<times> ('db, 'e) evm \<Rightarrow> bool" where
  "loop_ok I sp st c0 M (Inl err, e) \<longleftrightarrow> settled I sp st c0 (ev_ctx e) \<and> fs_inv (ev_frame_stack e)"
| "loop_ok I sp st c0 M (Inr x, e) \<longleftrightarrow> final_ok I sp st c0 M x e"

lemma top_frame:
  assumes "fs_inv S" "fs_frames S = rev (f # fs)"
  shows "fs_get S = Some f" "\<exists>i. fs_index S = Some i" "\<exists>S'. fs_set g S = Some S' \<and> fs_inv S' \<and> fs_frames S' = rev (g # fs)"
    "fs_inv (fs_pop S)" "fs_frames (fs_pop S) = rev fs"
proof -
  show "fs_get S = Some f" using fs_get_last [OF assms(1)] assms(2) by simp
  have "fs_index S \<noteq> None" using fs_frames_Nil [OF assms(1)] assms(2) by simp
  then show i: "\<exists>i. fs_index S = Some i" by simp
  then show "\<exists>S'. fs_set g S = Some S' \<and> fs_inv S' \<and> fs_frames S' = rev (g # fs)"
    using fs_set_frames [OF assms(1), of _ g] assms(2) by auto
  show "fs_inv (fs_pop S)" "fs_frames (fs_pop S) = rev fs" using fs_pop_frames [OF assms(1)] assms(2) by simp_all
qed

text \<open>A result for the callers \<open>fs\<close>; \<open>last\<close> is the frame at the top before it is popped.\<close>

lemma frame_return_result_ok:
  assumes S: "fs_inv (ev_frame_stack e)" "fs_frames (ev_frame_stack e) = rev (if ef_is_finished l then l # fs else fs)"
    and l: "\<not> ef_is_finished l \<Longrightarrow> \<exists>gs. fs = l # gs" "sm_buffer (ef_mem l) = Some b1" "take (length b) b1 = b"
    and r: "returning I sp st c0 (ev_ctx e) b n x fs" and M: "n + frames_total fs \<le> M"
    and N: "2 * (n + frames_total fs) + length fs < N" and P: "precompiles_ok (ev_precompiles e)"
  shows "ok (turn_ok I sp st c0 M N) (frame_return_result x e)"
proof -
  define S where "S = (if ef_is_finished l then fs_pop (ev_frame_stack e) else ev_frame_stack e)"
  obtain ls where "(if ef_is_finished l then l # fs else fs) = l # ls" using l(1) by (cases "ef_is_finished l") auto
  then have top: "fs_get (ev_frame_stack e) = Some l" using top_frame(1) [OF S(1)] S(2) by simp
  have s: "fs_inv S" "fs_frames S = rev fs"
    using S top_frame(4,5) [OF S(1), of l fs] by (auto simp: S_def)
  show ?thesis
  proof (cases fs)
    case Nil
    then have "fs_index S = None" using fs_frames_Nil [OF s(1)] s(2) by simp
    moreover have "final_ok I sp st c0 M x (e\<lparr>ev_frame_stack := S\<rparr>)"
      using r M Nil s(1) settled_returning [OF r] by (auto simp: final_ok_def returning_def fits_def frames_total_def)
    ultimately show ?thesis using top by (simp add: frame_return_result_def S_def [symmetric] Let_def)
  next
    case (Cons g gs)
    note t = top_frame [OF s(1) s(2) [unfolded Cons]]
    define g1 where "g1 = g\<lparr>ef_interpreter := (ef_interpreter g)\<lparr>i_memory := (ef_mem g)\<lparr>sm_buffer := Some b1\<rparr>\<rparr>\<rparr>"
    have run: "frame_return_result x e =
        Option.bind (return_result x g1 (ev_ctx e)) (\<lambda>(r, f, c). map_option
          (\<lambda>S'. (case r of Inl err \<Rightarrow> Inl err | Inr _ \<Rightarrow> Inr None, e\<lparr>ev_ctx := c, ev_frame_stack := S'\<rparr>)) (fs_set f S))"
      using top t(1,2) l(2) by (auto simp: frame_return_result_def S_def [symmetric] Let_def mem_share_def g1_def case_prod_beta)
    have st: "settled I sp st c0 ((ev_ctx e)\<lparr>cx_error := None\<rparr>)" using settled_returning [OF r] by (simp add: settled_take_error)
    show ?thesis
      using return_result_ok [OF r [unfolded Cons] l(3), folded g1_def]
    proof (elim disjE exE conjE)
      fix err g' assume "return_result x g1 (ev_ctx e) = Some (Inl err, g', (ev_ctx e)\<lparr>cx_error := None\<rparr>)"
      then show ?thesis using t(3) [of g'] st by (auto simp: run)
    next
      fix g' assume g': "return_result x g1 (ev_ctx e) = Some (Inr (), g', (ev_ctx e)\<lparr>cx_error := None\<rparr>)"
        "running I sp st c0 ((ev_ctx e)\<lparr>cx_error := None\<rparr>) g' gs" "frames_total (g' # gs) \<le> n + frames_total (g # gs)"
      obtain S' where S': "fs_set g' S = Some S'" "fs_inv S'" "fs_frames S' = rev (g' # gs)" using t(3) [of g'] by blast
      have "loop_inv I sp st c0 M (e\<lparr>ev_ctx := (ev_ctx e)\<lparr>cx_error := None\<rparr>, ev_frame_stack := S'\<rparr>) g' gs"
        using S'(2,3) P g'(2,3) M Cons by (simp add: loop_inv_def)
      moreover have "2 * frames_total (g' # gs) + length (g' # gs) < N" using g'(3) N Cons by simp
      ultimately show ?thesis using g'(1) S'(1) by (auto simp: run)
    qed
  qed
qed

lemma start_frame_place:
  "start_frame (\<lambda>_. f) this pool c = map_option (\<lambda>(out, pool). (Inr (Item (out_frame_consume out)), pool, c)) (place eth_frame_invalid f (this, pool))"
  by (cases "out_frame_get eth_frame_invalid this pool")
    (auto simp: start_frame_def place_def map_option_case split: option.splits)

lemma slot_kept:
  assumes "fs_inv s"
  shows "fs_inv (snd (start_init s))" "fs_frames (snd (start_init s)) = []"
    "fs_index s = Some i \<Longrightarrow> \<exists>out t. get_next s = Some (out, t) \<and> fs_inv t \<and> fs_frames t = fs_frames s"
  using assms fs_inv_reserve [OF assms] fs_frames_reserve [OF assms]
  by (auto simp: start_init_def get_next_def Let_def fs_inv_def fs_frames_def fs_reserve_def nth_append split: option.splits)

text \<open>A frame is started: the three outcomes, with the stack of frames.\<close>

lemma frame_init_evm_ok:
  assumes e: "fs_inv (ev_frame_stack e)" "fs_frames (ev_frame_stack e) = rev fs" "precompiles_ok (ev_precompiles e)"
    and s: "\<And>this pool. started I sp st c0 fs n this pool (ev_ctx e) (init_with_context X D (ev_precompiles e) fi this pool (ev_ctx e))"
  obtains (Err) err e' where "frame_init_evm X D fi e = Some (Inl err, e')" "moves I sp st (ev_ctx e) (ev_ctx e')" "fs_inv (ev_frame_stack e')"
  | (Res) x e' where "frame_init_evm X D fi e = Some (Inr (Result x), e')" "moves I sp st (ev_ctx e) (ev_ctx e')" "fits n fs (ev_ctx e') x"
      "fs_inv (ev_frame_stack e')" "fs_frames (ev_frame_stack e') = rev fs" "ev_precompiles e' = ev_precompiles e"
  | (New) f e' where "frame_init_evm X D fi e = Some (Inr (Item ()), e')" "running I sp st c0 (ev_ctx e') f fs"
      "frames_total (f # fs) \<le> n + frames_total fs"
      "fs_inv (ev_frame_stack e')" "fs_frames (ev_frame_stack e') = rev (f # fs)" "ev_precompiles e' = ev_precompiles e"
proof -
  let ?S = "ev_frame_stack e"
  have "\<exists>this pool. (if fs_index ?S = None then Some (start_init ?S) else get_next ?S) = Some (this, pool)
      \<and> fs_inv pool \<and> fs_frames pool = rev fs
      \<and> (\<forall>f. \<exists>out p S'. place eth_frame_invalid f (this, pool) = Some (out, p) \<and> fs_inv S' \<and> fs_frames S' = rev (f # fs)
           \<and> (if fs_index ?S = None then end_init (out_frame_consume out) p else fs_push (out_frame_consume out) p) = Some S')"
  proof (cases "fs_index ?S")
    case None
    then have "fs = []" using fs_frames_Nil [OF e(1)] e(2) by simp
    then show ?thesis using None slot_kept(1,2) [OF e(1)] place_first_frames [OF e(1), of eth_frame_invalid]
      by (cases "start_init ?S") (fastforce simp: place_first_def bind_eq_Some_conv)
  next
    case (Some i)
    then obtain out t where t: "get_next ?S = Some (out, t)" "fs_inv t" "fs_frames t = rev fs" using slot_kept(3) [OF e(1)] e(2) by auto
    have "\<exists>o' p S'. place eth_frame_invalid f (out, t) = Some (o', p) \<and> fs_inv S' \<and> fs_frames S' = rev (f # fs)
        \<and> fs_push (out_frame_consume o') p = Some S'" for f
      using place_next_frames [OF e(1) Some, of eth_frame_invalid f] e(2) t(1) by (auto simp: place_next_def bind_eq_Some_conv)
    then show ?thesis using t Some by auto
  qed
  then obtain this pool where p: "(if fs_index ?S = None then Some (start_init ?S) else get_next ?S) = Some (this, pool)"
      "fs_inv pool" "fs_frames pool = rev fs"
      "\<And>f. \<exists>out p S'. place eth_frame_invalid f (this, pool) = Some (out, p) \<and> fs_inv S' \<and> fs_frames S' = rev (f # fs)
           \<and> (if fs_index ?S = None then end_init (out_frame_consume out) p else fs_push (out_frame_consume out) p) = Some S'"
    by blast
  show ?thesis using s [of this pool] unfolding started_def
  proof (elim disjE exE conjE)
    fix err c' assume "init_with_context X D (ev_precompiles e) fi this pool (ev_ctx e) = Some (Inl err, pool, c')" "moves I sp st (ev_ctx e) c'"
    then show ?thesis using Err [of err "e\<lparr>ev_ctx := c', ev_frame_stack := pool\<rparr>"] p(1,2) by (simp add: frame_init_evm_def Let_def)
  next
    fix x c' assume "init_with_context X D (ev_precompiles e) fi this pool (ev_ctx e) = Some (Inr (Result x), pool, c')"
      "moves I sp st (ev_ctx e) c'" "fits n fs c' x"
    then show ?thesis using Res [of x "e\<lparr>ev_ctx := c', ev_frame_stack := pool\<rparr>"] p(1-3) by (simp add: frame_init_evm_def Let_def)
  next
    fix f c' assume f: "init_with_context X D (ev_precompiles e) fi this pool (ev_ctx e) = start_frame (\<lambda>_. f) this pool c'"
      "running I sp st c0 c' f fs" "gas_total (ef_interpreter f) \<le> n"
    obtain out q S' where q: "place eth_frame_invalid f (this, pool) = Some (out, q)" "fs_inv S'" "fs_frames S' = rev (f # fs)"
        "(if fs_index ?S = None then end_init (out_frame_consume out) q else fs_push (out_frame_consume out) q) = Some S'"
      using p(4) by blast
    show ?thesis using New [of "e\<lparr>ev_ctx := c', ev_frame_stack := S'\<rparr>" f] f q p(1)
      by (simp add: frame_init_evm_def Let_def start_frame_place frames_total_def split: if_splits)
  qed
qed

lemma settled_pending: "pending I sp st c0 c fi fs \<Longrightarrow> settled I sp st c0 c"
  by (simp add: pending_def settled_def)

lemma pending_returning:
  assumes "pending I sp st c0 c fi fs" "fits (request_gas (fi_frame_input fi)) fs c x"
  shows "\<exists>b. fi_memory fi = \<lparr>sm_buffer = Some b, sm_my_checkpoint = vec_len b, sm_child_checkpoint = None\<rparr>
    \<and> returning I sp st c0 c b (request_gas (fi_frame_input fi)) x fs"
  using assms by (auto simp: pending_def returning_def)

lemma frame_run_step:
  assumes "fs_get (ev_frame_stack e) = Some f"
    and "run_plain (context_host D) (ex_keccak256 X) (with_host (ef_interpreter f) (ev_ctx e)) = Some (a, resume c1)"
    and "process_next_action X a (f\<lparr>ef_interpreter := without_host (resume c1)\<rparr>) (i_host c1) = Some (r, g, c)"
    and "fs_set (case r of Result _ \<Rightarrow> g\<lparr>ef_is_finished := True\<rparr> | Item _ \<Rightarrow> g) (ev_frame_stack e) = Some S"
  shows "frame_run X D e = Some (r, e\<lparr>ev_ctx := c, ev_frame_stack := S\<rparr>)"
  using assms by (simp add: frame_run_def resume_def)

context evm_database
begin

lemma turn_request:
  assumes inv: "loop_inv I sp st c0 M e f fs"
    and run: "run_plain (context_host D) (ex_keccak256 X) (with_host (ef_interpreter f) (ev_ctx e)) = Some (NewFrame req, resume c1)"
      "ended (ctx_inv I) (ctx_ev I) ctx_err (with_host (ef_interpreter f) (ev_ctx e)) c1"
      "eb_action (i_bytecode c1) = Some (NewFrame req)"
  shows "ok (turn_ok I sp st c0 M (2 * frames_total (f # fs) + length (f # fs))) (exec_turn X D e)"
proof -
  have r: "running I sp st c0 (ev_ctx e) f fs" and S: "fs_inv (ev_frame_stack e)" "fs_frames (ev_frame_stack e) = rev (f # fs)"
    and P: "precompiles_ok (ev_precompiles e)" and M: "frames_total (f # fs) \<le> M"
    using inv by (auto simp: loop_inv_def)
  obtain child m where p: "new_child_context (i_memory c1) = Some (child, m)"
      "pending I sp st c0 (i_host c1) \<lparr>fi_depth = ef_depth f + 1, fi_memory = child, fi_frame_input = req\<rparr>
        (f\<lparr>ef_interpreter := without_host (resume c1)\<lparr>i_memory := m\<rparr>\<rparr> # fs)"
      "request_gas req + frames_total (f\<lparr>ef_interpreter := without_host (resume c1)\<lparr>i_memory := m\<rparr>\<rparr> # fs) < frames_total (f # fs)"
    by (rule frame_request [OF r run(2,3)])
  define fi where "fi = \<lparr>fi_depth = ef_depth f + 1, fi_memory = child, fi_frame_input = req\<rparr>"
  define g where "g = f\<lparr>ef_interpreter := without_host (resume c1)\<lparr>i_memory := m\<rparr>\<rparr>"
  note p = p(1) p(2,3) [folded g_def, folded fi_def]
  obtain S' where S': "fs_set g (ev_frame_stack e) = Some S'" "fs_inv S'" "fs_frames S' = rev (g # fs)"
    using top_frame(3) [OF S] by blast
  have "i_memory (without_host (resume c1)) = i_memory c1" by (simp add: without_host_def resume_def)
  then have fr: "frame_run X D e = Some (Item fi, e\<lparr>ev_ctx := i_host c1, ev_frame_stack := S'\<rparr>)"
    by (intro frame_run_step [OF top_frame(1) [OF S] run(1), where g = g])
      (simp_all add: process_next_action_def p(1) S'(1) [unfolded g_def] fi_def g_def)
  define e1 where "e1 = e\<lparr>ev_ctx := i_host c1, ev_frame_stack := S'\<rparr>"
  have e1: "fs_inv (ev_frame_stack e1)" "fs_frames (ev_frame_stack e1) = rev (g # fs)" "precompiles_ok (ev_precompiles e1)"
      "ev_ctx e1 = i_host c1"
    using S' P by (simp_all add: e1_def)
  have gas: "request_gas (fi_frame_input fi) = request_gas req" by (simp add: fi_def)
  have st: "started I sp st c0 (g # fs) (request_gas (fi_frame_input fi)) this pool (ev_ctx e1)
      (init_with_context X D (ev_precompiles e1) fi this pool (ev_ctx e1))" for this pool
    using init_with_context_ok [OF e1(3) p(2)] e1(4) by simp
  have c: "ctx_ok I sp (ev_ctx e1)" using p(2) e1(4) by (simp add: pending_def)
  have p1: "pending I sp st c0 (ev_ctx e1) fi (g # fs)" using p(2) e1(4) by simp
  show ?thesis
  proof (rule frame_init_evm_ok [OF e1(1-3) st])
    fix err e' assume h: "frame_init_evm X D fi e1 = Some (Inl err, e')" "moves I sp st (ev_ctx e1) (ev_ctx e')" "fs_inv (ev_frame_stack e')"
    then show ?thesis using fr h(3) settled_pending [OF pending_moves [OF p1 h(2)]] by (simp add: exec_turn_def e1_def)
  next
    fix x e' assume h: "frame_init_evm X D fi e1 = Some (Inr (Result x), e')" "moves I sp st (ev_ctx e1) (ev_ctx e')"
      "fits (request_gas (fi_frame_input fi)) (g # fs) (ev_ctx e') x" "fs_inv (ev_frame_stack e')"
      "fs_frames (ev_frame_stack e') = rev (g # fs)" "ev_precompiles e' = ev_precompiles e1"
    obtain b where b: "fi_memory fi = \<lparr>sm_buffer = Some b, sm_my_checkpoint = vec_len b, sm_child_checkpoint = None\<rparr>"
        "returning I sp st c0 (ev_ctx e') b (request_gas req) x (g # fs)"
      using pending_returning [OF pending_moves [OF p1 h(2)] h(3)] gas by auto
    have g: "\<not> ef_is_finished g" "sm_buffer (ef_mem g) = Some b"
      using b(2) by (auto simp: returning_def frame_at_def core_ok_def)
    have "ok (turn_ok I sp st c0 M (2 * frames_total (f # fs) + length (f # fs))) (frame_return_result x e')"
      by (rule frame_return_result_ok [OF h(4) _ _ g(2) _ b(2)]) (use h(5,6) g e1(3) p(3) M in simp_all)
    then show ?thesis using fr h(1) by (simp add: exec_turn_def e1_def)
  next
    fix h e' assume h: "frame_init_evm X D fi e1 = Some (Inr (Item ()), e')" "running I sp st c0 (ev_ctx e') h (g # fs)"
      "frames_total (h # g # fs) \<le> request_gas (fi_frame_input fi) + frames_total (g # fs)"
      "fs_inv (ev_frame_stack e')" "fs_frames (ev_frame_stack e') = rev (h # g # fs)" "ev_precompiles e' = ev_precompiles e1"
    have "loop_inv I sp st c0 M e' h (g # fs)" using h(2-6) p(3) M e1(3) gas by (simp add: loop_inv_def)
    moreover have "2 * frames_total (h # g # fs) + length (h # g # fs) < 2 * frames_total (f # fs) + length (f # fs)"
      using h(3) p(3) gas by simp
    ultimately have "turn_ok I sp st c0 M (2 * frames_total (f # fs) + length (f # fs)) (Inr None, e')"
      unfolding turn_ok.simps by blast
    then show ?thesis using fr h(1) by (simp add: exec_turn_def e1_def del: turn_ok.simps)
  qed
qed

lemma turn_result:
  assumes inv: "loop_inv I sp st c0 M e f fs"
    and run: "run_plain (context_host D) (ex_keccak256 X) (with_host (ef_interpreter f) (ev_ctx e)) = Some (ReturnAction x, resume c1)"
      "ended (ctx_inv I) (ctx_ev I) ctx_err (with_host (ef_interpreter f) (ev_ctx e)) c1"
      "eb_action (i_bytecode c1) = Some (ReturnAction x)"
  shows "ok (turn_ok I sp st c0 M (2 * frames_total (f # fs) + length (f # fs))) (exec_turn X D e)"
proof -
  have r: "running I sp st c0 (ev_ctx e) f fs" and S: "fs_inv (ev_frame_stack e)" "fs_frames (ev_frame_stack e) = rev (f # fs)"
    and P: "precompiles_ok (ev_precompiles e)" and M: "frames_total (f # fs) \<le> M"
    using inv by (auto simp: loop_inv_def)
  let ?cp = "unat (sm_my_checkpoint (ef_mem f))"
  obtain y c' b where y: "\<forall>i. process_next_action X (ReturnAction x) (f\<lparr>ef_interpreter := i\<rparr>) (i_host c1) = Some (Result y, f\<lparr>ef_interpreter := i\<rparr>, c')"
      "sm_buffer (i_memory c1) = Some b" "?cp \<le> length b" "returning I sp st c0 c' (take ?cp b) (gas_total (ef_interpreter f)) y fs"
    by (rule frame_ended [OF r run(2,3)])
  define g where "g = f\<lparr>ef_interpreter := without_host (resume c1)\<rparr>\<lparr>ef_is_finished := True\<rparr>"
  obtain S' where S': "fs_set g (ev_frame_stack e) = Some S'" "fs_inv S'" "fs_frames S' = rev (g # fs)"
    using top_frame(3) [OF S] by blast
  have fr: "frame_run X D e = Some (Result y, e\<lparr>ev_ctx := c', ev_frame_stack := S'\<rparr>)"
    by (rule frame_run_step [OF top_frame(1) [OF S] run(1) y(1) [rule_format]]) (simp add: S'(1) [unfolded g_def])
  have g: "ef_is_finished g" "sm_buffer (ef_mem g) = Some b" using y(2) by (simp_all add: g_def without_host_def resume_def)
  have tot: "frames_total (f # fs) = gas_total (ef_interpreter f) + frames_total fs" by (simp add: frames_total_def)
  have "ok (turn_ok I sp st c0 M (2 * frames_total (f # fs) + length (f # fs)))
      (frame_return_result y (e\<lparr>ev_ctx := c', ev_frame_stack := S'\<rparr>))"
    by (rule frame_return_result_ok [OF _ _ _ g(2), where b = "take ?cp b" and n = "gas_total (ef_interpreter f)"])
      (use S'(2,3) g(1) y(3,4) M P tot in \<open>auto simp: min_absorb2\<close>)
  then show ?thesis using fr by (simp add: exec_turn_def)
qed

lemma exec_turn_ok:
  assumes "loop_inv I sp st c0 M e f fs"
  shows "ok (turn_ok I sp st c0 M (2 * frames_total (f # fs) + length (f # fs))) (exec_turn X D e)"
proof -
  have r: "running I sp st c0 (ev_ctx e) f fs" using assms by (simp add: loop_inv_def)
  then have "interp_ok (ctx_inv I) (with_host (ef_interpreter f) (ev_ctx e))"
    by (subst interp_ok_with_host) (auto simp: running_def frame_at_def core_ok_def base_ok_def ctx_inv_def)
  from cx.run_plain_ended [OF this] obtain a c1 where
    a: "run_plain (context_host D) (ex_keccak256 X) (with_host (ef_interpreter f) (ev_ctx e)) = Some (a, resume c1)"
      "ended (ctx_inv I) (ctx_ev I) ctx_err (with_host (ef_interpreter f) (ev_ctx e)) c1" "eb_action (i_bytecode c1) = Some a"
    by blast
  show ?thesis using a turn_request [OF assms] turn_result [OF assms] by (cases a) simp_all
qed

lemma exec_loop_ok:
  assumes "loop_inv I sp st c0 M e f fs"
  shows "ok (loop_ok I sp st c0 M) (exec_loop X D e)"
  using assms
proof (induction "2 * frames_total (f # fs) + length (f # fs)" arbitrary: e f fs rule: less_induct)
  case less
  obtain r e' where r: "exec_turn X D e = Some (r, e')"
      "turn_ok I sp st c0 M (2 * frames_total (f # fs) + length (f # fs)) (r, e')"
    using exec_turn_ok [OF less.prems, of X] unfolding ok_iff by (metis surj_pair)
  show ?case
  proof (cases r)
    case (Inl err)
    then show ?thesis using r by (subst exec_loop.simps) simp
  next
    case (Inr q)
    show ?thesis
    proof (cases q)
      case None
      then obtain f' fs' where f': "loop_inv I sp st c0 M e' f' fs'"
          "2 * frames_total (f' # fs') + length (f' # fs') < 2 * frames_total (f # fs) + length (f # fs)"
        using r(2) Inr unfolding None Inr turn_ok.simps by blast
      show ?thesis using less.hyps [OF f'(2,1)] r(1) Inr None by (subst exec_loop.simps) simp
    next
      case (Some x)
      then show ?thesis using r Inr by (subst exec_loop.simps) simp
    qed
  qed
qed

lemma run_exec_loop_ok:
  assumes e: "fs_inv (ev_frame_stack e)" "fs_index (ev_frame_stack e) = None" "precompiles_ok (ev_precompiles e)"
    and p: "pending I sp st c0 (ev_ctx e) fi []"
  shows "ok (loop_ok I sp st c0 (request_gas (fi_frame_input fi))) (run_exec_loop X D fi e)"
proof -
  have f: "fs_frames (ev_frame_stack e) = rev []" using fs_frames_Nil [OF e(1)] e(2) by simp
  show ?thesis
  proof (rule frame_init_evm_ok [OF e(1) f e(3) init_with_context_ok [OF e(3) p]])
    fix err e' assume h: "frame_init_evm X D fi e = Some (Inl err, e')" "moves I sp st (ev_ctx e) (ev_ctx e')" "fs_inv (ev_frame_stack e')"
    then show ?thesis using settled_pending [OF pending_moves [OF p h(2)]] by (simp add: run_exec_loop_def)
  next
    fix x e' assume h: "frame_init_evm X D fi e = Some (Inr (Result x), e')" "moves I sp st (ev_ctx e) (ev_ctx e')"
      "fits (request_gas (fi_frame_input fi)) [] (ev_ctx e') x" "fs_inv (ev_frame_stack e')"
    then show ?thesis using settled_pending [OF pending_moves [OF p h(2)]] by (simp add: run_exec_loop_def final_ok_def)
  next
    fix f e' assume h: "frame_init_evm X D fi e = Some (Inr (Item ()), e')" "running I sp st c0 (ev_ctx e') f []"
      "frames_total [f] \<le> request_gas (fi_frame_input fi) + frames_total []"
      "fs_inv (ev_frame_stack e')" "fs_frames (ev_frame_stack e') = rev [f]" "ev_precompiles e' = ev_precompiles e"
    have "loop_inv I sp st c0 (request_gas (fi_frame_input fi)) e' f []" using h e(3) by (simp add: loop_inv_def frames_total_def)
    from exec_loop_ok [OF this] show ?thesis using h(1) by (simp add: run_exec_loop_def)
  qed
qed

end

end
