(* ===== verification/Blake2.thy ===== *)
theory Blake2
  imports Prelude
begin

text \<open>
  The compression function of BLAKE2b (\<open>crates/precompile/src/blake2.rs\<close>): the portable routine of
  the module \<open>algo\<close> and the vector routine of the module \<open>avx2\<close>, which keeps the sixteen words of the
  working vector in four registers and picks the message words with shuffles that are written out for
  ten rounds. A 256-bit register is four 64-bit lanes, the lowest first; the intrinsics have the
  meaning that the processor manual gives them. The two routines are equal for every number of rounds.
\<close>

section \<open>The portable routine\<close>

definition blake2_SIGMA :: "nat list list" where
  "blake2_SIGMA =
     [[0, 1, 2, 3, 4, 5, 6, 7, 8, 9, 10, 11, 12, 13, 14, 15],
      [14, 10, 4, 8, 9, 15, 13, 6, 1, 12, 0, 2, 11, 7, 5, 3],
      [11, 8, 12, 0, 5, 2, 15, 13, 10, 14, 3, 6, 7, 1, 9, 4],
      [7, 9, 3, 1, 13, 12, 11, 14, 2, 6, 5, 10, 4, 0, 15, 8],
      [9, 0, 5, 7, 2, 4, 10, 15, 14, 1, 11, 12, 6, 8, 3, 13],
      [2, 12, 6, 10, 0, 11, 8, 3, 4, 13, 7, 5, 15, 14, 1, 9],
      [12, 5, 1, 15, 14, 13, 4, 10, 0, 7, 6, 3, 9, 2, 8, 11],
      [13, 11, 7, 14, 12, 1, 3, 9, 5, 0, 15, 4, 8, 6, 2, 10],
      [6, 15, 14, 9, 11, 3, 0, 8, 12, 2, 13, 7, 1, 4, 10, 5],
      [10, 2, 8, 4, 7, 6, 1, 5, 15, 11, 9, 14, 3, 12, 13, 0]]"

definition blake2_IV :: "u64 list" where
  "blake2_IV =
     [0x6a09e667f3bcc908, 0xbb67ae8584caa73b, 0x3c6ef372fe94f82b, 0xa54ff53a5f1d36f1,
      0x510e527fade682d1, 0x9b05688c2b3e6c1f, 0x1f83d9abfb41bd6b, 0x5be0cd19137e2179]"

text \<open>The arithmetic of the mixing function \<open>g\<close> on the four words it reads.\<close>

definition mix :: "u64 \<Rightarrow> u64 \<Rightarrow> u64 \<Rightarrow> u64 \<Rightarrow> u64 \<Rightarrow> u64 \<Rightarrow> u64 \<times> u64 \<times> u64 \<times> u64" where
  "mix va vb vc vd x y =
     (let va = va + vb + x;
          vd = word_rotr 32 (vd XOR va);
          vc = vc + vd;
          vb = word_rotr 24 (vb XOR vc);
          va = va + vb + y;
          vd = word_rotr 16 (vd XOR va);
          vc = vc + vd;
          vb = word_rotr 63 (vb XOR vc)
      in (va, vb, vc, vd))"

definition blake2_g :: "nat \<Rightarrow> nat \<Rightarrow> nat \<Rightarrow> nat \<Rightarrow> u64 \<Rightarrow> u64 \<Rightarrow> u64 list \<Rightarrow> u64 list" where
  "blake2_g a b c d x y v =
     (let (va, vb, vc, vd) = mix (v ! a) (v ! b) (v ! c) (v ! d) x y
      in v[a := va, b := vb, c := vc, d := vd])"

definition blake2_round :: "u64 list \<Rightarrow> nat \<Rightarrow> u64 list \<Rightarrow> u64 list" where
  "blake2_round m r v =
     (let s = blake2_SIGMA ! (r mod 10);
          v = blake2_g 0 4 8 12 (m ! (s ! 0)) (m ! (s ! 1)) v;
          v = blake2_g 1 5 9 13 (m ! (s ! 2)) (m ! (s ! 3)) v;
          v = blake2_g 2 6 10 14 (m ! (s ! 4)) (m ! (s ! 5)) v;
          v = blake2_g 3 7 11 15 (m ! (s ! 6)) (m ! (s ! 7)) v;
          v = blake2_g 0 5 10 15 (m ! (s ! 8)) (m ! (s ! 9)) v;
          v = blake2_g 1 6 11 12 (m ! (s ! 10)) (m ! (s ! 11)) v;
          v = blake2_g 2 7 8 13 (m ! (s ! 12)) (m ! (s ! 13)) v
      in blake2_g 3 4 9 14 (m ! (s ! 14)) (m ! (s ! 15)) v)"

definition blake2_compress :: "nat \<Rightarrow> u64 list \<Rightarrow> u64 list \<Rightarrow> u64 \<Rightarrow> u64 \<Rightarrow> bool \<Rightarrow> u64 list" where
  "blake2_compress rounds h m t0 t1 f =
     (let v = h @ blake2_IV;
          v = v[12 := v ! 12 XOR t0];
          v = v[13 := v ! 13 XOR t1];
          v = (if f then v[14 := NOT (v ! 14)] else v);
          v = fold (blake2_round m) [0..<rounds] v
      in map (\<lambda>i. h ! i XOR (v ! i XOR v ! (i + 8))) [0..<8])"

section \<open>Vector registers\<close>

datatype m256 = M256 u64 u64 u64 u64

fun unpacklo_epi64 :: "m256 \<Rightarrow> m256 \<Rightarrow> m256" where
  "unpacklo_epi64 (M256 x0 x1 x2 x3) (M256 y0 y1 y2 y3) = M256 x0 y0 x2 y2"

fun unpackhi_epi64 :: "m256 \<Rightarrow> m256 \<Rightarrow> m256" where
  "unpackhi_epi64 (M256 x0 x1 x2 x3) (M256 y0 y1 y2 y3) = M256 x1 y1 x3 y3"

text \<open>A blend picks each 32-bit half of each lane by one bit of the mask.\<close>

definition blend_lane :: "bool \<Rightarrow> bool \<Rightarrow> u64 \<Rightarrow> u64 \<Rightarrow> u64" where
  "blend_lane lo hi x y =
     ((if lo then y else x) AND 0xFFFFFFFF) OR ((if hi then y else x) AND 0xFFFFFFFF00000000)"

fun blend_epi32 :: "m256 \<Rightarrow> m256 \<Rightarrow> u8 \<Rightarrow> m256" where
  "blend_epi32 (M256 x0 x1 x2 x3) (M256 y0 y1 y2 y3) imm =
     M256 (blend_lane (bit imm 0) (bit imm 1) x0 y0) (blend_lane (bit imm 2) (bit imm 3) x1 y1)
          (blend_lane (bit imm 4) (bit imm 5) x2 y2) (blend_lane (bit imm 6) (bit imm 7) x3 y3)"

text \<open>\<open>_mm256_alignr_epi8\<close> by eight bytes, and \<open>_mm256_shuffle_epi32\<close> that swaps the halves of each 128 bits.\<close>

fun alignr_epi8_8 :: "m256 \<Rightarrow> m256 \<Rightarrow> m256" where
  "alignr_epi8_8 (M256 x0 x1 x2 x3) (M256 y0 y1 y2 y3) = M256 y1 x0 y3 x2"

fun shuffle_epi32_1032 :: "m256 \<Rightarrow> m256" where
  "shuffle_epi32_1032 (M256 x0 x1 x2 x3) = M256 x1 x0 x3 x2"

definition broadcastsi128 :: "u64 \<Rightarrow> u64 \<Rightarrow> m256" where
  "broadcastsi128 lo hi = M256 lo hi lo hi"

fun vec_add :: "m256 \<Rightarrow> m256 \<Rightarrow> m256" where
  "vec_add (M256 x0 x1 x2 x3) (M256 y0 y1 y2 y3) = M256 (x0 + y0) (x1 + y1) (x2 + y2) (x3 + y3)"

fun vec_xor :: "m256 \<Rightarrow> m256 \<Rightarrow> m256" where
  "vec_xor (M256 x0 x1 x2 x3) (M256 y0 y1 y2 y3) = M256 (x0 XOR y0) (x1 XOR y1) (x2 XOR y2) (x3 XOR y3)"

definition shift_rot :: "nat \<Rightarrow> u64 \<Rightarrow> u64" where
  "shift_rot n x = (drop_bit n x OR push_bit (64 - n) x)"

fun vec_rot :: "nat \<Rightarrow> m256 \<Rightarrow> m256" where
  "vec_rot n (M256 x0 x1 x2 x3) = M256 (shift_rot n x0) (shift_rot n x1) (shift_rot n x2) (shift_rot n x3)"

text \<open>\<open>permute4x64\<close> with the mask \<open>_MM_SHUFFLE!(0, 3, 2, 1)\<close>, \<open>(1, 0, 3, 2)\<close> and \<open>(2, 1, 0, 3)\<close>.\<close>

fun permute_0321 :: "m256 \<Rightarrow> m256" where
  "permute_0321 (M256 x0 x1 x2 x3) = M256 x1 x2 x3 x0"

fun permute_1032 :: "m256 \<Rightarrow> m256" where
  "permute_1032 (M256 x0 x1 x2 x3) = M256 x2 x3 x0 x1"

fun permute_2103 :: "m256 \<Rightarrow> m256" where
  "permute_2103 (M256 x0 x1 x2 x3) = M256 x3 x0 x1 x2"

section \<open>The vector routine\<close>

type_synonym rows = "m256 \<times> m256 \<times> m256 \<times> m256"

definition avx2_g1 :: "m256 \<Rightarrow> rows \<Rightarrow> rows" where
  "avx2_g1 m = (\<lambda>(a, b, c, d).
     let a = vec_add a m;
         a = vec_add a b;
         d = vec_xor d a;
         d = vec_rot 32 d;
         c = vec_add c d;
         b = vec_xor b c;
         b = vec_rot 24 b
     in (a, b, c, d))"

definition avx2_g2 :: "m256 \<Rightarrow> rows \<Rightarrow> rows" where
  "avx2_g2 m = (\<lambda>(a, b, c, d).
     let a = vec_add a m;
         a = vec_add a b;
         d = vec_xor d a;
         d = vec_rot 16 d;
         c = vec_add c d;
         b = vec_xor b c;
         b = vec_rot 63 b
     in (a, b, c, d))"

definition diagonalize :: "rows \<Rightarrow> rows" where
  "diagonalize = (\<lambda>(a, b, c, d). (permute_2103 a, b, permute_0321 c, permute_1032 d))"

definition undiagonalize :: "rows \<Rightarrow> rows" where
  "undiagonalize = (\<lambda>(a, b, c, d). (permute_0321 a, b, permute_2103 c, permute_1032 d))"

text \<open>The four message vectors of a round, as the source writes them for each of the ten rounds.\<close>

definition avx2_message ::
    "m256 \<Rightarrow> m256 \<Rightarrow> m256 \<Rightarrow> m256 \<Rightarrow> m256 \<Rightarrow> m256 \<Rightarrow> m256 \<Rightarrow> m256 \<Rightarrow> nat \<Rightarrow> m256 \<times> m256 \<times> m256 \<times> m256" where
  "avx2_message m0 m1 m2 m3 m4 m5 m6 m7 k =
     (if k = 0 then
        (blend_epi32 (unpacklo_epi64 m0 m1) (unpacklo_epi64 m2 m3) 0xF0,
         blend_epi32 (unpackhi_epi64 m0 m1) (unpackhi_epi64 m2 m3) 0xF0,
         blend_epi32 (unpacklo_epi64 m7 m4) (unpacklo_epi64 m5 m6) 0xF0,
         blend_epi32 (unpackhi_epi64 m7 m4) (unpackhi_epi64 m5 m6) 0xF0)
      else if k = 1 then
        (blend_epi32 (unpacklo_epi64 m7 m2) (unpackhi_epi64 m4 m6) 0xF0,
         blend_epi32 (unpacklo_epi64 m5 m4) (alignr_epi8_8 m3 m7) 0xF0,
         blend_epi32 (unpackhi_epi64 m2 m0) (blend_epi32 m5 m0 0x33) 0xF0,
         blend_epi32 (alignr_epi8_8 m6 m1) (blend_epi32 m3 m1 0x33) 0xF0)
      else if k = 2 then
        (blend_epi32 (alignr_epi8_8 m6 m5) (unpackhi_epi64 m2 m7) 0xF0,
         blend_epi32 (unpacklo_epi64 m4 m0) (blend_epi32 m6 m1 0x33) 0xF0,
         blend_epi32 (alignr_epi8_8 m5 m4) (unpackhi_epi64 m1 m3) 0xF0,
         blend_epi32 (unpacklo_epi64 m2 m7) (blend_epi32 m0 m3 0x33) 0xF0)
      else if k = 3 then
        (blend_epi32 (unpackhi_epi64 m3 m1) (unpackhi_epi64 m6 m5) 0xF0,
         blend_epi32 (unpackhi_epi64 m4 m0) (unpacklo_epi64 m6 m7) 0xF0,
         blend_epi32 (alignr_epi8_8 m1 m7) (shuffle_epi32_1032 m2) 0xF0,
         blend_epi32 (unpacklo_epi64 m4 m3) (unpacklo_epi64 m5 m0) 0xF0)
      else if k = 4 then
        (blend_epi32 (unpackhi_epi64 m4 m2) (unpacklo_epi64 m1 m5) 0xF0,
         blend_epi32 (blend_epi32 m3 m0 0x33) (blend_epi32 m7 m2 0x33) 0xF0,
         blend_epi32 (alignr_epi8_8 m7 m1) (alignr_epi8_8 m3 m5) 0xF0,
         blend_epi32 (unpackhi_epi64 m6 m0) (unpacklo_epi64 m6 m4) 0xF0)
      else if k = 5 then
        (blend_epi32 (unpacklo_epi64 m1 m3) (unpacklo_epi64 m0 m4) 0xF0,
         blend_epi32 (unpacklo_epi64 m6 m5) (unpackhi_epi64 m5 m1) 0xF0,
         blend_epi32 (alignr_epi8_8 m2 m0) (unpackhi_epi64 m3 m7) 0xF0,
         blend_epi32 (unpackhi_epi64 m4 m6) (alignr_epi8_8 m7 m2) 0xF0)
      else if k = 6 then
        (blend_epi32 (blend_epi32 m0 m6 0x33) (unpacklo_epi64 m7 m2) 0xF0,
         blend_epi32 (unpackhi_epi64 m2 m7) (alignr_epi8_8 m5 m6) 0xF0,
         blend_epi32 (unpacklo_epi64 m4 m0) (blend_epi32 m4 m3 0x33) 0xF0,
         blend_epi32 (unpackhi_epi64 m5 m3) (shuffle_epi32_1032 m1) 0xF0)
      else if k = 7 then
        (blend_epi32 (unpackhi_epi64 m6 m3) (blend_epi32 m1 m6 0x33) 0xF0,
         blend_epi32 (alignr_epi8_8 m7 m5) (unpackhi_epi64 m0 m4) 0xF0,
         blend_epi32 (blend_epi32 m2 m1 0x33) (alignr_epi8_8 m4 m7) 0xF0,
         blend_epi32 (unpacklo_epi64 m5 m0) (unpacklo_epi64 m2 m3) 0xF0)
      else if k = 8 then
        (blend_epi32 (unpacklo_epi64 m3 m7) (alignr_epi8_8 m0 m5) 0xF0,
         blend_epi32 (unpackhi_epi64 m7 m4) (alignr_epi8_8 m4 m1) 0xF0,
         blend_epi32 (unpacklo_epi64 m5 m6) (unpackhi_epi64 m6 m0) 0xF0,
         blend_epi32 (alignr_epi8_8 m1 m2) (alignr_epi8_8 m2 m3) 0xF0)
      else 
        (blend_epi32 (unpacklo_epi64 m5 m4) (unpackhi_epi64 m3 m0) 0xF0,
         blend_epi32 (unpacklo_epi64 m1 m2) (blend_epi32 m2 m3 0x33) 0xF0,
         blend_epi32 (unpackhi_epi64 m6 m7) (unpackhi_epi64 m4 m1) 0xF0,
         blend_epi32 (blend_epi32 m5 m0 0x33) (unpacklo_epi64 m7 m6) 0xF0))"

definition avx2_round :: "u64 list \<Rightarrow> nat \<Rightarrow> rows \<Rightarrow> rows" where
  "avx2_round m k s =
     (let (b0, b1, b2, b3) =
            avx2_message (broadcastsi128 (m ! 0) (m ! 1)) (broadcastsi128 (m ! 2) (m ! 3))
              (broadcastsi128 (m ! 4) (m ! 5)) (broadcastsi128 (m ! 6) (m ! 7))
              (broadcastsi128 (m ! 8) (m ! 9)) (broadcastsi128 (m ! 10) (m ! 11))
              (broadcastsi128 (m ! 12) (m ! 13)) (broadcastsi128 (m ! 14) (m ! 15)) k
      in undiagonalize (avx2_g2 b3 (avx2_g1 b2 (diagonalize (avx2_g2 b1 (avx2_g1 b0 s))))))"

text \<open>The loop over the ten written rounds, entered at round \<open>k\<close>, with \<open>rounds\<close> still to do.\<close>

fun avx2_rounds :: "u64 list \<Rightarrow> nat \<Rightarrow> nat \<Rightarrow> rows \<Rightarrow> rows" where
  "avx2_rounds m 0 k s = s"
| "avx2_rounds m (Suc rounds) k s = avx2_rounds m rounds (if k = 9 then 0 else k + 1) (avx2_round m k s)"

definition loadu :: "u64 list \<Rightarrow> m256" where
  "loadu w = M256 (w ! 0) (w ! 1) (w ! 2) (w ! 3)"

fun storeu :: "m256 \<Rightarrow> u64 list" where
  "storeu (M256 x0 x1 x2 x3) = [x0, x1, x2, x3]"

definition avx2_compress_block ::
    "nat \<Rightarrow> u64 list \<Rightarrow> u64 list \<Rightarrow> u128 \<Rightarrow> u64 \<Rightarrow> u64 \<Rightarrow> u64 list" where
  "avx2_compress_block rounds block ws count last_block last_node =
     (let a = loadu (take 4 ws);
          b = loadu (drop 4 ws);
          c = loadu (take 4 blake2_IV);
          flags = M256 (ucast count) (ucast (drop_bit 64 count)) last_block last_node;
          d = vec_xor (loadu (drop 4 blake2_IV)) flags;
          iv0 = a;
          iv1 = b;
          (a, b, c, d) = avx2_rounds block rounds 0 (a, b, c, d);
          a = vec_xor a c;
          b = vec_xor b d;
          a = vec_xor a iv0;
          b = vec_xor b iv1
      in storeu a @ storeu b)"

text \<open>The call of the vector routine in \<open>compress\<close>.\<close>

definition avx2_compress :: "nat \<Rightarrow> u64 list \<Rightarrow> u64 list \<Rightarrow> u64 \<Rightarrow> u64 \<Rightarrow> bool \<Rightarrow> u64 list" where
  "avx2_compress rounds h m t0 t1 f =
     avx2_compress_block rounds m h (push_bit 64 (ucast t1) OR ucast t0) (if f then NOT 0 else 0) 0"

section \<open>The two routines are equal\<close>

lemma blend_lane_same [simp]: "blend_lane False False x y = x" "blend_lane True True x y = y"
proof -
  have c: "(0xFFFFFFFF OR 0xFFFFFFFF00000000 :: u64) = - 1" by simp
  have "z AND 0xFFFFFFFF OR z AND 0xFFFFFFFF00000000 = z" for z :: u64
    by (simp only: bit.conj_disj_distrib [symmetric] c bit.conj_one_right)
  then show "blend_lane False False x y = x" "blend_lane True True x y = y"
    by (simp_all only: blend_lane_def if_True if_False)
qed

lemma blend_masks [simp]:
  "blend_epi32 (M256 x0 x1 x2 x3) (M256 y0 y1 y2 y3) 0xF0 = M256 x0 x1 y2 y3"
  "blend_epi32 (M256 x0 x1 x2 x3) (M256 y0 y1 y2 y3) 0x33 = M256 y0 x1 y2 x3"
  by (simp_all add: bit_numeral_rec)

declare blend_epi32.simps [simp del]

lemma shift_rot_eq:
  assumes "0 < n" "n < 64"
  shows "shift_rot n x = word_rotr n x"
proof (rule bit_word_eqI)
  fix i assume "i < LENGTH(64)"
  then have i: "i < 64" by simp
  then have "(i + n) mod 64 = (if i + n < 64 then i + n else i - (64 - n))" using assms by (simp add: mod_if)
  moreover have "\<not> bit x j" if "64 \<le> j" for j using that bit_imp_le_length [of x j] by auto
  ultimately show "bit (shift_rot n x) i \<longleftrightarrow> bit (word_rotr n x) i"
    using assms i by (auto simp: shift_rot_def bit_or_iff bit_drop_bit_eq bit_push_bit_iff bit_word_rotr_iff add.commute)
qed

lemma lanes_mix:
  "avx2_g2 (M256 y0 y1 y2 y3) (avx2_g1 (M256 x0 x1 x2 x3)
      (M256 a0 a1 a2 a3, M256 b0 b1 b2 b3, M256 c0 c1 c2 c3, M256 d0 d1 d2 d3)) =
    (let (a0, b0, c0, d0) = mix a0 b0 c0 d0 x0 y0;
         (a1, b1, c1, d1) = mix a1 b1 c1 d1 x1 y1;
         (a2, b2, c2, d2) = mix a2 b2 c2 d2 x2 y2;
         (a3, b3, c3, d3) = mix a3 b3 c3 d3 x3 y3
     in (M256 a0 a1 a2 a3, M256 b0 b1 b2 b3, M256 c0 c1 c2 c3, M256 d0 d1 d2 d3))"
  by (simp add: avx2_g1_def avx2_g2_def mix_def Let_def shift_rot_eq ac_simps)

definition rows_of :: "u64 list \<Rightarrow> rows" where
  "rows_of v = (loadu (take 4 v), loadu (take 4 (drop 4 v)), loadu (take 4 (drop 8 v)), loadu (drop 12 v))"

lemma list16:
  assumes "length v = 16"
  obtains v0 v1 v2 v3 v4 v5 v6 v7 v8 v9 v10 v11 v12 v13 v14 v15 where
    "v = [v0, v1, v2, v3, v4, v5, v6, v7, v8, v9, v10, v11, v12, v13, v14, v15]"
  using assms by (auto simp: eval_nat_numeral length_Suc_conv)

lemma length_round: "length (blake2_round m r v) = length v"
  by (simp add: blake2_round_def blake2_g_def Let_def case_prod_beta)

lemma round_eq:
  assumes "length v = 16" "k < 10"
  shows "avx2_round m k (rows_of v) = rows_of (blake2_round m k v)"
  using assms(1)
proof (rule list16)
  fix v0 v1 v2 v3 v4 v5 v6 v7 v8 v9 v10 v11 v12 v13 v14 v15
  assume v: "v = [v0, v1, v2, v3, v4, v5, v6, v7, v8, v9, v10, v11, v12, v13, v14, v15]"
  have "k = 0 \<or> k = 1 \<or> k = 2 \<or> k = 3 \<or> k = 4 \<or> k = 5 \<or> k = 6 \<or> k = 7 \<or> k = 8 \<or> k = 9" using assms(2) by arith
  then show ?thesis
    by (elim disjE) (simp_all add: v rows_of_def loadu_def avx2_round_def avx2_message_def broadcastsi128_def lanes_mix
        diagonalize_def undiagonalize_def blake2_round_def blake2_SIGMA_def blake2_g_def Let_def case_prod_beta)
qed

lemma rounds_eq:
  assumes "length v = 16" "k < 10" "r mod 10 = k"
  shows "avx2_rounds m n k (rows_of v) = rows_of (fold (blake2_round m) [r..<r + n] v)"
  using assms
proof (induction n arbitrary: v k r)
  case (Suc n)
  let ?k = "if k = 9 then 0 else k + 1"
  have k: "?k < 10" "Suc r mod 10 = ?k" using Suc.prems(2,3) by (auto simp: mod_Suc)
  have r: "blake2_round m r v = blake2_round m k v" using Suc.prems(3) by (auto simp: blake2_round_def)
  have "[r..<r + Suc n] = r # [Suc r..<Suc r + n]" by (simp add: upt_conv_Cons del: upt_Suc)
  then show ?case
    using Suc.IH [OF _ k, of "blake2_round m k v"] round_eq [OF Suc.prems(1,2), of m] Suc.prems(1) r
    by (simp add: length_round del: upt_Suc)
qed simp

lemma list8:
  assumes "length v = 8"
  obtains v0 v1 v2 v3 v4 v5 v6 v7 where "v = [v0, v1, v2, v3, v4, v5, v6, v7]"
  using assms by (auto simp: eval_nat_numeral length_Suc_conv)

lemma length_rounds: "length (fold (blake2_round m) rs v) = length v"
  by (induction rs arbitrary: v) (simp_all add: length_round)

lemma count_words:
  fixes t0 t1 :: u64
  shows "ucast (push_bit 64 (ucast t1 :: u128) OR ucast t0) = t0"
    "ucast (drop_bit 64 (push_bit 64 (ucast t1 :: u128) OR ucast t0)) = t1"
proof -
  show "ucast (push_bit 64 (ucast t1 :: u128) OR ucast t0) = t0"
    by (rule bit_word_eqI) (simp add: bit_simps)
  have "\<not> bit t0 j" if "64 \<le> j" for j using that bit_imp_le_length [of t0 j] by auto
  then show "ucast (drop_bit 64 (push_bit 64 (ucast t1 :: u128) OR ucast t0)) = t1"
    by (intro bit_word_eqI) (auto simp: bit_simps)
qed

text \<open>C11. The vector routine of the BLAKE2b compression function computes what the portable routine
  computes, for every state, message, counter, final flag and number of rounds: its hand-written
  shuffles select the message words of the permutation table in every round, and the loop over ten
  rounds goes on where the table repeats.\<close>
theorem avx2_compress_correct:
  assumes "length h = 8"
  shows "avx2_compress rounds h m t0 t1 f = blake2_compress rounds h m t0 t1 f"
  using assms
proof (rule list8)
  fix h0 h1 h2 h3 h4 h5 h6 h7 assume h: "h = [h0, h1, h2, h3, h4, h5, h6, h7]"
  define v where "v = (let v = h @ blake2_IV; v = v[12 := v ! 12 XOR t0]; v = v[13 := v ! 13 XOR t1]
    in if f then v[14 := NOT (v ! 14)] else v)"
  have l: "length v = 16" by (simp add: v_def Let_def h blake2_IV_def)
  have "rows_of v = (loadu (take 4 h), loadu (drop 4 h), loadu (take 4 blake2_IV),
      vec_xor (loadu (drop 4 blake2_IV)) (M256 t0 t1 (if f then NOT 0 else 0) 0))"
    by (simp add: v_def Let_def h blake2_IV_def rows_of_def loadu_def)
  moreover define w where "w = fold (blake2_round m) [0..<rounds] v"
  ultimately have r: "avx2_rounds m rounds 0 (loadu (take 4 h), loadu (drop 4 h), loadu (take 4 blake2_IV),
      vec_xor (loadu (drop 4 blake2_IV)) (M256 t0 t1 (if f then NOT 0 else 0) 0)) = rows_of w"
    using rounds_eq [OF l, of 0 0 m rounds] by simp
  have "length w = 16" by (simp add: w_def length_rounds l)
  then show ?thesis
  proof (rule list16)
    fix w0 w1 w2 w3 w4 w5 w6 w7 w8 w9 w10 w11 w12 w13 w14 w15
    assume w': "w = [w0, w1, w2, w3, w4, w5, w6, w7, w8, w9, w10, w11, w12, w13, w14, w15]"
    have "blake2_compress rounds h m t0 t1 f = map (\<lambda>i. h ! i XOR (w ! i XOR w ! (i + 8))) [0..<8]"
      by (simp only: blake2_compress_def Let_def v_def w_def)
    moreover have "avx2_compress rounds h m t0 t1 f =
        (let (a, b, c, d) = rows_of w in storeu (vec_xor (vec_xor a c) (loadu (take 4 h))) @ storeu (vec_xor (vec_xor b d) (loadu (drop 4 h))))"
      by (simp only: avx2_compress_def avx2_compress_block_def Let_def count_words r)
    ultimately show ?thesis by (simp add: w' h rows_of_def loadu_def upt_rec ac_simps)
  qed
qed

theorem avx2_compress_correct_witness:
  "avx2_compress 12 blake2_IV (replicate 16 0) 3 0 True = blake2_compress 12 blake2_IV (replicate 16 0) 3 0 True"
  by (rule avx2_compress_correct) (simp add: blake2_IV_def)

end
