(* ===== verification/Precompile_Fns.thy ===== *)
theory Precompile_Fns
  imports Precompile Blake2
begin

text \<open>
  The functions of the precompiled contracts (\<open>crates/precompile/src\<close>): parsing and padding of the
  input, the gas of each function, the error paths and the shape of the output, and the sets of
  precompiles per hardfork. Hash functions, curve arithmetic and modular exponentiation come from
  other libraries behind the trait \<open>Crypto\<close>; the record \<open>crypto\<close> holds its methods. The compression
  function of BLAKE2, the default of its method, is part of the crate and is defined in \<open>Blake2\<close>. An array type \<open>[u8; N]\<close> of a
  method is a list, and \<open>crypto_ok\<close> states the lengths that the types give.
\<close>

section \<open>The cryptographic methods\<close>

type_synonym g1_point = "bytes \<times> bytes"
type_synonym g2_point = "bytes \<times> bytes \<times> bytes \<times> bytes"

record crypto =
  cy_sha256 :: "bytes \<Rightarrow> bytes"
  cy_ripemd160 :: "bytes \<Rightarrow> bytes"
  cy_bn254_g1_add :: "bytes \<Rightarrow> bytes \<Rightarrow> precompile_error + bytes"
  cy_bn254_g1_mul :: "bytes \<Rightarrow> bytes \<Rightarrow> precompile_error + bytes"
  cy_bn254_pairing_check :: "(bytes \<times> bytes) list \<Rightarrow> precompile_error + bool"
  cy_secp256k1_ecrecover :: "bytes \<Rightarrow> u8 \<Rightarrow> bytes \<Rightarrow> precompile_error + bytes"
  cy_modexp :: "bytes \<Rightarrow> bytes \<Rightarrow> bytes \<Rightarrow> precompile_error + bytes"
  cy_blake2_compress :: "32 word \<Rightarrow> u64 list \<Rightarrow> u64 list \<Rightarrow> u64 \<Rightarrow> u64 \<Rightarrow> bool \<Rightarrow> u64 list"
  cy_secp256r1_verify_signature :: "bytes \<Rightarrow> bytes \<Rightarrow> bytes \<Rightarrow> bool"
  cy_verify_kzg_proof :: "bytes \<Rightarrow> bytes \<Rightarrow> bytes \<Rightarrow> bytes \<Rightarrow> precompile_error + unit"
  cy_bls12_381_g1_add :: "g1_point \<Rightarrow> g1_point \<Rightarrow> precompile_error + bytes"
  cy_bls12_381_g1_msm :: "(precompile_error + g1_point \<times> bytes) list \<Rightarrow> precompile_error + bytes"
  cy_bls12_381_g2_add :: "g2_point \<Rightarrow> g2_point \<Rightarrow> precompile_error + bytes"
  cy_bls12_381_g2_msm :: "(precompile_error + g2_point \<times> bytes) list \<Rightarrow> precompile_error + bytes"
  cy_bls12_381_pairing_check :: "(g1_point \<times> g2_point) list \<Rightarrow> precompile_error + bool"
  cy_bls12_381_fp_to_g1 :: "bytes \<Rightarrow> precompile_error + bytes"
  cy_bls12_381_fp2_to_g2 :: "bytes \<times> bytes \<Rightarrow> precompile_error + bytes"

section \<open>Padding\<close>

definition get_from :: "nat \<Rightarrow> bytes \<Rightarrow> bytes" where
  "get_from offset data = (if offset \<le> length data then drop offset data else [])"

definition right_pad :: "nat \<Rightarrow> bytes \<Rightarrow> bytes" where
  "right_pad len data =
     (if len \<le> length data then take len data else data @ replicate (len - length data) 0)"

definition right_pad_with_offset :: "nat \<Rightarrow> bytes \<Rightarrow> nat \<Rightarrow> bytes" where
  "right_pad_with_offset len data offset = right_pad len (get_from offset data)"

text \<open>The vectors are allocated: a length above \<open>isize::MAX\<close> panics.\<close>

definition right_pad_vec :: "bytes \<Rightarrow> nat \<Rightarrow> bytes option" where
  "right_pad_vec data len =
     (if len \<le> length data then Some (take len data)
      else if len \<ge> 2 ^ 63 then None
      else Some (data @ replicate (len - length data) 0))"

definition left_pad :: "nat \<Rightarrow> bytes \<Rightarrow> bytes" where
  "left_pad len data =
     (if len \<le> length data then take len data else replicate (len - length data) 0 @ data)"

definition left_pad_vec :: "bytes \<Rightarrow> nat \<Rightarrow> bytes option" where
  "left_pad_vec data len =
     (if len \<le> length data then Some (take len data)
      else if len \<ge> 2 ^ 63 then None
      else Some (replicate (len - length data) 0 @ data))"

definition bool_to_bytes32 :: "bool \<Rightarrow> bytes" where
  "bool_to_bytes32 v = replicate 31 0 @ [if v then 1 else 0]"

text \<open>Leaving a function with the error of a method (the operator \<open>?\<close>), and a plain result.\<close>

definition or_return :: "precompile_error + 'a \<Rightarrow> ('a \<Rightarrow> precompile_result option) \<Rightarrow> precompile_result option" where
  "or_return r f = (case r of Inl e \<Rightarrow> Some (Inl e) | Inr x \<Rightarrow> f x)"

abbreviation pc_error :: "precompile_error \<Rightarrow> precompile_result option" where
  "pc_error e \<equiv> Some (Inl e)"

abbreviation pc_output :: "u64 \<Rightarrow> bytes \<Rightarrow> precompile_result option" where
  "pc_output gas_used bs \<equiv> Some (Inr (precompile_output_new gas_used bs))"

section \<open>Hashes, identity and signature recovery\<close>

definition calc_linear_cost_u32 :: "nat \<Rightarrow> u64 \<Rightarrow> u64 \<Rightarrow> u64" where
  "calc_linear_cost_u32 len base word = of_nat ((len + 31) div 32) * word + base"

definition identity_run :: precompile_fn where
  "identity_run input gas_limit =
     (let gas_used = calc_linear_cost_u32 (length input) 15 3
      in if gas_used > gas_limit then pc_error PeOutOfGas else pc_output gas_used input)"

definition sha256_run :: "crypto \<Rightarrow> precompile_fn" where
  "sha256_run C input gas_limit =
     (let cost = calc_linear_cost_u32 (length input) 60 12
      in if cost > gas_limit then pc_error PeOutOfGas else pc_output cost (cy_sha256 C input))"

definition ripemd160_run :: "crypto \<Rightarrow> precompile_fn" where
  "ripemd160_run C input gas_limit =
     (let gas_used = calc_linear_cost_u32 (length input) 600 120
      in if gas_used > gas_limit then pc_error PeOutOfGas else pc_output gas_used (cy_ripemd160 C input))"

definition ec_recover_run :: "crypto \<Rightarrow> precompile_fn" where
  "ec_recover_run C input gas_limit =
     (if 3000 > gas_limit then pc_error PeOutOfGas
      else
        (let input = right_pad 128 input
         in if \<not> (list_all (\<lambda>b. b = 0) (take 31 (drop 32 input)) \<and> (input ! 63 = 27 \<or> input ! 63 = 28))
            then pc_output 3000 []
            else
              (let msg = take 32 input;
                   recid = input ! 63 - 27;
                   sig = take 64 (drop 64 input)
               in pc_output 3000 (case cy_secp256k1_ecrecover C sig recid msg of Inl _ \<Rightarrow> [] | Inr o' \<Rightarrow> o'))))"

section \<open>Modular exponentiation\<close>

fun bit_length :: "nat \<Rightarrow> nat" where
  "bit_length n = (if n = 0 then 0 else Suc (bit_length (n div 2)))"

declare bit_length.simps [simp del]

definition bit_len :: "u256 \<Rightarrow> u64" where
  "bit_len x = of_nat (bit_length (unat x))"

definition calculate_iteration_count :: "u64 \<Rightarrow> u64 \<Rightarrow> u256 \<Rightarrow> u64" where
  "calculate_iteration_count multiplier exp_length exp_highp =
     (let iteration_count =
            (if exp_length \<le> 32 \<and> exp_highp = 0 then 0
             else if exp_length \<le> 32 then bit_len exp_highp - 1
             else saturating_add (saturating_mul multiplier (exp_length - 32)) (max 1 (bit_len exp_highp) - 1))
      in max iteration_count 1)"

definition saturating_to_u64 :: "u256 \<Rightarrow> u64" where
  "saturating_to_u64 x = (if x \<le> 0xFFFFFFFFFFFFFFFF then ucast x else - 1)"

definition modexp_gas_calc ::
    "u64 \<Rightarrow> u64 \<Rightarrow> u256 \<Rightarrow> (u64 \<Rightarrow> u256) \<Rightarrow> u64 \<Rightarrow> u64 \<Rightarrow> u64 \<Rightarrow> u256 \<Rightarrow> u64" where
  "modexp_gas_calc min_price multiplier gas_divisor multiplication_complexity base_len exp_len mod_len exp_highp =
     (let complexity = multiplication_complexity (max base_len mod_len);
          iteration_count = calculate_iteration_count multiplier exp_len exp_highp;
          g = (complexity * ucast iteration_count) div gas_divisor
      in max min_price (saturating_to_u64 g))"

definition byzantium_complexity :: "u64 \<Rightarrow> u256" where
  "byzantium_complexity max_len =
     (if max_len \<le> 64 then ucast (max_len * max_len)
      else if max_len \<le> 1024 then ucast (max_len * max_len div 4 + 96 * max_len - 3072)
      else (let x = ucast max_len in x * x div 16 + 480 * x - 199680))"

text \<open>The number of 8-byte words, rounded up without overflow.\<close>

definition words8 :: "u64 \<Rightarrow> u256" where
  "words8 n = ucast (n div 8 + (if n mod 8 > 0 then 1 else 0))"

definition byzantium_gas_calc :: "u64 \<Rightarrow> u64 \<Rightarrow> u64 \<Rightarrow> u256 \<Rightarrow> u64" where
  "byzantium_gas_calc = modexp_gas_calc 0 8 20 byzantium_complexity"

definition berlin_gas_calc :: "u64 \<Rightarrow> u64 \<Rightarrow> u64 \<Rightarrow> u256 \<Rightarrow> u64" where
  "berlin_gas_calc = modexp_gas_calc 200 8 3 (\<lambda>max_len. words8 max_len * words8 max_len)"

definition osaka_gas_calc :: "u64 \<Rightarrow> u64 \<Rightarrow> u64 \<Rightarrow> u256 \<Rightarrow> u64" where
  "osaka_gas_calc = modexp_gas_calc 500 16 1
     (\<lambda>max_len. if max_len \<le> 32 then 16 else words8 max_len * words8 max_len * 2)"

definition usize_try_from :: "u256 \<Rightarrow> usize option" where
  "usize_try_from x = (if x \<le> 0xFFFFFFFFFFFFFFFF then Some (ucast x) else None)"

definition INPUT_SIZE_LIMIT :: usize where "INPUT_SIZE_LIMIT = 1024"

definition modexp_run_inner ::
    "bool \<Rightarrow> crypto \<Rightarrow> u64 \<Rightarrow> (u64 \<Rightarrow> u64 \<Rightarrow> u64 \<Rightarrow> u256 \<Rightarrow> u64) \<Rightarrow> precompile_fn" where
  "modexp_run_inner osaka C min_gas calc_gas input gas_limit =
     (if min_gas > gas_limit then pc_error PeOutOfGas
      else
        (case (usize_try_from (from_be_bytes (right_pad_with_offset 32 input 0)),
               usize_try_from (from_be_bytes (right_pad_with_offset 32 input 64))) of
           (Some base_len, Some mod_len) \<Rightarrow>
             (let exp_len = (case usize_try_from (from_be_bytes (right_pad_with_offset 32 input 32)) of
                               Some n \<Rightarrow> n | None \<Rightarrow> - 1)
              in if osaka \<and> (base_len > INPUT_SIZE_LIMIT \<or> mod_len > INPUT_SIZE_LIMIT \<or> exp_len > INPUT_SIZE_LIMIT)
                 then pc_error ModexpEip7823LimitSize
                 else
                   (let exp_highp_len = min exp_len 32;
                        input = get_from 96 input;
                        right_padded_highp = right_pad_with_offset 32 input (unat base_len);
                        exp_highp = from_be_bytes (left_pad 32 (take (unat exp_highp_len) right_padded_highp));
                        gas_cost = calc_gas base_len exp_len mod_len exp_highp
                    in if gas_cost > gas_limit then pc_error PeOutOfGas
                       else if base_len = 0 \<and> mod_len = 0 then pc_output gas_cost []
                       else
                         (let input_len = saturating_add (saturating_add base_len exp_len) mod_len
                          in Option.bind (right_pad_vec input (unat input_len)) (\<lambda>input.
                               if length input < unat base_len + unat exp_len then None
                               else
                                 (let base = take (unat base_len) input;
                                      exponent = take (unat exp_len) (drop (unat base_len) input);
                                      modulus = drop (unat base_len + unat exp_len) input
                                  in or_return (cy_modexp C base exponent modulus) (\<lambda>output.
                                       map_option (\<lambda>bs. Inr (precompile_output_new gas_cost bs))
                                         (left_pad_vec output (unat mod_len))))))))
         | _ \<Rightarrow> pc_error ModexpEip7823LimitSize))"

definition byzantium_run :: "crypto \<Rightarrow> precompile_fn" where
  "byzantium_run C = modexp_run_inner False C 0 byzantium_gas_calc"

definition berlin_run :: "crypto \<Rightarrow> precompile_fn" where
  "berlin_run C = modexp_run_inner False C 200 berlin_gas_calc"

definition osaka_run :: "crypto \<Rightarrow> precompile_fn" where
  "osaka_run C = modexp_run_inner True C 500 osaka_gas_calc"

section \<open>BLAKE2\<close>

definition from_le_bytes :: "bytes \<Rightarrow> u64" where
  "from_le_bytes bs = from_be_bytes (rev bs)"

definition to_le_bytes :: "u64 \<Rightarrow> bytes" where
  "to_le_bytes w = rev (to_be_bytes 8 w)"

definition slice :: "nat \<Rightarrow> nat \<Rightarrow> bytes \<Rightarrow> bytes" where
  "slice s e data = take (e - s) (drop s data)"

text \<open>The default of the trait for the compression.\<close>

definition crypto_blake2_compress :: "32 word \<Rightarrow> u64 list \<Rightarrow> u64 list \<Rightarrow> u64 \<Rightarrow> u64 \<Rightarrow> bool \<Rightarrow> u64 list" where
  "crypto_blake2_compress rounds h m t_0 t_1 f = blake2_compress (unat rounds) h m t_0 t_1 f"

definition blake2_run :: "crypto \<Rightarrow> precompile_fn" where
  "blake2_run C input gas_limit =
     (if length input \<noteq> 213 then pc_error Blake2WrongLength
      else
        (let rounds = (from_be_bytes (slice 0 4 input) :: 32 word);
             gas_used = (ucast rounds :: u64)
         in if gas_used > gas_limit then pc_error PeOutOfGas
            else if input ! 212 \<noteq> 0 \<and> input ! 212 \<noteq> 1 then pc_error Blake2WrongFinalIndicatorFlag
            else
              (let f = (input ! 212 = 1);
                   h = map (\<lambda>i. from_le_bytes (slice (4 + 8 * i) (12 + 8 * i) input)) [0..<8];
                   m = map (\<lambda>i. from_le_bytes (slice (68 + 8 * i) (76 + 8 * i) input)) [0..<16];
                   t_0 = from_le_bytes (slice 196 204 input);
                   t_1 = from_le_bytes (slice 204 212 input);
                   h = cy_blake2_compress C rounds h m t_0 t_1 f
               in pc_output gas_used (concat (map to_le_bytes h)))))"

section \<open>The curve BN254\<close>

definition run_add :: "crypto \<Rightarrow> u64 \<Rightarrow> precompile_fn" where
  "run_add C gas_cost input gas_limit =
     (if gas_cost > gas_limit then pc_error PeOutOfGas
      else
        (let input = right_pad 128 input
         in or_return (cy_bn254_g1_add C (take 64 input) (drop 64 input)) (\<lambda>output. pc_output gas_cost output)))"

definition run_mul :: "crypto \<Rightarrow> u64 \<Rightarrow> precompile_fn" where
  "run_mul C gas_cost input gas_limit =
     (if gas_cost > gas_limit then pc_error PeOutOfGas
      else
        (let input = right_pad 96 input
         in or_return (cy_bn254_g1_mul C (take 64 input) (slice 64 96 input)) (\<lambda>output. pc_output gas_cost output)))"

definition run_pair :: "crypto \<Rightarrow> u64 \<Rightarrow> u64 \<Rightarrow> precompile_fn" where
  "run_pair C pair_per_point_cost pair_base_cost input gas_limit =
     (let gas_used = of_nat (length input div 192) * pair_per_point_cost + pair_base_cost
      in if gas_used > gas_limit then pc_error PeOutOfGas
         else if length input mod 192 \<noteq> 0 then pc_error Bn254PairLength
         else
           (let points = map (\<lambda>idx. (slice (192 * idx) (192 * idx + 64) input,
                                       slice (192 * idx + 64) (192 * idx + 192) input)) [0..<length input div 192]
            in or_return (cy_bn254_pairing_check C points) (\<lambda>r. pc_output gas_used (bool_to_bytes32 r))))"

section \<open>KZG point evaluation and P256\<close>

definition kzg_to_versioned_hash :: "crypto \<Rightarrow> bytes \<Rightarrow> bytes" where
  "kzg_to_versioned_hash C commitment = (cy_sha256 C commitment)[0 := 0x01]"

definition KZG_RETURN_VALUE :: bytes where
  "KZG_RETURN_VALUE =
     to_be_bytes 32 (0x1000 :: u256)
     @ to_be_bytes 32 (0x73eda753299d7d483339d80809a1d80553bda402fffe5bfeffffffff00000001 :: u256)"

definition kzg_run :: "crypto \<Rightarrow> precompile_fn" where
  "kzg_run C input gas_limit =
     (if gas_limit < 50000 then pc_error PeOutOfGas
      else if length input \<noteq> 192 then pc_error BlobInvalidInputLength
      else
        (let versioned_hash = take 32 input;
             commitment = slice 96 144 input
         in if kzg_to_versioned_hash C commitment \<noteq> versioned_hash then pc_error BlobMismatchedVersion
            else
              or_return (cy_verify_kzg_proof C (slice 32 64 input) (slice 64 96 input) commitment (slice 144 192 input))
                (\<lambda>_. pc_output 50000 KZG_RETURN_VALUE)))"

definition verify_impl :: "crypto \<Rightarrow> bytes \<Rightarrow> bool" where
  "verify_impl C input =
     (if length input \<noteq> 160 then False
      else cy_secp256r1_verify_signature C (take 32 input) (slice 32 96 input) (slice 96 160 input))"

definition p256_verify_inner :: "crypto \<Rightarrow> u64 \<Rightarrow> precompile_fn" where
  "p256_verify_inner C gas_cost input gas_limit =
     (if gas_cost > gas_limit then pc_error PeOutOfGas
      else pc_output gas_cost (if verify_impl C input then bool_to_bytes32 True else []))"

section \<open>The curve BLS12-381\<close>

definition remove_fp_padding :: "bytes \<Rightarrow> precompile_error + bytes" where
  "remove_fp_padding input =
     (if length input \<noteq> 64 then Inl Bls12381FpPaddingLength
      else if \<not> list_all (\<lambda>x. x = 0) (take 16 input) then Inl Bls12381FpPaddingInvalid
      else Inr (drop 16 input))"

definition remove_g1_padding :: "bytes \<Rightarrow> precompile_error + g1_point" where
  "remove_g1_padding input =
     (if length input \<noteq> 128 then Inl Bls12381G1PaddingLength
      else
        (case remove_fp_padding (take 64 input) of
           Inl e \<Rightarrow> Inl e
         | Inr x \<Rightarrow> (case remove_fp_padding (slice 64 128 input) of Inl e \<Rightarrow> Inl e | Inr y \<Rightarrow> Inr (x, y))))"

definition remove_g2_padding :: "bytes \<Rightarrow> precompile_error + g2_point" where
  "remove_g2_padding input =
     (if length input \<noteq> 256 then Inl Bls12381G2PaddingLength
      else
        (case remove_fp_padding (slice 0 64 input) of
           Inl e \<Rightarrow> Inl e
         | Inr a \<Rightarrow> (case remove_fp_padding (slice 64 128 input) of
              Inl e \<Rightarrow> Inl e
            | Inr b \<Rightarrow> (case remove_fp_padding (slice 128 192 input) of
                 Inl e \<Rightarrow> Inl e
               | Inr c \<Rightarrow> (case remove_fp_padding (slice 192 256 input) of
                    Inl e \<Rightarrow> Inl e
                  | Inr d \<Rightarrow> Inr (a, b, c, d))))))"

text \<open>Padding a point of two or four field elements; another length fails the assertion.\<close>

definition pad_fp :: "bytes \<Rightarrow> bytes" where
  "pad_fp x = replicate 16 0 @ x"

definition pad_g1_point :: "bytes \<Rightarrow> bytes option" where
  "pad_g1_point unpadded =
     (if length unpadded \<noteq> 96 then None
      else Some (pad_fp (slice 0 48 unpadded) @ pad_fp (slice 48 96 unpadded)))"

definition pad_g2_point :: "bytes \<Rightarrow> bytes option" where
  "pad_g2_point unpadded =
     (if length unpadded \<noteq> 192 then None
      else Some (pad_fp (slice 0 48 unpadded) @ pad_fp (slice 48 96 unpadded)
                 @ pad_fp (slice 96 144 unpadded) @ pad_fp (slice 144 192 unpadded)))"

definition padded_output :: "(bytes \<Rightarrow> bytes option) \<Rightarrow> u64 \<Rightarrow> bytes \<Rightarrow> precompile_result option" where
  "padded_output pad gas_used unpadded =
     map_option (\<lambda>bs. Inr (precompile_output_new gas_used bs)) (pad unpadded)"

definition msm_required_gas :: "nat \<Rightarrow> nat list \<Rightarrow> u64 \<Rightarrow> u64" where
  "msm_required_gas k discount_table multiplication_cost =
     (if k = 0 then 0
      else
        (let index = min (k - 1) (length discount_table - 1);
             discount = of_nat (discount_table ! index)
         in (of_nat k * discount * multiplication_cost) div 1000))"

definition DISCOUNT_TABLE_G1_MSM :: "nat list" where
  "DISCOUNT_TABLE_G1_MSM =
     [1000, 949, 848, 797, 764, 750, 738, 728, 719, 712, 705, 698, 692, 687, 682, 677,
      673, 669, 665, 661, 658, 654, 651, 648, 645, 642, 640, 637, 635, 632, 630, 627,
      625, 623, 621, 619, 617, 615, 613, 611, 609, 608, 606, 604, 603, 601, 599, 598,
      596, 595, 593, 592, 591, 589, 588, 586, 585, 584, 582, 581, 580, 579, 577, 576,
      575, 574, 573, 572, 570, 569, 568, 567, 566, 565, 564, 563, 562, 561, 560, 559,
      558, 557, 556, 555, 554, 553, 552, 551, 550, 549, 548, 547, 547, 546, 545, 544,
      543, 542, 541, 540, 540, 539, 538, 537, 536, 536, 535, 534, 533, 532, 532, 531,
      530, 529, 528, 528, 527, 526, 525, 525, 524, 523, 522, 522, 521, 520, 520, 519]"

definition DISCOUNT_TABLE_G2_MSM :: "nat list" where
  "DISCOUNT_TABLE_G2_MSM =
     [1000, 1000, 923, 884, 855, 832, 812, 796, 782, 770, 759, 749, 740, 732, 724, 717,
      711, 704, 699, 693, 688, 683, 679, 674, 670, 666, 663, 659, 655, 652, 649, 646,
      643, 640, 637, 634, 632, 629, 627, 624, 622, 620, 618, 615, 613, 611, 609, 607,
      606, 604, 602, 600, 598, 597, 595, 593, 592, 590, 589, 587, 586, 584, 583, 582,
      580, 579, 578, 576, 575, 574, 573, 571, 570, 569, 568, 567, 566, 565, 563, 562,
      561, 560, 559, 558, 557, 556, 555, 554, 553, 552, 552, 551, 550, 549, 548, 547,
      546, 545, 545, 544, 543, 542, 541, 541, 540, 539, 538, 537, 537, 536, 535, 535,
      534, 533, 532, 532, 531, 530, 530, 529, 528, 528, 527, 526, 526, 525, 524, 524]"

definition g1_add :: "crypto \<Rightarrow> precompile_fn" where
  "g1_add C input gas_limit =
     (if 375 > gas_limit then pc_error PeOutOfGas
      else if length input \<noteq> 256 then pc_error Bls12381G1AddInputLength
      else
        or_return (remove_g1_padding (take 128 input)) (\<lambda>a.
        or_return (remove_g1_padding (drop 128 input)) (\<lambda>b.
        or_return (cy_bls12_381_g1_add C a b) (padded_output pad_g1_point 375))))"

definition g1_msm :: "crypto \<Rightarrow> precompile_fn" where
  "g1_msm C input gas_limit =
     (if length input = 0 \<or> length input mod 160 \<noteq> 0 then pc_error Bls12381G1MsmInputLength
      else
        (let k = length input div 160;
             required_gas = msm_required_gas k DISCOUNT_TABLE_G1_MSM 12000
         in if required_gas > gas_limit then pc_error PeOutOfGas
            else
              (let pairs = map (\<lambda>i. let start = i * 160 in
                         case remove_g1_padding (slice start (start + 128) input) of
                           Inl e \<Rightarrow> Inl e
                         | Inr p \<Rightarrow> Inr (p, slice (start + 128) (start + 160) input)) [0..<k]
               in or_return (cy_bls12_381_g1_msm C pairs) (padded_output pad_g1_point required_gas))))"

definition g2_add :: "crypto \<Rightarrow> precompile_fn" where
  "g2_add C input gas_limit =
     (if 600 > gas_limit then pc_error PeOutOfGas
      else if length input \<noteq> 512 then pc_error Bls12381G2AddInputLength
      else
        or_return (remove_g2_padding (take 256 input)) (\<lambda>a.
        or_return (remove_g2_padding (drop 256 input)) (\<lambda>b.
        or_return (cy_bls12_381_g2_add C a b) (padded_output pad_g2_point 600))))"

definition g2_msm :: "crypto \<Rightarrow> precompile_fn" where
  "g2_msm C input gas_limit =
     (if length input = 0 \<or> length input mod 288 \<noteq> 0 then pc_error Bls12381G2MsmInputLength
      else
        (let k = length input div 288;
             required_gas = msm_required_gas k DISCOUNT_TABLE_G2_MSM 22500
         in if required_gas > gas_limit then pc_error PeOutOfGas
            else
              (let pairs = map (\<lambda>i. let start = i * 288 in
                         case remove_g2_padding (slice start (start + 256) input) of
                           Inl e \<Rightarrow> Inl e
                         | Inr p \<Rightarrow> Inr (p, slice (start + 256) (start + 288) input)) [0..<k]
               in or_return (cy_bls12_381_g2_msm C pairs) (padded_output pad_g2_point required_gas))))"

definition map_fp_to_g1 :: "crypto \<Rightarrow> precompile_fn" where
  "map_fp_to_g1 C input gas_limit =
     (if 5500 > gas_limit then pc_error PeOutOfGas
      else if length input \<noteq> 64 then pc_error Bls12381MapFpToG1InputLength
      else
        or_return (remove_fp_padding input) (\<lambda>fp.
        or_return (cy_bls12_381_fp_to_g1 C fp) (padded_output pad_g1_point 5500)))"

definition map_fp2_to_g2 :: "crypto \<Rightarrow> precompile_fn" where
  "map_fp2_to_g2 C input gas_limit =
     (if 23800 > gas_limit then pc_error PeOutOfGas
      else if length input \<noteq> 128 then pc_error Bls12381MapFp2ToG2InputLength
      else
        or_return (remove_fp_padding (take 64 input)) (\<lambda>x.
        or_return (remove_fp_padding (slice 64 128 input)) (\<lambda>y.
        or_return (cy_bls12_381_fp2_to_g2 C (x, y)) (padded_output pad_g2_point 23800))))"

text \<open>The pairs of the pairing check, up to the first that is badly padded.\<close>

fun pairing_pairs :: "bytes \<Rightarrow> nat list \<Rightarrow> precompile_error + (g1_point \<times> g2_point) list" where
  "pairing_pairs input [] = Inr []"
| "pairing_pairs input (i # ks) =
     (case remove_g1_padding (slice (i * 384) (i * 384 + 128) input) of
        Inl e \<Rightarrow> Inl e
      | Inr a \<Rightarrow>
          (case remove_g2_padding (slice (i * 384 + 128) (i * 384 + 384) input) of
             Inl e \<Rightarrow> Inl e
           | Inr b \<Rightarrow> (case pairing_pairs input ks of Inl e \<Rightarrow> Inl e | Inr ps \<Rightarrow> Inr ((a, b) # ps))))"

definition bls12_pairing :: "crypto \<Rightarrow> precompile_fn" where
  "bls12_pairing C input gas_limit =
     (if length input = 0 \<or> length input mod 384 \<noteq> 0 then pc_error Bls12381PairingInputLength
      else
        (let k = length input div 384;
             required_gas = 32600 * of_nat k + 37700
         in if required_gas > gas_limit then pc_error PeOutOfGas
            else
              or_return (pairing_pairs input [0..<k]) (\<lambda>pairs.
              or_return (cy_bls12_381_pairing_check C pairs) (\<lambda>r. pc_output required_gas (bool_to_bytes32 r)))))"

section \<open>The precompiles of each hardfork\<close>

definition pc :: "precompile_id \<Rightarrow> u64 \<Rightarrow> precompile_fn \<Rightarrow> precompile" where
  "pc i a f = \<lparr>pc_id = i, pc_address = u64_to_address a, pc_fn = f\<rparr>"

definition precompiles_homestead :: "crypto \<Rightarrow> precompiles" where
  "precompiles_homestead C =
     precompiles_extend
       [pc EcRec 1 (ec_recover_run C), pc Sha256 2 (sha256_run C), pc Ripemd160 3 (ripemd160_run C),
        pc Identity 4 identity_run]
       precompiles_default"

definition precompiles_byzantium :: "crypto \<Rightarrow> precompiles" where
  "precompiles_byzantium C =
     precompiles_extend
       [pc ModExp 5 (byzantium_run C), pc Bn254Add 6 (run_add C 500), pc Bn254Mul 7 (run_mul C 40000),
        pc Bn254Pairing 8 (run_pair C 80000 100000)]
       (precompiles_homestead C)"

definition precompiles_istanbul :: "crypto \<Rightarrow> precompiles" where
  "precompiles_istanbul C =
     precompiles_extend
       [pc Bn254Add 6 (run_add C 150), pc Bn254Mul 7 (run_mul C 6000), pc Bn254Pairing 8 (run_pair C 34000 45000),
        pc Blake2F 9 (blake2_run C)]
       (precompiles_byzantium C)"

definition precompiles_berlin :: "crypto \<Rightarrow> precompiles" where
  "precompiles_berlin C = precompiles_extend [pc ModExp 5 (berlin_run C)] (precompiles_istanbul C)"

definition precompiles_cancun :: "crypto \<Rightarrow> precompiles" where
  "precompiles_cancun C = precompiles_extend [pc KzgPointEvaluation 0x0A (kzg_run C)] (precompiles_berlin C)"

definition bls12_381_precompiles :: "crypto \<Rightarrow> precompile list" where
  "bls12_381_precompiles C =
     [pc Bls12G1Add 0x0B (g1_add C), pc Bls12G1Msm 0x0C (g1_msm C), pc Bls12G2Add 0x0D (g2_add C),
      pc Bls12G2Msm 0x0E (g2_msm C), pc Bls12Pairing 0x0F (bls12_pairing C),
      pc Bls12MapFpToGp1 0x10 (map_fp_to_g1 C), pc Bls12MapFp2ToGp2 0x11 (map_fp2_to_g2 C)]"

definition precompiles_prague :: "crypto \<Rightarrow> precompiles" where
  "precompiles_prague C = precompiles_extend (bls12_381_precompiles C) (precompiles_cancun C)"

definition precompiles_osaka :: "crypto \<Rightarrow> precompiles" where
  "precompiles_osaka C =
     precompiles_extend [pc ModExp 5 (osaka_run C), pc P256Verify 256 (p256_verify_inner C 6900)] (precompiles_prague C)"

fun precompiles_new :: "crypto \<Rightarrow> precompile_spec_id \<Rightarrow> precompiles" where
  "precompiles_new C PsHomestead = precompiles_homestead C"
| "precompiles_new C PsByzantium = precompiles_byzantium C"
| "precompiles_new C PsIstanbul = precompiles_istanbul C"
| "precompiles_new C PsBerlin = precompiles_berlin C"
| "precompiles_new C PsCancun = precompiles_cancun C"
| "precompiles_new C PsPrague = precompiles_prague C"
| "precompiles_new C PsOsaka = precompiles_osaka C"

end
