(* ===== verification/Precompile_Safety.thy ===== *)
theory Precompile_Safety
  imports Frame_Safety Precompile_Fns
begin

text \<open>
  The precompiled contracts never panic and never use more gas than their limit, for every hardfork:
  what \<open>EthPrecompiles::run\<close> asserts of a successful result. The gas of modular exponentiation bounds
  the lengths its input declares, so the padded copy of the input can be allocated.
\<close>

section \<open>The contract of a precompile\<close>

definition crypto_ok :: "crypto \<Rightarrow> bool" where
  "crypto_ok C \<longleftrightarrow> (\<forall>x. length (cy_sha256 C x) = 32) \<and> (\<forall>x. length (cy_ripemd160 C x) = 32)
     \<and> (\<forall>x y r. cy_bn254_g1_add C x y = Inr r \<longrightarrow> length r = 64)
     \<and> (\<forall>x y r. cy_bn254_g1_mul C x y = Inr r \<longrightarrow> length r = 64)
     \<and> (\<forall>s i m r. cy_secp256k1_ecrecover C s i m = Inr r \<longrightarrow> length r = 32)
     \<and> (\<forall>n h m t u f. length (cy_blake2_compress C n h m t u f) = 8)
     \<and> (\<forall>a b r. cy_bls12_381_g1_add C a b = Inr r \<longrightarrow> length r = 96)
     \<and> (\<forall>ps r. cy_bls12_381_g1_msm C ps = Inr r \<longrightarrow> length r = 96)
     \<and> (\<forall>a b r. cy_bls12_381_g2_add C a b = Inr r \<longrightarrow> length r = 192)
     \<and> (\<forall>ps r. cy_bls12_381_g2_msm C ps = Inr r \<longrightarrow> length r = 192)
     \<and> (\<forall>x r. cy_bls12_381_fp_to_g1 C x = Inr r \<longrightarrow> length r = 96)
     \<and> (\<forall>x r. cy_bls12_381_fp2_to_g2 C x = Inr r \<longrightarrow> length r = 192)"

definition within :: "u64 \<Rightarrow> precompile_result \<Rightarrow> bool" where
  "within gl r \<longleftrightarrow> (\<forall>out. r = Inr out \<longrightarrow> po_gas_used out \<le> gl \<and> length (po_bytes out) < 2 ^ 63)"

definition fn_ok :: "precompile_fn \<Rightarrow> bool" where
  "fn_ok f \<longleftrightarrow> (\<forall>input gl. length input < 2 ^ 63 \<longrightarrow> unat gl < gas_bound \<longrightarrow> ok (within gl) (f input gl))"

lemma within_simps [simp]:
  "within gl (Inl e)" "within gl (Inr (precompile_output_new g bs)) \<longleftrightarrow> g \<le> gl \<and> length bs < 2 ^ 63"
  by (simp_all add: within_def precompile_output_new_def)

lemma or_return_ok: "(\<And>x. r = Inr x \<Longrightarrow> ok (within gl) (f x)) \<Longrightarrow> ok (within gl) (or_return r f)"
  by (auto simp: or_return_def split: sum.split)

lemma padded_output_ok:
  assumes "g \<le> gl"
  shows "length r = 96 \<Longrightarrow> ok (within gl) (padded_output pad_g1_point g r)"
    "length r = 192 \<Longrightarrow> ok (within gl) (padded_output pad_g2_point g r)"
  using assms by (simp_all add: padded_output_def pad_g1_point_def pad_g2_point_def pad_fp_def slice_def)

lemma hash_fns_ok:
  assumes "crypto_ok C"
  shows "fn_ok identity_run" "fn_ok (sha256_run C)" "fn_ok (ripemd160_run C)" "fn_ok (ec_recover_run C)"
  using assms by (auto simp: crypto_ok_def fn_ok_def identity_run_def sha256_run_def ripemd160_run_def ec_recover_run_def Let_def
      not_less split: sum.split)

lemma bn254_fns_ok:
  assumes "crypto_ok C"
  shows "fn_ok (run_add C g)" "fn_ok (run_mul C g)" "fn_ok (run_pair C g g')"
  using assms by (auto simp: crypto_ok_def fn_ok_def run_add_def run_mul_def run_pair_def Let_def not_less bool_to_bytes32_def
      intro!: or_return_ok)

lemma bls12_fns_ok:
  assumes "crypto_ok C"
  shows "fn_ok (g1_add C)" "fn_ok (g1_msm C)" "fn_ok (g2_add C)" "fn_ok (g2_msm C)" "fn_ok (bls12_pairing C)"
    "fn_ok (map_fp_to_g1 C)" "fn_ok (map_fp2_to_g2 C)"
  using assms by (auto simp: crypto_ok_def fn_ok_def g1_add_def g1_msm_def g2_add_def g2_msm_def bls12_pairing_def map_fp_to_g1_def
      map_fp2_to_g2_def Let_def not_less bool_to_bytes32_def intro!: or_return_ok padded_output_ok)

lemma other_fns_ok:
  assumes "crypto_ok C"
  shows "fn_ok (blake2_run C)" "fn_ok (kzg_run C)" "fn_ok (p256_verify_inner C g)"
  using assms
  by (auto simp: crypto_ok_def fn_ok_def blake2_run_def kzg_run_def p256_verify_inner_def Let_def not_less bool_to_bytes32_def KZG_RETURN_VALUE_def
      length_concat to_le_bytes_def comp_def sum_list_triv intro!: or_return_ok)

section \<open>Modular exponentiation\<close>

text \<open>What the gas charged for lengths has to imply: the whole input can be allocated.\<close>

definition prices_lengths :: "(u64 \<Rightarrow> u64 \<Rightarrow> u64 \<Rightarrow> u256 \<Rightarrow> u64) \<Rightarrow> bool" where
  "prices_lengths calc \<longleftrightarrow> (\<forall>b e m h. unat (calc b e m h) < 2 ^ 55 - 1 \<longrightarrow> b \<noteq> 0 \<or> m \<noteq> 0
     \<longrightarrow> unat b + unat e + unat m < 2 ^ 63)"

text \<open>The complexities of the hardforks grow at least like the square of the length.\<close>

definition quadratic :: "(u64 \<Rightarrow> u256) \<Rightarrow> bool" where
  "quadratic F \<longleftrightarrow> (\<forall>n. unat n * unat n \<le> 64 * unat (F n) \<and> unat (F n) < 2 ^ 130 \<and> (n \<noteq> 0 \<longrightarrow> 1 \<le> unat (F n)))"

lemma iteration_count_bound: "8 * (unat e - 32) \<le> unat (calculate_iteration_count 8 e h) \<or> unat (calculate_iteration_count 8 e h) = 2 ^ 64 - 1"
proof (cases "e \<le> 32")
  case True
  then show ?thesis by (simp add: word_le_nat_alt)
next
  case False
  then have e: "32 < unat e" and s: "unat (e - 32) = unat e - 32"
    by (simp_all add: word_le_nat_alt unat_sub_if_size)
  have m: "unat (saturating_mul 8 (e - 32)) = min (8 * (unat e - 32)) (2 ^ 64 - 1)"
    by (simp add: unat_saturating_mul s)
  have "unat (saturating_mul 8 (e - 32)) \<le> unat (calculate_iteration_count 8 e h)"
    using False by (simp add: calculate_iteration_count_def Let_def max_def word_le_nat_alt unat_saturating_add
        split: if_splits) (use unsigned_less [of "saturating_mul 8 (e - 32)", where 'a = nat] in \<open>auto simp: min_def\<close>)
  then show ?thesis
    using m unsigned_less [of "calculate_iteration_count 8 e h", where 'a = nat] by (auto simp: min_def split: if_splits)
qed

lemma iteration_count_pos: "1 \<le> unat (calculate_iteration_count k e h)"
  by (auto simp: calculate_iteration_count_def Let_def max_def word_le_nat_alt)

lemma unat_saturating_to: "unat (saturating_to_u64 x) = min (unat x) (2 ^ 64 - 1)"
proof (cases "unat x \<le> 0xFFFFFFFFFFFFFFFF")
  case True
  then show ?thesis
    by (simp add: saturating_to_u64_def word_le_nat_alt unat_ucast_small)
next
  case False
  then show ?thesis
    by (simp add: saturating_to_u64_def word_le_nat_alt unat_minus_one_eq)
qed

lemma square_bound: "n * n \<le> 64 * (20 * 2 ^ 55) \<Longrightarrow> n < (2 ^ 33 :: nat)"
proof (rule ccontr)
  assume "n * n \<le> 64 * (20 * 2 ^ 55)" "\<not> n < 2 ^ 33"
  moreover from this(2) have "2 ^ 33 * 2 ^ 33 \<le> n * n"
    by (intro mult_le_mono) simp_all
  ultimately show False by simp
qed

lemma gas_calc_prices_lengths:
  assumes F: "quadratic F" and d: "0 < unat d" "unat d \<le> 20"
  shows "prices_lengths (modexp_gas_calc mp 8 d F)"
  unfolding prices_lengths_def
proof (intro allI impI)
  fix b e m h
  assume g: "unat (modexp_gas_calc mp 8 d F b e m h) < 2 ^ 55 - 1" and nz: "b \<noteq> 0 \<or> m \<noteq> 0"
  define n where "n = max b m"
  define i where "i = calculate_iteration_count 8 e h"
  have n: "n \<noteq> 0" "unat b \<le> unat n" "unat m \<le> unat n"
    using nz by (auto simp: n_def max_def word_le_nat_alt unat_eq_zero)
  have Fn: "unat n * unat n \<le> 64 * unat (F n)" "unat (F n) < 2 ^ 130" "1 \<le> unat (F n)"
    using F n by (auto simp: quadratic_def)
  have i: "1 \<le> unat i" "unat i < 2 ^ 64" "8 * (unat e - 32) \<le> unat i \<or> unat i = 2 ^ 64 - 1"
    using iteration_count_pos iteration_count_bound unsigned_less [of i, where 'a = nat] by (auto simp: i_def)
  have "unat (F n) * unat i < 2 ^ 130 * 2 ^ 64"
    using Fn i by (intro mult_strict_mono) simp_all
  then have p: "unat (F n * ucast i) = unat (F n) * unat i"
    using i by (simp add: unat_word_ariths unat_ucast_small)
  have "unat (saturating_to_u64 (F n * ucast i div d)) < 2 ^ 55 - 1"
    using g by (simp add: modexp_gas_calc_def Let_def n_def i_def max_def word_le_nat_alt split: if_splits)
  then have "unat (F n) * unat i div unat d < 2 ^ 55 - 1"
    by (simp add: unat_saturating_to unat_div p min_def split: if_splits)
  then have "unat (F n) * unat i < (2 ^ 55 - 1) * unat d"
    using d by (simp add: div_less_iff_less_mult)
  also have "\<dots> \<le> (2 ^ 55 - 1) * 20"
    using d by simp
  finally have l: "unat (F n) * unat i < (2 ^ 55 - 1) * 20" .
  have "unat (F n) \<le> unat (F n) * unat i" "unat i \<le> unat (F n) * unat i"
    using Fn i by simp_all
  then have "unat n * unat n \<le> 64 * (20 * 2 ^ 55)" "unat i < 20 * 2 ^ 55"
    using Fn l by linarith+
  then show "unat b + unat e + unat m < 2 ^ 63"
    using square_bound n i by fastforce
qed

lemma unat_words8: "unat (words8 n) = (unat n + 7) div 8"
proof -
  have n: "unat n < 2 ^ 64" using unsigned_less [of n, where 'a = nat] by simp
  have "unat (n div 8 + (if n mod 8 > 0 then 1 else 0)) = (unat n + 7) div 8"
    using n by (auto simp: unat_word_ariths unat_div unat_mod word_less_nat_alt) presburger+
  then show ?thesis by (simp add: words8_def unat_ucast_up)
qed

lemma quadratic_words8: "quadratic (\<lambda>n. words8 n * words8 n)"
  unfolding quadratic_def
proof
  fix n :: u64
  define w where "w = (unat n + 7) div 8"
  have n: "unat n < 2 ^ 64" using unsigned_less [of n, where 'a = nat] by simp
  have w: "unat n \<le> 8 * w" "w \<le> 2 ^ 61" "n \<noteq> 0 \<longrightarrow> 1 \<le> w"
    using n by (auto simp: w_def unat_gt_0 [symmetric] simp del: unat_gt_0)
  then have sq: "unat n * unat n \<le> (8 * w) * (8 * w)" "w * w \<le> 2 ^ 61 * 2 ^ 61"
    by (intro mult_le_mono; simp)+
  then have "unat (words8 n * words8 n) = w * w"
    by (simp add: unat_word_ariths unat_words8 w_def)
  then show "unat n * unat n \<le> 64 * unat (words8 n * words8 n) \<and> unat (words8 n * words8 n) < 2 ^ 130
      \<and> (n \<noteq> 0 \<longrightarrow> 1 \<le> unat (words8 n * words8 n))"
    using sq w by auto
qed

lemma unat_byzantium_complexity:
  "unat (byzantium_complexity n) =
     (if unat n \<le> 64 then unat n * unat n
      else if unat n \<le> 1024 then unat n * unat n div 4 + 96 * unat n - 3072
      else unat n * unat n div 16 + 480 * unat n - 199680)"
proof -
  have n: "unat n < 2 ^ 64" using unsigned_less [of n, where 'a = nat] by simp
  then have sq: "unat n * unat n < 2 ^ 64 * 2 ^ 64"
    by (intro mult_strict_mono) simp_all
  consider "unat n \<le> 64" | "64 < unat n" "unat n \<le> 1024" | "1024 < unat n" by linarith
  then show ?thesis
  proof cases
    case 1
    then have "unat n * unat n \<le> 64 * 64" by (intro mult_le_mono)
    with 1 show ?thesis
      by (simp add: byzantium_complexity_def word_le_nat_alt unat_ucast_up unat_word_ariths)
  next
    case 2
    then have "unat n * unat n \<le> 1024 * 1024" by (intro mult_le_mono)
    with 2 show ?thesis
      by (simp add: byzantium_complexity_def word_le_nat_alt unat_ucast_up unat_word_ariths unat_div unat_sub_if_size)
  next
    case 3
    with sq n show ?thesis
      by (simp add: byzantium_complexity_def Let_def word_le_nat_alt unat_ucast_up unat_word_ariths unat_div unat_sub_if_size)
  qed
qed

lemma quadratic_byzantium: "quadratic byzantium_complexity"
  unfolding quadratic_def
proof
  fix n :: u64
  have n: "unat n < 2 ^ 64" using unsigned_less [of n, where 'a = nat] by simp
  then have sq: "unat n * unat n < 2 ^ 64 * 2 ^ 64"
    by (intro mult_strict_mono) simp_all
  then show "unat n * unat n \<le> 64 * unat (byzantium_complexity n) \<and> unat (byzantium_complexity n) < 2 ^ 130
      \<and> (n \<noteq> 0 \<longrightarrow> 1 \<le> unat (byzantium_complexity n))"
    using n by (auto simp: unat_byzantium_complexity unat_gt_0 [symmetric] simp del: unat_gt_0)
qed

lemma modexp_input_ok:
  assumes "unat b + unat e + unat m < 2 ^ 63" "length (input :: bytes) < 2 ^ 63"
  obtains input' where "right_pad_vec input (unat (saturating_add (saturating_add b e) m)) = Some input'"
    "length input' = unat b + unat e + unat m" "unat (m :: u64) < 2 ^ 63"
proof -
  have "unat (saturating_add (saturating_add b e) m) = unat b + unat e + unat m"
    using assms by (simp add: unat_saturating_add)
  then show ?thesis
    using assms that by (cases "unat b + unat e + unat m \<le> length input") (auto simp: right_pad_vec_def)
qed

lemma left_pad_vec_ok: "n < 2 ^ 63 \<Longrightarrow> \<exists>bs. left_pad_vec data n = Some bs \<and> length bs = n"
  by (auto simp: left_pad_vec_def)

lemma modexp_fn_ok:
  assumes c: "osaka \<or> prices_lengths calc"
  shows "fn_ok (modexp_run_inner osaka C mg calc)"
  unfolding fn_ok_def
proof (intro allI impI)
  fix input :: bytes and gl :: u64
  assume l: "length input < 2 ^ 63" and g: "unat gl < gas_bound"
  have body: "ok (within gl)
      (Option.bind (right_pad_vec (get_from 96 input) (unat (saturating_add (saturating_add b e) m))) (\<lambda>input.
         if length input < unat b + unat e then None
         else or_return (cy_modexp C (take (unat b) input) (take (unat e) (drop (unat b) input)) (drop (unat b + unat e) input))
                (\<lambda>output. map_option (\<lambda>bs. Inr (precompile_output_new gc bs)) (left_pad_vec output (unat m)))))"
    if gc: "gc \<le> gl" and n: "unat b + unat e + unat m < 2 ^ 63" for b e m gc :: u64
  proof -
    have "length (get_from 96 input) < 2 ^ 63" using l by (auto simp: get_from_def)
    then obtain i' where i': "right_pad_vec (get_from 96 input) (unat (saturating_add (saturating_add b e) m)) = Some i'"
        "length i' = unat b + unat e + unat m" "unat m < 2 ^ 63"
      using modexp_input_ok [OF n] by metis
    have "ok (within gl) (map_option (\<lambda>bs. Inr (precompile_output_new gc bs)) (left_pad_vec out (unat m)))" for out
      using left_pad_vec_ok [OF i'(3), of out] gc i'(3) by auto
    with i'(1,2) show ?thesis by (auto intro!: or_return_ok)
  qed
  have "unat b + unat e + unat m < 2 ^ 63"
    if "\<not> calc b e m h > gl" "b \<noteq> 0 \<or> m \<noteq> 0" "osaka \<longrightarrow> b \<le> 1024 \<and> m \<le> 1024 \<and> e \<le> 1024" for b e m h
  proof (cases osaka)
    case True
    with that(3) show ?thesis by (simp add: word_le_nat_alt)
  next
    case False
    then have "prices_lengths calc" using c by simp
    moreover have "unat (calc b e m h) < 2 ^ 55 - 1" using that(1) g by (simp add: not_less word_le_nat_alt)
    ultimately show ?thesis using that(2) unfolding prices_lengths_def by blast
  qed
  then show "ok (within gl) (modexp_run_inner osaka C mg calc input gl)"
    by (auto simp: modexp_run_inner_def Let_def INPUT_SIZE_LIMIT_def not_less cong: if_cong split: option.split intro!: body)
qed

lemma modexp_fns_ok: "fn_ok (byzantium_run C)" "fn_ok (berlin_run C)" "fn_ok (osaka_run C)"
proof -
  show "fn_ok (byzantium_run C)"
    unfolding byzantium_run_def byzantium_gas_calc_def
    by (intro modexp_fn_ok disjI2 gas_calc_prices_lengths quadratic_byzantium) simp_all
  show "fn_ok (berlin_run C)"
    unfolding berlin_run_def berlin_gas_calc_def
    by (intro modexp_fn_ok disjI2 gas_calc_prices_lengths quadratic_words8) simp_all
  show "fn_ok (osaka_run C)" unfolding osaka_run_def by (intro modexp_fn_ok) simp
qed

section \<open>The sets of precompiles of the hardforks\<close>

definition pcs_ok :: "precompiles \<Rightarrow> bool" where
  "pcs_ok p \<longleftrightarrow> precompiles_inv p \<and> (\<forall>a x. pcs_inner p a = Some x \<longrightarrow> fn_ok (pc_fn x))"

lemma pcs_ok_default: "pcs_ok precompiles_default"
  by (simp add: pcs_ok_def precompiles_inv_default) (simp add: precompiles_default_def)

lemma pcs_ok_extend:
  assumes "pcs_ok p" "list_all (\<lambda>x. fn_ok (pc_fn x)) xs"
  shows "pcs_ok (precompiles_extend xs p)"
  unfolding pcs_ok_def
proof (intro conjI allI impI)
  show "precompiles_inv (precompiles_extend xs p)" using assms(1) by (simp add: pcs_ok_def extend_inv)
  fix a x
  assume x: "pcs_inner (precompiles_extend xs p) a = Some x"
  show "fn_ok (pc_fn x)"
  proof (cases "find (\<lambda>x. pc_address x = a) (rev xs)")
    case None
    then show ?thesis using x assms(1) by (simp add: pcs_ok_def extend_inner)
  next
    case (Some y)
    then have "y \<in> set xs" by (metis find_Some_iff nth_mem set_rev)
    then show ?thesis using x Some assms(2) by (simp add: extend_inner list_all_iff)
  qed
qed

lemmas precompile_fns_ok = hash_fns_ok bn254_fns_ok bls12_fns_ok other_fns_ok

lemma pc_fn_pc [simp]: "pc_fn (pc i a f) = f"
  by (simp add: pc_def)

lemma precompiles_new_pcs_ok:
  assumes "crypto_ok C"
  shows "pcs_ok (precompiles_new C s)"
proof -
  note fns = precompile_fns_ok [OF assms] modexp_fns_ok
  have homestead: "pcs_ok (precompiles_homestead C)"
    unfolding precompiles_homestead_def by (rule pcs_ok_extend [OF pcs_ok_default]) (simp add: fns)
  have byzantium: "pcs_ok (precompiles_byzantium C)"
    unfolding precompiles_byzantium_def by (rule pcs_ok_extend [OF homestead]) (simp add: fns)
  have istanbul: "pcs_ok (precompiles_istanbul C)"
    unfolding precompiles_istanbul_def by (rule pcs_ok_extend [OF byzantium]) (simp add: fns)
  have berlin: "pcs_ok (precompiles_berlin C)"
    unfolding precompiles_berlin_def by (rule pcs_ok_extend [OF istanbul]) (simp add: fns)
  have cancun: "pcs_ok (precompiles_cancun C)"
    unfolding precompiles_cancun_def by (rule pcs_ok_extend [OF berlin]) (simp add: fns)
  have prague: "pcs_ok (precompiles_prague C)"
    unfolding precompiles_prague_def bls12_381_precompiles_def by (rule pcs_ok_extend [OF cancun]) (simp add: fns)
  have "pcs_ok (precompiles_osaka C)"
    unfolding precompiles_osaka_def by (rule pcs_ok_extend [OF prague]) (simp add: fns)
  with homestead byzantium istanbul berlin cancun prague show ?thesis by (cases s) simp_all
qed

lemma precompiles_new_ok: "crypto_ok C \<Longrightarrow> ep_precompiles P = precompiles_new C s \<Longrightarrow> precompiles_ok P"
  using precompiles_new_pcs_ok [of C s]
  by (auto simp: precompiles_ok_def pcs_ok_def precompiles_get_inner fn_ok_def within_def [abs_def])

text \<open>C10. The precompiled contracts of every hardfork return without a panic, and a successful one uses
  no more gas than its limit, which is what \<open>EthPrecompiles::run\<close> asserts: for every input below
  \<open>isize::MAX\<close> bytes and every gas limit below \<open>2\<^sup>5\<^sup>5 - 1\<close>, whatever the cryptographic library computes, as long
  as its results have the declared lengths. In particular the lengths a modular exponentiation declares are
  paid for before they are allocated.\<close>
theorem precompiles_return_within_gas:
  assumes "crypto_ok C" "precompiles_get a (precompiles_new C s) = Some p" "length input < 2 ^ 63" "unat gl < 2 ^ 55 - 1"
  shows "\<exists>r. pc_fn p input gl = Some r \<and> (\<forall>out. r = Inr out \<longrightarrow> po_gas_used out \<le> gl)"
proof -
  have "fn_ok (pc_fn p)"
    using precompiles_new_pcs_ok [OF assms(1), of s] assms(2) by (simp add: pcs_ok_def precompiles_get_inner)
  then have "ok (within gl) (pc_fn p input gl)" using assms(3,4) by (simp add: fn_ok_def)
  then show ?thesis by (auto simp: ok_iff within_def)
qed

text \<open>A library that computes nothing but the default compression: hashes are zero, points and signatures are
  rejected.\<close>

definition no_crypto :: crypto where
  "no_crypto =
     \<lparr>cy_sha256 = (\<lambda>_. replicate 32 0), cy_ripemd160 = (\<lambda>_. replicate 32 0),
      cy_bn254_g1_add = (\<lambda>_ _. Inl Bn254AffineGFailedToCreate), cy_bn254_g1_mul = (\<lambda>_ _. Inl Bn254AffineGFailedToCreate),
      cy_bn254_pairing_check = (\<lambda>_. Inl Bn254AffineGFailedToCreate),
      cy_secp256k1_ecrecover = (\<lambda>_ _ _. Inl Secp256k1RecoverFailed), cy_modexp = (\<lambda>_ _ m. Inr m),
      cy_blake2_compress = crypto_blake2_compress,
      cy_secp256r1_verify_signature = (\<lambda>_ _ _. False),
      cy_verify_kzg_proof = (\<lambda>_ _ _ _. Inl BlobVerifyKzgProofFailed),
      cy_bls12_381_g1_add = (\<lambda>_ _. Inl Bls12381G1NotOnCurve), cy_bls12_381_g1_msm = (\<lambda>_. Inl Bls12381G1NotOnCurve),
      cy_bls12_381_g2_add = (\<lambda>_ _. Inl Bls12381G2NotOnCurve), cy_bls12_381_g2_msm = (\<lambda>_. Inl Bls12381G2NotOnCurve),
      cy_bls12_381_pairing_check = (\<lambda>_. Inl Bls12381G1NotOnCurve),
      cy_bls12_381_fp_to_g1 = (\<lambda>_. Inl NonCanonicalFp), cy_bls12_381_fp2_to_g2 = (\<lambda>_. Inl NonCanonicalFp)\<rparr>"

lemma no_crypto_ok: "crypto_ok no_crypto"
  by (simp add: crypto_ok_def no_crypto_def crypto_blake2_compress_def blake2_compress_def Let_def)

lemma modexp_in_berlin: "precompiles_get (u64_to_address 5) (precompiles_new no_crypto PsBerlin) = Some (pc ModExp 5 (berlin_run no_crypto))"
  using precompiles_new_pcs_ok [OF no_crypto_ok, of PsBerlin]
  by (simp add: pcs_ok_def precompiles_get_inner) (simp add: precompiles_berlin_def extend_inner pc_def)

theorem precompiles_return_within_gas_witness:
  "crypto_ok no_crypto
   \<and> precompiles_get (u64_to_address 5) (precompiles_new no_crypto PsBerlin) = Some (pc ModExp 5 (berlin_run no_crypto))
   \<and> (\<exists>r. berlin_run no_crypto (replicate 96 0xFF) 1000 = Some r \<and> (\<forall>out. r = Inr out \<longrightarrow> po_gas_used out \<le> 1000))"
  using precompiles_return_within_gas [OF no_crypto_ok modexp_in_berlin, of "replicate 96 0xFF" 1000]
  using no_crypto_ok modexp_in_berlin by simp

section \<open>The gas of modular exponentiation\<close>

text \<open>The specification over the natural numbers, without any bound: the complexity of the longer operand times
  the number of iterations that the exponent of \<open>e\<close> bytes with the head \<open>h\<close> needs, divided, and at least the
  minimum.\<close>

definition iterations :: "nat \<Rightarrow> nat \<Rightarrow> nat \<Rightarrow> nat" where
  "iterations mul e h = max 1 (if e \<le> 32 then bit_length h - 1 else mul * (e - 32) + (bit_length h - 1))"

definition words_of_8 :: "nat \<Rightarrow> nat" where
  "words_of_8 n = (n + 7) div 8"

definition eip2565_gas :: "nat \<Rightarrow> nat \<Rightarrow> nat \<Rightarrow> nat \<Rightarrow> nat" where
  "eip2565_gas b e m h = max 200 (words_of_8 (max b m) ^ 2 * iterations 8 e h div 3)"

definition eip7883_gas :: "nat \<Rightarrow> nat \<Rightarrow> nat \<Rightarrow> nat \<Rightarrow> nat" where
  "eip7883_gas b e m h =
     max 500 ((if max b m \<le> 32 then 16 else 2 * words_of_8 (max b m) ^ 2) * iterations 16 e h)"

text \<open>The value that the saturating 64-bit operations give for a number.\<close>

definition cap64 :: "nat \<Rightarrow> nat" where
  "cap64 n = min n (2 ^ 64 - 1)"

lemma bit_length_le: "n < 2 ^ k \<Longrightarrow> bit_length n \<le> k"
proof (induction k arbitrary: n)
  case (Suc k)
  then have "n div 2 < 2 ^ k" by (simp add: less_mult_imp_div_less)
  then show ?case using Suc.IH [of "n div 2"] by (subst bit_length.simps) auto
qed (simp add: bit_length.simps [of 0])

lemma unat_bit_len: "unat (bit_len h) = bit_length (unat h)"
proof -
  have "unat h < 2 ^ 256" using unsigned_less [of h, where 'a = nat] by simp
  then have "bit_length (unat h) \<le> 256" by (rule bit_length_le)
  then show ?thesis by (simp add: bit_len_def unat_of_nat_small)
qed

lemma unat_max: "unat (max a b) = max (unat a) (unat (b :: 'a::len word))"
  by (simp add: max_def word_le_nat_alt)

lemma bit_length_pos: "0 < n \<Longrightarrow> 0 < bit_length n"
  by (subst bit_length.simps) simp

lemma cap_twice: "1 \<le> M \<Longrightarrow> max (min (min x M + y) M) 1 = min (max 1 (x + y)) (M :: nat)"
  by (auto simp: min_def max_def)

lemma unat_iteration_count:
  "unat (calculate_iteration_count k e h) = cap64 (iterations (unat k) (unat e) (unat h))"
proof -
  have small: "bit_length (unat h) \<le> 256"
    using unsigned_less [of h, where 'a = nat] by (intro bit_length_le) simp
  have pos: "h \<noteq> 0 \<Longrightarrow> unat (bit_len h - 1) = bit_length (unat h) - 1"
    using bit_length_pos [of "unat h"] by (simp add: unat_sub_if_size unat_bit_len unat_gt_0)
  have mx: "unat (max 1 (bit_len h) - 1) = bit_length (unat h) - 1"
    by (simp add: unat_sub_if_size unat_max unat_bit_len word_le_nat_alt)
  have zero: "bit_length 0 = 0" by (simp add: bit_length.simps [of 0])
  show ?thesis
  proof (cases "e \<le> 32")
    case True
    then have "unat (calculate_iteration_count k e h) = max (bit_length (unat h) - 1) 1"
      using pos zero by (simp add: calculate_iteration_count_def Let_def unat_max)
    then show ?thesis using True small by (simp add: iterations_def cap64_def word_le_nat_alt max.commute)
  next
    case False
    then have "unat (e - 32) = unat e - 32" by (simp add: unat_sub_if_size word_le_nat_alt)
    then have "unat (calculate_iteration_count k e h) =
        max (min (min (unat k * (unat e - 32)) (2 ^ 64 - 1) + (bit_length (unat h) - 1)) (2 ^ 64 - 1)) 1"
      using False by (simp add: calculate_iteration_count_def Let_def unat_max unat_saturating_add unat_saturating_mul mx)
    also have "\<dots> = cap64 (max 1 (unat k * (unat e - 32) + (bit_length (unat h) - 1)))"
      unfolding cap64_def by (rule cap_twice) simp
    finally show ?thesis using False by (simp add: iterations_def word_le_nat_alt)
  qed
qed

lemma unat_modexp_gas_calc:
  assumes F: "unat (F (max b m)) < 2 ^ 130"
  shows "unat (modexp_gas_calc mp k d F b e m h) =
    max (unat mp) (cap64 (unat (F (max b m)) * cap64 (iterations (unat k) (unat e) (unat h)) div unat d))"
proof -
  let ?i = "calculate_iteration_count k e h"
  have "unat ?i < 2 ^ 64" using unsigned_less [of ?i, where 'a = nat] by simp
  then have "unat (F (max b m)) * unat ?i < 2 ^ 130 * 2 ^ 64"
    using F by (intro mult_strict_mono) simp_all
  then have "unat (F (max b m) * ucast ?i) = unat (F (max b m)) * unat ?i"
    by (simp add: unat_word_ariths unat_ucast_up)
  then show ?thesis
    by (simp add: modexp_gas_calc_def Let_def unat_max unat_saturating_to unat_div cap64_def [symmetric] unat_iteration_count)
      (simp add: cap64_def)
qed

text \<open>Where the saturated iteration count makes a difference. A complexity of at least four, or one that is
  not divided, saturates the product as well.\<close>

lemma saturated_product:
  assumes "d \<le> c \<or> i < 2 ^ 64" "0 < d"
  shows "cap64 (c * cap64 i div d) = cap64 (c * i div d)"
proof (cases "i < 2 ^ 64")
  case False
  define M :: nat where "M = 2 ^ 64 - 1"
  have i: "M \<le> i" using False by (simp add: M_def)
  have "M * d \<le> c * M" using assms(1) False by simp
  then have 1: "M \<le> c * M div d" using assms(2) by (simp add: less_eq_div_iff_mult_less_eq)
  also have "\<dots> \<le> c * i div d" using i by (intro div_le_mono mult_le_mono2)
  finally have 2: "M \<le> c * i div d" .
  have "cap64 x = min x M" for x by (simp add: cap64_def M_def)
  then show ?thesis by (simp only: min_absorb2 [OF i] min_absorb2 [OF 1] min_absorb2 [OF 2])
qed (simp add: cap64_def)

lemma max_min_absorb: "k \<le> M \<Longrightarrow> max k (min x M) = min (max k x) (M :: nat)"
  by auto

lemma one_word: "words_of_8 n = 1 \<longleftrightarrow> 1 \<le> n \<and> n \<le> 8"
  by (auto simp: words_of_8_def)

lemma words8_square:
  "unat (words8 n * words8 n) = words_of_8 (unat n) ^ 2" "unat (words8 n * words8 n * 2) = 2 * words_of_8 (unat n) ^ 2"
  "2 * words_of_8 (unat n) ^ 2 < 2 ^ 130"
proof -
  define w where "w = words_of_8 (unat n)"
  have "unat n < 2 ^ 64" using unsigned_less [of n, where 'a = nat] by simp
  then have w: "w \<le> 2 ^ 61" "unat (words8 n) = w" by (auto simp: w_def words_of_8_def unat_words8)
  then have "w * w \<le> 2 ^ 61 * 2 ^ 61" by (intro mult_le_mono) simp_all
  then show "unat (words8 n * words8 n) = words_of_8 (unat n) ^ 2" "unat (words8 n * words8 n * 2) = 2 * words_of_8 (unat n) ^ 2"
    "2 * words_of_8 (unat n) ^ 2 < 2 ^ 130"
    using w(2) by (simp_all add: unat_word_ariths power2_eq_square w_def [symmetric])
qed

lemma saturated_square:
  assumes "w \<noteq> 1 \<or> i < 2 ^ 64"
  shows "cap64 (w ^ 2 * cap64 i div 3) = cap64 (w ^ 2 * i div 3)"
proof (cases "w \<le> 1")
  case False
  then have "2 * 2 \<le> w * w" by (intro mult_le_mono) simp_all
  then show ?thesis by (intro saturated_product) (simp_all add: power2_eq_square)
next
  case True
  then show ?thesis using assms saturated_product [of 3 "w ^ 2" i] by (cases "w = 0") auto
qed

text \<open>C19. The gas of modular exponentiation is the formula of EIP-2565 (from Berlin) and of EIP-7883 (from
  Osaka), evaluated without any bound and only then capped at \<open>u64::MAX\<close>: for all lengths and exponent heads the
  saturating 64-bit and wrapping 256-bit steps of the code lose nothing. The one exception, in Berlin, are
  operands of one to eight bytes with an exponent so long that the iteration count exceeds 64 bits: the code
  then charges a third of \<open>u64::MAX\<close>, which is less than the formula gives, and more than any gas limit below
  \<open>2\<^sup>6\<^sup>2\<close>.\<close>
theorem modexp_gas_correct:
  "unat (berlin_gas_calc b e m h) =
     (if 1 \<le> max (unat b) (unat m) \<and> max (unat b) (unat m) \<le> 8 \<and> 2 ^ 64 \<le> iterations 8 (unat e) (unat h)
      then (2 ^ 64 - 1) div 3
      else min (eip2565_gas (unat b) (unat e) (unat m) (unat h)) (2 ^ 64 - 1))
   \<and> unat (osaka_gas_calc b e m h) = min (eip7883_gas (unat b) (unat e) (unat m) (unat h)) (2 ^ 64 - 1)"
proof -
  let ?n = "max b m" and ?i = "iterations 8 (unat e) (unat h)" and ?k = "iterations 16 (unat e) (unat h)"
  define w where "w = words_of_8 (unat ?n)"
  note sq = words8_square [of ?n, folded w_def]
  define c where "c = (if unat ?n \<le> 32 then 16 else 2 * w ^ 2)"
  have c: "1 \<le> c" by (auto simp: c_def w_def words_of_8_def)
  have cap: "max 200 (cap64 x) = min (max 200 x) (2 ^ 64 - 1)" "max 500 (cap64 x) = min (max 500 x) (2 ^ 64 - 1)" for x
    unfolding cap64_def by (intro max_min_absorb; simp)+
  have berlin: "unat (berlin_gas_calc b e m h) = max 200 (cap64 (w ^ 2 * cap64 ?i div 3))"
    unfolding berlin_gas_calc_def by (subst unat_modexp_gas_calc) (use sq in simp_all)
  have "unat (osaka_gas_calc b e m h) = max 500 (cap64 (c * cap64 ?k div 1))"
    unfolding osaka_gas_calc_def c_def by (subst unat_modexp_gas_calc) (use sq in \<open>simp_all add: word_le_nat_alt\<close>)
  also have "\<dots> = max 500 (cap64 (c * ?k))" using c saturated_product [of 1 c ?k] by simp
  finally have osaka: "unat (osaka_gas_calc b e m h) = min (eip7883_gas (unat b) (unat e) (unat m) (unat h)) (2 ^ 64 - 1)"
    unfolding eip7883_gas_def unat_max [symmetric] w_def [symmetric] c_def [symmetric] cap .
  have one: "w = 1 \<longleftrightarrow> 1 \<le> unat ?n \<and> unat ?n \<le> 8" unfolding w_def by (rule one_word)
  show ?thesis
  proof (cases "w = 1 \<and> 2 ^ 64 \<le> ?i")
    case True
    then have "cap64 ?i = 2 ^ 64 - 1" by (simp add: cap64_def)
    then have "unat (berlin_gas_calc b e m h) = (2 ^ 64 - 1) div 3" using True berlin by (simp add: cap64_def)
    then show ?thesis using osaka one True unfolding unat_max [symmetric] by simp
  next
    case False
    then have "cap64 (w ^ 2 * cap64 ?i div 3) = cap64 (w ^ 2 * ?i div 3)" by (intro saturated_square) auto
    then have "unat (berlin_gas_calc b e m h) = min (eip2565_gas (unat b) (unat e) (unat m) (unat h)) (2 ^ 64 - 1)"
      using berlin unfolding eip2565_gas_def unat_max [symmetric] w_def [symmetric] by (simp only: cap)
    then show ?thesis using osaka one False unfolding unat_max [symmetric] by (simp only: if_False simp_thms conj_assoc)
  qed
qed

end
