(* ===== verification/Machine.thy ===== *)
theory Machine
  imports Frame_Loop Precompile_Safety Tx_Build
begin

text \<open>
  The machine as a whole: the interpreter on the host that \<open>Context\<close> implements, and the loop over call
  frames (\<open>run_exec_loop\<close>) with the precompiled contracts of a hardfork. Single steps keep the typing of the
  interpreter, both loops end, and a static call leaves no trace in the state. The database is any that
  satisfies the contract \<open>evm_database\<close>; the hash function and the cryptographic library are parameters.
\<close>

section \<open>The first frame\<close>

text \<open>A frame that \<open>run_exec_loop\<close> can be started with: at depth zero, on an empty memory, with a gas limit
  below \<open>2\<^sup>5\<^sup>5 - 1\<close> and inputs of allocatable size; the accounts of a call are loaded. When \<open>st\<close> holds it is a
  static call that transfers nothing.\<close>

definition first_frame_ok :: "bool \<Rightarrow> journal_inner \<Rightarrow> frame_init \<Rightarrow> bool" where
  "first_frame_ok st j fi \<longleftrightarrow> fi_depth fi = 0 \<and> fi_memory fi = mem_new_with_buffer []
     \<and> request_gas (fi_frame_input fi) < gas_bound \<and> request_ok st j [] [] (fi_frame_input fi)"

lemma first_frame_pending:
  assumes "ctx_ok I (ce_spec (cx_cfg c)) c" "first_frame_ok st (cx_journal c) fi"
  shows "pending I (ce_spec (cx_cfg c)) st c c fi []"
  using assms by (simp add: pending_def first_frame_ok_def mem_new_with_buffer_def vec_len_def frames_total_def
      same_env_def shape.grows_refl read_only_refl)

context evm_database
begin

lemmas step_context = cx.step_fin
lemmas run_context = cx.run_plain_ended

lemma loop_from_first_frame:
  assumes "crypto_ok C" "ep_precompiles (ev_precompiles e) = precompiles_new C s"
    and "fs_inv (ev_frame_stack e)" "fs_index (ev_frame_stack e) = None"
    and "ctx_ok I (ce_spec (cx_cfg (ev_ctx e))) (ev_ctx e)" "first_frame_ok st (cx_journal (ev_ctx e)) fi"
  shows "ok (loop_ok I (ce_spec (cx_cfg (ev_ctx e))) st (ev_ctx e) (request_gas (fi_frame_input fi))) (run_exec_loop X D fi e)"
  by (rule run_exec_loop_ok [OF assms(3,4) precompiles_new_ok [OF assms(1,2)] first_frame_pending [OF assms(5,6)]])

end

section \<open>A small instance\<close>

text \<open>A contract that adds two numbers and stops, on an empty database, to witness the hypotheses of the
  theorems below.\<close>

definition sample_code :: bytecode where
  "sample_code = LegacyAnalyzed
     \<lparr>la_bytecode = [0x60, 1, 0x60, 2, 1, 0], la_original_len = 6, la_jump_table = \<lparr>jt_len = 6, jt_table = [0]\<rparr>\<rparr>"

definition sample_ctx :: "(unit, nat) ctx" where
  "sample_ctx =
     \<lparr>cx_block = \<lparr>be_number = 0, be_beneficiary = 0, be_timestamp = 1, be_gas_limit = - 1, be_basefee = 0,
        be_difficulty = 0, be_prevrandao = Some 0, be_blob_excess_gas_and_price = None\<rparr>,
      cx_tx = tx_of_builder builder_new, cx_cfg = cfg_new_with_spec CANCUN,
      cx_journal = journal_inner_new\<lparr>j_state := [5 \<mapsto> account_from_info account_info_default]\<rparr>,
      cx_db = (), cx_local = \<lparr>lc_shared_memory_buffer = [], lc_precompile_error_message = None\<rparr>,
      cx_error = None, cx_par_7702 = False\<rparr>"

definition sample_interp :: "(unit, nat) ctx instruction_context" where
  "sample_interp =
     with_host
       (interpreter_new (mem_new_with_buffer []) (new_with_optional_hash sample_code None)
          \<lparr>in_target_address = 5, in_bytecode_address = None, in_caller_address = 5, in_input = CallBytes [],
           in_call_value = 0\<rparr> False CANCUN 100)
       sample_ctx"

definition sample_call :: "bool \<Rightarrow> frame_init" where
  "sample_call static =
     \<lparr>fi_depth = 0, fi_memory = mem_new_with_buffer [],
      fi_frame_input = FrameCall
        \<lparr>ci_input = CallBytes [], ci_return_memory_offset = (0, 0), ci_gas_limit = 100, ci_bytecode_address = 5,
         ci_known_bytecode = Some (0, sample_code), ci_target_address = 5, ci_caller = 5,
         ci_value = Transfer 0, ci_scheme = Call, ci_is_static = static\<rparr>\<rparr>"

definition sample_evm :: "(unit, nat) evm" where
  "sample_evm = \<lparr>ev_ctx = sample_ctx,
     ev_precompiles = \<lparr>ep_precompiles = precompiles_new no_crypto PsCancun, ep_spec = CANCUN\<rparr>,
     ev_frame_stack = frame_stack_new\<rparr>"

lemma sample_code_ok: "bytecode_ok sample_code"
proof -
  have "new_legacy [0x60, 1, 0x60, 2, 1, 0] = Some sample_code" unfolding sample_code_def by code_simp
  moreover obtain b where "new_legacy [0x60, 1, 0x60, 2, 1, 0] = Some b" "bytecode_ok b"
    by (rule new_legacy_ok [of "[0x60, 1, 0x60, 2, 1, 0]"]) simp_all
  ultimately show ?thesis by simp
qed

lemma sample_ctx_ok: "ctx_ok (\<lambda>_. True) CANCUN sample_ctx" "warm_in (cx_journal sample_ctx) 5"
  by (auto simp: ctx_ok_def sample_ctx_def journal_wf_def codes_ok_def journal_inner_new_def warm_in_def account_info_default_def code_ok_def
      account_wf_def account_from_info_def status_defs flag_contains_def flag_defs)

lemma sample_interp_ok: "interp_ok (ctx_inv (\<lambda>_. True)) sample_interp"
proof -
  have "mem_gas_inv (gas_new 100) (mem_new_with_buffer [])"
    by (simp add: mem_gas_inv_def mem_inv_def gas_new_def memory_gas_inv_new mem_new_with_buffer_def mem_bytes_def context_memory_def)
      (simp add: memory_gas_new_def)
  moreover have "pc_ok (new_with_optional_hash sample_code None)"
    by (simp add: pc_ok_def new_with_optional_hash_def sample_code_def boundary_start)
  ultimately show ?thesis
    using sample_code_ok sample_ctx_ok
    by (simp add: interp_ok_def sample_interp_def with_host_def interpreter_new_def ctx_inv_def input_ok_def
        new_with_optional_hash_def stack_new_def)
qed

lemma sample_call_ok: "first_frame_ok st (cx_journal sample_ctx) (sample_call st)"
  using sample_code_ok sample_ctx_ok(2) by (simp add: first_frame_ok_def sample_call_def ret_ok_def)

lemma sample_evm_ok:
  "ep_precompiles (ev_precompiles sample_evm) = precompiles_new no_crypto PsCancun"
  "fs_inv (ev_frame_stack sample_evm)" "fs_index (ev_frame_stack sample_evm) = None"
  "ctx_ok (\<lambda>_. True) (ce_spec (cx_cfg (ev_ctx sample_evm))) (ev_ctx sample_evm)" "ev_ctx sample_evm = sample_ctx"
  using sample_ctx_ok(1) fs_inv_new by (simp_all add: sample_evm_def frame_stack_new_def) (simp add: sample_ctx_def cfg_new_with_spec_def)

section \<open>The interpreter\<close>

text \<open>C8. Instructions are well typed. In a running interpreter every step returns without a panic or
  undefined behaviour. If it does not end the frame, the interpreter is again well-formed, the stack has
  changed by exactly the operands and results that \<open>OPCODE_INFO\<close> lists for the opcode, and gas has been spent;
  if it ends the frame, there is an action, and the stack is still within its limit.\<close>
theorem step_typed:
  assumes "evm_database D I" "interp_ok (ctx_inv I) c"
    and "OPCODE_INFO (bytes_ref (eb_base (i_bytecode c)) ! eb_instruction_pointer (i_bytecode c)) = Some info"
  shows "\<exists>c'. step (context_host D) keccak c = Some c'
    \<and> (if is_not_end (i_bytecode c')
       then interp_ok (ctx_inv I) c' \<and> unat (i_remaining c') < unat (i_remaining c)
         \<and> unat (oi_inputs info) \<le> length (i_stack c)
         \<and> length (i_stack c') + unat (oi_inputs info) = length (i_stack c) + unat (oi_outputs info)
       else eb_action (i_bytecode c') \<noteq> None \<and> length (i_stack c') \<le> STACK_LIMIT)"
proof -
  obtain c' where c': "step (context_host D) keccak c = Some c'"
      "fin (ctx_inv I) (ctx_ev I) ctx_err c (int (unat (oi_inputs info))) (int (unat (oi_outputs info))) c'"
    using evm_database.step_context [OF assms(1,2) refl, of keccak] assms(3) by (auto simp: ok_iff stack_effect_def)
  show ?thesis
  proof (cases "is_not_end (i_bytecode c')")
    case True
    then obtain d where d: "1 \<le> d" "good (ctx_inv I) (ctx_ev I) c d (int (unat (oi_inputs info))) (int (unat (oi_outputs info))) c'"
      using c'(2) by (auto simp: fin_def)
    then have "unat (oi_inputs info) \<le> length (i_stack c)"
        "length (i_stack c') + unat (oi_inputs info) = length (i_stack c) + unat (oi_outputs info)"
      unfolding good_def by linarith+
    then show ?thesis using True c'(1) d(1) goodD(1,3) [OF d(2)] by simp
  next
    case False
    then show ?thesis using c' by (auto simp: fin_def ended_def split: option.splits)
  qed
qed

theorem step_typed_witness:
  "interp_ok (ctx_inv (\<lambda>_. True)) sample_interp \<and> OPCODE_INFO 0x60 \<noteq> None
   \<and> (\<exists>c'. step (context_host (empty_db (\<lambda>_. 0))) (\<lambda>_. 0) sample_interp = Some c' \<and> length (i_stack c') \<le> STACK_LIMIT)"
proof -
  have op: "bytes_ref (eb_base (i_bytecode sample_interp)) ! eb_instruction_pointer (i_bytecode sample_interp) = 0x60"
    by (simp add: sample_interp_def with_host_def interpreter_new_def new_with_optional_hash_def sample_code_def)
  obtain info where info: "OPCODE_INFO 0x60 = Some info" by (cases "OPCODE_INFO 0x60") (simp_all, code_simp)
  show ?thesis
    using step_typed [OF empty.evm_database_axioms sample_interp_ok, unfolded op, OF info, of "\<lambda>_. 0" "\<lambda>_. 0"] sample_interp_ok info
    by (auto simp: interp_ok_def split: if_splits)
qed

text \<open>C9. A frame's execution ends: from every well-formed state \<open>run_plain\<close> returns an action after finitely many
  steps, without a panic, with no more gas than it started with and the stack within its limit. An action
  that returns carries the gas that is left; an action that calls asks for less gas than was there.\<close>
theorem run_plain_terminates:
  assumes "evm_database D I" "interp_ok (ctx_inv I) c"
  shows "\<exists>a c'. run_plain (context_host D) keccak c = Some (a, c')
    \<and> unat (i_remaining c') \<le> unat (i_remaining c) \<and> length (i_stack c') \<le> STACK_LIMIT
    \<and> (case a of ReturnAction r \<Rightarrow> ir_gas r = i_gas c' | NewFrame f \<Rightarrow> request_gas f + gas_total c' < gas_total c)"
proof -
  obtain a c1 where r: "run_plain (context_host D) keccak c = Some (a, resume c1)"
      "ended (ctx_inv I) (ctx_ev I) ctx_err c c1" "eb_action (i_bytecode c1) = Some a"
    using evm_database.run_context [OF assms, of keccak] by blast
  have "request_gas f + gas_total c1 < gas_total c" if "frame_ok (ctx_inv I) c c1 f" for f
    using that by (cases f) simp_all
  moreover have "gas_total (resume c1) = gas_total c1" "i_gas (resume c1) = i_gas c1" "i_stack (resume c1) = i_stack c1"
    by (simp_all add: resume_def)
  ultimately show ?thesis using r by (auto simp: ended_def split: interpreter_action.splits)
qed

theorem run_plain_terminates_witness:
  "interp_ok (ctx_inv (\<lambda>_. True)) sample_interp
   \<and> (\<exists>a c'. run_plain (context_host (empty_db (\<lambda>_. 0))) (\<lambda>_. 0) sample_interp = Some (a, c') \<and> unat (i_remaining c') \<le> 100)"
proof -
  have "i_remaining sample_interp = 100"
    by (simp add: sample_interp_def with_host_def interpreter_new_def gas_new_def)
  then show ?thesis
    using run_plain_terminates [OF empty.evm_database_axioms sample_interp_ok, of "\<lambda>_. 0" "\<lambda>_. 0"] sample_interp_ok by auto
qed

section \<open>The loop over call frames\<close>

text \<open>C2. The execution of a transaction's call tree ends: the loop over frames returns for every code, whatever
  calls, creations, precompiles and re-entrances it makes, without a panic: with an error of the context (a
  database error or a fatal precompile error), or with a result that has no more gas than the first frame was
  given. The journal is well-formed afterwards, a fatal result leaves the error in the context, and no result
  is one that the caller does not expect.\<close>
theorem run_exec_loop_terminates:
  assumes "evm_database D I" "crypto_ok C" "ep_precompiles (ev_precompiles e) = precompiles_new C s"
    and "fs_inv (ev_frame_stack e)" "fs_index (ev_frame_stack e) = None"
    and "ctx_ok I (ce_spec (cx_cfg (ev_ctx e))) (ev_ctx e)" "first_frame_ok False (cx_journal (ev_ctx e)) fi"
  shows "\<exists>r e'. run_exec_loop X D fi e = Some (r, e') \<and> ctx_ok I (ce_spec (cx_cfg (ev_ctx e))) (ev_ctx e')
    \<and> (\<forall>x. r = Inr x \<longrightarrow> unat (g_remaining (frame_result_gas x)) \<le> request_gas (fi_frame_input fi)
         \<and> (frame_instruction_result x = FatalExternalError \<longrightarrow> cx_error (ev_ctx e') \<noteq> None)
         \<and> frame_instruction_result x \<noteq> InvalidExtDelegateCallTarget)"
proof -
  obtain r e' where "run_exec_loop X D fi e = Some (r, e')"
      "loop_ok I (ce_spec (cx_cfg (ev_ctx e))) False (ev_ctx e) (request_gas (fi_frame_input fi)) (r, e')"
    using evm_database.loop_from_first_frame [OF assms, of X] unfolding ok_iff by (metis surj_pair)
  then show ?thesis by (cases r) (auto simp: final_ok_def settled_def fits_def)
qed

theorem run_exec_loop_terminates_witness:
  "first_frame_ok False (cx_journal (ev_ctx sample_evm)) (sample_call False)
   \<and> (\<exists>r e'. run_exec_loop \<lparr>ex_keccak256 = (\<lambda>_. 0), ex_create = (\<lambda>_ _. 6), ex_create2 = (\<lambda>_ _ _. 7)\<rparr> (empty_db (\<lambda>_. 0))
        (sample_call False) sample_evm = Some (r, e') \<and> (\<forall>x. r = Inr x \<longrightarrow> unat (g_remaining (frame_result_gas x)) \<le> 100))"
proof -
  have "request_gas (fi_frame_input (sample_call False)) = 100" by (simp add: sample_call_def)
  then show ?thesis
    using run_exec_loop_terminates [OF empty.evm_database_axioms no_crypto_ok sample_evm_ok(1-4), of "sample_call False",
        where kec1 = "\<lambda>_. 0" and X = "\<lparr>ex_keccak256 = (\<lambda>_. 0), ex_create = (\<lambda>_ _. 6), ex_create2 = (\<lambda>_ _ _. 7)\<rparr>"]
      sample_call_ok [of False] sample_evm_ok(5) by auto
qed

text \<open>C3. Static calls are read-only, transitively: whatever code a static call runs and whatever it calls in turn,
  afterwards the logs and the transient storage are unchanged, and every account that was loaded has its
  balance, nonce, code hash and the present value of all its loaded slots.\<close>
theorem static_call_read_only:
  assumes "evm_database D I" "crypto_ok C" "ep_precompiles (ev_precompiles e) = precompiles_new C s"
    and "fs_inv (ev_frame_stack e)" "fs_index (ev_frame_stack e) = None"
    and "ctx_ok I (ce_spec (cx_cfg (ev_ctx e))) (ev_ctx e)" "first_frame_ok True (cx_journal (ev_ctx e)) fi"
  shows "\<exists>r e'. run_exec_loop X D fi e = Some (r, e')
    \<and> j_logs (cx_journal (ev_ctx e')) = j_logs (cx_journal (ev_ctx e))
    \<and> j_transient_storage (cx_journal (ev_ctx e')) = j_transient_storage (cx_journal (ev_ctx e))
    \<and> (\<forall>a acc. j_state (cx_journal (ev_ctx e)) a = Some acc \<longrightarrow>
         (\<exists>acc'. j_state (cx_journal (ev_ctx e')) a = Some acc'
            \<and> ai_balance (ac_info acc') = ai_balance (ac_info acc) \<and> ai_nonce (ac_info acc') = ai_nonce (ac_info acc)
            \<and> ai_code_hash (ac_info acc') = ai_code_hash (ac_info acc)
            \<and> (\<forall>k v. ac_storage acc k = Some v \<longrightarrow>
                 (\<exists>v'. ac_storage acc' k = Some v' \<and> ss_present_value v' = ss_present_value v))))"
proof -
  obtain r e' where r: "run_exec_loop X D fi e = Some (r, e')"
      "loop_ok I (ce_spec (cx_cfg (ev_ctx e))) True (ev_ctx e) (request_gas (fi_frame_input fi)) (r, e')"
    using evm_database.loop_from_first_frame [OF assms, of X] unfolding ok_iff by (metis surj_pair)
  then have "read_only (cx_journal (ev_ctx e)) (cx_journal (ev_ctx e'))"
    by (cases r) (auto simp: final_ok_def settled_def)
  then show ?thesis using r(1) unfolding read_only_def same_values_def same_info_def by simp
qed

theorem static_call_read_only_witness:
  "first_frame_ok True (cx_journal (ev_ctx sample_evm)) (sample_call True)
   \<and> (\<exists>r e'. run_exec_loop \<lparr>ex_keccak256 = (\<lambda>_. 0), ex_create = (\<lambda>_ _. 6), ex_create2 = (\<lambda>_ _ _. 7)\<rparr> (empty_db (\<lambda>_. 0))
        (sample_call True) sample_evm = Some (r, e') \<and> j_logs (cx_journal (ev_ctx e')) = [])"
proof -
  have "j_logs (cx_journal (ev_ctx sample_evm)) = []" by (simp add: sample_evm_def sample_ctx_def journal_inner_new_def)
  then show ?thesis
    using static_call_read_only [OF empty.evm_database_axioms no_crypto_ok sample_evm_ok(1-4), of "sample_call True",
        where kec1 = "\<lambda>_. 0" and X = "\<lparr>ex_keccak256 = (\<lambda>_. 0), ex_create = (\<lambda>_ _. 6), ex_create2 = (\<lambda>_ _ _. 7)\<rparr>"]
      sample_call_ok [of True] sample_evm_ok(5) by auto
qed

end
