(* ===== verification/Handler.thy ===== *)
theory Handler
  imports Frame Precompile_Fns Tx_Build
begin

text \<open>
  The handler of a transaction (\<open>crates/handler/src\<close>: \<open>handler.rs\<close>, \<open>validation.rs\<close>, \<open>pre_execution.rs\<close>,
  \<open>execution.rs\<close>, \<open>post_execution.rs\<close>, \<open>api.rs\<close>): validation, loading of accounts, the deduction of the
  fees, delegations, the execution of the frames, refunds, the rewards, the conversion of the result, and the
  clean-up after an error. \<open>None\<close> is a panic; an error is a value, returned with the state it leaves. The order
  in which the parallel recovery of authorizations delivers its results is a parameter.
\<close>

section \<open>Results and errors\<close>

datatype invalid_header = PrevrandaoNotSet | ExcessBlobGasNotSet

datatype 'e evm_error =
    ErrTransaction invalid_transaction
  | ErrHeader invalid_header
  | ErrDatabase 'e
  | ErrCustom string

fun evm_error_of_context :: "'e context_error \<Rightarrow> 'e evm_error" where
  "evm_error_of_context (CtxDb e) = ErrDatabase e"
| "evm_error_of_context (CtxCustom s) = ErrCustom s"

datatype success_reason = SrStop | SrReturn | SrSelfDestruct

datatype out_of_gas_error =
    OogBasic | OogMemoryLimit | OogMemory | OogPrecompile | OogInvalidOperand | OogReentrancySentry

datatype halt_reason =
    HrOutOfGas out_of_gas_error | HrOpcodeNotFound | HrInvalidFEOpcode | HrInvalidJump | HrNotActivated
  | HrStackUnderflow | HrStackOverflow | HrOutOfOffset | HrCreateCollision | HrPrecompileError
  | HrPrecompileErrorWithContext string | HrNonceOverflow | HrCreateContractSizeLimit
  | HrCreateContractStartingWithEF | HrCreateInitCodeSizeLimit | HrOverflowPayment
  | HrStateChangeDuringStaticCall | HrCallNotAllowedInsideStatic | HrOutOfFunds | HrCallTooDeep

datatype success_or_halt =
    ShSuccess success_reason | ShRevert | ShHalt halt_reason | ShFatalExternalError | ShInternal

fun success_or_halt_from :: "instruction_result \<Rightarrow> success_or_halt" where
  "success_or_halt_from Stop = ShSuccess SrStop"
| "success_or_halt_from Return = ShSuccess SrReturn"
| "success_or_halt_from SelfDestruct = ShSuccess SrSelfDestruct"
| "success_or_halt_from Revert = ShRevert"
| "success_or_halt_from CreateInitCodeStartingEF00 = ShRevert"
| "success_or_halt_from CallTooDeep = ShHalt HrCallTooDeep"
| "success_or_halt_from OutOfFunds = ShHalt HrOutOfFunds"
| "success_or_halt_from OutOfGas = ShHalt (HrOutOfGas OogBasic)"
| "success_or_halt_from MemoryLimitOOG = ShHalt (HrOutOfGas OogMemoryLimit)"
| "success_or_halt_from MemoryOOG = ShHalt (HrOutOfGas OogMemory)"
| "success_or_halt_from PrecompileOOG = ShHalt (HrOutOfGas OogPrecompile)"
| "success_or_halt_from InvalidOperandOOG = ShHalt (HrOutOfGas OogInvalidOperand)"
| "success_or_halt_from ReentrancySentryOOG = ShHalt (HrOutOfGas OogReentrancySentry)"
| "success_or_halt_from OpcodeNotFound = ShHalt HrOpcodeNotFound"
| "success_or_halt_from CallNotAllowedInsideStatic = ShHalt HrCallNotAllowedInsideStatic"
| "success_or_halt_from StateChangeDuringStaticCall = ShHalt HrStateChangeDuringStaticCall"
| "success_or_halt_from InvalidFEOpcode = ShHalt HrInvalidFEOpcode"
| "success_or_halt_from InvalidJump = ShHalt HrInvalidJump"
| "success_or_halt_from NotActivated = ShHalt HrNotActivated"
| "success_or_halt_from StackUnderflow = ShHalt HrStackUnderflow"
| "success_or_halt_from StackOverflow = ShHalt HrStackOverflow"
| "success_or_halt_from OutOfOffset = ShHalt HrOutOfOffset"
| "success_or_halt_from CreateCollision = ShHalt HrCreateCollision"
| "success_or_halt_from OverflowPayment = ShHalt HrOverflowPayment"
| "success_or_halt_from PrecompileError = ShHalt HrPrecompileError"
| "success_or_halt_from NonceOverflow = ShHalt HrNonceOverflow"
| "success_or_halt_from CreateContractSizeLimit = ShHalt HrCreateContractSizeLimit"
| "success_or_halt_from CreateContractStartingWithEF = ShHalt HrCreateContractStartingWithEF"
| "success_or_halt_from CreateInitCodeSizeLimit = ShHalt HrCreateInitCodeSizeLimit"
| "success_or_halt_from InvalidEOFInitCode = ShRevert"
| "success_or_halt_from FatalExternalError = ShFatalExternalError"
| "success_or_halt_from InvalidExtDelegateCallTarget = ShInternal"

datatype exec_output = OutCall bytes | OutCreate bytes "address option"

fun into_data :: "exec_output \<Rightarrow> bytes" where
  "into_data (OutCall d) = d"
| "into_data (OutCreate d _) = d"

datatype execution_result =
    ExSuccess success_reason u64 u64 "log list" exec_output
  | ExRevert u64 bytes
  | ExHalt halt_reason u64

fun gas_used :: "execution_result \<Rightarrow> u64" where
  "gas_used (ExSuccess _ g _ _ _) = g"
| "gas_used (ExRevert g _) = g"
| "gas_used (ExHalt _ g) = g"

fun frame_output :: "frame_result \<Rightarrow> exec_output" where
  "frame_output (ResCall o') = OutCall (ir_output (co_result o'))"
| "frame_output (ResCreate o') = OutCreate (ir_output (cro_result o')) (cro_address o')"

text \<open>The operator \<open>?\<close> on a plain result, and on a result with the state it leaves.\<close>

definition and_then :: "'x + 'a \<Rightarrow> ('a \<Rightarrow> 'x + 'b) \<Rightarrow> 'x + 'b" where
  "and_then r f = (case r of Inl e \<Rightarrow> Inl e | Inr x \<Rightarrow> f x)"

definition then_ok ::
    "(('x + 'a) \<times> 's) option \<Rightarrow> ('a \<Rightarrow> 's \<Rightarrow> (('x + 'b) \<times> 's) option) \<Rightarrow> (('x + 'b) \<times> 's) option" where
  "then_ok r f = Option.bind r (\<lambda>(r, s). case r of Inl e \<Rightarrow> Some (Inl e, s) | Inr x \<Rightarrow> f x s)"

section \<open>Validation\<close>

definition validate_legacy_gas_price :: "u128 \<Rightarrow> u128 option \<Rightarrow> invalid_transaction + unit" where
  "validate_legacy_gas_price gas_price base_fee =
     (case base_fee of
        Some base_fee \<Rightarrow> if gas_price < base_fee then Inl GasPriceLessThanBasefee else Inr ()
      | None \<Rightarrow> Inr ())"

definition validate_priority_fee_tx :: "u128 \<Rightarrow> u128 \<Rightarrow> u128 option \<Rightarrow> bool \<Rightarrow> invalid_transaction + unit" where
  "validate_priority_fee_tx max_fee max_priority_fee base_fee disable_priority_fee_check =
     (if \<not> disable_priority_fee_check \<and> max_priority_fee > max_fee then Inl PriorityFeeGreaterThanMaxFee
      else
        (case base_fee of
           Some base_fee \<Rightarrow>
             if min max_fee (saturating_add base_fee max_priority_fee) < base_fee
             then Inl GasPriceLessThanBasefee else Inr ()
         | None \<Rightarrow> Inr ()))"

definition VERSIONED_HASH_VERSION_KZG :: u8 where "VERSIONED_HASH_VERSION_KZG = 1"

definition validate_eip4844_tx :: "b256 list \<Rightarrow> u128 \<Rightarrow> u128 \<Rightarrow> u64 option \<Rightarrow> invalid_transaction + unit" where
  "validate_eip4844_tx blobs max_blob_fee block_blob_gas_price max_blobs =
     (if block_blob_gas_price > max_blob_fee
      then Inl (BlobGasPriceGreaterThanMax block_blob_gas_price max_blob_fee)
      else if blobs = [] then Inl EmptyBlobs
      else if \<exists>blob \<in> set blobs. to_be_bytes 32 blob ! 0 \<noteq> VERSIONED_HASH_VERSION_KZG
      then Inl BlobVersionNotSupported
      else
        (case max_blobs of
           Some max_blobs \<Rightarrow>
             if of_nat (length blobs) > max_blobs then Inl (TooManyBlobs max_blobs (of_nat (length blobs)))
             else Inr ()
         | None \<Rightarrow> Inr ()))"

definition check_chain_id :: "cfg_env \<Rightarrow> tx_env \<Rightarrow> transaction_type \<Rightarrow> invalid_transaction + unit" where
  "check_chain_id cfg tx tx_type =
     (if ce_tx_chain_id_check cfg then
        (case te_chain_id tx of
           Some chain_id \<Rightarrow> if chain_id \<noteq> ce_chain_id cfg then Inl InvalidChainId else Inr ()
         | None \<Rightarrow> if tx_type \<noteq> TxLegacy \<and> tx_type \<noteq> TxCustom then Inl MissingChainId else Inr ())
      else Inr ())"

definition validate_tx_fees ::
    "cfg_env \<Rightarrow> block_env \<Rightarrow> tx_env \<Rightarrow> spec_id \<Rightarrow> transaction_type \<Rightarrow> invalid_transaction + unit" where
  "validate_tx_fees cfg block tx spec_id tx_type =
     (let base_fee = (if ce_disable_base_fee cfg then None else Some (ucast (be_basefee block)));
          priority_fee = (case te_gas_priority_fee tx of Some f \<Rightarrow> f | None \<Rightarrow> 0);
          check_priority = validate_priority_fee_tx (te_gas_price tx) priority_fee base_fee (ce_disable_priority_fee_check cfg)
      in case tx_type of
           TxLegacy \<Rightarrow> validate_legacy_gas_price (te_gas_price tx) base_fee
         | TxEip2930 \<Rightarrow>
             if \<not> is_enabled_in spec_id BERLIN then Inl Eip2930NotSupported
             else validate_legacy_gas_price (te_gas_price tx) base_fee
         | TxEip1559 \<Rightarrow> if \<not> is_enabled_in spec_id LONDON then Inl Eip1559NotSupported else check_priority
         | TxEip4844 \<Rightarrow>
             if \<not> is_enabled_in spec_id CANCUN then Inl Eip4844NotSupported
             else
               and_then check_priority (\<lambda>_.
                 validate_eip4844_tx (te_blob_hashes tx) (te_max_fee_per_blob_gas tx)
                   (case block_blob_gasprice block of Some p \<Rightarrow> p | None \<Rightarrow> 0) (ce_max_blobs_per_tx cfg))
         | TxEip7702 \<Rightarrow>
             if \<not> is_enabled_in spec_id PRAGUE then Inl Eip7702NotSupported
             else
               and_then check_priority (\<lambda>_.
                 if te_authorization_list tx = [] then Inl EmptyAuthorizationList else Inr ())
         | TxCustom \<Rightarrow> Inr ())"

definition validate_tx_env :: "cfg_env \<Rightarrow> block_env \<Rightarrow> tx_env \<Rightarrow> spec_id \<Rightarrow> invalid_transaction + unit" where
  "validate_tx_env cfg block tx spec_id =
     (let tx_type = transaction_type_from (te_tx_type tx);
          cap = cfg_tx_gas_limit_cap cfg
      in and_then (check_chain_id cfg tx tx_type) (\<lambda>_.
         if te_gas_limit tx > cap then Inl (TxGasLimitGreaterThanCap (te_gas_limit tx) cap)
         else
           and_then (validate_tx_fees cfg block tx spec_id tx_type) (\<lambda>_.
             if \<not> ce_disable_block_gas_limit cfg \<and> te_gas_limit tx > be_gas_limit block
             then Inl CallerGasLimitMoreThanBlock
             else if is_enabled_in spec_id SHANGHAI \<and> te_kind tx = TxCreate
                \<and> of_nat (length (te_data tx)) > max_initcode_size cfg
             then Inl CreateInitCodeSizeLimitTx
             else Inr ())))"

definition validate_env :: "('db, 'e) ctx \<Rightarrow> 'e evm_error + unit" where
  "validate_env c =
     (let spec = ce_spec (cx_cfg c)
      in if is_enabled_in spec MERGE \<and> be_prevrandao (cx_block c) = None then Inl (ErrHeader PrevrandaoNotSet)
         else if is_enabled_in spec CANCUN \<and> be_blob_excess_gas_and_price (cx_block c) = None
         then Inl (ErrHeader ExcessBlobGasNotSet)
         else
           (case validate_tx_env (cx_cfg c) (cx_block c) (cx_tx c) spec of
              Inl e \<Rightarrow> Inl (ErrTransaction e)
            | Inr x \<Rightarrow> Inr x))"

definition access_list_counts :: "tx_env \<Rightarrow> nat \<times> nat" where
  "access_list_counts tx =
     (if te_tx_type tx = transaction_type_as_u8 TxLegacy then (0, 0)
      else
        fold (\<lambda>(_, slots) (accounts, storages). (accounts + 1, storages + length slots))
          (te_access_list tx) (0, 0))"

definition calculate_initial_tx_gas_for_tx :: "tx_env \<Rightarrow> spec_id \<Rightarrow> initial_and_floor_gas option" where
  "calculate_initial_tx_gas_for_tx tx spec =
     (let (accounts, storages) = access_list_counts tx
      in calculate_initial_tx_gas spec (te_data tx) (te_kind tx = TxCreate) (of_nat accounts) (of_nat storages)
           (of_nat (length (te_authorization_list tx))))"

definition validate_initial_tx_gas ::
    "tx_env \<Rightarrow> spec_id \<Rightarrow> bool \<Rightarrow> (invalid_transaction + initial_and_floor_gas) option" where
  "validate_initial_tx_gas tx spec is_eip7623_disabled =
     Option.bind (calculate_initial_tx_gas_for_tx tx spec) (\<lambda>g.
       let g = (if is_eip7623_disabled then g\<lparr>floor_gas := 0\<rparr> else g)
       in Some
            (if initial_gas g > te_gas_limit tx
             then Inl (CallGasCostMoreThanGasLimit (initial_gas g) (te_gas_limit tx))
             else if is_enabled_in spec PRAGUE \<and> floor_gas g > te_gas_limit tx
             then Inl (GasFloorMoreThanGasLimit (floor_gas g) (te_gas_limit tx))
             else Inr g))"

section \<open>Before the execution\<close>

text \<open>The order in which a pool of threads delivers recovered authorizations is a parameter.\<close>

type_synonym auth_order = "(address option \<times> authorization) list \<Rightarrow> (address option \<times> authorization) list"

definition set_spec :: "crypto \<Rightarrow> spec_id \<Rightarrow> eth_precompiles \<Rightarrow> bool \<times> eth_precompiles" where
  "set_spec C spec P =
     (if spec = ep_spec P then (False, P)
      else (True, \<lparr>ep_precompiles = precompiles_new C (from_spec_id spec), ep_spec = spec\<rparr>))"

definition access_list_map :: "(address \<times> b256 list) list \<Rightarrow> address \<rightharpoonup> u256 set" where
  "access_list_map items =
     fold (\<lambda>(a, slots) m. m(a \<mapsto> (case m a of Some s \<Rightarrow> s | None \<Rightarrow> {}) \<union> set slots)) items Map.empty"

definition load_accounts :: "crypto \<Rightarrow> ('db, 'e) evm \<Rightarrow> ('db, 'e) evm" where
  "load_accounts C e =
     (let c = ev_ctx e;
          spec = ce_spec (cx_cfg c);
          j = (cx_journal c)\<lparr>j_spec := spec\<rparr>;
          (precompiles_changed, P) = set_spec C spec (ev_precompiles e);
          empty_warmed_precompiles = (precompile_set (j_warm_addresses j) = {});
          w = j_warm_addresses j;
          w = (if precompiles_changed \<or> empty_warmed_precompiles
               then set_precompile_addresses (sorted_list_of_set (pcs_addresses (ep_precompiles P))) w else w);
          w = (if is_enabled_in spec SHANGHAI then set_coinbase (be_beneficiary (cx_block c)) w else w);
          w = (if te_tx_type (cx_tx c) \<noteq> transaction_type_as_u8 TxLegacy
               then set_access_list (access_list_map (te_access_list (cx_tx c))) w else w)
      in e\<lparr>ev_ctx := c\<lparr>cx_journal := j\<lparr>j_warm_addresses := w\<rparr>\<rparr>, ev_precompiles := P\<rparr>)"

definition validate_account_nonce_and_code :: "account_info \<Rightarrow> u64 \<Rightarrow> bool \<Rightarrow> bool \<Rightarrow> invalid_transaction + unit" where
  "validate_account_nonce_and_code caller_info tx_nonce is_eip3607_disabled is_nonce_check_disabled =
     (let code = (case ai_code caller_info of Some c \<Rightarrow> c | None \<Rightarrow> bytecode_new)
      in if \<not> is_eip3607_disabled \<and> \<not> bytecode_is_empty code \<and> \<not> is_eip7702 code then Inl RejectCallerWithCode
         else if is_nonce_check_disabled then Inr ()
         else if tx_nonce > ai_nonce caller_info then Inl (NonceTooHigh tx_nonce (ai_nonce caller_info))
         else if tx_nonce < ai_nonce caller_info then Inl (NonceTooLow tx_nonce (ai_nonce caller_info))
         else Inr ())"

text \<open>The new balance of the caller; \<open>None\<close> when the effective spending overflows.\<close>

definition calculate_caller_fee :: "u256 \<Rightarrow> tx_env \<Rightarrow> block_env \<Rightarrow> cfg_env \<Rightarrow> (invalid_transaction + u256) option" where
  "calculate_caller_fee balance tx block cfg =
     (let basefee = ucast (be_basefee block);
          blob_price = (case block_blob_gasprice block of Some p \<Rightarrow> p | None \<Rightarrow> 0)
      in case (if ce_disable_balance_check cfg then Inr () else ensure_enough_balance tx balance) of
           Inl e \<Rightarrow> Some (Inl e)
         | Inr _ \<Rightarrow>
             (case effective_balance_spending tx basefee blob_price of
                Inl _ \<Rightarrow> None
              | Inr spending \<Rightarrow>
                  (let gas_balance_spending = spending - te_value tx;
                       new_balance = saturating_sub balance gas_balance_spending
                   in Some (Inr (if ce_disable_balance_check cfg then max new_balance (te_value tx) else new_balance)))))"

text \<open>Loading an account for the handler: the account is then in the state.\<close>

definition ctx_load ::
    "('db, 'e) database \<Rightarrow> bool \<Rightarrow> address \<Rightarrow> ('db, 'e) ctx \<Rightarrow> (('e evm_error + account) \<times> ('db, 'e) ctx) option" where
  "ctx_load D with_code a c =
     Option.bind
       (unwrap_db_error (load_account_mut_optional_code D a with_code False (cx_journal c) (cx_db c)))
       (\<lambda>(r, j, db). let c = ctx_store j db c in
          case r of
            Inl e \<Rightarrow> Some (Inl (ErrDatabase e), c)
          | Inr _ \<Rightarrow> map_option (\<lambda>acc. (Inr acc, c)) (j_state j a))"

text \<open>Writing an account back after operations on it and the journal.\<close>

definition ctx_put :: "address \<Rightarrow> journaled_account \<Rightarrow> ('db, 'e) ctx \<Rightarrow> ('db, 'e) ctx" where
  "ctx_put a ja c = c\<lparr>cx_journal := put_account a ja (cx_journal c)\<rparr>"

definition validate_against_state_and_deduct_caller ::
    "('db, 'e) database \<Rightarrow> ('db, 'e) ctx \<Rightarrow> (('e evm_error + unit) \<times> ('db, 'e) ctx) option" where
  "validate_against_state_and_deduct_caller D c =
     (let tx = cx_tx c; cfg = cx_cfg c; caller = te_caller tx
      in then_ok (ctx_load D True caller c) (\<lambda>acc c.
           case validate_account_nonce_and_code (ac_info acc) (te_nonce tx) (ce_disable_eip3607 cfg)
                  (ce_disable_nonce_check cfg) of
             Inl e \<Rightarrow> Some (Inl (ErrTransaction e), c)
           | Inr _ \<Rightarrow>
               Option.bind (calculate_caller_fee (ai_balance (ac_info acc)) tx (cx_block c) cfg) (\<lambda>r.
                 case r of
                   Inl e \<Rightarrow> Some (Inl (ErrTransaction e), c)
                 | Inr new_balance \<Rightarrow>
                     (let ja = ja_set_balance caller new_balance (acc, j_journal (cx_journal c));
                          ja = (case te_kind tx of TxCall _ \<Rightarrow> snd (ja_bump_nonce caller ja) | TxCreate \<Rightarrow> ja)
                      in Some (Inr (), ctx_put caller ja c)))))"

text \<open>The authority of an authorization that passes the checks without state.\<close>

definition recovered_authority :: "u64 \<Rightarrow> authorization \<Rightarrow> address option" where
  "recovered_authority chain_id a =
     (if au_chain_id a \<noteq> 0 \<and> au_chain_id a \<noteq> ucast chain_id then None
      else if au_nonce a = - 1 then None
      else au_authority a)"

fun apply_auths ::
    "(bytes \<Rightarrow> b256) \<Rightarrow> ('db, 'e) database \<Rightarrow> (address option \<times> authorization) list \<Rightarrow> u64 \<Rightarrow> ('db, 'e) ctx
       \<Rightarrow> (('e evm_error + u64) \<times> ('db, 'e) ctx) option" where
  "apply_auths keccak256 D [] refunded_accounts c = Some (Inr refunded_accounts, c)"
| "apply_auths keccak256 D ((None, a) # rest) refunded_accounts c = apply_auths keccak256 D rest refunded_accounts c"
| "apply_auths keccak256 D ((Some authority, a) # rest) refunded_accounts c =
     then_ok (ctx_load D True authority c) (\<lambda>acc c.
       if (case ai_code (ac_info acc) of Some b \<Rightarrow> \<not> bytecode_is_empty b \<and> \<not> is_eip7702 b | None \<Rightarrow> False)
          \<or> au_nonce a \<noteq> ai_nonce (ac_info acc)
       then apply_auths keccak256 D rest refunded_accounts c
       else
         (let refunded_accounts =
                (if account_is_empty acc \<and> is_loaded_as_not_existing_not_touched acc then refunded_accounts
                 else refunded_accounts + 1);
              ja = ja_delegate keccak256 authority (au_address a) (acc, j_journal (cx_journal c))
          in apply_auths keccak256 D rest refunded_accounts (ctx_put authority ja c)))"

definition apply_eip7702_auth_list ::
    "auth_order \<Rightarrow> (bytes \<Rightarrow> b256)
       \<Rightarrow> ('db, 'e) database \<Rightarrow> ('db, 'e) ctx \<Rightarrow> (('e evm_error + u64) \<times> ('db, 'e) ctx) option" where
  "apply_eip7702_auth_list par_order keccak256 D c =
     (if te_tx_type (cx_tx c) \<noteq> transaction_type_as_u8 TxEip7702 then Some (Inr 0, c)
      else
        (let auths = map (\<lambda>a. (recovered_authority (ce_chain_id (cx_cfg c)) a, a)) (te_authorization_list (cx_tx c));
             auths = (if cx_par_7702 c then par_order auths else auths)
         in map_option
              (\<lambda>(r, c). (case r of
                           Inl e \<Rightarrow> Inl e
                         | Inr refunded_accounts \<Rightarrow>
                             Inr (refunded_accounts * (PER_EMPTY_ACCOUNT_COST - PER_AUTH_BASE_COST)), c))
              (apply_auths keccak256 D auths 0 c)))"

section \<open>The execution\<close>

definition create_init_frame :: "tx_env \<Rightarrow> (bytecode \<times> b256) option \<Rightarrow> u64 \<Rightarrow> frame_input" where
  "create_init_frame tx code gas_limit =
     (case te_kind tx of
        TxCall target \<Rightarrow>
          FrameCall
            \<lparr>ci_input = CallBytes (te_data tx), ci_return_memory_offset = (0, 0), ci_gas_limit = gas_limit,
             ci_bytecode_address = target, ci_known_bytecode = map_option (\<lambda>(code, hash). (hash, code)) code,
             ci_target_address = target, ci_caller = te_caller tx, ci_value = Transfer (te_value tx),
             ci_scheme = Call, ci_is_static = False\<rparr>
      | TxCreate \<Rightarrow>
          FrameCreate
            \<lparr>cr_caller = te_caller tx, cr_scheme = Create, cr_value = te_value tx, cr_init_code = te_data tx,
             cr_gas_limit = gas_limit\<rparr>)"

definition account_code :: "account \<Rightarrow> bytecode \<times> b256" where
  "account_code acc =
     (case ai_code (ac_info acc) of Some b \<Rightarrow> b | None \<Rightarrow> bytecode_new, ai_code_hash (ac_info acc))"

definition first_frame_input ::
    "('db, 'e) database \<Rightarrow> u64 \<Rightarrow> ('db, 'e) ctx \<Rightarrow> (('e evm_error + frame_init) \<times> ('db, 'e) ctx) option" where
  "first_frame_input D gas_limit c =
     (let memory = mem_new_with_buffer (lc_shared_memory_buffer (cx_local c));
          tx = cx_tx c;
          frame = (\<lambda>code c. Some (Inr \<lparr>fi_depth = 0, fi_memory = memory,
                                      fi_frame_input = create_init_frame tx code gas_limit\<rparr>, c))
      in case te_kind tx of
           TxCreate \<Rightarrow> frame None c
         | TxCall to \<Rightarrow>
             then_ok (ctx_load D True to c) (\<lambda>acc c.
               case ai_code (ac_info acc) of
                 Some (Eip7702 d) \<Rightarrow>
                   then_ok (ctx_load D True (delegated_address d) c) (\<lambda>acc c. frame (Some (account_code acc)) c)
               | _ \<Rightarrow> frame (Some (account_code acc)) c))"

definition last_frame_result :: "u64 \<Rightarrow> frame_result \<Rightarrow> frame_result" where
  "last_frame_result gas_limit r =
     (let instruction_result = frame_instruction_result r;
          remaining = g_remaining (frame_result_gas r);
          refunded = g_refunded (frame_result_gas r);
          g = gas_new_spent gas_limit;
          g = (if result_is_ok_or_revert instruction_result then erase_cost remaining g else g);
          g = (if result_is_ok instruction_result then record_refund refunded g else g)
      in set_frame_gas g r)"

definition with_ctx :: "('db, 'e) evm \<Rightarrow> (('x + 'a) \<times> ('db, 'e) ctx) option \<Rightarrow> (('x + 'a) \<times> ('db, 'e) evm) option" where
  "with_ctx e r = map_option (\<lambda>(r, c). (r, e\<lparr>ev_ctx := c\<rparr>)) r"

definition execution ::
    "externals \<Rightarrow> ('db, 'e) database \<Rightarrow> initial_and_floor_gas \<Rightarrow> ('db, 'e) evm
       \<Rightarrow> (('e evm_error + frame_result) \<times> ('db, 'e) evm) option" where
  "execution X D init_and_floor_gas e =
     (let gas_limit = te_gas_limit (cx_tx (ev_ctx e)) - initial_gas init_and_floor_gas
      in then_ok (with_ctx e (first_frame_input D gas_limit (ev_ctx e))) (\<lambda>first_frame e.
           map_option
             (\<lambda>(r, e). (case r of
                          Inl err \<Rightarrow> Inl (evm_error_of_context err)
                        | Inr frame_result \<Rightarrow>
                            Inr (last_frame_result (te_gas_limit (cx_tx (ev_ctx e))) frame_result), e))
             (run_exec_loop X D first_frame e)))"

section \<open>After the execution\<close>

definition refund :: "spec_id \<Rightarrow> gas \<Rightarrow> i64 \<Rightarrow> gas" where
  "refund spec g eip7702_refund = set_final_refund (is_enabled_in spec LONDON) (record_refund eip7702_refund g)"

definition eip7623_check_gas_floor :: "gas \<Rightarrow> initial_and_floor_gas \<Rightarrow> gas" where
  "eip7623_check_gas_floor g init_and_floor_gas =
     (if spent_sub_refunded g < floor_gas init_and_floor_gas
      then set_refund 0 (set_spent (floor_gas init_and_floor_gas) g) else g)"

definition reimburse_caller ::
    "('db, 'e) database \<Rightarrow> gas \<Rightarrow> u256 \<Rightarrow> ('db, 'e) ctx \<Rightarrow> (('e evm_error + unit) \<times> ('db, 'e) ctx) option" where
  "reimburse_caller D g additional_refund c =
     (let basefee = ucast (be_basefee (cx_block c));
          caller = te_caller (cx_tx c);
          price = effective_gas_price (cx_tx c) basefee;
          amount = ucast (saturating_mul price (ucast (g_remaining g + g_refunded g))) + additional_refund
      in then_ok (ctx_load D False caller c) (\<lambda>acc c.
           Some (Inr (), ctx_put caller (snd (ja_incr_balance caller amount (acc, j_journal (cx_journal c)))) c)))"

definition reward_beneficiary ::
    "('db, 'e) database \<Rightarrow> gas \<Rightarrow> ('db, 'e) ctx \<Rightarrow> (('e evm_error + unit) \<times> ('db, 'e) ctx) option" where
  "reward_beneficiary D g c =
     (let basefee = ucast (be_basefee (cx_block c));
          price = effective_gas_price (cx_tx c) basefee;
          coinbase_gas_price = (if is_enabled_in (ce_spec (cx_cfg c)) LONDON then saturating_sub price basefee else price);
          beneficiary = be_beneficiary (cx_block c);
          amount = ucast (coinbase_gas_price * ucast (used g))
      in then_ok (ctx_load D False beneficiary c) (\<lambda>acc c.
           Some (Inr (), ctx_put beneficiary (snd (ja_incr_balance beneficiary amount (acc, j_journal (cx_journal c)))) c)))"

definition post_execution ::
    "('db, 'e) database \<Rightarrow> frame_result \<Rightarrow> initial_and_floor_gas \<Rightarrow> i64 \<Rightarrow> ('db, 'e) ctx
       \<Rightarrow> (('e evm_error + frame_result) \<times> ('db, 'e) ctx) option" where
  "post_execution D exec_result init_and_floor_gas eip7702_gas_refund c =
     (let g = refund (ce_spec (cx_cfg c)) (frame_result_gas exec_result) eip7702_gas_refund;
          g = eip7623_check_gas_floor g init_and_floor_gas
      in then_ok (reimburse_caller D g 0 c) (\<lambda>_ c.
         then_ok (reward_beneficiary D g c) (\<lambda>_ c.
           Some (Inr (set_frame_gas g exec_result), c))))"

definition take_precompile_error_context :: "('db, 'e) ctx \<Rightarrow> string option \<times> ('db, 'e) ctx" where
  "take_precompile_error_context c =
     (lc_precompile_error_message (cx_local c),
      c\<lparr>cx_local := (cx_local c)\<lparr>lc_precompile_error_message := None\<rparr>\<rparr>)"

text \<open>The result for the outside; \<open>None\<close> for results that only occur inside.\<close>

definition exec_result_output :: "frame_result \<Rightarrow> ('db, 'e) ctx \<Rightarrow> (execution_result \<times> ('db, 'e) ctx) option" where
  "exec_result_output result c =
     (let gas_refunded = g_refunded (frame_result_gas result);
          gas_used = used (frame_result_gas result);
          out = frame_output result;
          instruction_result = frame_instruction_result result;
          (logs, j) = take_logs (cx_journal c);
          c = c\<lparr>cx_journal := j\<rparr>
      in case success_or_halt_from instruction_result of
           ShSuccess reason \<Rightarrow> Some (ExSuccess reason gas_used gas_refunded logs out, c)
         | ShRevert \<Rightarrow> Some (ExRevert gas_used (into_data out), c)
         | ShHalt reason \<Rightarrow>
             if instruction_result = PrecompileError then
               (let (message, c) = take_precompile_error_context c
                in case message of
                     Some m \<Rightarrow> Some (ExHalt (HrPrecompileErrorWithContext m) gas_used, c)
                   | None \<Rightarrow> Some (ExHalt reason gas_used, c))
             else Some (ExHalt reason gas_used, c)
         | _ \<Rightarrow> None)"

definition local_clear :: "('db, 'e) ctx \<Rightarrow> ('db, 'e) ctx" where
  "local_clear c = c\<lparr>cx_local := \<lparr>lc_shared_memory_buffer = [], lc_precompile_error_message = None\<rparr>\<rparr>"

definition handler_execution_result ::
    "frame_result \<Rightarrow> ('db, 'e) evm \<Rightarrow> (('e evm_error + execution_result) \<times> ('db, 'e) evm) option" where
  "handler_execution_result result e =
     (let (err, c) = take_error (ev_ctx e)
      in case err of
           Some err \<Rightarrow> Some (Inl (evm_error_of_context err), e\<lparr>ev_ctx := c\<rparr>)
         | None \<Rightarrow>
             map_option
               (\<lambda>(res, c). (Inr res,
                  e\<lparr>ev_ctx := local_clear (c\<lparr>cx_journal := commit_tx (cx_journal c)\<rparr>),
                    ev_frame_stack := fs_clear (ev_frame_stack e)\<rparr>))
               (exec_result_output result c))"

section \<open>Running a transaction\<close>

definition handler_validate :: "('db, 'e) ctx \<Rightarrow> ('e evm_error + initial_and_floor_gas) option" where
  "handler_validate c =
     (case validate_env c of
        Inl e \<Rightarrow> Some (Inl e)
      | Inr _ \<Rightarrow>
          map_option (\<lambda>r. case r of Inl e \<Rightarrow> Inl (ErrTransaction e) | Inr g \<Rightarrow> Inr g)
            (validate_initial_tx_gas (cx_tx c) (ce_spec (cx_cfg c)) (ce_disable_eip7623 (cx_cfg c))))"

definition pre_execution ::
    "auth_order \<Rightarrow> externals \<Rightarrow> crypto
       \<Rightarrow> ('db, 'e) database \<Rightarrow> ('db, 'e) evm \<Rightarrow> (('e evm_error + u64) \<times> ('db, 'e) evm) option" where
  "pre_execution par_order X C D e =
     then_ok (with_ctx e (validate_against_state_and_deduct_caller D (ev_ctx e))) (\<lambda>_ e.
       let e = load_accounts C e
       in with_ctx e (apply_eip7702_auth_list par_order (ex_keccak256 X) D (ev_ctx e)))"

definition run_without_catch_error ::
    "auth_order \<Rightarrow> externals \<Rightarrow> crypto
       \<Rightarrow> ('db, 'e) database \<Rightarrow> ('db, 'e) evm \<Rightarrow> (('e evm_error + execution_result) \<times> ('db, 'e) evm) option" where
  "run_without_catch_error par_order X C D e =
     then_ok (map_option (\<lambda>r. (r, e)) (handler_validate (ev_ctx e))) (\<lambda>init_and_floor_gas e.
     then_ok (pre_execution par_order X C D e) (\<lambda>eip7702_refund e.
     then_ok (execution X D init_and_floor_gas e) (\<lambda>exec_result e.
     then_ok (with_ctx e (post_execution D exec_result init_and_floor_gas eip7702_refund (ev_ctx e)))
       (\<lambda>exec_result e. handler_execution_result exec_result e))))"

definition catch_error :: "'e evm_error \<Rightarrow> ('db, 'e) evm \<Rightarrow> (('e evm_error + 'a) \<times> ('db, 'e) evm) option" where
  "catch_error error e =
     map_option
       (\<lambda>j. (Inl error, e\<lparr>ev_ctx := (local_clear (ev_ctx e))\<lparr>cx_journal := j\<rparr>,
                         ev_frame_stack := fs_clear (ev_frame_stack e)\<rparr>))
       (discard_tx (cx_journal (ev_ctx e)))"

definition or_catch ::
    "(('e evm_error + 'a) \<times> ('db, 'e) evm) option \<Rightarrow> (('e evm_error + 'a) \<times> ('db, 'e) evm) option" where
  "or_catch r = Option.bind r (\<lambda>(r, e). case r of Inr x \<Rightarrow> Some (Inr x, e) | Inl err \<Rightarrow> catch_error err e)"

definition handler_run ::
    "auth_order \<Rightarrow> externals \<Rightarrow> crypto
       \<Rightarrow> ('db, 'e) database \<Rightarrow> ('db, 'e) evm \<Rightarrow> (('e evm_error + execution_result) \<times> ('db, 'e) evm) option" where
  "handler_run par_order X C D e = or_catch (run_without_catch_error par_order X C D e)"

definition run_system_call ::
    "externals \<Rightarrow> ('db, 'e) database \<Rightarrow> ('db, 'e) evm \<Rightarrow> (('e evm_error + execution_result) \<times> ('db, 'e) evm) option" where
  "run_system_call X D e =
     or_catch (then_ok (execution X D \<lparr>initial_gas = 0, floor_gas = 0\<rparr> e) handler_execution_result)"

section \<open>The interface\<close>

definition transact_one ::
    "auth_order \<Rightarrow> externals \<Rightarrow> crypto
       \<Rightarrow> ('db, 'e) database \<Rightarrow> tx_env \<Rightarrow> ('db, 'e) evm \<Rightarrow> (('e evm_error + execution_result) \<times> ('db, 'e) evm) option" where
  "transact_one par_order X C D tx e = handler_run par_order X C D (e\<lparr>ev_ctx := (ev_ctx e)\<lparr>cx_tx := tx\<rparr>\<rparr>)"

definition evm_finalize :: "('db, 'e) evm \<Rightarrow> evm_state \<times> ('db, 'e) evm" where
  "evm_finalize e =
     (let (state, j) = finalize (cx_journal (ev_ctx e))
      in (state, e\<lparr>ev_ctx := (ev_ctx e)\<lparr>cx_journal := j\<rparr>\<rparr>))"

definition evm_transact ::
    "auth_order \<Rightarrow> externals \<Rightarrow> crypto
       \<Rightarrow> ('db, 'e) database \<Rightarrow> tx_env \<Rightarrow> ('db, 'e) evm
       \<Rightarrow> (('e evm_error + execution_result \<times> evm_state) \<times> ('db, 'e) evm) option" where
  "evm_transact par_order X C D tx e =
     map_option
       (\<lambda>(r, e). let (state, e) = evm_finalize e
                 in (case r of Inl err \<Rightarrow> Inl err | Inr res \<Rightarrow> Inr (res, state), e))
       (transact_one par_order X C D tx e)"

definition replay ::
    "auth_order \<Rightarrow> externals \<Rightarrow> crypto
       \<Rightarrow> ('db, 'e) database \<Rightarrow> ('db, 'e) evm
       \<Rightarrow> (('e evm_error + execution_result \<times> evm_state) \<times> ('db, 'e) evm) option" where
  "replay par_order X C D e =
     map_option
       (\<lambda>(r, e). case r of
          Inl err \<Rightarrow> (Inl err, e)
        | Inr res \<Rightarrow> (let (state, e) = evm_finalize e in (Inr (res, state), e)))
       (handler_run par_order X C D e)"

fun transact_many ::
    "auth_order \<Rightarrow> externals \<Rightarrow> crypto
       \<Rightarrow> ('db, 'e) database \<Rightarrow> tx_env list \<Rightarrow> nat \<Rightarrow> execution_result list \<Rightarrow> ('db, 'e) evm
       \<Rightarrow> (('e evm_error \<times> nat + execution_result list) \<times> ('db, 'e) evm) option" where
  "transact_many par_order X C D [] i outputs e = Some (Inr outputs, e)"
| "transact_many par_order X C D (tx # txs) i outputs e =
     Option.bind (transact_one par_order X C D tx e) (\<lambda>(r, e).
       case r of
         Inl err \<Rightarrow> Some (Inl (err, i), snd (evm_finalize e))
       | Inr res \<Rightarrow> transact_many par_order X C D txs (i + 1) (outputs @ [res]) e)"

definition transact_many_finalize ::
    "auth_order \<Rightarrow> externals \<Rightarrow> crypto
       \<Rightarrow> ('db, 'e) database \<Rightarrow> tx_env list \<Rightarrow> ('db, 'e) evm
       \<Rightarrow> (('e evm_error \<times> nat + execution_result list \<times> evm_state) \<times> ('db, 'e) evm) option" where
  "transact_many_finalize par_order X C D txs e =
     map_option
       (\<lambda>(r, e). case r of
          Inl err \<Rightarrow> (Inl err, e)
        | Inr outputs \<Rightarrow> (let (state, e) = evm_finalize e in (Inr (outputs, state), e)))
       (transact_many par_order X C D txs 0 [] e)"

text \<open>The commit of a state to the database is a parameter.\<close>

definition evm_commit :: "(evm_state \<Rightarrow> 'db \<Rightarrow> 'db) \<Rightarrow> evm_state \<Rightarrow> ('db, 'e) evm \<Rightarrow> ('db, 'e) evm" where
  "evm_commit commit state e = e\<lparr>ev_ctx := (ev_ctx e)\<lparr>cx_db := commit state (cx_db (ev_ctx e))\<rparr>\<rparr>"

definition commit_inner :: "(evm_state \<Rightarrow> 'db \<Rightarrow> 'db) \<Rightarrow> ('db, 'e) evm \<Rightarrow> ('db, 'e) evm" where
  "commit_inner commit e = (let (state, e) = evm_finalize e in evm_commit commit state e)"

definition evm_transact_commit ::
    "(evm_state \<Rightarrow> 'db \<Rightarrow> 'db) \<Rightarrow> auth_order
       \<Rightarrow> externals \<Rightarrow> crypto \<Rightarrow> ('db, 'e) database \<Rightarrow> tx_env \<Rightarrow> ('db, 'e) evm
       \<Rightarrow> (('e evm_error + execution_result) \<times> ('db, 'e) evm) option" where
  "evm_transact_commit commit par_order X C D tx e =
     then_ok (transact_one par_order X C D tx e) (\<lambda>out e. Some (Inr out, commit_inner commit e))"

definition transact_many_commit ::
    "(evm_state \<Rightarrow> 'db \<Rightarrow> 'db) \<Rightarrow> auth_order
       \<Rightarrow> externals \<Rightarrow> crypto \<Rightarrow> ('db, 'e) database \<Rightarrow> tx_env list \<Rightarrow> ('db, 'e) evm
       \<Rightarrow> (('e evm_error \<times> nat + execution_result list) \<times> ('db, 'e) evm) option" where
  "transact_many_commit commit par_order X C D txs e =
     then_ok (transact_many par_order X C D txs 0 [] e) (\<lambda>outputs e. Some (Inr outputs, commit_inner commit e))"

definition replay_commit ::
    "(evm_state \<Rightarrow> 'db \<Rightarrow> 'db) \<Rightarrow> auth_order
       \<Rightarrow> externals \<Rightarrow> crypto \<Rightarrow> ('db, 'e) database \<Rightarrow> ('db, 'e) evm
       \<Rightarrow> (('e evm_error + execution_result) \<times> ('db, 'e) evm) option" where
  "replay_commit commit par_order X C D e =
     then_ok (replay par_order X C D e) (\<lambda>(res, state) e. Some (Inr res, evm_commit commit state e))"

section \<open>System calls\<close>

definition SYSTEM_ADDRESS :: address where "SYSTEM_ADDRESS = 0xfffffffffffffffffffffffffffffffffffffffe"

text \<open>The transaction of a system call; \<open>None\<close> when the builder fails.\<close>

definition new_system_tx_with_caller :: "address \<Rightarrow> address \<Rightarrow> bytes \<Rightarrow> tx_env option" where
  "new_system_tx_with_caller caller system_contract_address data =
     (case build (builder_new\<lparr>tb_caller := caller, tb_gas_limit := 30000000, tb_kind := TxCall system_contract_address,
                              tb_data := data\<rparr>) of
        Inl _ \<Rightarrow> None
      | Inr tx \<Rightarrow> Some tx)"

definition system_call_one_with_caller ::
    "externals \<Rightarrow> ('db, 'e) database \<Rightarrow> address \<Rightarrow> address \<Rightarrow> bytes \<Rightarrow> ('db, 'e) evm
       \<Rightarrow> (('e evm_error + execution_result) \<times> ('db, 'e) evm) option" where
  "system_call_one_with_caller X D caller system_contract_address data e =
     Option.bind (new_system_tx_with_caller caller system_contract_address data) (\<lambda>tx.
       run_system_call X D (e\<lparr>ev_ctx := (ev_ctx e)\<lparr>cx_tx := tx\<rparr>\<rparr>))"

definition system_call_with_caller ::
    "externals \<Rightarrow> ('db, 'e) database \<Rightarrow> address \<Rightarrow> address \<Rightarrow> bytes \<Rightarrow> ('db, 'e) evm
       \<Rightarrow> (('e evm_error + execution_result \<times> evm_state) \<times> ('db, 'e) evm) option" where
  "system_call_with_caller X D caller system_contract_address data e =
     then_ok (system_call_one_with_caller X D caller system_contract_address data e) (\<lambda>res e.
       let (state, e) = evm_finalize e in Some (Inr (res, state), e))"

definition system_call ::
    "externals \<Rightarrow> ('db, 'e) database \<Rightarrow> address \<Rightarrow> bytes \<Rightarrow> ('db, 'e) evm
       \<Rightarrow> (('e evm_error + execution_result \<times> evm_state) \<times> ('db, 'e) evm) option" where
  "system_call X D system_contract_address data e =
     system_call_with_caller X D SYSTEM_ADDRESS system_contract_address data e"

definition system_call_with_caller_commit ::
    "(evm_state \<Rightarrow> 'db \<Rightarrow> 'db) \<Rightarrow> externals \<Rightarrow> ('db, 'e) database \<Rightarrow> address \<Rightarrow> address \<Rightarrow> bytes \<Rightarrow> ('db, 'e) evm
       \<Rightarrow> (('e evm_error + execution_result) \<times> ('db, 'e) evm) option" where
  "system_call_with_caller_commit commit X D caller system_contract_address data e =
     then_ok (system_call_with_caller X D caller system_contract_address data e)
       (\<lambda>(res, state) e. Some (Inr res, evm_commit commit state e))"

section \<open>Building a machine\<close>

definition interpreter_default :: interpreter where
  "interpreter_default = interpreter_invalid\<lparr>i_stack := stack_new, i_memory := mem_new\<rparr>"

definition eth_frame_default :: eth_frame where
  "eth_frame_default = eth_frame_invalid\<lparr>ef_interpreter := interpreter_default\<rparr>"

definition local_context_default :: local_context where
  "local_context_default = \<lparr>lc_shared_memory_buffer = [], lc_precompile_error_message = None\<rparr>"

text \<open>The default transaction and block are built by functions that may panic.\<close>

definition context_new :: "'db \<Rightarrow> spec_id \<Rightarrow> bool \<Rightarrow> ('db, 'e) ctx option" where
  "context_new db spec par_7702 =
     Option.bind tx_env_default (\<lambda>tx. Option.bind block_env_default (\<lambda>block.
       Some \<lparr>cx_block = block, cx_tx = tx, cx_cfg = cfg_new_with_spec spec,
             cx_journal = journal_inner_new\<lparr>j_spec := spec\<rparr>, cx_db = db, cx_local = local_context_default,
             cx_error = None, cx_par_7702 = par_7702\<rparr>))"

definition eth_precompiles_default :: "crypto \<Rightarrow> eth_precompiles" where
  "eth_precompiles_default C = \<lparr>ep_precompiles = precompiles_new C (from_spec_id PRAGUE), ep_spec = PRAGUE\<rparr>"

definition build_mainnet :: "crypto \<Rightarrow> ('db, 'e) ctx \<Rightarrow> ('db, 'e) evm" where
  "build_mainnet C c =
     \<lparr>ev_ctx = c, ev_precompiles = eth_precompiles_default C, ev_frame_stack = new_prealloc 8 eth_frame_default\<rparr>"

end
