(* ===== verification/Fees.thy ===== *)
theory Fees
  imports Handler
begin

text \<open>
  The arithmetic of fees: what the caller is charged before the execution, for the whole gas limit, what it
  gets back afterwards, and what the beneficiary is paid, over the natural numbers.
\<close>

section \<open>Checked products and sums\<close>

lemma checked_mul_le:
  fixes a b b' :: "'a::len word"
  assumes "checked_mul a b = Some p" "b' \<le> b"
  obtains p' where "checked_mul a b' = Some p'" "unat p' = unat a * unat b'" "unat p = unat a * unat b" "p' \<le> p"
proof -
  have p: "unat a * unat b < 2 ^ LENGTH('a)" "p = a * b" using assms(1) by (auto simp: checked_mul_def split: if_splits)
  have le: "unat a * unat b' \<le> unat a * unat b" using assms(2) by (simp add: word_le_nat_alt)
  then have q: "unat a * unat b' < 2 ^ LENGTH('a)" using p(1) by linarith
  have u: "unat (a * b) = unat a * unat b" "unat (a * b') = unat a * unat b'"
    using p(1) q by (simp_all add: unat_word_ariths)
  have "checked_mul a b' = Some (a * b')" using q by (simp add: checked_mul_def)
  moreover have "a * b' \<le> p" using le p(2) u by (simp only: word_le_nat_alt)
  ultimately show thesis using u p(2) by (intro that [of "a * b'"]) simp_all
qed

lemma checked_add_le:
  fixes a b a' b' :: "'a::len word"
  assumes "checked_add a b = Some s" "a' \<le> a" "b' \<le> b"
  obtains s' where "checked_add a' b' = Some s'" "unat s' = unat a' + unat b'" "s' \<le> s"
proof -
  have s: "unat a + unat b < 2 ^ LENGTH('a)" "s = a + b" using assms(1) by (auto simp: checked_add_def split: if_splits)
  have le: "unat a' + unat b' \<le> unat a + unat b" using assms(2,3) by (simp add: word_le_nat_alt)
  then have q: "unat a' + unat b' < 2 ^ LENGTH('a)" using s(1) by linarith
  have u: "unat (a + b) = unat a + unat b" "unat (a' + b') = unat a' + unat b'"
    using s(1) q by (simp_all add: unat_word_ariths)
  have "checked_add a' b' = Some (a' + b')" using q by (simp add: checked_add_def)
  moreover have "a' + b' \<le> s" using le s(2) u by (simp only: word_le_nat_alt)
  ultimately show thesis using u by (intro that [of "a' + b'"]) simp_all
qed

lemma saturating_mul_mono: "b' \<le> b \<Longrightarrow> saturating_mul a b' \<le> saturating_mul a b"
  by (simp add: word_le_nat_alt unat_saturating_mul min_le_iff_disj mult_le_mono2)

section \<open>What is charged\<close>

lemma effective_gas_price_le: "effective_gas_price tx base_fee \<le> te_gas_price tx"
  by (auto simp: effective_gas_price_def split: option.split)

definition blob_fee :: "tx_env \<Rightarrow> u128 \<Rightarrow> u256" where
  "blob_fee tx blob_price =
     (if te_tx_type tx = transaction_type_as_u8 TxEip4844 then ucast (saturating_mul blob_price (ucast (total_blob_gas tx))) else 0)"

lemma gas_cost_le:
  assumes "gas_cost_plus_value price tx = Some s" "price' \<le> price"
  obtains s' where "gas_cost_plus_value price' tx = Some s'" "s' \<le> s"
    "unat s' = unat (te_gas_limit tx) * unat price' + unat (te_value tx)"
proof -
  obtain p where p: "checked_mul (ucast (te_gas_limit tx)) price = Some p" "checked_add (ucast p) (te_value tx) = Some s"
    using assms(1) by (auto simp: gas_cost_plus_value_def bind_eq_Some_conv)
  obtain p' where p': "checked_mul (ucast (te_gas_limit tx)) price' = Some p'" "unat p' = unat (ucast (te_gas_limit tx) :: u128) * unat price'" "p' \<le> p"
    by (rule checked_mul_le [OF p(1) assms(2)])
  have "(ucast p' :: u256) \<le> ucast p" using p'(3) by (simp add: word_le_nat_alt unat_ucast_up)
  then obtain s' where "checked_add (ucast p') (te_value tx) = Some s'" "unat s' = unat (ucast p' :: u256) + unat (te_value tx)" "s' \<le> s"
    by (rule checked_add_le [OF p(2) _ order_refl])
  then show thesis using p'(1,2) by (intro that [of s']) (simp_all add: gas_cost_plus_value_def unat_ucast_up)
qed

text \<open>A caller that can pay the maximum can pay the effective price.\<close>

lemma spending_covered:
  assumes "ensure_enough_balance tx balance = Inr ()"
    and "te_tx_type tx = transaction_type_as_u8 TxEip4844 \<Longrightarrow> blob_price \<le> te_max_fee_per_blob_gas tx"
  obtains s where "effective_balance_spending tx base_fee blob_price = Inr s" "s \<le> balance"
    "unat s = unat (te_gas_limit tx) * unat (effective_gas_price tx base_fee) + unat (blob_fee tx blob_price) + unat (te_value tx)"
proof -
  let ?blob = "te_tx_type tx = transaction_type_as_u8 TxEip4844" and ?p = "effective_gas_price tx base_fee"
  obtain m where m: "max_balance_spending tx = Inr m" "m \<le> balance"
    using assms(1) by (auto simp: ensure_enough_balance_def split: sum.splits if_splits)
  obtain s0 where s0: "gas_cost_plus_value (te_gas_price tx) tx = Some s0"
      "?blob \<Longrightarrow> checked_add s0 (calc_max_data_fee tx) = Some m" "\<not> ?blob \<Longrightarrow> s0 = m"
    using m(1) by (auto simp: max_balance_spending_def split: option.splits if_splits)
  obtain s1 where s1: "gas_cost_plus_value ?p tx = Some s1" "s1 \<le> s0"
      "unat s1 = unat (te_gas_limit tx) * unat ?p + unat (te_value tx)"
    by (rule gas_cost_le [OF s0(1) effective_gas_price_le])
  show thesis
  proof (cases ?blob)
    case True
    have c: "saturating_mul (ucast (total_blob_gas tx) :: u128) x = saturating_mul x (ucast (total_blob_gas tx))" for x
      by (simp add: saturating_mul_def mult.commute)
    have "blob_fee tx blob_price \<le> calc_max_data_fee tx"
      using saturating_mul_mono [OF assms(2) [OF True], of "ucast (total_blob_gas tx)"] True
      by (simp add: blob_fee_def calc_max_data_fee_def c word_le_nat_alt unat_ucast_up)
    then obtain s where "checked_add s1 (blob_fee tx blob_price) = Some s" "unat s = unat s1 + unat (blob_fee tx blob_price)" "s \<le> m"
      by (rule checked_add_le [OF s0(2) [OF True] s1(2)])
    then show thesis using that [of s] s1 m(2) True by (simp add: effective_balance_spending_def blob_fee_def)
  next
    case False
    then show thesis using that [of s1] s1 s0(3) m(2) by (simp add: effective_balance_spending_def blob_fee_def)
  qed
qed

text \<open>The charge before the execution: it never panics, and it is exact.\<close>

lemma caller_fee_charged:
  assumes "\<not> ce_disable_balance_check cfg"
    and "te_tx_type tx = transaction_type_as_u8 TxEip4844 \<Longrightarrow> (case block_blob_gasprice block of Some p \<Rightarrow> p | None \<Rightarrow> 0) \<le> te_max_fee_per_blob_gas tx"
  obtains (Rejected) err where "calculate_caller_fee balance tx block cfg = Some (Inl err)" "ensure_enough_balance tx balance = Inl err"
  | (Charged) new_balance where "calculate_caller_fee balance tx block cfg = Some (Inr new_balance)" "ensure_enough_balance tx balance = Inr ()"
      "unat balance = unat new_balance + unat (te_gas_limit tx) * unat (effective_gas_price tx (ucast (be_basefee block)))
         + unat (blob_fee tx (case block_blob_gasprice block of Some p \<Rightarrow> p | None \<Rightarrow> 0))"
      "te_value tx \<le> new_balance"
proof (cases "ensure_enough_balance tx balance")
  case (Inr u)
  let ?b = "case block_blob_gasprice block of Some p \<Rightarrow> p | None \<Rightarrow> 0"
  obtain s where s: "effective_balance_spending tx (ucast (be_basefee block)) ?b = Inr s" "s \<le> balance"
    "unat s = unat (te_gas_limit tx) * unat (effective_gas_price tx (ucast (be_basefee block))) + unat (blob_fee tx ?b) + unat (te_value tx)"
    using spending_covered [of tx balance ?b "ucast (be_basefee block)"] assms(2) Inr by auto
  have v: "unat (s - te_value tx) = unat s - unat (te_value tx)"
    using s(3) by (simp add: unat_sub_if_size)
  then have n: "unat (saturating_sub balance (s - te_value tx)) = unat balance - (unat s - unat (te_value tx))"
    by (simp add: unat_saturating_sub)
  show thesis
    by (rule Charged [of "saturating_sub balance (s - te_value tx)"])
      (use assms(1) Inr s n in \<open>simp_all add: calculate_caller_fee_def word_le_nat_alt\<close>)
qed (use assms(1) Rejected in \<open>simp add: calculate_caller_fee_def\<close>)

end
