(* ===== verification/Transact.thy ===== *)
theory Transact
  imports Machine Fees
begin

text \<open>
  The handler on the machine: every phase of a transaction is a step of the context that keeps it well-formed
  and can be undone, so that a transaction always returns, with a result or an error, and leaves a machine
  that is ready for the next one; what the gas of its result is, who pays for it, and what a rejected
  transaction leaves.
\<close>

section \<open>Steps of the handler\<close>

lemma then_ok_simps [simp]:
  "then_ok None f = None" "then_ok (Some (Inl e, s)) f = Some (Inl e, s)" "then_ok (Some (Inr x, s)) f = f x s"
  by (simp_all add: then_ok_def)

lemma then_ok_Inr: "then_ok r f = Some (Inr y, s') \<longleftrightarrow> (\<exists>x s. r = Some (Inr x, s) \<and> f x s = Some (Inr y, s'))"
proof (cases r)
  case (Some q)
  obtain x s where "q = (x, s)" by fastforce
  then show ?thesis using Some by (cases x) simp_all
qed simp

lemma with_ctx_simps [simp]:
  "with_ctx e None = None" "with_ctx e (Some (r, c)) = Some (r, e\<lparr>ev_ctx := c\<rparr>)"
  by (simp_all add: with_ctx_def)

text \<open>A step that changes only the journal and the database.\<close>

definition hsteps :: "('db \<Rightarrow> bool) \<Rightarrow> spec_id \<Rightarrow> ('db, 'e) ctx \<Rightarrow> ('db, 'e) ctx \<Rightarrow> bool" where
  "hsteps I sp c c' \<longleftrightarrow> moves I sp False c c' \<and> cx_local c' = cx_local c \<and> cx_error c' = cx_error c"

lemma hsteps_refl: "hsteps I sp c c"
  by (simp add: hsteps_def moves_refl)

lemma hsteps_trans: "hsteps I sp c c' \<Longrightarrow> hsteps I sp c' c'' \<Longrightarrow> hsteps I sp c c''"
  by (auto simp: hsteps_def intro: moves_trans)

lemma hstepsD:
  assumes "hsteps I sp c c'" "ctx_ok I sp c"
  shows "ctx_ok I sp c'" "evolves (cx_journal c) (cx_journal c')" "cx_cfg c' = cx_cfg c" "cx_tx c' = cx_tx c" "cx_block c' = cx_block c"
    "cx_par_7702 c' = cx_par_7702 c" "warm_in (cx_journal c) a \<Longrightarrow> warm_in (cx_journal c') a" "cx_local c' = cx_local c" "cx_error c' = cx_error c"
  using assms evolvesD(2) [of "cx_journal c" "cx_journal c'" a] by (simp_all add: hsteps_def moves_def ctx_ok_def)

lemma ctx_put_steps:
  assumes "j_state (cx_journal c) a = Some acc" "own_step a (acc, j_journal (cx_journal c)) ja" "code_ok acc \<Longrightarrow> code_ok (fst ja)"
  shows "hsteps I sp c (ctx_put a ja c)"
proof -
  have "codes_ok (j_state (put_account a ja (cx_journal c)))" if "codes_ok (j_state (cx_journal c))"
    using put_codes [OF that] assms(3) codes_okD [OF that assms(1)] by blast
  then show ?thesis
    using moves_journal [OF evolves_own [OF assms(1,2)], of False I sp] by (simp add: hsteps_def ctx_put_def)
qed

lemma ja_codes [simp]:
  "code_ok (fst (ja_touch a ja)) = code_ok (fst ja)" "code_ok (fst (ja_set_balance a b ja)) = code_ok (fst ja)"
  "code_ok (fst (snd (ja_incr_balance a b ja))) = code_ok (fst ja)" "code_ok (fst (snd (ja_bump_nonce a ja))) = code_ok (fst ja)"
proof -
  show t: "code_ok (fst (ja_touch a ja)) = code_ok (fst ja)" for ja by (cases ja) (simp add: ja_touch_def)
  show b: "code_ok (fst (ja_set_balance a b ja)) = code_ok (fst ja)" for b ja
    using t [of ja] by (cases "ja_touch a ja") (simp add: ja_set_balance_def)
  show "code_ok (fst (snd (ja_incr_balance a b ja))) = code_ok (fst ja)"
    using t [of ja] b by (auto simp: ja_incr_balance_def Let_def split: option.split)
  show "code_ok (fst (snd (ja_bump_nonce a ja))) = code_ok (fst ja)"
    using t [of ja] by (cases "ja_touch a ja") (auto simp: ja_bump_nonce_def split: option.split)
qed

lemma bytecode_ok_eip7702 [simp]: "bytecode_ok (new_eip7702 a)"
  by (simp add: new_eip7702_def eip7702_new_def EIP7702_MAGIC_BYTES_def)

lemma ja_delegate_code: "code_ok (fst (ja_delegate keccak a d ja))"
proof -
  have "code_ok (fst (ja_set_code keccak a h b ja))" if "bytecode_ok b" for h b ja
    using that by (cases "ja_touch a ja")
      (simp add: ja_set_code_def code_ok_def upd_info_def info_set_code_def info_set_code_hash_def)
  then show ?thesis by (auto simp: ja_delegate_def Let_def)
qed

text \<open>Errors that the execution can raise, not the validation.\<close>

fun execution_error :: "'e evm_error \<Rightarrow> bool" where
  "execution_error (ErrTransaction e) \<longleftrightarrow> False"
| "execution_error (ErrHeader e) \<longleftrightarrow> False"
| "execution_error (ErrDatabase e) \<longleftrightarrow> True"
| "execution_error (ErrCustom e) \<longleftrightarrow> True"

definition hok ::
    "('db \<Rightarrow> bool) \<Rightarrow> spec_id \<Rightarrow> ('db, 'e) ctx \<Rightarrow> (('e evm_error + 'a) \<times> ('db, 'e) ctx) option \<Rightarrow> bool" where
  "hok I sp c r \<longleftrightarrow> (\<exists>q c'. r = Some (q, c') \<and> hsteps I sp c c' \<and> (\<forall>e. q = Inl e \<longrightarrow> execution_error e))"

lemma hok_after: "hsteps I sp c c' \<Longrightarrow> hok I sp c' r \<Longrightarrow> hok I sp c r"
  by (auto simp: hok_def intro: hsteps_trans)

lemma hok_then:
  assumes "hok I sp c r" "\<And>x c'. r = Some (Inr x, c') \<Longrightarrow> hsteps I sp c c' \<Longrightarrow> hok I sp c' (f x c')"
  shows "hok I sp c (then_ok r f)"
proof -
  obtain q c' where "r = Some (q, c')" "hsteps I sp c c'" "\<forall>e. q = Inl e \<longrightarrow> execution_error e" using assms(1) by (auto simp: hok_def)
  then show ?thesis using hok_after [of I sp c c'] assms(2) by (cases q) (auto simp: hok_def [of _ _ _ "Some _"])
qed

lemma hok_map:
  "hok I sp c r \<Longrightarrow> hok I sp c (map_option (\<lambda>(r, c). (case r of Inl e \<Rightarrow> Inl e | Inr x \<Rightarrow> Inr (g x), c)) r)"
  unfolding hok_def
proof (elim exE conjE)
  fix q c' assume "r = Some (q, c')" "hsteps I sp c c'" "\<forall>e. q = Inl e \<longrightarrow> execution_error e"
  then show "\<exists>q c'. map_option (\<lambda>(r, c). (case r of Inl e \<Rightarrow> Inl e | Inr x \<Rightarrow> Inr (g x), c)) r = Some (q, c')
      \<and> hsteps I sp c c' \<and> (\<forall>e. q = Inl e \<longrightarrow> execution_error e)" by (cases q) simp_all
qed

context evm_database
begin

text \<open>Loading an account: a database error, or the account, warm and with well-formed code.\<close>

lemma ctx_load_steps:
  assumes "ctx_ok I sp c"
  obtains (Err) e c' where "ctx_load D lc a c = Some (Inl (ErrDatabase e), c')" "hsteps I sp c c'"
  | (Acc) acc c' where "ctx_load D lc a c = Some (Inr acc, c')" "hsteps I sp c c'" "j_state (cx_journal c') a = Some acc"
      "warm_in (cx_journal c') a" "code_ok acc"
proof -
  have wf: "journal_wf (cx_journal c)" using assms by (simp add: ctx_ok_def)
  obtain r j db where l: "unwrap_db_error (load_account_mut_optional_code D a lc False (cx_journal c) (cx_db c)) = Some (r, j, db)"
      "evolves (cx_journal c) j" "\<forall>b. r = Inr b \<longrightarrow> warm_in j a"
    using unwrap_load_evolves [OF wf, of D a lc "cx_db c"] by blast
  have k: "codes_ok (j_state j) \<and> I db" using unwrap_codes [OF l(1)] assms by (simp add: ctx_ok_def)
  then have h: "hsteps I sp c (ctx_store j db c)"
    using moves_store [of I sp c j db False] l(2) by (simp add: hsteps_def ctx_store_def)
  show ?thesis
  proof (cases r)
    case (Inl e)
    then show ?thesis using Err h l(1) by (simp add: ctx_load_def)
  next
    case (Inr b)
    then obtain acc where "j_state j a = Some acc" using l(3) by (auto simp: warm_in_def)
    then show ?thesis using Acc [of acc "ctx_store j db c"] Inr h l(1,3) k
      by (auto simp: ctx_load_def ctx_store_def codes_ok_def)
  qed
qed

text \<open>Loading an account and changing it.\<close>

lemma load_put_ok:
  assumes "ctx_ok I sp c" "\<And>acc es. own_step a (acc, es) (f acc es)" "\<And>acc es. code_ok acc \<Longrightarrow> code_ok (fst (f acc es))"
  shows "hok I sp c (then_ok (ctx_load D lc a c) (\<lambda>acc c. Some (Inr x, ctx_put a (f acc (j_journal (cx_journal c))) c)))"
proof (rule ctx_load_steps [OF assms(1), of lc a])
  fix acc c' assume h: "ctx_load D lc a c = Some (Inr acc, c')" "hsteps I sp c c'" "j_state (cx_journal c') a = Some acc"
  have "hsteps I sp c' (ctx_put a (f acc (j_journal (cx_journal c'))) c')"
    by (rule ctx_put_steps [OF h(3)]) (use assms(2,3) in auto)
  then show ?thesis using h(1) hsteps_trans [OF h(2)] by (auto simp: hok_def)
qed (auto simp: hok_def)

lemma reimburse_ok: "ctx_ok I sp c \<Longrightarrow> hok I sp c (reimburse_caller D g x c)"
  unfolding reimburse_caller_def Let_def by (rule load_put_ok) (simp_all add: own_ja_balance)

lemma reward_ok: "ctx_ok I sp c \<Longrightarrow> hok I sp c (reward_beneficiary D g c)"
  unfolding reward_beneficiary_def Let_def by (rule load_put_ok) (simp_all add: own_ja_balance)

lemma post_execution_ok: "ctx_ok I sp c \<Longrightarrow> hok I sp c (post_execution D r g n c)"
  unfolding post_execution_def Let_def
  by (intro hok_then reimburse_ok reward_ok) (auto intro: reward_ok hstepsD(1) simp: hok_def hsteps_refl)

lemma apply_auths_ok: "ctx_ok I sp c \<Longrightarrow> hok I sp c (apply_auths keccak D as n c)"
proof (induction as arbitrary: n c)
  case (Cons x as)
  obtain q a where x: "x = (q, a)" by fastforce
  show ?case
  proof (cases q)
    case (Some authority)
    show ?thesis
    proof (rule ctx_load_steps [OF Cons.prems, of True authority])
      fix acc c' assume h: "ctx_load D True authority c = Some (Inr acc, c')" "hsteps I sp c c'" "j_state (cx_journal c') authority = Some acc"
      let ?d = "ctx_put authority (ja_delegate keccak authority (au_address a) (acc, j_journal (cx_journal c'))) c'"
      have d: "hsteps I sp c ?d"
        by (rule hsteps_trans [OF h(2) ctx_put_steps [OF h(3) own_ja_delegate]]) (simp add: ja_delegate_code)
      have "hok I sp c (apply_auths keccak D as m c')" for m
        by (rule hok_after [OF h(2) Cons.IH]) (rule hstepsD(1) [OF h(2) Cons.prems])
      moreover have "hok I sp c (apply_auths keccak D as m ?d)" for m
        by (rule hok_after [OF d Cons.IH]) (rule hstepsD(1) [OF d Cons.prems])
      ultimately show ?thesis using h(1) x Some by (simp add: Let_def)
    qed (use x Some in \<open>auto simp: hok_def\<close>)
  qed (use x Cons in simp)
qed (simp add: hok_def hsteps_refl)

lemma auth_list_ok: "ctx_ok I sp c \<Longrightarrow> hok I sp c (apply_eip7702_auth_list par keccak D c)"
  unfolding apply_eip7702_auth_list_def Let_def by (auto simp: hok_def [of _ _ _ "Some _"] hsteps_refl intro: hok_map apply_auths_ok)

end

section \<open>Where a transaction starts\<close>

definition journal_fresh :: "journal_inner \<Rightarrow> bool" where
  "journal_fresh j \<longleftrightarrow> j_state j = Map.empty \<and> j_journal j = [] \<and> j_transaction_id j = 0"

text \<open>An account as the database has it.\<close>

definition as_in_db :: "('db, 'e) database \<Rightarrow> 'db \<Rightarrow> address \<Rightarrow> account \<Rightarrow> bool" where
  "as_in_db D db a acc \<longleftrightarrow> \<not> is_touched acc \<and> ac_storage acc = Map.empty
     \<and> (\<exists>i db'. db_basic D db a = (Inr i, db') \<and> same_info (ac_info acc) (case i of Some i \<Rightarrow> i | None \<Rightarrow> account_info_default))"

definition first_loaded :: "('db, 'e) database \<Rightarrow> 'db \<Rightarrow> address \<Rightarrow> journal_inner \<Rightarrow> journal_inner \<Rightarrow> bool" where
  "first_loaded D db a j j' \<longleftrightarrow> j' = j \<or> (\<exists>b acc. j' = warmed a b acc j \<and> \<not> flagged_cold acc \<and> as_in_db D db a acc)"

lemma first_loaded_refl [simp]: "first_loaded D db a j j"
  by (simp add: first_loaded_def)

lemma load_first:
  assumes "load_account_mut_optional_code D a lc skip j db = (r, j', db')" "journal_fresh j"
  shows "first_loaded D db a j j'"
proof -
  have f: "first_loaded D db a j j'" if fl: "finish_load D a lc b acc j db1 = (r1, j', db2)" "\<not> flagged_cold acc" "as_in_db D db a acc"
    for b acc db1 r1 db2
  proof -
    obtain x where "j' = warmed a b (upd_info (\<lambda>i. i\<lparr>ai_code := x\<rparr>) acc) j" using finish_load_warmed [OF fl(1)] by auto
    moreover have "as_in_db D db a (upd_info (\<lambda>i. i\<lparr>ai_code := x\<rparr>) acc)"
      using fl(3) by (simp add: as_in_db_def same_info_def upd_info_def is_touched_def)
    ultimately show ?thesis using fl(2) unfolding first_loaded_def by fastforce
  qed
  have n: "as_in_db D db a (account_from_info i)" if "db_basic D db a = (Inr (Some i), db1)" for i db1
    using that by (simp add: as_in_db_def account_from_info_def is_touched_def flag_contains_def flag_defs)
  have m: "as_in_db D db a (new_not_existing 0)" if "db_basic D db a = (Inr None, db1)" for db1
    using that by (simp add: as_in_db_def new_not_existing_def is_touched_def flag_contains_def flag_defs)
  have "j_state j a = None" "j_transaction_id j = 0" using assms(2) by (simp_all add: journal_fresh_def)
  then show ?thesis
    using assms(1) f n m new_account_wf(3,4)
    by (auto simp: load_account_mut_optional_code_def Let_def split: if_splits prod.splits sum.splits option.splits)
qed

lemma ctx_load_first:
  assumes "ctx_load D lc a c = Some (q, c')" "journal_fresh (cx_journal c)"
  shows "first_loaded D (cx_db c) a (cx_journal c) (cx_journal c')"
proof -
  obtain r j db where l: "load_account_mut_optional_code D a lc False (cx_journal c) (cx_db c) = (r, j, db)" using prod_cases3 by blast
  have "cx_journal c' = j" using assms(1) l
    by (cases r) (auto simp: ctx_load_def unwrap_db_error_def ctx_store_def Let_def split: journal_load_error.splits)
  then show ?thesis using load_first [OF l assms(2)] by simp
qed

text \<open>A journal with changes to one account only, which is loaded and warm.\<close>

definition alone :: "address \<Rightarrow> journal_inner \<Rightarrow> bool" where
  "alone a j \<longleftrightarrow> (\<forall>b acc. j_state j b = Some acc \<longrightarrow> b = a \<and> \<not> flagged_cold acc)
     \<and> (\<forall>e\<in>set (j_journal j). a \<in> dom (j_state j) \<and> (own_entry a e \<or> e = AccountWarmed a))"

lemma alone_fresh: "journal_fresh j \<Longrightarrow> alone a j"
  by (simp add: journal_fresh_def alone_def)

lemma alone_first: "journal_fresh j \<Longrightarrow> first_loaded D db a j j' \<Longrightarrow> alone a j'"
  by (auto simp: first_loaded_def alone_def journal_fresh_def warmed_def split: if_splits)

lemma alone_put:
  assumes "alone a j" "j_state j a = Some acc" "own_step a (acc, j_journal j) ja"
  shows "alone a (put_account a ja j)"
proof -
  obtain acc' fs where ja: "ja = (acc', j_journal j @ fs)" "list_all (own_entry a) fs" "flagged_cold acc' = flagged_cold acc"
    using assms(3) by (cases ja) (auto simp: own_step_def same_shape_def)
  have acc: "\<not> flagged_cold acc" "\<forall>b acc. j_state j b = Some acc \<longrightarrow> b = a \<and> \<not> flagged_cold acc"
      "\<forall>e\<in>set (j_journal j). own_entry a e \<or> e = AccountWarmed a"
    using assms(1,2) unfolding alone_def by blast+
  have "b = a \<and> \<not> flagged_cold x" if "j_state (put_account a ja j) b = Some x" for b x
    using that acc(1,2) ja(1,3) by (cases "b = a") (simp_all add: put_account_def)
  moreover have "\<forall>e\<in>set (j_journal (put_account a ja j)). own_entry a e \<or> e = AccountWarmed a"
    using acc(3) ja(1,2) by (simp add: put_account_def list_all_iff ball_Un)
  moreover have "a \<in> dom (j_state (put_account a ja j))" by (simp add: domIff)
  ultimately show ?thesis unfolding alone_def by blast
qed

lemma alone_reverts:
  assumes "\<forall>e\<in>set es. own_entry a e \<or> e = AccountWarmed a" "a \<in> dom st"
  shows "\<exists>st'. entries_revert isd es (st, ts) = Some (st', ts) \<and> a \<in> dom st'"
  using assms(1)
proof (induction es)
  case (Cons e es)
  then obtain st' where st: "entries_revert isd es (st, ts) = Some (st', ts)" "a \<in> dom st'" by auto
  have "\<exists>st''. entry_revert isd e (st', ts) = Some (st'', ts) \<and> a \<in> dom st''"
    using Cons.prems st(2) by (cases e) (auto simp: upd_account_def)
  then show ?case using st(1) by simp
qed (use assms(2) in simp)

text \<open>Reverting without the transient storage.\<close>

lemma revert_without_transient:
  "entries_revert isd es (st, Some ts) = Some (st', Some ts') \<Longrightarrow> entries_revert isd es (st, None) = Some (st', None)"
proof (induction es arbitrary: st' ts')
  case (Cons e es)
  then obtain st1 ts1 where 1: "entries_revert isd es (st, Some ts) = Some (st1, ts1)" "entry_revert isd e (st1, ts1) = Some (st', Some ts')"
    by (auto simp: bind_eq_Some_conv)
  obtain u where u: "ts1 = Some u"
    using 1(2) by (cases e; cases ts1) (auto split: if_splits simp: bind_eq_Some_conv)
  have "entry_revert isd e (st1, None) = Some (st', None)"
    using 1(2) u by (cases e) (auto split: if_splits simp: bind_eq_Some_conv)
  then show ?case using Cons.IH 1(1) u by simp
qed simp

definition based :: "address \<Rightarrow> journal_inner \<Rightarrow> bool" where
  "based a j \<longleftrightarrow> (\<exists>j1. alone a j1 \<and> journal_wf j1 \<and> evolves j1 j)"

lemma based_alone: "alone a j \<Longrightarrow> journal_wf j \<Longrightarrow> based a j"
  unfolding based_def using shape.grows_refl by blast

lemma based_evolves: "based a j \<Longrightarrow> evolves j j' \<Longrightarrow> based a j'"
  unfolding based_def using shape.grows_trans by blast

text \<open>Discarding a transaction does not panic.\<close>

lemma based_discard:
  assumes "based a j"
  shows "\<exists>j'. discard_tx j = Some j'"
proof -
  obtain j1 es where j1: "alone a j1" "j_journal j = j_journal j1 @ es" "j_spec j = j_spec j1"
      "undone (\<lambda>a. same_shape) account_wf (\<lambda>ts us. True) j1 es j"
    using assms by (auto simp: based_def grows_def)
  let ?isd = "is_enabled_in (j_spec j1) SPURIOUS_DRAGON"
  obtain st ts where r: "entries_revert ?isd es (j_state j, Some (j_transient_storage j)) = Some (st, Some ts)"
      "state_shape (j_warm_addresses j1) st (j_state j1)"
    using j1(4) by (auto simp: undone_def)
  have "\<exists>st'. entries_revert ?isd (j_journal j1) (st, None) = Some (st', None)"
  proof (cases "j_journal j1")
    case (Cons e es')
    then have "a \<in> dom (j_state j1)" using j1(1) by (auto simp: alone_def)
    then have "a \<in> dom st" using r(2) by (auto elim: state_relD)
    then show ?thesis using alone_reverts [of "j_journal j1" a st ?isd None] j1(1) unfolding alone_def by blast
  qed simp
  then show ?thesis
    using revert_without_transient [OF r(1)] j1(2,3) by (auto simp: discard_tx_def entries_revert_append Let_def)
qed

section \<open>Before the execution\<close>

definition blob_price_ok :: "('db, 'e) ctx \<Rightarrow> bool" where
  "blob_price_ok c \<longleftrightarrow> (te_tx_type (cx_tx c) = transaction_type_as_u8 TxEip4844 \<longrightarrow>
     (case block_blob_gasprice (cx_block c) of Some p \<Rightarrow> p | None \<Rightarrow> 0) \<le> te_max_fee_per_blob_gas (cx_tx c))"

context evm_database
begin

lemma deduct_ok:
  assumes c: "ctx_ok I sp c" "journal_fresh (cx_journal c)" and v: "\<not> ce_disable_balance_check (cx_cfg c)" "blob_price_ok c"
  obtains q c' where "validate_against_state_and_deduct_caller D c = Some (q, c')" "hsteps I sp c c'"
    "alone (te_caller (cx_tx c)) (cx_journal c')" "q = Inr () \<longrightarrow> warm_in (cx_journal c') (te_caller (cx_tx c))"
proof -
  let ?a = "te_caller (cx_tx c)"
  show thesis
  proof (rule ctx_load_steps [OF c(1), of True ?a])
    fix e c' assume h: "ctx_load D True ?a c = Some (Inl (ErrDatabase e), c')" "hsteps I sp c c'"
    show thesis by (rule that [of "Inl (ErrDatabase e)" c'])
        (use h alone_first [OF c(2) ctx_load_first [OF h(1) c(2)]] in \<open>auto simp: validate_against_state_and_deduct_caller_def\<close>)
  next
    fix acc c' assume h: "ctx_load D True ?a c = Some (Inr acc, c')" "hsteps I sp c c'" "j_state (cx_journal c') ?a = Some acc"
      "warm_in (cx_journal c') ?a" "code_ok acc"
    have al: "alone ?a (cx_journal c')" by (rule alone_first [OF c(2) ctx_load_first [OF h(1) c(2)]])
    have env: "cx_block c' = cx_block c" by (rule hstepsD(5) [OF h(2) c(1)])
    let ?v = "validate_account_nonce_and_code (ac_info acc) (te_nonce (cx_tx c)) (ce_disable_eip3607 (cx_cfg c)) (ce_disable_nonce_check (cx_cfg c))"
    let ?f = "calculate_caller_fee (ai_balance (ac_info acc)) (cx_tx c) (cx_block c) (cx_cfg c)"
    define ja where "ja b = (case te_kind (cx_tx c) of
        TxCall _ \<Rightarrow> snd (ja_bump_nonce ?a (ja_set_balance ?a b (acc, j_journal (cx_journal c'))))
      | TxCreate \<Rightarrow> ja_set_balance ?a b (acc, j_journal (cx_journal c')))" for b
    have o: "own_step ?a (acc, j_journal (cx_journal c')) (ja b)" for b
      using own_ja_set_balance own_step_trans [OF own_ja_set_balance own_ja_bump_nonce] by (simp add: ja_def split: tx_kind.split)
    have "code_ok (fst (ja b))" for b using h(5) by (simp add: ja_def split: tx_kind.split)
    then have p: "hsteps I sp c (ctx_put ?a (ja b) c')" for b
      using hsteps_trans [OF h(2) ctx_put_steps [OF h(3) o]] by blast
    have q: "alone ?a (cx_journal (ctx_put ?a (ja b) c'))" "warm_in (cx_journal (ctx_put ?a (ja b) c')) ?a" for b
      using alone_put [OF al h(3) o, of b] o [of b] h(3,4) by (simp_all add: ctx_put_def warm_in_def own_step_def same_shape_def)
    have run: "validate_against_state_and_deduct_caller D c = (case ?v of Inl e \<Rightarrow> Some (Inl (ErrTransaction e), c')
        | Inr _ \<Rightarrow> Option.bind ?f (\<lambda>r. case r of Inl e \<Rightarrow> Some (Inl (ErrTransaction e), c') | Inr b \<Rightarrow> Some (Inr (), ctx_put ?a (ja b) c')))"
      using h(1) env by (auto simp: validate_against_state_and_deduct_caller_def Let_def ja_def split: sum.split tx_kind.split)
    show thesis
    proof (cases ?v)
      case (Inl e)
      show thesis by (rule that [of "Inl (ErrTransaction e)" c']) (use run Inl h(2) al in simp_all)
    next
      case (Inr u)
      show thesis
      proof (rule caller_fee_charged [of "cx_cfg c" "cx_tx c" "cx_block c" "ai_balance (ac_info acc)"])
        fix e assume "?f = Some (Inl e)"
        then show thesis using that [of "Inl (ErrTransaction e)" c'] run Inr h(2) al by simp
      next
        fix b assume "?f = Some (Inr b)"
        then show thesis using that [of "Inr ()" "ctx_put ?a (ja b) c'"] run Inr p q by simp
      qed (use v in \<open>auto simp: blob_price_ok_def\<close>)
    qed
  qed
qed

end

lemma load_accounts_ctx:
  obtains w where "ev_ctx (load_accounts C e) = (ev_ctx e)\<lparr>cx_journal := (cx_journal (ev_ctx e))\<lparr>j_spec := ce_spec (cx_cfg (ev_ctx e)), j_warm_addresses := w\<rparr>\<rparr>"
  by (auto simp: load_accounts_def Let_def case_prod_beta)

lemma load_accounts_rest:
  "ev_frame_stack (load_accounts C e) = ev_frame_stack e"
  "ep_precompiles (ev_precompiles e) = precompiles_new C (from_spec_id (ep_spec (ev_precompiles e)))
     \<Longrightarrow> ep_precompiles (ev_precompiles (load_accounts C e)) = precompiles_new C (from_spec_id (ep_spec (ev_precompiles (load_accounts C e))))"
  by (simp_all add: load_accounts_def Let_def case_prod_beta set_spec_def)

lemma load_accounts_ok:
  assumes "ctx_ok I sp (ev_ctx e)" "alone a (cx_journal (ev_ctx e))"
  shows "ctx_ok I sp (ev_ctx (load_accounts C e))" "alone a (cx_journal (ev_ctx (load_accounts C e)))"
    "same_env (ev_ctx e) (ev_ctx (load_accounts C e))" "cx_local (ev_ctx (load_accounts C e)) = cx_local (ev_ctx e)"
    "cx_error (ev_ctx (load_accounts C e)) = cx_error (ev_ctx e)"
    "warm_in (cx_journal (ev_ctx (load_accounts C e))) b = warm_in (cx_journal (ev_ctx e)) b"
proof -
  obtain w where e: "ev_ctx (load_accounts C e) = (ev_ctx e)\<lparr>cx_journal := (cx_journal (ev_ctx e))\<lparr>j_spec := ce_spec (cx_cfg (ev_ctx e)), j_warm_addresses := w\<rparr>\<rparr>"
    by (rule load_accounts_ctx)
  have "account_wf w b acc" if "j_state (cx_journal (ev_ctx e)) b = Some acc" for b acc
    using assms that unfolding ctx_ok_def journal_wf_def alone_def account_wf_def by blast
  then show "ctx_ok I sp (ev_ctx (load_accounts C e))" using assms(1) by (simp add: e ctx_ok_def journal_wf_def)
  show "alone a (cx_journal (ev_ctx (load_accounts C e)))" using assms(2) by (simp add: e alone_def)
  show "same_env (ev_ctx e) (ev_ctx (load_accounts C e))" "cx_local (ev_ctx (load_accounts C e)) = cx_local (ev_ctx e)"
    "cx_error (ev_ctx (load_accounts C e)) = cx_error (ev_ctx e)"
    "warm_in (cx_journal (ev_ctx (load_accounts C e))) b = warm_in (cx_journal (ev_ctx e)) b"
    by (simp_all add: e same_env_def warm_in_def)
qed

text \<open>A context in the middle of a transaction that started in \<open>c0\<close>.\<close>

definition during :: "('db \<Rightarrow> bool) \<Rightarrow> ('db, 'e) ctx \<Rightarrow> ('db, 'e) ctx \<Rightarrow> bool" where
  "during I c0 c \<longleftrightarrow> ctx_ok I (ce_spec (cx_cfg c0)) c \<and> same_env c0 c \<and> based (te_caller (cx_tx c0)) (cx_journal c)"

lemma during_steps: "during I c0 c \<Longrightarrow> hsteps I (ce_spec (cx_cfg c0)) c c' \<Longrightarrow> during I c0 c'"
  unfolding during_def same_env_def using hstepsD [of I "ce_spec (cx_cfg c0)" c c'] based_evolves by metis

lemma during_discard: "during I c0 c \<Longrightarrow> \<exists>j. discard_tx (cx_journal c) = Some j"
  unfolding during_def using based_discard by blast

text \<open>The precompiled contracts are those of the hardfork they are set for.\<close>

definition spec_precompiles :: "crypto \<Rightarrow> ('db, 'e) evm \<Rightarrow> bool" where
  "spec_precompiles C e \<longleftrightarrow> ep_precompiles (ev_precompiles e) = precompiles_new C (from_spec_id (ep_spec (ev_precompiles e)))"

definition idle :: "('db, 'e) evm \<Rightarrow> bool" where
  "idle e \<longleftrightarrow> fs_inv (ev_frame_stack e) \<and> fs_index (ev_frame_stack e) = None \<and> lc_shared_memory_buffer (cx_local (ev_ctx e)) = []"

context evm_database
begin

lemma pre_execution_ok:
  assumes c: "ctx_ok I (ce_spec (cx_cfg (ev_ctx e))) (ev_ctx e)" "journal_fresh (cx_journal (ev_ctx e))"
    and v: "\<not> ce_disable_balance_check (cx_cfg (ev_ctx e))" "blob_price_ok (ev_ctx e)"
    and e: "idle e" "spec_precompiles C e"
  obtains q e' where "pre_execution par X C D e = Some (q, e')" "during I (ev_ctx e) (ev_ctx e')"
    "idle e'" "spec_precompiles C e'" "\<forall>n. q = Inr n \<longrightarrow> warm_in (cx_journal (ev_ctx e')) (te_caller (cx_tx (ev_ctx e)))"
proof -
  let ?sp = "ce_spec (cx_cfg (ev_ctx e))" and ?a = "te_caller (cx_tx (ev_ctx e))"
  obtain q c1 where 1: "validate_against_state_and_deduct_caller D (ev_ctx e) = Some (q, c1)" "hsteps I ?sp (ev_ctx e) c1"
      "alone ?a (cx_journal c1)" "q = Inr () \<longrightarrow> warm_in (cx_journal c1) ?a"
    by (rule deduct_ok [OF c v])
  have c1: "ctx_ok I ?sp c1" "same_env (ev_ctx e) c1" "cx_local c1 = cx_local (ev_ctx e)"
    using hstepsD [OF 1(2) c(1)] by (simp_all add: same_env_def)
  have d: "during I (ev_ctx e) c" if "ctx_ok I ?sp c" "same_env (ev_ctx e) c" "alone ?a (cx_journal c)" for c
    using that based_alone unfolding during_def ctx_ok_def by blast
  let ?e1 = "load_accounts C (e\<lparr>ev_ctx := c1\<rparr>)"
  have l: "ctx_ok I ?sp (ev_ctx ?e1)" "alone ?a (cx_journal (ev_ctx ?e1))" "same_env c1 (ev_ctx ?e1)" "cx_local (ev_ctx ?e1) = cx_local c1"
      "warm_in (cx_journal (ev_ctx ?e1)) ?a = warm_in (cx_journal c1) ?a"
    using load_accounts_ok [of I ?sp "e\<lparr>ev_ctx := c1\<rparr>" ?a C] c1(1) 1(3) by simp_all
  have r: "ev_frame_stack ?e1 = ev_frame_stack e" "spec_precompiles C ?e1"
    using load_accounts_rest [where C = C and e = "e\<lparr>ev_ctx := c1\<rparr>"] e(2) by (simp_all add: spec_precompiles_def)
  have d1: "during I (ev_ctx e) (ev_ctx ?e1)" by (rule d [OF l(1) _ l(2)]) (use l(3) c1(2) in \<open>simp add: same_env_def\<close>)
  show thesis
  proof (cases q)
    case (Inl err)
    show thesis by (rule that [of "Inl err" "e\<lparr>ev_ctx := c1\<rparr>"])
        (use 1 Inl d [OF c1(1,2) 1(3)] e c1(3) in \<open>simp_all add: pre_execution_def idle_def spec_precompiles_def\<close>)
  next
    case (Inr u)
    obtain p c2 where 2: "apply_eip7702_auth_list par (ex_keccak256 X) D (ev_ctx ?e1) = Some (p, c2)" "hsteps I ?sp (ev_ctx ?e1) c2"
      using auth_list_ok [OF l(1), of par "ex_keccak256 X"] by (auto simp: hok_def)
    show thesis
      by (rule that [of p "?e1\<lparr>ev_ctx := c2\<rparr>"])
        (use 1 2 Inr during_steps [OF d1 2(2)] hstepsD(7,8) [OF 2(2) l(1)] l e r c1(3) in
          \<open>simp_all add: pre_execution_def Let_def idle_def spec_precompiles_def\<close>)
  qed
qed

end

section \<open>The execution\<close>

text \<open>The frames never change the precompiled contracts.\<close>

lemma turn_precompiles:
  "frame_init_evm X D fi e = Some (r, e') \<Longrightarrow> ev_precompiles e' = ev_precompiles e"
  "frame_return_result x e = Some (q, e') \<Longrightarrow> ev_precompiles e' = ev_precompiles e"
  "frame_run X D e = Some (i, e') \<Longrightarrow> ev_precompiles e' = ev_precompiles e"
proof -
  show "ev_precompiles e' = ev_precompiles e" if h: "frame_init_evm X D fi e = Some (r, e')"
  proof -
    obtain new S where 1: "(if fs_index (ev_frame_stack e) = None then Some (start_init (ev_frame_stack e)) else get_next (ev_frame_stack e)) = Some (new, S)"
      using h by (auto simp: frame_init_evm_def Let_def bind_eq_Some_conv)
    obtain res fs c where 2: "init_with_context X D (ev_precompiles e) fi new S (ev_ctx e) = Some (res, fs, c)"
      using h 1 by (auto simp: frame_init_evm_def Let_def bind_eq_Some_conv)
    show ?thesis
    proof (cases res)
      case (Inr q)
      show ?thesis using h 1 2 Inr by (cases q) (auto simp: frame_init_evm_def Let_def)
    qed (use h 1 2 in \<open>auto simp: frame_init_evm_def Let_def\<close>)
  qed
  show "ev_precompiles e' = ev_precompiles e" if "frame_return_result x e = Some (q, e')"
    using that by (auto simp: frame_return_result_def Let_def bind_eq_Some_conv case_prod_beta split: if_split_asm)
  show "ev_precompiles e' = ev_precompiles e" if "frame_run X D e = Some (i, e')"
    using that by (auto simp: frame_run_def Let_def bind_eq_Some_conv case_prod_beta)
qed

lemma exec_turn_precompiles:
  assumes "exec_turn X D e = Some (r, e')"
  shows "ev_precompiles e' = ev_precompiles e"
proof -
  obtain i e1 where 1: "frame_run X D e = Some (i, e1)" using assms by (auto simp: exec_turn_def bind_eq_Some_conv)
  note p = turn_precompiles(3) [OF 1]
  show ?thesis
  proof (cases i)
    case (Item fi)
    then obtain q e2 where 2: "frame_init_evm X D fi e1 = Some (q, e2)" using assms 1 by (auto simp: exec_turn_def bind_eq_Some_conv)
    show ?thesis
    proof (cases q)
      case (Inr x)
      then show ?thesis using assms 1 2 Item p turn_precompiles(1) [OF 2] turn_precompiles(2)
        by (cases x) (fastforce simp: exec_turn_def)+
    qed (use assms 1 2 Item p turn_precompiles(1) [OF 2] in \<open>simp add: exec_turn_def\<close>)
  next
    case (Result x)
    then show ?thesis using assms 1 p turn_precompiles(2) by (fastforce simp: exec_turn_def)
  qed
qed

lemma exec_loop_precompiles:
  fixes D :: "('db, 'e) database"
  assumes "exec_loop X D e = Some y"
  shows "ev_precompiles (snd y) = ev_precompiles e"
proof (rule exec_loop.raw_induct [OF _ assms, where P = "\<lambda>X D e y. ev_precompiles (snd y) = ev_precompiles e"])
  fix loop X and D :: "('db, 'e) database" and e y
  assume ih: "\<And>X D e y. loop X D e = Some y \<Longrightarrow> ev_precompiles (snd y) = ev_precompiles e"
    and b: "Option.bind (exec_turn X D e) (\<lambda>(r, e). case r of Inl err \<Rightarrow> Some (Inl err, e)
      | Inr None \<Rightarrow> loop X D e | Inr (Some result) \<Rightarrow> Some (Inr result, e)) = Some y"
  obtain r e1 where r: "exec_turn X D e = Some (r, e1)" using b by (auto simp: bind_eq_Some_conv)
  show "(\<lambda>X D e y. ev_precompiles (snd y) = ev_precompiles e) X D e y"
  proof (cases r)
    case (Inr q)
    then show ?thesis using ih [of X D e1 y] b r exec_turn_precompiles [OF r] by (cases q) auto
  qed (use b r exec_turn_precompiles [OF r] in auto)
qed

lemma run_exec_loop_precompiles:
  assumes "run_exec_loop X D fi e = Some (r, e')"
  shows "ev_precompiles e' = ev_precompiles e"
proof -
  obtain q e1 where 1: "frame_init_evm X D fi e = Some (q, e1)" using assms by (auto simp: run_exec_loop_def bind_eq_Some_conv)
  show ?thesis
  proof (cases q)
    case (Inr x)
    then show ?thesis using assms 1 turn_precompiles(1) [OF 1] exec_loop_precompiles [of X D e1]
      by (cases x) (auto simp: run_exec_loop_def)
  qed (use assms 1 turn_precompiles(1) [OF 1] in \<open>auto simp: run_exec_loop_def\<close>)
qed

text \<open>The sizes of a transaction that the bounds on gas and memory allow.\<close>

definition tx_sized :: "tx_env \<Rightarrow> bool" where
  "tx_sized tx \<longleftrightarrow> unat (te_gas_limit tx) < gas_bound \<and> length (te_data tx) < 2 ^ 62"

context evm_database
begin

lemma first_frame_input_ok:
  assumes c: "ctx_ok I sp c" "lc_shared_memory_buffer (cx_local c) = []" "warm_in (cx_journal c) (te_caller (cx_tx c))"
    and s: "tx_sized (cx_tx c)" "gl \<le> te_gas_limit (cx_tx c)"
  obtains q c' where "first_frame_input D gl c = Some (q, c')" "hsteps I sp c c'" "\<forall>e. q = Inl e \<longrightarrow> execution_error e"
    "\<forall>fi. q = Inr fi \<longrightarrow> first_frame_ok False (cx_journal c') fi \<and> request_gas (fi_frame_input fi) = unat gl"
proof -
  let ?fi = "\<lambda>code. \<lparr>fi_depth = 0, fi_memory = mem_new_with_buffer [], fi_frame_input = create_init_frame (cx_tx c) code gl\<rparr>"
  have gl: "unat gl < gas_bound" using s unfolding tx_sized_def word_le_nat_alt by linarith
  show thesis
  proof (cases "te_kind (cx_tx c)")
    case TxCreate
    show thesis
      by (rule that [of "Inr (?fi None)" c])
        (use TxCreate c(2) s(1) gl in \<open>simp_all add: first_frame_input_def create_init_frame_def first_frame_ok_def tx_sized_def hsteps_refl Let_def\<close>)
  next
    case (TxCall to)
    have ff: "first_frame_ok False (cx_journal c') (?fi (Some (account_code acc)))" "request_gas (fi_frame_input (?fi (Some (account_code acc)))) = unat gl"
      if "hsteps I sp c c'" "warm_in (cx_journal c') to" "code_ok acc" for c' acc
      using that hstepsD(7) [OF that(1) c(1,3)] TxCall s(1) gl
      by (auto simp: create_init_frame_def first_frame_ok_def tx_sized_def account_code_def code_ok_def ret_ok_def split: option.split)
    show thesis
    proof (rule ctx_load_steps [OF c(1), of True to])
      fix e c' assume "ctx_load D True to c = Some (Inl (ErrDatabase e), c')" "hsteps I sp c c'"
      then show thesis using that [of "Inl (ErrDatabase e)" c'] TxCall by (simp add: first_frame_input_def Let_def)
    next
      fix acc c' assume h: "ctx_load D True to c = Some (Inr acc, c')" "hsteps I sp c c'" "warm_in (cx_journal c') to" "code_ok acc"
      have c': "ctx_ok I sp c'" by (rule hstepsD(1) [OF h(2) c(1)])
      show thesis
      proof (cases "\<exists>d. ai_code (ac_info acc) = Some (Eip7702 d)")
        case False
        then have "first_frame_input D gl c = Some (Inr (?fi (Some (account_code acc))), c')"
          using h(1) TxCall c(2) by (auto simp: first_frame_input_def Let_def split: option.splits bytecode.splits)
        then show thesis using that h(2) ff [OF h(2-4)] by simp
      next
        case True
        then obtain d where d: "ai_code (ac_info acc) = Some (Eip7702 d)" by blast
        show thesis
        proof (rule ctx_load_steps [OF c', of True "delegated_address d"])
          fix e c2 assume "ctx_load D True (delegated_address d) c' = Some (Inl (ErrDatabase e), c2)" "hsteps I sp c' c2"
          then show thesis using that [of "Inl (ErrDatabase e)" c2] TxCall h(1) d hsteps_trans [OF h(2)] by (simp add: first_frame_input_def Let_def)
        next
          fix acc2 c2 assume g: "ctx_load D True (delegated_address d) c' = Some (Inr acc2, c2)" "hsteps I sp c' c2" "code_ok acc2"
          have "first_frame_input D gl c = Some (Inr (?fi (Some (account_code acc2))), c2)"
            using h(1) g(1) d TxCall c(2) by (simp add: first_frame_input_def Let_def)
          then show thesis
            using that hsteps_trans [OF h(2) g(2)] ff [OF hsteps_trans [OF h(2) g(2)] hstepsD(7) [OF g(2) c' h(3)] g(3)] by simp
        qed
      qed
    qed
  qed
qed

end

lemma frame_gas_simps [simp]:
  "frame_result_gas (set_frame_gas g r) = g" "frame_instruction_result (set_frame_gas g r) = frame_instruction_result r"
  "frame_instruction_result (last_frame_result L r) = frame_instruction_result r"
  by (cases r; simp add: frame_result_gas_def frame_instruction_result_def last_frame_result_def Let_def)+

lemma last_frame_gas:
  "g_limit (frame_result_gas (last_frame_result L r)) = L"
  "g_remaining (frame_result_gas (last_frame_result L r)) \<le> g_remaining (frame_result_gas r)"
  by (simp_all add: last_frame_result_def Let_def gas_new_spent_def erase_cost_def record_refund_def)

text \<open>The result of an execution within the gas that is left for it.\<close>

definition executed :: "tx_env \<Rightarrow> initial_and_floor_gas \<Rightarrow> ('db, 'e) ctx \<Rightarrow> frame_result \<Rightarrow> bool" where
  "executed tx ig c x \<longleftrightarrow> g_limit (frame_result_gas x) = te_gas_limit tx
     \<and> g_remaining (frame_result_gas x) \<le> te_gas_limit tx - initial_gas ig
     \<and> (frame_instruction_result x = FatalExternalError \<longrightarrow> ctx_err c)
     \<and> frame_instruction_result x \<noteq> InvalidExtDelegateCallTarget"

context evm_database
begin

lemma execution_ok:
  assumes d: "during I c0 (ev_ctx e)" and e: "idle e" "spec_precompiles C e" "crypto_ok C"
    and s: "warm_in (cx_journal (ev_ctx e)) (te_caller (cx_tx c0))" "tx_sized (cx_tx c0)" "initial_gas ig \<le> te_gas_limit (cx_tx c0)"
  obtains q e' where "execution X D ig e = Some (q, e')" "during I c0 (ev_ctx e')" "fs_inv (ev_frame_stack e')" "spec_precompiles C e'"
    "\<forall>err. q = Inl err \<longrightarrow> execution_error err" "\<forall>x. q = Inr x \<longrightarrow> executed (cx_tx c0) ig (ev_ctx e') x"
proof -
  let ?sp = "ce_spec (cx_cfg c0)" and ?c = "ev_ctx e" and ?gl = "te_gas_limit (cx_tx c0) - initial_gas ig"
  have c: "ctx_ok I ?sp ?c" "cx_tx ?c = cx_tx c0" "cx_cfg ?c = cx_cfg c0" using d by (simp_all add: during_def same_env_def)
  have gl: "?gl \<le> te_gas_limit (cx_tx c0)" using s(3) by (simp add: word_sub_le)
  obtain q c1 where 1: "first_frame_input D ?gl ?c = Some (q, c1)" "hsteps I ?sp ?c c1" "\<forall>e. q = Inl e \<longrightarrow> execution_error e"
      "\<forall>fi. q = Inr fi \<longrightarrow> first_frame_ok False (cx_journal c1) fi \<and> request_gas (fi_frame_input fi) = unat ?gl"
    by (rule first_frame_input_ok [OF c(1), of ?gl]) (use c e(1) s gl in \<open>simp_all add: idle_def\<close>)
  have d1: "during I c0 c1" by (rule during_steps [OF d 1(2)])
  show thesis
  proof (cases q)
    case (Inl err)
    show thesis by (rule that [of "Inl err" "e\<lparr>ev_ctx := c1\<rparr>"])
        (use 1 Inl c d1 e in \<open>simp_all add: execution_def idle_def spec_precompiles_def\<close>)
  next
    case (Inr fi)
    let ?e = "e\<lparr>ev_ctx := c1\<rparr>"
    have f: "first_frame_ok False (cx_journal c1) fi" "request_gas (fi_frame_input fi) = unat ?gl" using 1(4) Inr by simp_all
    have c1: "ctx_ok I ?sp c1" "cx_cfg c1 = cx_cfg c0" "cx_tx c1 = cx_tx c0" using d1 by (simp_all add: during_def same_env_def)
    have "ok (loop_ok I (ce_spec (cx_cfg (ev_ctx ?e))) False (ev_ctx ?e) (request_gas (fi_frame_input fi))) (run_exec_loop X D fi ?e)"
      by (rule loop_from_first_frame [OF e(3)]) (use e f c1 in \<open>simp_all add: idle_def spec_precompiles_def\<close>)
    then have "ok (loop_ok I ?sp False c1 (unat ?gl)) (run_exec_loop X D fi ?e)" using f(2) c1(2) by simp
    then obtain r e' where r: "run_exec_loop X D fi ?e = Some (r, e')" "loop_ok I ?sp False c1 (unat ?gl) (r, e')"
      unfolding ok_iff by (metis surj_pair)
    have st: "settled I ?sp False c1 (ev_ctx e')" "fs_inv (ev_frame_stack e')" using r(2) by (cases r; simp add: final_ok_def)+
    have d2: "during I c0 (ev_ctx e')"
      using st(1) d1 based_evolves unfolding during_def settled_def same_env_def by metis
    have p: "spec_precompiles C e'" using run_exec_loop_precompiles [OF r(1)] e(2) by (simp add: spec_precompiles_def)
    have tx: "cx_tx (ev_ctx e') = cx_tx c0" using d2 by (simp add: during_def same_env_def)
    show thesis
    proof (cases r)
      case (Inl err)
      have "execution_error (evm_error_of_context err)" by (cases err) simp_all
      then show thesis by (intro that [of "Inl (evm_error_of_context err)" e'])
          (use 1(1) r(1) Inr Inl c d2 st p in \<open>simp_all add: execution_def\<close>)
    next
      case x: (Inr x)
      have "unat (g_remaining (frame_result_gas x)) \<le> unat ?gl" using r(2) x by (simp add: final_ok_def fits_def)
      then have "executed (cx_tx c0) ig (ev_ctx e') (last_frame_result (te_gas_limit (cx_tx c0)) x)"
        using r(2) x last_frame_gas(2) [of "te_gas_limit (cx_tx c0)" x] order_trans
        by (fastforce simp: executed_def last_frame_gas(1) final_ok_def fits_def word_le_nat_alt)
      then show thesis by (intro that [of "Inr (last_frame_result (te_gas_limit (cx_tx c0)) x)" e'])
          (use 1(1) r(1) Inr x c d2 st p tx in \<open>simp_all add: execution_def\<close>)
    qed
  qed
qed

end

section \<open>A whole transaction\<close>

lemma final_gas:
  assumes "g_limit g = L" "g_remaining g \<le> L" "floor_gas ig \<le> L"
  shows "floor_gas ig \<le> used (eip7623_check_gas_floor (refund sp g n) ig)" "used (eip7623_check_gas_floor (refund sp g n) ig) \<le> L"
proof -
  let ?r = "refund sp g n"
  have r: "g_limit ?r = L" "g_remaining ?r = g_remaining g" by (simp_all add: refund_def set_final_refund_def record_refund_def Let_def assms(1))
  have u: "used ?r \<le> L" using assms(2) r by (simp add: used_def spent_def saturating_sub_def word_le_nat_alt unat_sub_if_size)
  have "used (set_refund 0 (set_spent (floor_gas ig) ?r)) = floor_gas ig"
    using assms(3) r by (simp add: used_def set_refund_def set_spent_def spent_def saturating_sub_def)
  then show "floor_gas ig \<le> used (eip7623_check_gas_floor ?r ig)" "used (eip7623_check_gas_floor ?r ig) \<le> L"
    using u assms(3) by (auto simp: eip7623_check_gas_floor_def used_def spent_sub_refunded_def not_less)
qed

lemma initcode_cost_some: "\<exists>x. initcode_cost n = Some x"
proof -
  have "unat (num_words n) \<le> 2 ^ 64 div 32"
    using unsigned_less [of "saturating_add n 31", where 'a = nat]
    by (simp add: num_words_def unat_div_distrib div_le_mono less_imp_le)
  then show ?thesis by (simp add: initcode_cost_def cost_per_word_def checked_mul_def gas_INITCODE_WORD_COST_def)
qed

lemma handler_validate_some: "\<exists>q. handler_validate c = Some q"
proof -
  obtain n where "initcode_cost (of_nat (length (te_data (cx_tx c)))) = Some n" using initcode_cost_some by blast
  then show ?thesis
    by (simp add: handler_validate_def validate_initial_tx_gas_def calculate_initial_tx_gas_for_tx_def calculate_initial_tx_gas_def Let_def
        split: sum.split prod.split)
qed

lemma handler_validate_ok:
  assumes "handler_validate c = Some (Inr ig)"
  shows "initial_gas ig \<le> te_gas_limit (cx_tx c)" "floor_gas ig \<le> te_gas_limit (cx_tx c)" "blob_price_ok c"
    "is_enabled_in (ce_spec (cx_cfg c)) MERGE \<Longrightarrow> be_prevrandao (cx_block c) \<noteq> None"
proof -
  have v: "validate_env c = Inr ()" and "validate_initial_tx_gas (cx_tx c) (ce_spec (cx_cfg c)) (ce_disable_eip7623 (cx_cfg c)) = Some (Inr ig)"
    using assms sum.exhaust by (auto simp: handler_validate_def split: sum.split_asm) (metis sum.exhaust)
  then show "initial_gas ig \<le> te_gas_limit (cx_tx c)" "floor_gas ig \<le> te_gas_limit (cx_tx c)"
    by (auto simp: validate_initial_tx_gas_def calculate_initial_tx_gas_for_tx_def calculate_initial_tx_gas_def Let_def bind_eq_Some_conv
        split: if_splits prod.splits)
  show "is_enabled_in (ce_spec (cx_cfg c)) MERGE \<Longrightarrow> be_prevrandao (cx_block c) \<noteq> None"
    using v by (auto simp: validate_env_def Let_def split: if_splits)
  have "validate_tx_env (cx_cfg c) (cx_block c) (cx_tx c) (ce_spec (cx_cfg c)) = Inr ()"
    using v by (auto simp: validate_env_def Let_def split: if_splits sum.splits)
  then show "blob_price_ok c"
    by (auto simp: blob_price_ok_def validate_tx_env_def validate_tx_fees_def validate_eip4844_tx_def and_then_def transaction_type_from_def Let_def not_less
        split: if_splits sum.splits)
qed

text \<open>A machine on which a transaction can start: the journal is empty, no frame and no memory is in use.\<close>

definition evm_ready :: "('db \<Rightarrow> bool) \<Rightarrow> crypto \<Rightarrow> ('db, 'e) evm \<Rightarrow> bool" where
  "evm_ready I C e \<longleftrightarrow> I (cx_db (ev_ctx e)) \<and> journal_fresh (cx_journal (ev_ctx e)) \<and> idle e \<and> spec_precompiles C e"

lemma halts_outside:
  "r \<noteq> FatalExternalError \<Longrightarrow> r \<noteq> InvalidExtDelegateCallTarget \<Longrightarrow> success_or_halt_from r \<noteq> ShFatalExternalError \<and> success_or_halt_from r \<noteq> ShInternal"
  by (cases r) simp_all

lemma exec_output_ok:
  assumes "frame_instruction_result x \<noteq> FatalExternalError" "frame_instruction_result x \<noteq> InvalidExtDelegateCallTarget"
  obtains res c' where "exec_result_output x c = Some (res, c')" "gas_used res = used (frame_result_gas x)"
    "cx_db c' = cx_db c" "same_env c c'"
proof -
  obtain ls j where l: "take_logs (cx_journal c) = (ls, j)" by fastforce
  note h = halts_outside [OF assms]
  define r where "r = frame_instruction_result x"
  show thesis
  proof (cases "success_or_halt_from r")
    case (ShHalt reason)
    show thesis
    proof (cases "if r = PrecompileError then lc_precompile_error_message (cx_local c) else None")
      case None
      show thesis
        by (rule that [of "ExHalt reason (used (frame_result_gas x))" "if r = PrecompileError then c\<lparr>cx_journal := j, cx_local := (cx_local c)\<lparr>lc_precompile_error_message := None\<rparr>\<rparr> else c\<lparr>cx_journal := j\<rparr>"])
          (use None ShHalt l in \<open>auto simp: exec_result_output_def r_def same_env_def take_precompile_error_context_def split: if_split_asm\<close>)
    next
      case (Some m)
      show thesis
        by (rule that [of "ExHalt (HrPrecompileErrorWithContext m) (used (frame_result_gas x))" "c\<lparr>cx_journal := j, cx_local := (cx_local c)\<lparr>lc_precompile_error_message := None\<rparr>\<rparr>"])
          (use Some ShHalt l in \<open>auto simp: exec_result_output_def r_def same_env_def take_precompile_error_context_def split: if_split_asm\<close>)
    qed
  qed (use l h r_def that in \<open>simp_all add: exec_result_output_def same_env_def\<close>)
qed

text \<open>What a run leaves: a result within the gas limit and above the floor, or an error that can be cleaned up.\<close>

definition run_left :: "('db \<Rightarrow> bool) \<Rightarrow> crypto \<Rightarrow> ('db, 'e) evm \<Rightarrow> 'e evm_error + execution_result \<Rightarrow> ('db, 'e) evm \<Rightarrow> bool" where
  "run_left I C e q e' \<longleftrightarrow> I (cx_db (ev_ctx e')) \<and> fs_inv (ev_frame_stack e') \<and> spec_precompiles C e' \<and> same_env (ev_ctx e) (ev_ctx e')
     \<and> (case q of
          Inl err \<Rightarrow> \<exists>j. discard_tx (cx_journal (ev_ctx e')) = Some j
        | Inr res \<Rightarrow> idle e' \<and> gas_used res \<le> te_gas_limit (cx_tx (ev_ctx e))
            \<and> (\<exists>ig. handler_validate (ev_ctx e) = Some (Inr ig) \<and> floor_gas ig \<le> gas_used res))"

lemma run_left_error:
  "during I (ev_ctx e) (ev_ctx e') \<Longrightarrow> fs_inv (ev_frame_stack e') \<Longrightarrow> spec_precompiles C e' \<Longrightarrow> run_left I C e (Inl err) e'"
  using during_discard by (auto simp: run_left_def during_def ctx_ok_def)

lemma execution_result_left:
  assumes d: "during I (ev_ctx e) (ev_ctx e')" "fs_inv (ev_frame_stack e')" "spec_precompiles C e'"
    and x: "frame_instruction_result x = FatalExternalError \<longrightarrow> ctx_err (ev_ctx e')" "frame_instruction_result x \<noteq> InvalidExtDelegateCallTarget"
    and g: "used (frame_result_gas x) \<le> te_gas_limit (cx_tx (ev_ctx e))" "handler_validate (ev_ctx e) = Some (Inr ig)" "floor_gas ig \<le> used (frame_result_gas x)"
  shows "\<exists>q e''. handler_execution_result x e' = Some (q, e'') \<and> run_left I C e q e''"
proof (cases "cx_error (ev_ctx e')")
  case None
  obtain res c where r: "exec_result_output x ((ev_ctx e')\<lparr>cx_error := None\<rparr>) = Some (res, c)" "gas_used res = used (frame_result_gas x)"
      "cx_db c = cx_db (ev_ctx e')" "same_env (ev_ctx e') c"
    by (rule exec_output_ok [of x "(ev_ctx e')\<lparr>cx_error := None\<rparr>"]) (use x None in \<open>auto simp: same_env_def\<close>)
  then show ?thesis using None d g
    by (auto simp: handler_execution_result_def take_error_def run_left_def during_def ctx_ok_def same_env_def idle_def local_clear_def
        spec_precompiles_def fs_clear_def fs_inv_def)
next
  case (Some err)
  have "during I (ev_ctx e) ((ev_ctx e')\<lparr>cx_error := None\<rparr>)" using d(1) by (auto simp: during_def ctx_ok_def same_env_def)
  then have "run_left I C e (Inl (evm_error_of_context err)) (e'\<lparr>ev_ctx := (ev_ctx e')\<lparr>cx_error := None\<rparr>\<rparr>)"
    using d(2,3) by (intro run_left_error) (simp_all add: spec_precompiles_def)
  then show ?thesis using Some by (simp add: handler_execution_result_def take_error_def)
qed

context evm_database
begin

text \<open>Settling an execution: refund, floor, reimbursement and reward, then the result.\<close>

lemma settled_result:
  assumes d: "during I (ev_ctx e) (ev_ctx e2)" "fs_inv (ev_frame_stack e2)" "spec_precompiles C e2"
    and ex: "executed (cx_tx (ev_ctx e)) ig (ev_ctx e2) x"
    and v: "handler_validate (ev_ctx e) = Some (Inr ig)" "initial_gas ig \<le> te_gas_limit (cx_tx (ev_ctx e))" "floor_gas ig \<le> te_gas_limit (cx_tx (ev_ctx e))"
  shows "\<exists>q e'. then_ok (with_ctx e2 (post_execution D x ig n (ev_ctx e2))) handler_execution_result = Some (q, e') \<and> run_left I C e q e'"
proof -
  let ?g = "eip7623_check_gas_floor (refund (ce_spec (cx_cfg (ev_ctx e2))) (frame_result_gas x) n) ig"
  have "g_remaining (frame_result_gas x) \<le> te_gas_limit (cx_tx (ev_ctx e))"
    using ex word_sub_le [OF v(2)] by (auto simp: executed_def intro: order_trans)
  note g = final_gas [OF _ this v(3), of "ce_spec (cx_cfg (ev_ctx e2))" n]
  have c2: "ctx_ok I (ce_spec (cx_cfg (ev_ctx e))) (ev_ctx e2)" using d(1) by (simp add: during_def)
  obtain y c3 where 3: "post_execution D x ig n (ev_ctx e2) = Some (y, c3)" "hsteps I (ce_spec (cx_cfg (ev_ctx e))) (ev_ctx e2) c3"
    using post_execution_ok [OF c2, of x ig n] by (auto simp: hok_def)
  have d3: "during I (ev_ctx e) (ev_ctx (e2\<lparr>ev_ctx := c3\<rparr>))" "fs_inv (ev_frame_stack (e2\<lparr>ev_ctx := c3\<rparr>))" "spec_precompiles C (e2\<lparr>ev_ctx := c3\<rparr>)"
    using during_steps [OF d(1) 3(2)] d(2,3) by (simp_all add: spec_precompiles_def)
  show ?thesis
  proof (cases y)
    case (Inl err)
    then show ?thesis using 3(1) run_left_error [OF d3] by simp
  next
    case (Inr z)
    have "z = set_frame_gas ?g x" using 3(1) Inr by (auto simp: post_execution_def Let_def then_ok_Inr)
    then have "\<exists>q e''. handler_execution_result z (e2\<lparr>ev_ctx := c3\<rparr>) = Some (q, e'') \<and> run_left I C e q e''"
      using execution_result_left [OF d3, of z ig] ex g v(1) hstepsD(9) [OF 3(2) c2] by (auto simp: executed_def)
    then show ?thesis using 3(1) Inr by simp
  qed
qed

lemma run_without_catch_ok:
  assumes e: "evm_ready I C e" "crypto_ok C" and s: "tx_sized (cx_tx (ev_ctx e))" "\<not> ce_disable_balance_check (cx_cfg (ev_ctx e))"
  shows "\<exists>q e'. run_without_catch_error par X C D e = Some (q, e') \<and> run_left I C e q e'"
proof -
  obtain v where v: "handler_validate (ev_ctx e) = Some v" using handler_validate_some by blast
  have r: "I (cx_db (ev_ctx e))" "journal_fresh (cx_journal (ev_ctx e))" "idle e" "spec_precompiles C e" using e(1) by (simp_all add: evm_ready_def)
  show ?thesis
  proof (cases v)
    case (Inl err)
    then have "run_left I C e (Inl err) e"
      using r by (simp add: run_left_def same_env_def idle_def discard_tx_def journal_fresh_def Let_def)
    then show ?thesis using v Inl by (simp add: run_without_catch_error_def)
  next
    case ig: (Inr ig)
    note ok = handler_validate_ok [OF v [unfolded ig]]
    have c: "ctx_ok I (ce_spec (cx_cfg (ev_ctx e))) (ev_ctx e)"
      using r(1,2) ok(4) by (auto simp: ctx_ok_def journal_wf_def journal_fresh_def codes_ok_def)
    obtain p e1 where 1: "pre_execution par X C D e = Some (p, e1)" "during I (ev_ctx e) (ev_ctx e1)" "idle e1" "spec_precompiles C e1"
        "\<forall>n. p = Inr n \<longrightarrow> warm_in (cx_journal (ev_ctx e1)) (te_caller (cx_tx (ev_ctx e)))"
      by (rule pre_execution_ok [OF c r(2) s(2) ok(3) r(3,4)])
    show ?thesis
    proof (cases p)
      case (Inl err)
      then show ?thesis using v ig 1 run_left_error [OF 1(2) _ 1(4)] by (auto simp: run_without_catch_error_def idle_def)
    next
      case n: (Inr n)
      obtain q e2 where 2: "execution X D ig e1 = Some (q, e2)" "during I (ev_ctx e) (ev_ctx e2)" "fs_inv (ev_frame_stack e2)" "spec_precompiles C e2"
          "\<forall>x. q = Inr x \<longrightarrow> executed (cx_tx (ev_ctx e)) ig (ev_ctx e2) x"
        by (rule execution_ok [OF 1(2-4) e(2) _ s(1) ok(1)]) (use 1(5) n in auto)
      show ?thesis
      proof (cases q)
        case (Inl err)
        then show ?thesis using v ig 1(1) n 2 run_left_error [OF 2(2-4)] by (auto simp: run_without_catch_error_def)
      next
        case (Inr x)
        then show ?thesis using v ig 1(1) n 2(1) settled_result [OF 2(2-4), of ig x n] 2(5) v ok(1,2) by (simp add: run_without_catch_error_def)
      qed
    qed
  qed
qed

lemma handler_run_ok:
  assumes "evm_ready I C e" "crypto_ok C" "tx_sized (cx_tx (ev_ctx e))" "\<not> ce_disable_balance_check (cx_cfg (ev_ctx e))"
  obtains q e' where "handler_run par X C D e = Some (q, e')"
    "I (cx_db (ev_ctx e'))" "idle e'" "spec_precompiles C e'" "same_env (ev_ctx e) (ev_ctx e')" "\<forall>res. q = Inr res \<longrightarrow> run_left I C e q e'"
proof -
  obtain q e1 where r: "run_without_catch_error par X C D e = Some (q, e1)" "run_left I C e q e1"
    using run_without_catch_ok [OF assms, of par X] by blast
  show thesis
  proof (cases q)
    case (Inr res)
    then show thesis using that [of q e1] r by (simp add: handler_run_def or_catch_def run_left_def)
  next
    case (Inl err)
    obtain j where j: "discard_tx (cx_journal (ev_ctx e1)) = Some j" using r(2) Inl by (auto simp: run_left_def)
    show thesis
      by (rule that [of "Inl err" "e1\<lparr>ev_ctx := (local_clear (ev_ctx e1))\<lparr>cx_journal := j\<rparr>, ev_frame_stack := fs_clear (ev_frame_stack e1)\<rparr>"])
        (use r Inl j in \<open>auto simp: handler_run_def or_catch_def catch_error_def run_left_def idle_def local_clear_def spec_precompiles_def
          same_env_def fs_clear_def fs_inv_def\<close>)
  qed
qed

end

section \<open>Rejected transactions\<close>

lemma then_ok_Inl:
  "then_ok r f = Some (Inl e, s') \<longleftrightarrow> r = Some (Inl e, s') \<or> (\<exists>x s. r = Some (Inr x, s) \<and> f x s = Some (Inl e, s'))"
proof (cases r)
  case (Some q)
  obtain x s where "q = (x, s)" by fastforce
  then show ?thesis using Some by (cases x) simp_all
qed simp

lemma with_ctx_Inl: "with_ctx e r = Some (Inl x, e') \<longleftrightarrow> (\<exists>c. r = Some (Inl x, c) \<and> e' = e\<lparr>ev_ctx := c\<rparr>)"
  by (auto simp: with_ctx_def)

text \<open>After the caller has been charged only the database and the precompiled contracts raise errors.\<close>

lemma ctx_load_error:
  assumes "ctx_load D lc a c = Some (Inl e, c')"
  shows "execution_error e"
proof -
  obtain r j db where "unwrap_db_error (load_account_mut_optional_code D a lc False (cx_journal c) (cx_db c)) = Some (r, j, db)"
    using assms by (auto simp: ctx_load_def bind_eq_Some_conv)
  then show ?thesis using assms by (cases r) (auto simp: ctx_load_def)
qed

lemma apply_auths_error: "apply_auths keccak D as n c = Some (Inl e, c') \<Longrightarrow> execution_error e"
proof (induction as arbitrary: n c)
  case (Cons x as)
  obtain q a where x: "x = (q, a)" by fastforce
  show ?case
  proof (cases q)
    case (Some authority)
    then have "ctx_load D True authority c = Some (Inl e, c') \<or> (\<exists>n c. apply_auths keccak D as n c = Some (Inl e, c'))"
      using Cons.prems x unfolding Some x apply_auths.simps then_ok_Inl Let_def by (metis (no_types, lifting))
    then show ?thesis using Cons.IH ctx_load_error by blast
  qed (use Cons x in simp)
qed simp

lemma map_result_Inl:
  assumes "map_option (\<lambda>(r, s). (case r of Inl x \<Rightarrow> Inl (f x) | Inr y \<Rightarrow> Inr (g y s), s)) o' = Some (Inl e, s')"
  obtains x where "o' = Some (Inl x, s')" "e = f x"
proof -
  obtain r s where "o' = Some (r, s)" using assms by auto
  then show thesis using assms that by (cases r) auto
qed

lemma auth_list_error:
  assumes "apply_eip7702_auth_list par keccak D c = Some (Inl e, c')"
  shows "execution_error e"
proof (cases "te_tx_type (cx_tx c) = transaction_type_as_u8 TxEip7702")
  case True
  define as where "as = (if cx_par_7702 c then par (map (\<lambda>a. (recovered_authority (ce_chain_id (cx_cfg c)) a, a)) (te_authorization_list (cx_tx c)))
    else map (\<lambda>a. (recovered_authority (ce_chain_id (cx_cfg c)) a, a)) (te_authorization_list (cx_tx c)))"
  have "map_option (\<lambda>(r, c). (case r of Inl e \<Rightarrow> Inl e | Inr n \<Rightarrow> Inr (n * (PER_EMPTY_ACCOUNT_COST - PER_AUTH_BASE_COST)), c))
      (apply_auths keccak D as 0 c) = Some (Inl e, c')"
    using assms True unfolding apply_eip7702_auth_list_def Let_def as_def by (simp only: simp_thms if_False)
  then obtain x where "apply_auths keccak D as 0 c = Some (Inl x, c')" "e = x" by (rule map_result_Inl)
  then show ?thesis using apply_auths_error by blast
qed (use assms in \<open>simp add: apply_eip7702_auth_list_def\<close>)

lemma context_error: "execution_error (evm_error_of_context e)"
  by (cases e) simp_all

lemma first_frame_error:
  assumes "first_frame_input D gl c = Some (Inl e, c')"
  shows "execution_error e"
proof (cases "te_kind (cx_tx c)")
  case (TxCall to)
  show ?thesis
  proof (cases "\<exists>acc c1 d. ctx_load D True to c = Some (Inr acc, c1) \<and> ai_code (ac_info acc) = Some (Eip7702 d)")
    case True
    then show ?thesis using assms TxCall by (auto simp: first_frame_input_def Let_def then_ok_Inl dest: ctx_load_error)
  next
    case False
    obtain q c1 where l: "ctx_load D True to c = Some (q, c1)"
      using assms TxCall by (cases "ctx_load D True to c") (auto simp: first_frame_input_def Let_def)
    show ?thesis
    proof (cases q)
      case (Inr acc)
      show ?thesis
      proof (cases "ai_code (ac_info acc)")
        case (Some b)
        then show ?thesis using False assms TxCall l Inr by (cases b) (auto simp: first_frame_input_def Let_def)
      qed (use assms TxCall l Inr in \<open>simp add: first_frame_input_def Let_def\<close>)
    qed (use assms TxCall l ctx_load_error [of D True to c] in \<open>simp add: first_frame_input_def Let_def\<close>)
  qed
qed (use assms in \<open>simp add: first_frame_input_def Let_def\<close>)

lemma execution_raises:
  assumes "execution X D ig e = Some (Inl err, e')"
  shows "execution_error err"
  using assms unfolding execution_def Let_def then_ok_Inl with_ctx_Inl
proof (elim disjE exE conjE)
  fix fi e1
  assume "map_option (\<lambda>(r, e). (case r of Inl err \<Rightarrow> Inl (evm_error_of_context err)
      | Inr x \<Rightarrow> Inr (last_frame_result (te_gas_limit (cx_tx (ev_ctx e))) x), e)) (run_exec_loop X D fi e1) = Some (Inl err, e')"
  then show ?thesis by (rule map_result_Inl) (simp add: context_error)
qed (rule first_frame_error)

lemma post_execution_raises: "post_execution D x ig n c = Some (Inl err, c') \<Longrightarrow> execution_error err"
  by (auto simp: post_execution_def Let_def then_ok_Inl reimburse_caller_def reward_beneficiary_def dest: ctx_load_error)

lemma execution_result_raises: "handler_execution_result x e = Some (Inl err, e') \<Longrightarrow> execution_error err"
  by (auto simp: handler_execution_result_def take_error_def context_error split: option.splits)

text \<open>An account that only the first load has put into the state.\<close>

lemma as_in_db_cold: "as_in_db D db a acc \<Longrightarrow> as_in_db D db a (mark_cold acc)"
  by (simp add: as_in_db_def mark_cold_def is_touched_def)

lemma discard_first:
  assumes "journal_fresh j" "first_loaded D db a j j1" "discard_tx j1 = Some j'"
  shows "\<forall>b acc. j_state j' b = Some acc \<longrightarrow> b = a \<and> as_in_db D db a acc"
proof (cases "j1 = j")
  case True
  then show ?thesis using assms(1,3) by (auto simp: discard_tx_def journal_fresh_def)
next
  case False
  then obtain c acc where "j1 = warmed a c acc j" "as_in_db D db a acc" using assms(2) by (auto simp: first_loaded_def)
  moreover from this have "j_state j' = [a \<mapsto> if c then mark_cold acc else acc]"
    using assms(1,3) by (cases c) (auto simp: discard_tx_def journal_fresh_def warmed_def upd_account_def)
  ultimately show ?thesis using as_in_db_cold by (auto split: if_splits)
qed

lemma first_loaded_discards:
  assumes "journal_fresh j" "first_loaded D db a j j1"
  shows "\<exists>j'. discard_tx j1 = Some j'"
proof (cases "j1 = j")
  case False
  then obtain c acc where "j1 = warmed a c acc j" using assms(2) by (auto simp: first_loaded_def)
  then show ?thesis using assms(1) by (cases c) (simp_all add: discard_tx_def journal_fresh_def warmed_def upd_account_def Let_def)
qed (use assms(1) in \<open>simp add: discard_tx_def journal_fresh_def Let_def\<close>)

lemma rejected_before_charge:
  assumes "validate_against_state_and_deduct_caller D c = Some (Inl err, c')" "\<not> execution_error err" "journal_fresh (cx_journal c)"
  shows "first_loaded D (cx_db c) (te_caller (cx_tx c)) (cx_journal c) (cx_journal c')"
proof -
  note d = validate_against_state_and_deduct_caller_def
  obtain q c1 where l: "ctx_load D True (te_caller (cx_tx c)) c = Some (q, c1)"
    using assms(1) by (cases "ctx_load D True (te_caller (cx_tx c)) c") (auto simp: d Let_def)
  have "c' = c1"
  proof (cases q)
    case (Inr acc)
    let ?v = "validate_account_nonce_and_code (ac_info acc) (te_nonce (cx_tx c)) (ce_disable_eip3607 (cx_cfg c)) (ce_disable_nonce_check (cx_cfg c))"
    show ?thesis
    proof (cases ?v)
      case v: (Inr u)
      then obtain r where "calculate_caller_fee (ai_balance (ac_info acc)) (cx_tx c) (cx_block c1) (cx_cfg c) = Some r"
        using assms(1) l Inr by (auto simp: d Let_def bind_eq_Some_conv)
      then show ?thesis using assms(1) l Inr v by (cases r) (auto simp: d Let_def)
    qed (use assms(1) l Inr in \<open>auto simp: d Let_def\<close>)
  qed (use assms(1) l in \<open>auto simp: d Let_def\<close>)
  then show ?thesis using ctx_load_first [OF l assms(3)] by simp
qed

lemma rejected_run:
  assumes "run_without_catch_error par X C D e = Some (Inl err, e')" "\<not> execution_error err" "journal_fresh (cx_journal (ev_ctx e))"
  shows "first_loaded D (cx_db (ev_ctx e)) (te_caller (cx_tx (ev_ctx e))) (cx_journal (ev_ctx e)) (cx_journal (ev_ctx e'))"
proof -
  have "e' = e \<or> (\<exists>c. validate_against_state_and_deduct_caller D (ev_ctx e) = Some (Inl err, c) \<and> e' = e\<lparr>ev_ctx := c\<rparr>)"
    using assms(1,2) unfolding run_without_catch_error_def pre_execution_def Let_def then_ok_Inl with_ctx_Inl
    by (auto dest: auth_list_error execution_raises post_execution_raises execution_result_raises)
  then show ?thesis using rejected_before_charge [OF _ assms(2,3)] by auto
qed

section \<open>Building a machine\<close>

lemma build_ready:
  assumes "context_new db spec par = Some c" "I db"
  shows "evm_ready I C (build_mainnet C c)" "cx_cfg (ev_ctx (build_mainnet C c)) = cfg_new_with_spec spec"
  using assms fs_inv_new(2) [of 8 eth_frame_default]
  by (auto simp: context_new_def bind_eq_Some_conv evm_ready_def build_mainnet_def journal_fresh_def journal_inner_new_def
      idle_def local_context_default_def spec_precompiles_def eth_precompiles_default_def new_prealloc_def)

text \<open>A transfer of nothing to a machine on an empty database, to witness the theorems below.\<close>

definition sample_tx :: tx_env where
  "sample_tx = tx_of_builder (builder_new\<lparr>tb_gas_limit := 30000, tb_kind := TxCall 9\<rparr>)"

definition sample_machine :: "(unit, nat) evm" where
  "sample_machine = build_mainnet no_crypto
     \<lparr>cx_block = \<lparr>be_number = 0, be_beneficiary = 0, be_timestamp = 1, be_gas_limit = - 1, be_basefee = 0,
        be_difficulty = 0, be_prevrandao = Some 0,
        be_blob_excess_gas_and_price = Some \<lparr>excess_blob_gas = 0, blob_gasprice = 1\<rparr>\<rparr>,
      cx_tx = sample_tx, cx_cfg = cfg_new_with_spec CANCUN, cx_journal = journal_inner_new,
      cx_db = (), cx_local = local_context_default, cx_error = None, cx_par_7702 = False\<rparr>"

lemma sample_machine_ready:
  "evm_ready (\<lambda>_. True) no_crypto sample_machine" "\<not> ce_disable_balance_check (cx_cfg (ev_ctx sample_machine))"
  using fs_inv_new(2) [of 8 eth_frame_default]
  by (simp_all add: sample_machine_def evm_ready_def build_mainnet_def journal_fresh_def journal_inner_new_def idle_def
      local_context_default_def spec_precompiles_def eth_precompiles_default_def new_prealloc_def cfg_new_with_spec_def)

lemma sample_tx_sized: "tx_sized sample_tx" "te_gas_limit sample_tx = 30000"
  by (simp_all add: tx_sized_def sample_tx_def tx_of_builder_def builder_new_def)

section \<open>Properties\<close>

text \<open>C1. Every transaction returns: on a machine that is ready, whatever the transaction, its code and its
  precompiled contracts do, and in whatever order authorizations are recovered, \<open>transact\<close> ends without a panic,
  with a result or an error, and leaves a machine that is ready for the next transaction, with the same block and
  configuration. The gas of a result is at most the gas limit and at least the floor of the validated transaction.\<close>
theorem transact_returns:
  assumes "evm_database D I" "crypto_ok C" "evm_ready I C e" "tx_sized tx" "\<not> ce_disable_balance_check (cx_cfg (ev_ctx e))"
  shows "\<exists>r e'. evm_transact par X C D tx e = Some (r, e') \<and> evm_ready I C e'
    \<and> cx_cfg (ev_ctx e') = cx_cfg (ev_ctx e) \<and> cx_block (ev_ctx e') = cx_block (ev_ctx e)
    \<and> (\<forall>res st. r = Inr (res, st) \<longrightarrow> gas_used res \<le> te_gas_limit tx
         \<and> (\<exists>ig. handler_validate ((ev_ctx e)\<lparr>cx_tx := tx\<rparr>) = Some (Inr ig) \<and> floor_gas ig \<le> gas_used res))"
proof -
  let ?e = "e\<lparr>ev_ctx := (ev_ctx e)\<lparr>cx_tx := tx\<rparr>\<rparr>"
  have r: "evm_ready I C ?e" using assms(3) by (simp add: evm_ready_def idle_def spec_precompiles_def)
  obtain q e1 where q: "handler_run par X C D ?e = Some (q, e1)" "I (cx_db (ev_ctx e1))" "idle e1" "spec_precompiles C e1"
      "same_env (ev_ctx ?e) (ev_ctx e1)" "\<forall>res. q = Inr res \<longrightarrow> run_left I C ?e q e1"
    by (rule evm_database.handler_run_ok [OF assms(1) r assms(2)]) (use assms(4,5) in simp_all)
  let ?e' = "snd (evm_finalize e1)"
  have "evm_ready I C ?e'" "cx_cfg (ev_ctx ?e') = cx_cfg (ev_ctx e)" "cx_block (ev_ctx ?e') = cx_block (ev_ctx e)"
    using q(2-5) by (simp_all add: evm_finalize_def finalize_def evm_ready_def journal_fresh_def idle_def spec_precompiles_def same_env_def)
  then show ?thesis
    using q(1,6) by (cases q) (auto simp: evm_transact_def transact_one_def run_left_def case_prod_beta)
qed

theorem transact_returns_witness:
  "evm_ready (\<lambda>_. True) no_crypto sample_machine
   \<and> (\<exists>r e'. evm_transact (\<lambda>x. x) \<lparr>ex_keccak256 = (\<lambda>_. 0), ex_create = (\<lambda>_ _. 6), ex_create2 = (\<lambda>_ _ _. 7)\<rparr> no_crypto (empty_db (\<lambda>_. 0))
        sample_tx sample_machine = Some (r, e') \<and> evm_ready (\<lambda>_. True) no_crypto e'
        \<and> (\<forall>res st. r = Inr (res, st) \<longrightarrow> gas_used res \<le> 30000))"
  using transact_returns [OF empty.evm_database_axioms no_crypto_ok sample_machine_ready(1) sample_tx_sized(1) sample_machine_ready(2),
      where kec1 = "\<lambda>_. 0" and par = "\<lambda>x. x" and X = "\<lparr>ex_keccak256 = (\<lambda>_. 0), ex_create = (\<lambda>_ _. 6), ex_create2 = (\<lambda>_ _ _. 7)\<rparr>"]
    sample_machine_ready(1) sample_tx_sized(2) by auto

text \<open>C4. A rejected transaction leaves no trace. If \<open>transact_one\<close> fails in the validation of the header, of the
  transaction, or of the caller's nonce, code or balance, then afterwards the journal, the logs and the transient storage
  are empty, no frame is in use, and the only account in the state is the caller, untouched, without slots, and with the
  balance, nonce and code hash of the database.\<close>
theorem rejected_no_trace:
  assumes "transact_one par X C D tx e = Some (Inl err, e')" "\<not> execution_error err" "journal_fresh (cx_journal (ev_ctx e))"
  shows "(\<forall>a acc. j_state (cx_journal (ev_ctx e')) a = Some acc \<longrightarrow> a = te_caller tx \<and> as_in_db D (cx_db (ev_ctx e)) a acc)
    \<and> j_journal (cx_journal (ev_ctx e')) = [] \<and> j_logs (cx_journal (ev_ctx e')) = []
    \<and> j_transient_storage (cx_journal (ev_ctx e')) = Map.empty \<and> fs_index (ev_frame_stack e') = None"
proof -
  let ?e = "e\<lparr>ev_ctx := (ev_ctx e)\<lparr>cx_tx := tx\<rparr>\<rparr>"
  obtain q e1 where r: "run_without_catch_error par X C D ?e = Some (q, e1)"
    using assms(1) by (auto simp: transact_one_def handler_run_def or_catch_def bind_eq_Some_conv)
  then have q: "q = Inl err" "catch_error err e1 = Some (Inl err :: _ evm_error + execution_result, e')"
    using assms(1) by (auto simp: transact_one_def handler_run_def or_catch_def catch_error_def split: sum.splits)
  obtain j where j: "discard_tx (cx_journal (ev_ctx e1)) = Some j" "cx_journal (ev_ctx e') = j" "fs_index (ev_frame_stack e') = None"
    using q(2) by (auto simp: catch_error_def fs_clear_def)
  have l: "first_loaded D (cx_db (ev_ctx e)) (te_caller tx) (cx_journal (ev_ctx e)) (cx_journal (ev_ctx e1))"
    using rejected_run [OF r [unfolded q(1)] assms(2)] assms(3) by simp
  have "j_journal j = [] \<and> j_logs j = [] \<and> j_transient_storage j = Map.empty" using j(1) by (auto simp: discard_tx_def)
  then show ?thesis unfolding j(2,3) using discard_first [OF assms(3) l j(1)] by blast
qed

definition sample_rejected :: tx_env where
  "sample_rejected = sample_tx\<lparr>te_nonce := 5\<rparr>"

lemma sample_rejected_validated:
  "handler_validate ((ev_ctx sample_machine)\<lparr>cx_tx := sample_rejected\<rparr>) = Some (Inr \<lparr>initial_gas = 21000, floor_gas = 0\<rparr>)"
  by (simp add: handler_validate_def validate_env_def validate_tx_env_def validate_tx_fees_def check_chain_id_def and_then_def
      validate_legacy_gas_price_def validate_initial_tx_gas_def calculate_initial_tx_gas_for_tx_def access_list_counts_def
      calculate_initial_tx_gas_def sample_machine_def build_mainnet_def sample_rejected_def sample_tx_def tx_of_builder_def builder_new_def
      cfg_new_with_spec_def cfg_tx_gas_limit_cap_def is_enabled_in_def transaction_type_from_def get_tokens_in_calldata_def)

lemma sample_rejected_error:
  "\<exists>e'. transact_one par X C (empty_db kec) sample_rejected sample_machine = Some (Inl (ErrTransaction (NonceTooHigh 5 0)), e')"
proof -
  let ?c = "(ev_ctx sample_machine)\<lparr>cx_tx := sample_rejected\<rparr>" and ?e = "sample_machine\<lparr>ev_ctx := (ev_ctx sample_machine)\<lparr>cx_tx := sample_rejected\<rparr>\<rparr>"
  have f: "journal_fresh (cx_journal ?c)" using sample_machine_ready(1) by (simp add: evm_ready_def)
  then have n: "j_state (cx_journal ?c) = Map.empty" "j_transaction_id (cx_journal ?c) = 0" by (simp_all add: journal_fresh_def)
  obtain acc c1 where l: "ctx_load (empty_db kec) True (te_caller sample_rejected) ?c = Some (Inr acc, c1)" "ac_info acc = account_info_default"
    using n by (auto simp: ctx_load_def load_account_mut_optional_code_def empty_db_def empty_db_ref_def finish_load_def unwrap_db_error_def ctx_store_def
        new_not_existing_def account_info_default_def Let_def)
  have b: "bytecode_is_empty bytecode_new" by code_simp
  have v: "validate_against_state_and_deduct_caller (empty_db kec) ?c = Some (Inl (ErrTransaction (NonceTooHigh 5 0)), c1)"
    using l b by (simp add: Let_def validate_against_state_and_deduct_caller_def validate_account_nonce_and_code_def account_info_default_def sample_machine_def
        build_mainnet_def cfg_new_with_spec_def sample_rejected_def)
  then have r: "run_without_catch_error par X C (empty_db kec) ?e = Some (Inl (ErrTransaction (NonceTooHigh 5 0)), ?e\<lparr>ev_ctx := c1\<rparr>)"
    using sample_rejected_validated by (simp add: run_without_catch_error_def pre_execution_def)
  obtain j where "discard_tx (cx_journal c1) = Some j" using first_loaded_discards [OF f ctx_load_first [OF l(1) f]] by blast
  then show ?thesis using r by (simp add: transact_one_def handler_run_def or_catch_def catch_error_def)
qed

theorem rejected_no_trace_witness:
  "\<exists>err e'. transact_one (\<lambda>x. x) \<lparr>ex_keccak256 = (\<lambda>_. 0), ex_create = (\<lambda>_ _. 6), ex_create2 = (\<lambda>_ _ _. 7)\<rparr> no_crypto (empty_db (\<lambda>_. 0))
      sample_rejected sample_machine = Some (Inl err, e') \<and> \<not> execution_error err \<and> j_journal (cx_journal (ev_ctx e')) = []
    \<and> (\<forall>a acc. j_state (cx_journal (ev_ctx e')) a = Some acc \<longrightarrow> a = te_caller sample_rejected)"
proof -
  let ?X = "\<lparr>ex_keccak256 = (\<lambda>_. 0), ex_create = (\<lambda>_ _. 6), ex_create2 = (\<lambda>_ _ _. 7)\<rparr>"
  obtain e' where e: "transact_one (\<lambda>x. x) ?X no_crypto (empty_db (\<lambda>_. 0)) sample_rejected sample_machine = Some (Inl (ErrTransaction (NonceTooHigh 5 0)), e')"
    using sample_rejected_error by blast
  have f: "journal_fresh (cx_journal (ev_ctx sample_machine))" using sample_machine_ready(1) by (simp add: evm_ready_def)
  show ?thesis using rejected_no_trace [OF e _ f] e by auto
qed

end
