(* ===== verification/Instr_Spec.thy ===== *)
theory Instr_Spec
  imports Machine
begin

text \<open>
  What single instructions compute, on any host: the effect of the stack instructions \<open>PUSH1\<close> to \<open>SWAP16\<close>
  (\<open>crates/interpreter/src/instructions/stack.rs\<close>) through the instruction table, and the gas that calls and
  creations pass on (\<open>crates/interpreter/src/instructions/contract.rs\<close> with \<open>contract/call_helpers.rs\<close>).
\<close>

section \<open>Single steps\<close>

text \<open>The context in which an instruction starts: behind its opcode, with its static gas paid.\<close>

definition entered :: "u64 \<Rightarrow> 'h instruction_context \<Rightarrow> 'h instruction_context" where
  "entered g c = (advance 1 c)\<lparr>i_gas := (i_gas c)\<lparr>g_remaining := i_remaining c - g\<rparr>\<rparr>"

lemma entered_simps [simp]:
  "i_stack (entered g c) = i_stack c" "i_memory (entered g c) = i_memory c" "i_host (entered g c) = i_host c"
  "i_runtime_flag (entered g c) = i_runtime_flag c" "i_remaining (entered g c) = i_remaining c - g"
  "eb_base (i_bytecode (entered g c)) = eb_base (i_bytecode c)"
  "eb_instruction_pointer (i_bytecode (entered g c)) = eb_instruction_pointer (i_bytecode c) + 1"
  by (simp_all add: entered_def advance_def)

lemma step_eq:
  assumes "eb_opcode (i_bytecode c) = Some op" "instruction_table H keccak op = (f, g)"
  shows "step H keccak c = (if i_remaining c < g then Some (halt_oog (entered g c)) else f (entered g c))"
proof -
  have "eb_instruction_pointer (i_bytecode c) + 1 \<le> length (bytes_ref (eb_base (i_bytecode c)))"
    using assms(1) by (simp add: eb_opcode_def split: if_splits)
  then show ?thesis
    using assms by (simp add: step_def relative_jump_def record_cost_unsafe_def entered_def advance_def Let_def)
qed

lemma table_row:
  assumes "(op, f, g) \<in> set (instruction_rows H keccak)"
  shows "instruction_table H keccak op = (f, g)"
proof -
  have "distinct (map fst (instruction_rows H keccak))"
    unfolding instruction_rows_opcodes by (rule opcode_rows_distinct)
  then show ?thesis using assms by (simp add: instruction_table_def map_of_is_SomeI)
qed

section \<open>Stack instructions\<close>

text \<open>The stack with its top first after \<open>PUSH1\<close> to \<open>PUSH32\<close>, \<open>DUP1\<close> to \<open>DUP16\<close> and \<open>SWAP1\<close> to \<open>SWAP16\<close>,
  followed by the bytes \<open>imm\<close>; there is none when operands are missing or the limit is exceeded.\<close>

definition stack_op :: "u8 \<Rightarrow> bytes \<Rightarrow> u256 list \<Rightarrow> u256 list option" where
  "stack_op op imm xs =
     (let n = unat op in
      if n < 0x80 then
        (if length xs < 1024 then Some (from_be_bytes (take (n - 0x5F) imm) # xs) else None)
      else if n < 0x90 then
        (if n - 0x80 < length xs \<and> length xs < 1024 then Some (xs ! (n - 0x80) # xs) else None)
      else
        (if n - 0x8F < length xs then Some (xs[0 := xs ! (n - 0x8F), n - 0x8F := xs ! 0]) else None))"

text \<open>The frame has ended with the result \<open>r\<close>, with stack, memory and host as they were.\<close>

definition stopped :: "instruction_result \<Rightarrow> 'h instruction_context \<Rightarrow> 'h instruction_context \<Rightarrow> bool" where
  "stopped r c c' \<longleftrightarrow> \<not> is_not_end (i_bytecode c')
     \<and> (\<exists>g. eb_action (i_bytecode c') = Some (ReturnAction \<lparr>ir_result = r, ir_output = [], ir_gas = g\<rparr>))
     \<and> i_stack c' = i_stack c \<and> i_memory c' = i_memory c \<and> i_host c' = i_host c"

lemma stopped_halt: "stopped r c (halt r (entered g c))" "stopped OutOfGas c (halt_oog (entered g c))"
  by (simp_all add: stopped_def halt_oog_def halt_def interp_set_action_def set_action_def new_halt_def is_not_end_def)

definition stack_rows :: "(u8 \<times> 'h instr \<times> u64) list" where
  "stack_rows = map (\<lambda>n. (0x5F + of_nat n, push_instr n, 3)) [1..<33]
     @ map (\<lambda>n. (0x7F + of_nat n, dup_instr n, 3)) [1..<17]
     @ map (\<lambda>n. (0x8F + of_nat n, swap_instr n, 3)) [1..<17]"

lemma stack_rows_in_table: "take 64 (drop 71 (instruction_rows H keccak)) = stack_rows"
  by (simp add: instruction_rows_def stack_rows_def upt_rec op_const) (simp add: numeral_eq_Suc)

lemma table_stack_row:
  "(op, f, g) \<in> set stack_rows \<Longrightarrow> instruction_table H keccak op = (f, g)"
  by (rule table_row) (metis stack_rows_in_table in_set_takeD in_set_dropD)

lemma table_stack:
  "1 \<le> n \<Longrightarrow> n \<le> 32 \<Longrightarrow> unat op = 0x5F + n \<Longrightarrow> instruction_table H keccak op = (push_instr n, 3)"
  "1 \<le> n \<Longrightarrow> n \<le> 16 \<Longrightarrow> unat op = 0x7F + n \<Longrightarrow> instruction_table H keccak op = (dup_instr n, 3)"
  "1 \<le> n \<Longrightarrow> n \<le> 16 \<Longrightarrow> unat op = 0x8F + n \<Longrightarrow> instruction_table H keccak op = (swap_instr n, 3)"
proof -
  have op: "op = of_nat (unat op)" by simp
  show "1 \<le> n \<Longrightarrow> n \<le> 32 \<Longrightarrow> unat op = 0x5F + n \<Longrightarrow> instruction_table H keccak op = (push_instr n, 3)"
    by (rule table_stack_row, subst op) (auto simp: stack_rows_def)
  show "1 \<le> n \<Longrightarrow> n \<le> 16 \<Longrightarrow> unat op = 0x7F + n \<Longrightarrow> instruction_table H keccak op = (dup_instr n, 3)"
    by (rule table_stack_row, subst op) (auto simp: stack_rows_def)
  show "1 \<le> n \<Longrightarrow> n \<le> 16 \<Longrightarrow> unat op = 0x8F + n \<Longrightarrow> instruction_table H keccak op = (swap_instr n, 3)"
    by (rule table_stack_row, subst op) (auto simp: stack_rows_def)
qed

lemma dup_instr_eq:
  assumes "0 < n" "length (i_stack c) \<le> STACK_LIMIT"
  shows "dup_instr n c = Some
    (if n \<le> length (i_stack c) \<and> length (i_stack c) < STACK_LIMIT
     then c\<lparr>i_stack := rev (rev (i_stack c) ! (n - 1) # rev (i_stack c))\<rparr> else halt StackOverflow c)"
proof -
  obtain s where "stack_dup n (i_stack c) = Some (n \<le> length (i_stack c) \<and> length (i_stack c) < STACK_LIMIT, s)"
      "rev s = (if n \<le> length (i_stack c) \<and> length (i_stack c) < STACK_LIMIT
        then rev (i_stack c) ! (n - 1) # rev (i_stack c) else rev (i_stack c))"
    using vec_stack.dup_cases [of n "i_stack c"] assms by auto
  then show ?thesis by (auto simp: dup_instr_def)
qed

lemma swap_instr_eq:
  assumes "0 < n"
  shows "swap_instr n c = Some
    (if n < length (i_stack c)
     then c\<lparr>i_stack := rev ((rev (i_stack c))[0 := rev (i_stack c) ! n, n := rev (i_stack c) ! 0])\<rparr> else halt StackOverflow c)"
proof -
  obtain s where "stack_swap n (i_stack c) = Some (n < length (i_stack c), s)"
      "rev s = (if n < length (i_stack c) then (rev (i_stack c))[0 := rev (i_stack c) ! n, n := rev (i_stack c) ! 0] else rev (i_stack c))"
    using vec_stack.swap_cases [of n "i_stack c"] assms by auto
  then show ?thesis using assms by (auto simp: swap_instr_def stack_swap_def rev_swap)
qed

lemma push_instr_eq:
  fixes c :: "'h instruction_context"
  defines "code \<equiv> bytes_ref (eb_base (i_bytecode c))" and "p \<equiv> eb_instruction_pointer (i_bytecode c)"
  assumes "0 < n" "n \<le> 32" "p + n \<le> length code" "length (i_stack c) \<le> STACK_LIMIT"
  shows "push_instr n c = Some
    (if length (i_stack c) < STACK_LIMIT
     then advance n (c\<lparr>i_stack := rev (from_be_bytes (take n (drop p code)) # rev (i_stack c))\<rparr>) else halt StackOverflow c)"
proof -
  let ?sl = "take n (drop p code)"
  have "length ?sl = n" using assms(5) by simp
  then have "stack_push_slice ?sl (i_stack c) =
      (if length (i_stack c) < STACK_LIMIT then (True, i_stack c @ [from_be_bytes ?sl]) else (False, i_stack c))"
    using push_slice_single [of ?sl "i_stack c"] assms(3,4) by auto
  moreover have "read_slice n (i_bytecode c) = Some ?sl"
    using assms(5) by (simp add: read_slice_def slice_get_def code_def p_def)
  ultimately show ?thesis
    using assms(5) by (simp add: push_instr_def relative_jump_def advance_def code_def p_def)
qed

text \<open>The immediate bytes of the instruction at the instruction pointer are within the code.\<close>

lemma immediates_in_code:
  assumes "interp_ok hinv c" "eb_opcode (i_bytecode c) = Some op" "op \<noteq> op_STOP" "op \<noteq> 0xEF"
  shows "eb_instruction_pointer (i_bytecode c) + 1 + push_bytes op < length (bytes_ref (eb_base (i_bytecode c)))"
proof -
  let ?code = "bytes_ref (eb_base (i_bytecode c))" and ?p = "eb_instruction_pointer (i_bytecode c)"
  have p: "?p < length ?code" "boundary ?code 0 ?p" "op = ?code ! ?p"
    using assms(1,2) by (auto simp: interp_ok_def pc_ok_def eb_opcode_def)
  have "code_closed ?code"
    using assms(1,4) p(3) by (cases "eb_base (i_bytecode c)") (auto simp: interp_ok_def pc_ok_def)
  then have "next_pc ?code ?p < length ?code" using p assms(3) by (auto simp: code_closed_def)
  then show ?thesis using p(3) by (simp add: next_pc_def)
qed

definition immediate_bytes :: "u8 \<Rightarrow> nat" where
  "immediate_bytes op = (if op < 0x80 then unat op - 0x5F else 0)"

lemma stack_instr_result:
  assumes "length (i_stack c) \<le> 1024" "0x60 \<le> unat op" "unat op < 0xA0"
    and "eb_instruction_pointer (i_bytecode c) + immediate_bytes op \<le> length (bytes_ref (eb_base (i_bytecode c)))"
  shows "\<exists>f. instruction_table H keccak op = (f, 3)
    \<and> f c = Some (case stack_op op (drop (eb_instruction_pointer (i_bytecode c)) (bytes_ref (eb_base (i_bytecode c)))) (rev (i_stack c)) of
        None \<Rightarrow> halt StackOverflow c | Some xs \<Rightarrow> advance (immediate_bytes op) (c\<lparr>i_stack := rev xs\<rparr>))"
proof -
  have op: "op < 0x80 \<longleftrightarrow> unat op < 0x80" by (simp add: word_less_nat_alt)
  have lim: "STACK_LIMIT = 1024" by (simp add: STACK_LIMIT_def)
  consider "unat op < 0x80" | "0x80 \<le> unat op" "unat op < 0x90" | "0x90 \<le> unat op" by linarith
  then show ?thesis
  proof cases
    case 1
    then show ?thesis
      using table_stack(1) [of "unat op - 0x5F" op H keccak] push_instr_eq [of "unat op - 0x5F" c] assms op
      by (simp add: stack_op_def immediate_bytes_def lim Let_def)
  next
    case 2
    then have "unat op - 0x7F \<le> k \<longleftrightarrow> unat op - 0x80 < k" "unat op - 0x7F - 1 = unat op - 0x80" for k by auto
    with 2 show ?thesis
      using table_stack(2) [of "unat op - 0x7F" op H keccak] dup_instr_eq [of "unat op - 0x7F" c] assms op
      by (simp add: stack_op_def immediate_bytes_def lim Let_def)
  next
    case 3
    then show ?thesis
      using table_stack(3) [of "unat op - 0x8F" op H keccak] swap_instr_eq [of "unat op - 0x8F" c] assms op
      by (simp add: stack_op_def immediate_bytes_def Let_def)
  qed
qed

text \<open>C30. The stack instructions \<open>PUSH1\<close> to \<open>PUSH32\<close>, \<open>DUP1\<close> to \<open>DUP16\<close> and \<open>SWAP1\<close> to \<open>SWAP16\<close>, fetched through
  the instruction table, do what their opcodes say: with the stack read from its top, a push puts the
  big-endian number of exactly its immediate bytes on top, \<open>DUPn\<close> the \<open>n\<close>-th element, and \<open>SWAPn\<close> exchanges the
  top with the element \<open>n\<close> below it and moves no other. The instruction costs 3 gas, the instruction pointer
  moves behind the immediate bytes, and nothing else of the interpreter and the host changes. When operands
  are missing or the stack is full the frame ends with \<open>StackOverflow\<close>, without the gas with \<open>OutOfGas\<close>, and
  the stack is as it was.\<close>
theorem stack_instructions:
  assumes "interp_ok hinv c" "eb_opcode (i_bytecode c) = Some op" "0x60 \<le> op" "op < 0xA0"
  shows "\<exists>c'. step H keccak c = Some c'
    \<and> (if i_remaining c < 3 then stopped OutOfGas c c'
       else case stack_op op (drop (eb_instruction_pointer (i_bytecode c) + 1) (bytes_ref (eb_base (i_bytecode c))))
              (rev (i_stack c)) of
              None \<Rightarrow> stopped StackOverflow c c'
            | Some xs \<Rightarrow> c' = c\<lparr>i_stack := rev xs, i_gas := (i_gas c)\<lparr>g_remaining := i_remaining c - 3\<rparr>,
                i_bytecode := (i_bytecode c)\<lparr>eb_instruction_pointer :=
                  eb_instruction_pointer (i_bytecode c) + 1 + (if op < 0x80 then unat op - 0x5F else 0)\<rparr>\<rparr>)"
proof -
  let ?p = "eb_instruction_pointer (i_bytecode c)" and ?code = "bytes_ref (eb_base (i_bytecode c))" and ?e = "entered 3 c"
  have op: "0x60 \<le> unat op" "unat op < 0xA0" "op \<noteq> op_STOP" "op \<noteq> 0xEF" "immediate_bytes op = push_bytes op"
    using assms(3,4)
    by (auto simp: word_le_nat_alt word_less_nat_alt op_const immediate_bytes_def push_bytes_def is_push_def)
  have "length (i_stack ?e) \<le> 1024" using assms(1) by (simp add: interp_ok_def STACK_LIMIT_def)
  moreover have "eb_instruction_pointer (i_bytecode ?e) + immediate_bytes op \<le> length (bytes_ref (eb_base (i_bytecode ?e)))"
    using immediates_in_code [OF assms(1,2) op(3,4)] op(5) by simp
  ultimately obtain f where f: "instruction_table H keccak op = (f, 3)"
      "f ?e = Some (case stack_op op (drop (?p + 1) ?code) (rev (i_stack c)) of
        None \<Rightarrow> halt StackOverflow ?e | Some xs \<Rightarrow> advance (immediate_bytes op) (?e\<lparr>i_stack := rev xs\<rparr>))"
    using stack_instr_result [of ?e op H keccak] op(1,2) by auto
  show ?thesis
    using step_eq [OF assms(2) f(1)] f(2)
    by (cases "i_remaining c < 3"; cases "stack_op op (drop (?p + 1) ?code) (rev (i_stack c))")
      (simp_all add: stopped_halt, simp add: advance_def entered_def immediate_bytes_def)
qed

theorem stack_instructions_witness:
  "interp_ok (ctx_inv (\<lambda>_. True)) sample_interp
   \<and> (\<exists>c'. step (context_host (empty_db (\<lambda>_. 0))) (\<lambda>_. 0) sample_interp = Some c' \<and> i_stack c' = [1] \<and> i_remaining c' = 97)"
proof -
  have s: "eb_opcode (i_bytecode sample_interp) = Some 0x60" "i_remaining sample_interp = 100" "i_stack sample_interp = []"
    "eb_instruction_pointer (i_bytecode sample_interp) = 0" "bytes_ref (eb_base (i_bytecode sample_interp)) = [0x60, 1, 0x60, 2, 1, 0]"
    by (simp_all add: sample_interp_def with_host_def interpreter_new_def gas_new_def stack_new_def new_with_optional_hash_def
        sample_code_def eb_opcode_def)
  have "stack_op 0x60 [1, 0x60, 2, 1, 0] [] = Some [1]" by code_simp
  then show ?thesis
    using stack_instructions [OF sample_interp_ok s(1), of "context_host (empty_db (\<lambda>_. 0))" "\<lambda>_. 0"] s sample_interp_ok by auto
qed

section \<open>The gas of a new frame\<close>

text \<open>Properties of what an instruction returns, if it returns, when it asks for a new frame.\<close>

definition on_frame :: "(frame_input \<Rightarrow> 'h instruction_context \<Rightarrow> bool) \<Rightarrow> 'h instruction_context option \<Rightarrow> bool" where
  "on_frame P m \<longleftrightarrow> (\<forall>c f. m = Some c \<longrightarrow> eb_action (i_bytecode c) = Some (NewFrame f) \<longrightarrow> P f c)"

lemma on_frame_halt [simp]:
  "on_frame P (Some (halt r c))" "on_frame P (Some (halt_oog c))" "on_frame P (Some (halt_fatal c))"
  "on_frame P (Some (halt_memory_oog c))" "on_frame P (Some (halt_underflow c))" "on_frame P (Some (halt_not_activated c))"
  by (simp_all add: on_frame_def halt_oog_def halt_fatal_def halt_memory_oog_def halt_underflow_def halt_not_activated_def
      halt_def interp_set_action_def set_action_def new_halt_def)

lemma on_frame_None [simp]: "on_frame P None"
  by (simp add: on_frame_def)

lemma on_frame_bind: "(\<And>x. m = Some x \<Longrightarrow> on_frame P (f x)) \<Longrightarrow> on_frame P (Option.bind m f)"
  by (cases m) simp_all

text \<open>The context \<open>c\<close> belongs to the same frame as \<open>c0\<close> and at least \<open>k\<close> gas less is left in it.\<close>

definition paid :: "nat \<Rightarrow> 'h instruction_context \<Rightarrow> 'h instruction_context \<Rightarrow> bool" where
  "paid k c0 c \<longleftrightarrow> i_runtime_flag c = i_runtime_flag c0 \<and> unat (i_remaining c) + k \<le> unat (i_remaining c0)"

named_theorems paid_rules \<open>how the macros of the instructions keep what was paid\<close>

lemma paid_upd [simp]:
  "paid k c0 (c\<lparr>i_stack := st\<rparr>) = paid k c0 c" "paid k c0 (c\<lparr>i_host := h\<rparr>) = paid k c0 c"
  by (simp_all add: paid_def)

lemma on_frame_popn [paid_rules]:
  assumes "paid k c0 c"
    and "\<And>c'. n \<le> length (i_stack c) \<Longrightarrow> paid k c0 c' \<Longrightarrow> on_frame P (f (take n (rev (i_stack c))) c')"
  shows "on_frame P (popn n c f)"
  using assms by (simp add: popn_def stack_popn_eq)

lemma on_frame_charge:
  assumes "paid k c0 c"
    and "\<And>c'. paid (k + unat cost) c0 c' \<Longrightarrow> unat (i_remaining c') + unat cost = unat (i_remaining c) \<Longrightarrow> on_frame P (f c')"
  shows "on_frame P (charge cost c f)"
proof (cases "cost \<le> i_remaining c")
  case True
  then have "unat (i_remaining c - cost) + unat cost = unat (i_remaining c)"
    by (simp add: unat_minus_le word_le_nat_alt)
  then show ?thesis using assms True by (simp add: charge_def record_cost_def checked_sub_def paid_def)
qed (simp add: charge_def record_cost_def checked_sub_def)

lemma on_frame_resize [paid_rules]:
  assumes "paid k c0 c" "\<And>c'. paid k c0 c' \<Longrightarrow> on_frame P (f c')"
  shows "on_frame P (resize_memory_m offset len c f)"
  unfolding resize_memory_m_def
proof (rule on_frame_bind, clarsimp simp: Let_def)
  fix g m assume "resize_memory (i_gas c) (i_memory c) offset len = Some (True, g, m)"
  then have "g_remaining g \<le> i_remaining c"
    by (auto simp: resize_memory_def resize_memory_cold_def record_cost_def checked_sub_def Let_def bind_eq_Some_conv
        word_sub_le split: if_splits prod.splits)
  then have "paid k c0 (c\<lparr>i_gas := g, i_memory := m\<rparr>)" using assms(1) by (simp add: paid_def word_le_nat_alt)
  then show "on_frame P (f (c\<lparr>i_gas := g, i_memory := m\<rparr>))" by (rule assms(2))
qed

lemma on_frame_usize [paid_rules]:
  "(\<And>x. on_frame P (f x)) \<Longrightarrow> on_frame P (as_usize_or_fail v c f)"
  by (simp add: as_usize_or_fail_def as_usize_or_fail_with_def split: option.split)

lemma on_frame_range [paid_rules]:
  "paid k c0 c \<Longrightarrow> (\<And>r c'. paid k c0 c' \<Longrightarrow> on_frame P (f r c')) \<Longrightarrow> on_frame P (resize_memory_range offset len c f)"
  unfolding resize_memory_range_def by (auto intro!: paid_rules)

lemma on_frame_ranges:
  assumes "paid k c0 c" "\<And>r s c'. paid k c0 c' \<Longrightarrow> on_frame P (f r s c')"
  shows "on_frame P (get_memory_input_and_out_ranges c f)"
  unfolding get_memory_input_and_out_ranges_def Let_def
  by (rule on_frame_popn [OF assms(1)], rule on_frame_range, assumption, rule on_frame_range, assumption, rule assms(2))

text \<open>What may be passed on of \<open>g\<close> gas: from Tangerine Whistle on, all but one 64th part.\<close>

definition all_but_64th :: "spec_id \<Rightarrow> nat \<Rightarrow> nat" where
  "all_but_64th sp g = (if is_enabled_in sp TANGERINE then g - g div 64 else g)"

lemma unat_63_of_64: "unat (remaining_63_of_64_parts g) = unat (g_remaining g) - unat (g_remaining g) div 64"
  by (simp add: remaining_63_of_64_parts_def unat_sub_if_size unat_div_distrib)

lemma call_static_gas_transfer: "(if transfers then 9000 else 0) \<le> unat (calc_call_static_gas spec transfers)"
  by (simp add: calc_call_static_gas_def gas_const Let_def)

text \<open>The gas \<open>gl\<close> that a call takes from the caller's, which then has what is left in \<open>c'\<close>.\<close>

definition taken :: "spec_id \<Rightarrow> u64 \<Rightarrow> u64 \<Rightarrow> 'h instruction_context \<Rightarrow> bool" where
  "taken sp lim gl c' \<longleftrightarrow>
     unat gl = (if is_enabled_in sp TANGERINE
                then min (unat lim) (all_but_64th sp (unat gl + unat (i_remaining c'))) else unat lim)"

lemma on_frame_load:
  assumes "paid k c0 c"
    and "\<And>gl b x c'. paid (k + (if transfers then 9000 else 0) + unat gl) c0 c' \<Longrightarrow> taken (i_spec c0) lim gl c'
      \<Longrightarrow> on_frame P (f (if transfers then saturating_add gl gas_CALL_STIPEND else gl) b x c')"
  shows "on_frame P (load_acc_and_calc_gas H to transfers create_empty lim c f)"
proof -
  let ?v = "if transfers then 9000 else 0 :: nat"
  have last: "on_frame P (let gl = (if is_enabled_in (i_spec c2) TANGERINE then min (remaining_63_of_64_parts (i_gas c2)) lim else lim)
      in charge gl c2 (f (if transfers then saturating_add gl gas_CALL_STIPEND else gl) b x))"
    if "paid (k + ?v) c0 c2" for c2 b x
  proof -
    let ?gl = "if is_enabled_in (i_spec c2) TANGERINE then min (remaining_63_of_64_parts (i_gas c2)) lim else lim"
    have sp: "i_spec c2 = i_spec c0" using that by (simp add: paid_def)
    show ?thesis
      unfolding Let_def
    proof (rule on_frame_charge [OF that])
      fix c3 assume c3: "paid (k + ?v + unat ?gl) c0 c3" "unat (i_remaining c3) + unat ?gl = unat (i_remaining c2)"
      have "unat ?gl = (if is_enabled_in (i_spec c0) TANGERINE then min (unat lim) (unat (i_remaining c2) - unat (i_remaining c2) div 64) else unat lim)"
        by (simp add: sp min_def word_le_nat_alt unat_63_of_64)
      moreover have "unat ?gl + unat (i_remaining c3) = unat (i_remaining c2)" using c3(2) by simp
      ultimately have "taken (i_spec c0) lim ?gl c3"
        unfolding taken_def all_but_64th_def
        by (cases "is_enabled_in (i_spec c0) TANGERINE") (simp_all only: if_True if_False simp_thms)
      then show "on_frame P (f (if transfers then saturating_add ?gl gas_CALL_STIPEND else ?gl) b x c3)"
        using c3(1) by (rule assms(2) [rotated])
    qed
  qed
  have less: "paid (k + ?v) c0 c2" if "paid (k + unat (calc_call_static_gas (i_spec c) transfers) + n) c0 c2" for c2 n
    using that call_static_gas_transfer [of transfers "i_spec c"] by (auto simp: paid_def)
  show ?thesis
    unfolding load_acc_and_calc_gas_def load_account_delegated_handle_error_def Let_def
    by (rule on_frame_charge [OF assms(1)], rule on_frame_bind)
      (auto intro!: on_frame_charge last [unfolded Let_def] less split: sum.split load_error.split prod.split)
qed

lemma on_frame_new_call:
  "P (FrameCall \<lparr>ci_input = SharedBuffer (fst input) (snd input), ci_return_memory_offset = ret,
        ci_gas_limit = gas_limit, ci_bytecode_address = code_address,
        ci_known_bytecode = Some (hash, code), ci_target_address = target, ci_caller = sender,
        ci_value = val, ci_scheme = scheme, ci_is_static = is_static\<rparr>)
      (interp_set_action (NewFrame (FrameCall \<lparr>ci_input = SharedBuffer (fst input) (snd input), ci_return_memory_offset = ret,
        ci_gas_limit = gas_limit, ci_bytecode_address = code_address,
        ci_known_bytecode = Some (hash, code), ci_target_address = target, ci_caller = sender,
        ci_value = val, ci_scheme = scheme, ci_is_static = is_static\<rparr>)) c)
   \<Longrightarrow> on_frame P (new_frame_call input ret gas_limit code_address hash code target sender val scheme is_static c)"
  by (simp add: on_frame_def new_frame_call_def interp_set_action_def set_action_def)

text \<open>The gas that a call asks for, its first operand, as a 64-bit number.\<close>

definition gas_asked :: "'h instruction_context \<Rightarrow> nat" where
  "gas_asked c = min (unat (last (i_stack c))) (2 ^ 64 - 1)"

definition forwarded :: "'h instruction_context \<Rightarrow> frame_input \<Rightarrow> 'h instruction_context \<Rightarrow> bool" where
  "forwarded c f c' \<longleftrightarrow> (\<exists>fwd. let g = fwd + unat (i_remaining c') in
     case f of
       FrameEmpty \<Rightarrow> False
     | FrameCall i \<Rightarrow>
         fwd = (if is_enabled_in (i_spec c) TANGERINE then min (gas_asked c) (all_but_64th (i_spec c) g) else gas_asked c)
         \<and> g + (if transfers_value i then 9000 else 0) \<le> unat (i_remaining c)
         \<and> unat (ci_gas_limit i) = fwd + (if transfers_value i then 2300 else 0)
     | FrameCreate i \<Rightarrow>
         fwd = all_but_64th (i_spec c) g \<and> g + 32000 \<le> unat (i_remaining c) \<and> unat (cr_gas_limit i) = fwd)"

lemma unat_u64_saturated: "unat (u64_saturated v) = min (unat v) (2 ^ 64 - 1)"
proof (cases "v < 2 ^ 64")
  case True
  then have "unat v < 2 ^ 64" by (simp add: word_less_nat_alt)
  then show ?thesis using True by (simp add: u64_saturated_def unat_ucast_small)
next
  case False
  then have "2 ^ 64 \<le> unat v" by (simp add: word_less_nat_alt)
  then show ?thesis using False by (simp add: u64_saturated_def unsigned_minus_1_eq_mask mask_eq_exp_minus_1)
qed

lemma forwarded_call:
  assumes "paid (k + (if t then 9000 else 0) + unat gl) c0 c'" "taken (i_spec c0) lim gl c'" "unat lim = gas_asked c0"
    and "transfers_value i \<longleftrightarrow> t" "ci_gas_limit i = (if t then saturating_add gl gas_CALL_STIPEND else gl)"
  shows "forwarded c0 (FrameCall i) (interp_set_action a c')"
proof -
  have r: "i_remaining (interp_set_action a c') = i_remaining c'" by (simp add: interp_set_action_def)
  have "unat (i_remaining c0) < 2 ^ 64" using unsigned_less [of "i_remaining c0", where 'a = nat] by simp
  then have "unat (ci_gas_limit i) = unat gl + (if transfers_value i then 2300 else 0)"
    using assms(1,4,5) by (auto simp: paid_def unat_saturating_add gas_const)
  then show ?thesis
    unfolding forwarded_def r Let_def
    using assms(1-4) by (intro exI [of _ "unat gl"]) (auto simp: paid_def taken_def)
qed

lemma first_operand: "0 < n \<Longrightarrow> n \<le> length xs \<Longrightarrow> rev xs ! 0 = last xs"
  by (cases xs rule: rev_cases) auto

lemma calls_forward:
  assumes "paid k c0 c" "i_stack c = i_stack c0"
  shows "on_frame (forwarded c0) (call_instr H c)" "on_frame (forwarded c0) (call_code_instr H c)"
    "on_frame (forwarded c0) (delegate_call_instr H c)" "on_frame (forwarded c0) (static_call_instr H c)"
proof -
  have lim: "unat (u64_saturated (rev (i_stack c) ! 0)) = gas_asked c0" if "2 \<le> length (i_stack c)"
    using first_operand [of 2 "i_stack c"] that by (simp add: unat_u64_saturated gas_asked_def assms(2))
  have pos: "x \<noteq> 0 \<longleftrightarrow> 0 < x" for x :: u256 by (simp add: word_neq_0_conv)
  show "on_frame (forwarded c0) (call_instr H c)" "on_frame (forwarded c0) (call_code_instr H c)"
    unfolding instr_defs Let_def using assms(1)
    by (auto elim!: on_frame_popn on_frame_ranges on_frame_load forwarded_call intro!: on_frame_new_call
        simp: lim transfers_value_def pos)
  show "on_frame (forwarded c0) (delegate_call_instr H c)" "on_frame (forwarded c0) (static_call_instr H c)"
    unfolding instr_defs Let_def check_spec_def using assms(1)
    by (auto elim!: on_frame_popn on_frame_ranges on_frame_load forwarded_call intro!: on_frame_new_call
        simp: lim transfers_value_def)
qed

lemma create_finish_forwards:
  assumes "paid (k + 32000) c0 c"
  shows "on_frame (forwarded c0) (create_finish scheme val code c)"
  unfolding create_finish_def Let_def
proof (rule on_frame_charge [OF assms])
  let ?gl = "if is_enabled_in (i_spec c) TANGERINE then i_remaining c - i_remaining c div 64 else i_remaining c"
  fix c' assume c': "paid (k + 32000 + unat ?gl) c0 c'" "unat (i_remaining c') + unat ?gl = unat (i_remaining c)"
  have "i_spec c = i_spec c0" using assms by (simp add: paid_def)
  then have "unat ?gl = all_but_64th (i_spec c0) (unat (i_remaining c))"
    using unat_63_of_64 [of "i_gas c"] by (simp add: all_but_64th_def remaining_63_of_64_parts_def)
  moreover have "unat (i_remaining c) = unat ?gl + unat (i_remaining c')" using c'(2) by simp
  ultimately have "unat ?gl = all_but_64th (i_spec c0) (unat ?gl + unat (i_remaining c'))" by (simp only:)
  moreover have "unat ?gl + unat (i_remaining c') + 32000 \<le> unat (i_remaining c0)" using c'(1) by (simp add: paid_def)
  ultimately have "forwarded c0 (FrameCreate \<lparr>cr_caller = i_target c', cr_scheme = scheme, cr_value = val, cr_init_code = code,
      cr_gas_limit = ?gl\<rparr>) c''" if "i_remaining c'' = i_remaining c'" for c''
    unfolding forwarded_def Let_def using that by (intro exI [of _ "unat ?gl"]) (simp only: frame_input.case create_inputs.simps simp_thms)
  then show "on_frame (forwarded c0) (Some (interp_set_action (NewFrame (FrameCreate
      \<lparr>cr_caller = i_target c', cr_scheme = scheme, cr_value = val, cr_init_code = code, cr_gas_limit = ?gl\<rparr>)) c'))"
    by (simp add: on_frame_def interp_set_action_def set_action_def)
qed

lemma create2_cost_least: "create2_cost len = Some g \<Longrightarrow> 32000 \<le> unat g"
  by (auto simp: create2_cost_def checked_add_def gas_const bind_eq_Some_conv unat_word_ariths split: if_splits)

lemma paid_less: "paid k c0 c \<Longrightarrow> n \<le> k \<Longrightarrow> paid n c0 c"
  by (simp add: paid_def)

lemma create_forwards:
  assumes "paid k c0 c"
  shows "on_frame (forwarded c0) (create_instr H is_create2 c)"
proof -
  have create: "on_frame (forwarded c0) (create_finish s val code c1)" if "paid (n + unat g) c0 c1" "32000 \<le> unat g" for s val code c1 n g
    by (rule create_finish_forwards [of 0], rule paid_less [OF that(1)]) (use that(2) in simp)
  have "on_frame (forwarded c0) (gas_or_fail (create2_cost len) c1 (create_finish s val code))" if "paid n c0 c1" for len s val code c1 n
    unfolding gas_or_fail_def
    by (auto intro!: on_frame_charge [OF that] create dest: create2_cost_least split: option.split)
  moreover have "on_frame (forwarded c0) (create_finish s val code c1)" if "paid (n + unat gas_CREATE) c0 c1" for s val code c1 n
    using create [OF that] by (simp add: gas_const)
  ultimately show ?thesis
    unfolding instr_defs require_non_staticcall_def check_spec_def Let_def using assms
    by (auto intro!: paid_rules on_frame_bind on_frame_charge)
qed

lemma table_frames:
  "instruction_table H keccak op_CALL = (call_instr H, 0)" "instruction_table H keccak op_CALLCODE = (call_code_instr H, 0)"
  "instruction_table H keccak op_DELEGATECALL = (delegate_call_instr H, 0)"
  "instruction_table H keccak op_STATICCALL = (static_call_instr H, 0)"
  "instruction_table H keccak op_CREATE = (create_instr H False, 0)" "instruction_table H keccak op_CREATE2 = (create_instr H True, 0)"
  by (rule table_row, simp add: instruction_rows_def)+

text \<open>C33. Whenever one of the instructions \<open>CALL\<close>, \<open>CALLCODE\<close>, \<open>DELEGATECALL\<close>, \<open>STATICCALL\<close>, \<open>CREATE\<close> and \<open>CREATE2\<close>
  asks for a new frame, on any host: let \<open>g\<close> be the gas that is there once memory, access and transfer are paid
  for. A call takes what it asks for from \<open>g\<close>, but from Tangerine Whistle on at most all but one 64th part, and a
  creation takes all but one 64th part (before, everything); the rest stays with the caller. The new frame
  gets exactly what was taken, and a call that transfers value the stipend of 2300 on top, for which the
  caller has paid at least 9000; a creation has cost at least 32000. No step of this overflows.\<close>
theorem frame_gas_forwarded:
  assumes "eb_opcode (i_bytecode c) = Some op"
    and "op \<in> {op_CALL, op_CALLCODE, op_DELEGATECALL, op_STATICCALL, op_CREATE, op_CREATE2}"
    and "step H keccak c = Some c'" "eb_action (i_bytecode c') = Some (NewFrame f)"
  shows "\<exists>fwd. let g = fwd + unat (i_remaining c') in
     case f of
       FrameEmpty \<Rightarrow> False
     | FrameCall i \<Rightarrow>
         fwd = (if is_enabled_in (i_spec c) TANGERINE then min (gas_asked c) (g - g div 64) else gas_asked c)
         \<and> g + (if transfers_value i then 9000 else 0) \<le> unat (i_remaining c)
         \<and> unat (ci_gas_limit i) = fwd + (if transfers_value i then 2300 else 0)
     | FrameCreate i \<Rightarrow>
         fwd = (if is_enabled_in (i_spec c) TANGERINE then g - g div 64 else g)
         \<and> g + 32000 \<le> unat (i_remaining c) \<and> unat (cr_gas_limit i) = fwd"
proof -
  have p: "paid 0 c (entered 0 c)" by (simp add: paid_def)
  have "on_frame (forwarded c) (step H keccak c)"
    using assms(2) step_eq [OF assms(1)] table_frames [of H keccak] calls_forward [OF p, of H] create_forwards [OF p, of H]
    by auto
  then have "forwarded c f c'" using assms(3,4) by (simp add: on_frame_def)
  then show ?thesis by (cases f) (auto simp: forwarded_def all_but_64th_def Let_def)
qed

text \<open>A contract that sends one wei to the account 5 and offers it 1000 gas.\<close>

definition sample_caller :: "(unit, nat) ctx instruction_context" where
  "sample_caller =
     \<lparr>i_bytecode = new_with_optional_hash (LegacyAnalyzed
        \<lparr>la_bytecode = [op_CALL, op_STOP], la_original_len = 2, la_jump_table = \<lparr>jt_len = 2, jt_table = [0]\<rparr>\<rparr>) None,
      i_gas = gas_new 100000, i_stack = [0, 0, 0, 0, 1, 5, 1000], i_return_data = [], i_memory = mem_new_with_buffer [],
      i_input = \<lparr>in_target_address = 5, in_bytecode_address = None, in_caller_address = 5, in_input = CallBytes [], in_call_value = 0\<rparr>,
      i_runtime_flag = \<lparr>rf_is_static = False, rf_spec_id = CANCUN\<rparr>, i_host = sample_ctx\<rparr>"

lemma sample_load:
  "\<exists>h l. h_load_account_info_skip_cold_load (context_host (empty_db (\<lambda>_. 0))) sample_ctx 5 True s = Some (Inr l, h)
    \<and> \<not> ail_is_cold l \<and> ail_is_empty l"
  by (simp add: context_host_def ctx_load_account_info_def sample_ctx_def load_account_mut_optional_code_def Let_def
      journal_inner_new_def account_from_info_def is_cold_transaction_id_def flag_contains_def flag_defs finish_load_def ctx_map_err_def
      account_info_default_def state_clear_aware_is_empty_def is_enabled_in_def info_is_empty_def account_is_empty_def
      is_empty_code_hash_def)

lemma charge_eq:
  "charge cost c k = (if cost \<le> i_remaining c
     then k (c\<lparr>i_gas := (i_gas c)\<lparr>g_remaining := i_remaining c - cost\<rparr>\<rparr>) else Some (halt_oog c))"
  by (simp add: charge_def record_cost_def checked_sub_def)

lemma sample_caller_op: "eb_opcode (i_bytecode sample_caller) = Some op_CALL"
  by (simp add: sample_caller_def eb_opcode_def new_with_optional_hash_def)

lemma sample_caller_step:
  "\<exists>c' i. step (context_host (empty_db (\<lambda>_. 0))) (\<lambda>_. 0) sample_caller = Some c'
     \<and> eb_action (i_bytecode c') = Some (NewFrame (FrameCall i)) \<and> transfers_value i"
proof -
  obtain h l where "h_load_account_info_skip_cold_load (context_host (empty_db (\<lambda>_. 0))) sample_ctx 5 True False = Some (Inr l, h)"
      "\<not> ail_is_cold l" "ail_is_empty l"
    using sample_load by blast
  moreover have "into_address 5 = 5" "as_usize_checked 0 = Some 0" by code_simp+
  ultimately show ?thesis
    unfolding step_eq [OF sample_caller_op table_frames(1)]
    by (simp add: instr_defs popn_def stack_popn_eq Let_def sample_caller_def entered_def advance_def get_memory_input_and_out_ranges_def
        resize_memory_range_def as_usize_or_fail_def as_usize_or_fail_with_def load_acc_and_calc_gas_def charge_eq
        calc_call_static_gas_def gas_const gas_new_def new_account_cost_def u64_saturated_def load_account_delegated_handle_error_def
        helper_load_account_delegated_def is_enabled_in_def remaining_63_of_64_parts_def)
      (simp add: new_frame_call_def interp_set_action_def set_action_def transfers_value_def)
qed

theorem frame_gas_forwarded_witness:
  "\<exists>c' i fwd. step (context_host (empty_db (\<lambda>_. 0))) (\<lambda>_. 0) sample_caller = Some c'
     \<and> eb_action (i_bytecode c') = Some (NewFrame (FrameCall i)) \<and> unat (ci_gas_limit i) = fwd + 2300 \<and> fwd \<le> 1000
     \<and> fwd + unat (i_remaining c') + 9000 \<le> 100000"
proof -
  obtain c' i where c': "step (context_host (empty_db (\<lambda>_. 0))) (\<lambda>_. 0) sample_caller = Some c'"
      "eb_action (i_bytecode c') = Some (NewFrame (FrameCall i))" "transfers_value i"
    using sample_caller_step by blast
  have "is_enabled_in (i_spec sample_caller) TANGERINE" "gas_asked sample_caller = 1000" "unat (i_remaining sample_caller) = 100000"
    by (simp_all add: sample_caller_def gas_asked_def gas_new_def is_enabled_in_def)
  with frame_gas_forwarded [OF sample_caller_op _ c'(1,2)] c' show ?thesis by (auto simp: Let_def)
qed

end
