(* ===== verification/Spec2Isabelle.thy ===== *)
theory Spec2Isabelle
  imports Gas Warm Transact Instr_Spec
begin

text \<open>
  A verification library for revm, an implementation of the Ethereum virtual machine in Rust. All paths below
  are relative to \<open>src/crates\<close>.

  \<^bold>\<open>The program.\<close> A transaction enters through \<open>transact\<close> (\<open>handler/src/api.rs\<close>). The handler validates it,
  charges the caller, warms addresses, applies delegations and builds the first call frame. A loop runs the
  frame on top of a stack of frames: the interpreter executes instructions until it returns or asks for a new
  frame, which is a call, a creation or a precompiled contract. Every change of the state is written to a
  journal, so that a failed frame can be reverted. At the end gas is refunded, the beneficiary is paid and the
  result and the state are returned; after an error the journal is discarded.

  \<^bold>\<open>Conventions.\<close> Machine integers are words of their width. Plain arithmetic wraps around, as in a release
  build; checked and saturating operations are written out in \<open>Prelude\<close>. A panic, an access out of bounds and
  other undefined behaviour is \<open>None\<close>; an error of the program is a value of a sum type, returned with the
  state it leaves. Loops that may not end are \<open>partial_function (option)\<close>, so that termination is a theorem.
  The hash function, the addresses of new contracts, the cryptographic library behind the trait \<open>Crypto\<close> (whose
  BLAKE2b compression has a default in the sources, \<open>crypto_blake2_compress\<close>) and the database are parameters; what is needed of them is stated as the predicate \<open>crypto_ok\<close> and the locale
  \<open>evm_database\<close>.

  \<^bold>\<open>Theories.\<close>

  \<^item> \<open>Prelude\<close>: Rust integers, bytes and slices, outcomes of computations. \<open>Hardfork\<close>: \<open>SpecId\<close>
    (\<open>primitives/src/hardfork.rs\<close>).
  \<^item> \<open>Loads\<close>, \<open>Gas\<close>: the gas schedule and the gas meter (\<open>interpreter/src/gas*\<close>): memory is paid once per word,
    refunds are never negative and capped, \<open>EXP\<close> is priced by bytes.
  \<^item> \<open>Stack\<close>, \<open>Memory\<close>, \<open>I256\<close>: operand stack, shared memory and signed arithmetic of the interpreter: limb-wise
    pushes, isolation of child memories, reads after writes, signed division.
  \<^item> \<open>Opcode\<close>, \<open>Bytecode\<close>: \<open>bytecode/src\<close>: the opcode table, the analysis of legacy code with its jump table, and
    EIP-7702 delegations.
  \<^item> \<open>Account\<close>, \<open>Warm\<close>, \<open>Journal\<close>: accounts (\<open>state/src\<close>), warm addresses and the journaled state
    (\<open>context/src/journal\<close>, \<open>context/interface/src/journaled_state\<close>). \<open>Rollback\<close> proves once, over a relation of
    accounts, that growing the journal can be undone; \<open>Restore\<close> instantiates it to what an observer of the
    state sees. Its relation \<open>journal_run\<close> lists the operations of a frame; the three that the journal does not
    record fully, and that a revert does not undo, are left out of it and named there.
  \<^item> \<open>Env\<close>, \<open>Tx_Build\<close>: transactions, blocks and configuration, the transaction builder and the price of blob gas
    (\<open>context/src\<close>, \<open>context/interface/src\<close>).
  \<^item> \<open>Host\<close>, \<open>Interp\<close>, \<open>Instr_Pure\<close>, \<open>Instr_Host\<close>, \<open>Exec\<close>: the host interface, the interpreter, every instruction,
    the instruction table and the loop of a frame (\<open>interpreter/src\<close>). \<open>Safety\<close>, \<open>Safety_Host\<close>, \<open>Run\<close>: each instruction
    keeps a well-formed interpreter well-formed, spends gas and has the effect on the stack that the opcode table
    lists, for every host that satisfies the locale \<open>evm_host\<close>. \<open>Instr_Spec\<close>: what pushes, duplications and exchanges
    compute when they are run through the table, and which gas calls and creations pass on to the new frame.
  \<^item> \<open>Database\<close>, \<open>Ctx_Host\<close>: the in-memory databases (\<open>database/src/in_memory_db.rs\<close>) and the host that \<open>Context\<close>
    implements over a database. Reading through the cache is invisible whatever the database behind it returns;
    \<open>evm_database\<close> is a sublocale of \<open>evm_host\<close> and is interpreted by the empty, the
    caching, the wrapping and the benchmark database.
  \<^item> \<open>Frame_Stack\<close>, \<open>Frame\<close>: call frames, their stack, and \<open>run_exec_loop\<close> (\<open>handler/src/frame.rs\<close>, \<open>evm.rs\<close>,
    \<open>handler.rs\<close>). \<open>Frame_Safety\<close>, \<open>Frame_Loop\<close>: the invariant of the loop; its measure is the gas of all frames.
  \<^item> \<open>Precompile\<close>, \<open>Blake2\<close>, \<open>Precompile_Fns\<close>, \<open>Precompile_Safety\<close>: the precompiled contracts (\<open>precompile/src\<close>) with
    their gas, parsing and errors, and the vectorised BLAKE2b compression. The gas of modular exponentiation is
    compared with the formulas of the EIPs over unbounded numbers.
  \<^item> \<open>Machine\<close>: typed steps, termination of both loops, read-only static calls.
  \<^item> \<open>Handler\<close>: the handler of a transaction, the interface functions and system calls (\<open>handler/src\<close>). \<open>Fees\<close>: the
    arithmetic of fees. \<open>Transact\<close>: every transaction returns and leaves a machine that is ready for the next one,
    and a rejected transaction leaves no trace.

  \<^bold>\<open>Bounds.\<close> Theorems about frames and transactions assume a gas limit below \<open>2\<^sup>5\<^sup>5 - 1\<close> and input data shorter than
  \<open>2\<^sup>6\<^sup>2\<close> bytes. Memory is paid for, so the bound on gas keeps every buffer below the \<open>2\<^sup>6\<^sup>3\<close> bytes that Rust can
  allocate; block gas limits are many orders of magnitude smaller. The journal theorems are about
  the first transaction after the journal was created or finalised (transaction id 0), as with \<open>transact\<close>; loads
  from the database set the id 0 also in later transactions of one journal, as with \<open>transact_many\<close>, where
  accounts then count as cold again. \<open>transact_returns\<close> assumes that the balance check is
  enabled: without it the fee may exceed the range of a word, and the source panics.

  \<^bold>\<open>Not modelled.\<close> The database states, bundles and transitions (\<open>database/src/states\<close>) and block access lists, which
  sit behind the database interface; the key-value storage backends, which are file I/O; the Optimism variant of
  the handler; inspectors; test types, command-line tools and serialisation. Borrow checks of \<open>RefCell\<close>, capacities
  of vectors, the raw pointers of the bytecode analysis (which are offsets that are compared with the length) and the optional memory limit are left out.
\<close>

end
